(* ===== verification/Prelude.thy ===== *)
theory Prelude
  imports
    Main
    "HOL-Library.Word"
    "HOL-Library.Char_ord"
    "HOL-Library.List_Lexorder"
    "HOL-Library.Sublist"
begin

text \<open>
  What every component theory shares: the error values of the domain crate and its
  \<open>Result\<close> type with the \<open>?\<close> operator, Rust's \<open>str\<close> operations on UTF-8 bytes, the ordered
  collections \<open>BTreeMap\<close> and \<open>BTreeSet\<close> as strictly ascending lists, fixed-width integer
  arithmetic, instants, and two interfaces (locales): a parser with its printer, and a
  transition system with an invariant.
\<close>

section \<open>Collections of facts\<close>

named_theorems result_simps \<open>rewriting of \<open>Result\<close> pipelines\<close>
named_theorems order_facts \<open>facts on ascending lists, for the ordered collections\<close>

section \<open>Errors and results\<close>

text \<open>
  \<open>aidash_domain::Error\<close> (crates/aidash-domain/src/lib.rs). The text is the message of the
  source, with the parts that \<open>format!\<close> interpolates appended.
\<close>

datatype error =
    Invalid string
  | Conflict string
  | UnsupportedState string

type_synonym 'a result = "error + 'a"

text \<open>\<open>Result::and_then\<close>, which is also what the \<open>?\<close> operator does.\<close>

definition and_then :: "'e + 'a \<Rightarrow> ('a \<Rightarrow> 'e + 'b) \<Rightarrow> 'e + 'b" where
  "and_then r f = (case r of Inl e \<Rightarrow> Inl e | Inr x \<Rightarrow> f x)"

definition is_ok :: "'e + 'a \<Rightarrow> bool" where
  "is_ok r = (case r of Inl _ \<Rightarrow> False | Inr _ \<Rightarrow> True)"

text \<open>\<open>if cond { return Err(e); }\<close>\<close>

definition refuse_if :: "bool \<Rightarrow> 'e \<Rightarrow> 'e + unit" where
  "refuse_if b e = (if b then Inl e else Inr ())"

text \<open>A \<open>for\<close> loop whose body ends in \<open>?\<close>, without and with a mutable accumulator.\<close>

primrec for_each :: "('a \<Rightarrow> 'e + unit) \<Rightarrow> 'a list \<Rightarrow> 'e + unit" where
  "for_each f [] = Inr ()"
| "for_each f (x # xs) = and_then (f x) (\<lambda>_. for_each f xs)"

primrec fold_each :: "('a \<Rightarrow> 's \<Rightarrow> 'e + 's) \<Rightarrow> 'a list \<Rightarrow> 's \<Rightarrow> 'e + 's" where
  "fold_each f [] s = Inr s"
| "fold_each f (x # xs) s = and_then (f x s) (fold_each f xs)"

lemma and_then_simps [simp, result_simps]:
  "and_then (Inl e) f = Inl e"
  "and_then (Inr x) f = f x"
  by (simp_all add: and_then_def)

lemma and_then_Inr_iff [result_simps]:
  "and_then r f = Inr y \<longleftrightarrow> (\<exists>x. r = Inr x \<and> f x = Inr y)"
  by (cases r) auto

lemma and_then_Inl_iff [result_simps]:
  "and_then r f = Inl e \<longleftrightarrow> r = Inl e \<or> (\<exists>x. r = Inr x \<and> f x = Inl e)"
  by (cases r) auto

lemma refuse_if_iff [simp, result_simps]:
  "refuse_if b e = Inr u \<longleftrightarrow> \<not> b"
  "refuse_if b e = Inl e' \<longleftrightarrow> b \<and> e = e'"
  by (auto simp: refuse_if_def)

lemma refuse_if_simps [simp]:
  "refuse_if True e = Inl e"
  "refuse_if False e = Inr ()"
  by (simp_all add: refuse_if_def)

lemma is_ok_simps [simp, result_simps]:
  "is_ok (Inl e) = False"
  "is_ok (Inr x) = True"
  by (simp_all add: is_ok_def)

lemma is_ok_iff: "is_ok r \<longleftrightarrow> (\<exists>x. r = Inr x)"
  by (cases r) auto

lemma is_ok_unit: "is_ok (r :: 'e + unit) \<longleftrightarrow> r = Inr ()"
  by (cases r) auto

lemma for_each_Inr_iff [result_simps]:
  "for_each f xs = Inr u \<longleftrightarrow> (\<forall>x\<in>set xs. f x = Inr ())"
  by (induction xs) (auto simp: and_then_Inr_iff)

lemma for_each_cong [fundef_cong]:
  "xs = ys \<Longrightarrow> (\<And>x. x \<in> set ys \<Longrightarrow> f x = g x) \<Longrightarrow> for_each f xs = for_each g ys"
proof (induction xs arbitrary: ys)
  case (Cons x xs)
  then show ?case by (cases ys) (auto simp: and_then_def split: sum.splits)
qed simp

lemma fold_each_append:
  "fold_each f (xs @ ys) s = and_then (fold_each f xs s) (fold_each f ys)"
proof (induction xs arbitrary: s)
  case (Cons x xs)
  then show ?case by (cases "f x s") simp_all
qed simp

section \<open>Text\<close>

text \<open>
  A Rust \<open>str\<close> is its UTF-8 bytes, so \<open>len\<close> is \<open>length\<close> and \<open>Ord\<close> is the
  lexicographic order on bytes. \<open>utf8_chunks\<close> cuts a string at its character boundaries
  and \<open>chars\<close> gives the code points.
\<close>

definition byte :: "char \<Rightarrow> nat" where
  "byte c = of_char c"

definition utf8_width :: "char \<Rightarrow> nat" where
  "utf8_width c =
     (if byte c < 128 then 1 else if byte c < 224 then 2 else if byte c < 240 then 3 else 4)"

fun utf8_chunks :: "string \<Rightarrow> string list" where
  "utf8_chunks [] = []"
| "utf8_chunks (c # cs) =
     (c # take (utf8_width c - 1) cs) # utf8_chunks (drop (utf8_width c - 1) cs)"

fun code_point :: "string \<Rightarrow> nat" where
  "code_point [a, b] = (byte a mod 32) * 64 + byte b mod 64"
| "code_point [a, b, c] = (byte a mod 16) * 4096 + (byte b mod 64) * 64 + byte c mod 64"
| "code_point [a, b, c, d] =
     (byte a mod 8) * 262144 + (byte b mod 64) * 4096 + (byte c mod 64) * 64 + byte d mod 64"
| "code_point (a # _) = byte a"
| "code_point [] = 0"

definition chars :: "string \<Rightarrow> nat list" where
  "chars s = map code_point (utf8_chunks s)"

text \<open>\<open>char::is_whitespace\<close> (Unicode White\_Space) and \<open>char::is_control\<close> (category Cc).\<close>

definition is_whitespace :: "nat \<Rightarrow> bool" where
  "is_whitespace c \<longleftrightarrow>
     (9 \<le> c \<and> c \<le> 13) \<or> c = 32 \<or> c = 133 \<or> c = 160 \<or> c = 5760 \<or> (8192 \<le> c \<and> c \<le> 8202)
     \<or> c = 8232 \<or> c = 8233 \<or> c = 8239 \<or> c = 8287 \<or> c = 12288"

definition is_control :: "nat \<Rightarrow> bool" where
  "is_control c \<longleftrightarrow> c < 32 \<or> (127 \<le> c \<and> c < 160)"

definition is_ascii_lowercase :: "char \<Rightarrow> bool" where
  "is_ascii_lowercase c \<longleftrightarrow> 97 \<le> byte c \<and> byte c \<le> 122"

definition is_ascii_uppercase :: "char \<Rightarrow> bool" where
  "is_ascii_uppercase c \<longleftrightarrow> 65 \<le> byte c \<and> byte c \<le> 90"

definition is_ascii_digit :: "char \<Rightarrow> bool" where
  "is_ascii_digit c \<longleftrightarrow> 48 \<le> byte c \<and> byte c \<le> 57"

definition is_ascii_alphanumeric :: "char \<Rightarrow> bool" where
  "is_ascii_alphanumeric c \<longleftrightarrow> is_ascii_lowercase c \<or> is_ascii_uppercase c \<or> is_ascii_digit c"

definition to_ascii_lowercase :: "string \<Rightarrow> string" where
  "to_ascii_lowercase s = map (\<lambda>c. if is_ascii_uppercase c then char_of (byte c + 32) else c) s"

definition trim :: "string \<Rightarrow> string" where
  "trim s =
     (let ws = (\<lambda>chunk. is_whitespace (code_point chunk))
      in concat (rev (dropWhile ws (rev (dropWhile ws (utf8_chunks s))))))"

definition strip_prefix :: "string \<Rightarrow> string \<Rightarrow> string option" where
  "strip_prefix p s = (if take (length p) s = p then Some (drop (length p) s) else None)"

definition strip_suffix :: "string \<Rightarrow> string \<Rightarrow> string option" where
  "strip_suffix p s = map_option rev (strip_prefix (rev p) (rev s))"

fun split_once :: "char \<Rightarrow> string \<Rightarrow> (string \<times> string) option" where
  "split_once d [] = None"
| "split_once d (c # cs) =
     (if c = d then Some ([], cs)
      else map_option (\<lambda>(a, b). (c # a, b)) (split_once d cs))"

fun split :: "char \<Rightarrow> string \<Rightarrow> string list" where
  "split d [] = [[]]"
| "split d (c # cs) =
     (if c = d then [] # split d cs
      else (case split d cs of [] \<Rightarrow> [[c]] | p # ps \<Rightarrow> (c # p) # ps))"

lemma strip_prefix_Some_iff [simp]: "strip_prefix p s = Some r \<longleftrightarrow> s = p @ r"
  by (auto simp: strip_prefix_def) (metis append_take_drop_id)

lemma strip_prefix_append [simp]: "strip_prefix p (p @ r) = Some r"
  by simp

lemma strip_prefix_None_iff: "strip_prefix p s = None \<longleftrightarrow> \<not> prefix p s"
  by (auto simp: strip_prefix_def prefix_def) (metis append_take_drop_id)

lemma strip_suffix_Some_iff [simp]: "strip_suffix p s = Some r \<longleftrightarrow> s = r @ p"
  unfolding strip_suffix_def
  by (auto simp: rev_eq_append_conv) (metis rev_append rev_rev_ident)+

lemma split_once_Some_iff:
  "split_once d s = Some (a, b) \<longleftrightarrow> s = a @ d # b \<and> d \<notin> set a"
proof (induction s arbitrary: a)
  case (Cons c cs)
  then show ?case by (cases a) auto
qed simp

lemma chars_ascii: "list_all (\<lambda>c. byte c < 128) s \<Longrightarrow> chars s = map byte s"
  by (induction s) (auto simp: chars_def utf8_width_def)

text \<open>Evaluation of the character tests on text literals.\<close>

lemmas text_eval = chars_ascii byte_def is_whitespace_def is_control_def is_ascii_lowercase_def
  is_ascii_uppercase_def is_ascii_digit_def is_ascii_alphanumeric_def

lemma split_not_Nil [simp]: "split d s \<noteq> []"
  by (induction s) (auto split: list.splits)

lemma split_no_sep: "d \<notin> set s \<Longrightarrow> split d s = [s]"
  by (induction s) auto

lemma split_append_sep: "d \<notin> set a \<Longrightarrow> split d (a @ d # b) = a # split d b"
  by (induction a) auto

section \<open>Ordered collections\<close>

text \<open>
  A \<open>BTreeSet\<close> is the ascending list of its elements and a \<open>BTreeMap\<close> the list of its
  entries by ascending key, the order in which both iterate. \<open>set_ok\<close> and \<open>map_ok\<close> say that
  a list represents one; \<open>set_insert\<close> and \<open>map_insert\<close> keep it so.
\<close>

type_synonym 'a btree_set = "'a list"
type_synonym ('k, 'v) btree_map = "('k \<times> 'v) list"

definition set_ok :: "'a::linorder btree_set \<Rightarrow> bool" where
  "set_ok s \<longleftrightarrow> sorted_wrt (<) s"

definition map_ok :: "('k::linorder, 'v) btree_map \<Rightarrow> bool" where
  "map_ok m \<longleftrightarrow> sorted_wrt (<) (map fst m)"

fun set_insert :: "'a::linorder \<Rightarrow> 'a btree_set \<Rightarrow> 'a btree_set" where
  "set_insert x [] = [x]"
| "set_insert x (y # ys) =
     (if x < y then x # y # ys else if x = y then y # ys else y # set_insert x ys)"

fun map_insert :: "'k::linorder \<Rightarrow> 'v \<Rightarrow> ('k, 'v) btree_map \<Rightarrow> ('k, 'v) btree_map" where
  "map_insert k v [] = [(k, v)]"
| "map_insert k v ((j, w) # m) =
     (if k < j then (k, v) # (j, w) # m
      else if k = j then (k, v) # m
      else (j, w) # map_insert k v m)"

definition set_extend :: "'a::linorder btree_set \<Rightarrow> 'a list \<Rightarrow> 'a btree_set" where
  "set_extend s xs = fold set_insert xs s"

definition is_disjoint :: "'a list \<Rightarrow> 'a list \<Rightarrow> bool" where
  "is_disjoint s t = list_all (\<lambda>x. x \<notin> set t) s"

definition set_difference :: "'a list \<Rightarrow> 'a list \<Rightarrow> 'a list" where
  "set_difference s t = filter (\<lambda>x. x \<notin> set t) s"

definition set_intersection :: "'a list \<Rightarrow> 'a list \<Rightarrow> 'a list" where
  "set_intersection s t = filter (\<lambda>x. x \<in> set t) s"

lemma set_set_insert [simp, order_facts]: "set (set_insert x s) = insert x (set s)"
  by (induction s) auto

lemma set_ok_insert [simp, order_facts]: "set_ok s \<Longrightarrow> set_ok (set_insert x s)"
  unfolding set_ok_def by (induction s) auto

lemma set_ok_Nil [simp, order_facts]: "set_ok []"
  by (simp add: set_ok_def)

lemma length_set_insert: "x \<notin> set s \<Longrightarrow> length (set_insert x s) = Suc (length s)"
  by (induction s) auto

lemma set_set_extend [simp, order_facts]: "set (set_extend s xs) = set s \<union> set xs"
  unfolding set_extend_def by (induction xs arbitrary: s) auto

lemma set_ok_extend [simp, order_facts]: "set_ok s \<Longrightarrow> set_ok (set_extend s xs)"
  unfolding set_extend_def by (induction xs arbitrary: s) auto

lemma set_ok_filter [simp, order_facts]: "set_ok s \<Longrightarrow> set_ok (filter P s)"
  unfolding set_ok_def by (rule sorted_wrt_filter)

lemma set_ok_distinct: "set_ok s \<Longrightarrow> distinct s"
  unfolding set_ok_def by (simp add: strict_sorted_iff)

lemma set_ok_unique: "set_ok s \<Longrightarrow> set_ok t \<Longrightarrow> set s = set t \<Longrightarrow> s = t"
  unfolding set_ok_def by (metis sorted_distinct_set_unique strict_sorted_iff)

lemma is_disjoint_iff [simp]: "is_disjoint s t \<longleftrightarrow> set s \<inter> set t = {}"
  unfolding is_disjoint_def by (auto simp: list_all_iff)

lemma set_set_difference [simp]: "set (set_difference s t) = set s - set t"
  unfolding set_difference_def by auto

lemma set_set_intersection [simp]: "set (set_intersection s t) = set s \<inter> set t"
  unfolding set_intersection_def by auto

lemma map_of_map_insert [simp]: "map_of (map_insert k v m) = (map_of m)(k \<mapsto> v)"
  by (induction m) (auto simp: fun_eq_iff)

lemma keys_map_insert [simp]: "fst ` set (map_insert k v m) = insert k (fst ` set m)"
  by (induction m rule: map_insert.induct) (auto simp: image_iff)

lemma map_ok_insert [simp, order_facts]: "map_ok m \<Longrightarrow> map_ok (map_insert k v m)"
proof (induction k v m rule: map_insert.induct)
  case (2 k v j w m)
  have keys: "x \<in> set (map fst (map_insert k v m)) \<longleftrightarrow> x = k \<or> x \<in> set (map fst m)" for x
    using keys_map_insert[of k v m] by auto
  from 2 show ?case
    by (auto simp: map_ok_def keys simp del: set_map)
qed (simp add: map_ok_def)

lemma map_ok_distinct: "map_ok m \<Longrightarrow> distinct (map fst m)"
  unfolding map_ok_def by (simp add: strict_sorted_iff)

lemma length_map_insert:
  "length (map_insert k v m) \<le> Suc (length m)"
  by (induction m) auto

lemma map_of_in_keys: "map_of m k = Some v \<Longrightarrow> k \<in> fst ` set m"
  by (force dest: map_of_SomeD)

section \<open>Fixed-width integers\<close>

type_synonym u32 = "32 word"
type_synonym u64 = "64 word"

definition checked_add :: "'a::len word \<Rightarrow> 'a word \<Rightarrow> 'a word option" where
  "checked_add a b = (if unat a + unat b < 2 ^ LENGTH('a) then Some (a + b) else None)"

definition saturating_add :: "'a::len word \<Rightarrow> 'a word \<Rightarrow> 'a word" where
  "saturating_add a b = (if unat a + unat b < 2 ^ LENGTH('a) then a + b else - 1)"

lemma unat_checked_add:
  "checked_add a b = Some c \<Longrightarrow> unat c = unat a + unat b"
  by (auto simp: checked_add_def unat_word_ariths split: if_splits)

lemma unat_saturating_add:
  "unat (saturating_add (a :: 'a::len word) b) = min (unat a + unat b) (2 ^ LENGTH('a) - 1)"
  by (auto simp: saturating_add_def unat_word_ariths unsigned_minus_1_eq_mask mask_eq_exp_minus_1)

section \<open>Identifiers and instants\<close>

text \<open>
  A UUID is its 128 bits. A \<open>DateTime\<close> and a \<open>Duration\<close> are whole nanoseconds, and
  \<open>num_seconds\<close> is the number of whole seconds of a duration, truncated towards zero.
\<close>

type_synonym uuid = "128 word"
type_synonym datetime = int
type_synonym duration = int

definition seconds :: "int \<Rightarrow> duration" where
  "seconds n = n * 1000000000"

definition num_seconds :: "duration \<Rightarrow> int" where
  "num_seconds d = (if 0 \<le> d then d div 1000000000 else - ((- d) div 1000000000))"

lemma num_seconds_seconds [simp]: "num_seconds (seconds n) = n"
  by (cases "0 \<le> n") (simp_all add: num_seconds_def seconds_def flip: mult_minus_left)

section \<open>Interfaces\<close>

text \<open>
  A textual form: \<open>parse\<close> accepts exactly what \<open>print\<close> writes for a well-formed value, and
  gives that value back.
\<close>

locale textual =
  fixes parse :: "string \<Rightarrow> error + 'a"
    and print :: "'a \<Rightarrow> string"
    and wf :: "'a \<Rightarrow> bool"
  assumes parse_sound: "parse s = Inr x \<Longrightarrow> wf x \<and> print x = s"
    and parse_complete: "wf x \<Longrightarrow> parse (print x) = Inr x"
begin

lemma print_inj: "wf x \<Longrightarrow> wf y \<Longrightarrow> print x = print y \<Longrightarrow> x = y"
  using parse_complete by (metis Inr_inject)

lemma parse_inj: "parse s = Inr x \<Longrightarrow> parse t = Inr x \<Longrightarrow> s = t"
  using parse_sound by metis

lemma parse_iff: "parse s = Inr x \<longleftrightarrow> wf x \<and> s = print x"
  using parse_sound parse_complete by metis

end

text \<open>
  A transition system with an inductive invariant: what holds initially and is kept by
  every step holds in every reachable state.
\<close>

inductive reaches :: "('s \<Rightarrow> bool) \<Rightarrow> ('s \<Rightarrow> 's \<Rightarrow> bool) \<Rightarrow> 's \<Rightarrow> bool"
  for init step where
  reaches_init: "init s \<Longrightarrow> reaches init step s"
| reaches_step: "reaches init step s \<Longrightarrow> step s t \<Longrightarrow> reaches init step t"

locale invariant_system =
  fixes init :: "'s \<Rightarrow> bool"
    and step :: "'s \<Rightarrow> 's \<Rightarrow> bool"
    and inv :: "'s \<Rightarrow> bool"
  assumes inv_init: "init s \<Longrightarrow> inv s"
    and inv_step: "inv s \<Longrightarrow> step s t \<Longrightarrow> inv t"
begin

lemma reachable_inv: "reaches init step s \<Longrightarrow> inv s"
  by (induction rule: reaches.induct) (auto intro: inv_init inv_step)

lemma steps_inv: "inv s \<Longrightarrow> step\<^sup>*\<^sup>* s t \<Longrightarrow> inv t"
  by (rotate_tac, induction rule: rtranclp_induct) (auto intro: inv_step)

end

end
