(* ===== verification/Json.thy ===== *)
theory Json
  imports Prelude
begin

text \<open>
  JSON values are the \<open>Value\<close> type of the \<open>serde_json\<close> crate, which is not part of the
  repository: the model is polymorphic in the type of values and takes the operations the
  sources call on them as one record. Equality of values is the equality of the type.
  \<open>sample\<close> is a small concrete type of values with its operations, at which witnesses
  instantiate the parameter.
\<close>

record 'v json_ops =
  is_object :: "'v \<Rightarrow> bool"
  is_string :: "'v \<Rightarrow> bool"
  as_str :: "'v \<Rightarrow> string option"
  as_array :: "'v \<Rightarrow> 'v list option"
  pointer :: "'v \<Rightarrow> string \<Rightarrow> 'v option"
  json_field :: "'v \<Rightarrow> string \<Rightarrow> 'v"
  empty_object :: 'v

text \<open>What the sources rely on: \<open>json!({})\<close> is an object.\<close>

definition json_laws :: "'v json_ops \<Rightarrow> bool" where
  "json_laws J \<longleftrightarrow> is_object J (empty_object J)"

datatype sample = SNull | SText string | SList "sample list" | SObject "(string \<times> sample) list"

definition sample_field :: "sample \<Rightarrow> string \<Rightarrow> sample" where
  "sample_field v k =
     (case v of SObject m \<Rightarrow> (case map_of m k of None \<Rightarrow> SNull | Some x \<Rightarrow> x) | _ \<Rightarrow> SNull)"

definition sample_json :: "sample json_ops" where
  "sample_json =
     \<lparr> is_object = (\<lambda>v. case v of SObject _ \<Rightarrow> True | _ \<Rightarrow> False),
       is_string = (\<lambda>v. case v of SText _ \<Rightarrow> True | _ \<Rightarrow> False),
       as_str = (\<lambda>v. case v of SText s \<Rightarrow> Some s | _ \<Rightarrow> None),
       as_array = (\<lambda>v. case v of SList xs \<Rightarrow> Some xs | _ \<Rightarrow> None),
       pointer = (\<lambda>v p. case v of SObject m \<Rightarrow> map_of m (drop 1 p) | _ \<Rightarrow> None),
       json_field = sample_field,
       empty_object = SObject [] \<rparr>"

lemma sample_json_simps [simp]:
  "is_object sample_json (SObject m)"
  "empty_object sample_json = SObject []"
  by (simp_all add: sample_json_def)

lemma sample_json_laws [simp]: "json_laws sample_json"
  by (simp add: json_laws_def)

end
