(* ===== verification/Approvals.thy ===== *)
theory Approvals
  imports Json
begin

text \<open>
  Approvals given in advance (crates/aidash-domain/src/approval\_rules.rs): a person's rules and
  mode, the ceiling the Tenant's policy sets for them, the order in which they decide one approval,
  and the counts that suspend the Auto mode. Approval records are JSON values; the two \<open>serde\_json\<close>
  calls on them that \<open>json_ops\<close> does not have are the parameter \<open>record_ops\<close>.
\<close>

section \<open>Rules and modes\<close>

datatype approval_kind = KToolCall | KSampling | KOutbound | KWebSearch | KPageReading | KGeneration

datatype rule_target = Every | Exact string

fun target_matches :: "rule_target \<Rightarrow> string \<Rightarrow> bool" where
  "target_matches Every target = True"
| "target_matches (Exact exact) target = (exact = target)"

datatype rule_effect = RAllow | RAsk | RDeny

record approval_rule =
  rule_id :: uuid
  rule_kind :: approval_kind
  rule_target :: rule_target
  rule_effect :: rule_effect

datatype approval_mode = Manual | Auto | DontAsk | Bypass

fun policy_requirement :: "approval_mode \<Rightarrow> (string \<times> string) option" where
  "policy_requirement Manual = None"
| "policy_requirement DontAsk = None"
| "policy_requirement Auto = Some (''approval.mode.auto'', ''auto'')"
| "policy_requirement Bypass = Some (''approval.mode.bypass'', ''bypass'')"

datatype tenant_stance = StanceForbidden | StanceDirect | NeedsApproval

record ceiling =
  may_approve :: bool
  mode_allowed :: bool

record standing =
  st_approver :: bool
  st_advance :: bool
  st_mode :: bool

record settings =
  mode :: approval_mode
  rules :: "approval_rule list"
  bypass_accepted :: bool
  auto_available :: bool

definition settings_ceiling :: "settings \<Rightarrow> standing \<Rightarrow> ceiling" where
  "settings_ceiling s standing =
     \<lparr> may_approve = (st_approver standing \<and> st_advance standing),
       mode_allowed = (case mode s of
           Manual \<Rightarrow> True | DontAsk \<Rightarrow> True
         | Auto \<Rightarrow> st_mode standing \<and> auto_available s
         | Bypass \<Rightarrow> st_mode standing \<and> bypass_accepted s) \<rparr>"

datatype block_reason =
    DataExfiltration | Destructive | BeyondRequest | Injected | Boundary | NoRoute

fun block_reason_id :: "block_reason \<Rightarrow> string" where
  "block_reason_id DataExfiltration = ''data_exfiltration''"
| "block_reason_id Destructive = ''destructive''"
| "block_reason_id BeyondRequest = ''beyond_request''"
| "block_reason_id Injected = ''injected''"
| "block_reason_id Boundary = ''boundary''"
| "block_reason_id NoRoute = ''unavailable''"

datatype given_by = GivenByRule uuid | GivenByBypass | GivenByAuto uuid

datatype refused_by = ByPolicy | ByRule uuid | ByDontAsk | ByAuto block_reason

fun refused_code :: "refused_by \<Rightarrow> string" where
  "refused_code ByPolicy = ''REFUSED_BY_POLICY''"
| "refused_code (ByRule _) = ''REFUSED_BY_APPROVAL_RULE''"
| "refused_code ByDontAsk = ''REFUSED_BY_DONT_ASK''"
| "refused_code (ByAuto _) = ''REFUSED_BY_AUTO''"

datatype resolution =
    Refuse refused_by
  | Proceed
  | Approve given_by
  | AskPerson
  | Judge

section \<open>The order of evaluation\<close>

definition matching_ids ::
  "settings \<Rightarrow> approval_kind \<Rightarrow> string \<Rightarrow> rule_effect \<Rightarrow> uuid list" where
  "matching_ids s kind target effect =
     map rule_id (filter (\<lambda>r. rule_effect r = effect \<and> rule_kind r = kind
       \<and> target_matches (rule_target r) target) (rules s))"

text \<open>\<open>Iterator::min\<close>; identifiers are ordered by their bytes, as the words are.\<close>

fun least :: "'a::linorder list \<Rightarrow> 'a option" where
  "least [] = None"
| "least (x # xs) = Some (case least xs of None \<Rightarrow> x | Some y \<Rightarrow> min x y)"

definition resolve ::
  "tenant_stance \<Rightarrow> settings option \<Rightarrow> ceiling \<Rightarrow> approval_kind \<Rightarrow> string \<Rightarrow> bool \<Rightarrow> resolution" where
  "resolve stance own ceiling kind target auto_suspended =
     (case stance of
        StanceForbidden \<Rightarrow> Refuse ByPolicy
      | StanceDirect \<Rightarrow> Proceed
      | NeedsApproval \<Rightarrow>
          (case own of
             None \<Rightarrow> AskPerson
           | Some s \<Rightarrow>
               let m = (if mode_allowed ceiling then mode s else Manual);
                   matching = (\<lambda>effect. least (matching_ids s kind target effect))
               in case matching RDeny of
                    Some i \<Rightarrow> Refuse (ByRule i)
                  | None \<Rightarrow>
                      if matching RAsk \<noteq> None
                      then (case m of DontAsk \<Rightarrow> Refuse ByDontAsk | _ \<Rightarrow> AskPerson)
                      else case (if may_approve ceiling then matching RAllow else None) of
                             Some i \<Rightarrow> Approve (GivenByRule i)
                           | None \<Rightarrow>
                               (case m of
                                  Manual \<Rightarrow> AskPerson
                                | DontAsk \<Rightarrow> Refuse ByDontAsk
                                | Bypass \<Rightarrow> if may_approve ceiling then Approve GivenByBypass else AskPerson
                                | Auto \<Rightarrow> if may_approve ceiling \<and> \<not> auto_suspended then Judge else AskPerson)))"

section \<open>Counting refusals of the Auto mode\<close>

record auto_blocks =
  trailing :: u32
  since_person :: u32

definition no_blocks :: auto_blocks where
  "no_blocks = \<lparr> trailing = 0, since_person = 0 \<rparr>"

definition TRAILING_LIMIT :: u32 where "TRAILING_LIMIT = 3"
definition RUN_LIMIT :: u32 where "RUN_LIMIT = 20"

definition auto_suspends :: "auto_blocks \<Rightarrow> bool" where
  "auto_suspends b \<longleftrightarrow> TRAILING_LIMIT \<le> trailing b \<or> RUN_LIMIT \<le> since_person b"

record 'v record_ops =
  value_get :: "'v \<Rightarrow> string \<Rightarrow> 'v option"
  value_instant :: "'v \<Rightarrow> datetime option"

datatype approval_decision = DPerson | DAllowed | DBlocked | DNoVerdict

definition text_at :: "'v json_ops \<Rightarrow> 'v \<Rightarrow> string \<Rightarrow> string \<Rightarrow> string option" where
  "text_at J data key inner = as_str J (json_field J (json_field J data key) inner)"

definition decision_of :: "'v json_ops \<Rightarrow> 'v \<Rightarrow> approval_decision option" where
  "decision_of J data =
     (if text_at J data ''given_by'' ''mode'' = Some ''auto'' then Some DAllowed
      else if text_at J data ''refused_by'' ''mode'' = Some ''auto''
      then Some (if text_at J data ''refused_by'' ''reason'' = Some (block_reason_id NoRoute)
                 then DNoVerdict else DBlocked)
      else if as_str J (json_field J data ''approval_mode'') \<in> {Some ''allow_once'', Some ''allow_run''}
      then Some DPerson else None)"

definition decided :: "'v json_ops \<Rightarrow> 'v record_ops \<Rightarrow> 'v \<Rightarrow> (datetime \<times> approval_decision) option" where
  "decided J G data =
     (case value_get G data ''decided_at'' of
        None \<Rightarrow> None
      | Some v \<Rightarrow> (case value_instant G v of
          None \<Rightarrow> None
        | Some at \<Rightarrow> map_option (\<lambda>d. (at, d)) (decision_of J data)))"

fun count_decision :: "approval_decision \<Rightarrow> auto_blocks \<Rightarrow> auto_blocks" where
  "count_decision DPerson b = no_blocks"
| "count_decision DAllowed b = b\<lparr>trailing := 0\<rparr>"
| "count_decision DBlocked b =
     \<lparr> trailing = saturating_add (trailing b) 1, since_person = saturating_add (since_person b) 1 \<rparr>"
| "count_decision DNoVerdict b = b\<lparr>since_person := saturating_add (since_person b) 1\<rparr>"

definition auto_blocks_of :: "'v json_ops \<Rightarrow> 'v record_ops \<Rightarrow> 'v list \<Rightarrow> auto_blocks" where
  "auto_blocks_of J G records =
     fold (\<lambda>(_, d). count_decision d)
       (sort_key fst (List.map_filter (decided J G) records)) no_blocks"

section \<open>Lemmas\<close>

lemma least_None_iff [simp]: "least xs = None \<longleftrightarrow> xs = []"
  by (cases xs) auto

lemma least_Some: "least xs = Some m \<Longrightarrow> m \<in> set xs \<and> (\<forall>x\<in>set xs. m \<le> x)"
proof (induction xs arbitrary: m)
  case (Cons x xs)
  then show ?case by (cases "least xs") (auto simp: min_def split: if_splits)
qed simp

text \<open>The identifiers of a person's rules that match, by effect.\<close>

definition matches_of :: "settings \<Rightarrow> approval_kind \<Rightarrow> string \<Rightarrow> rule_effect \<Rightarrow> uuid set" where
  "matches_of s kind target effect =
     {rule_id r | r. r \<in> set (rules s) \<and> rule_effect r = effect \<and> rule_kind r = kind
        \<and> target_matches (rule_target r) target}"

lemma set_matching_ids [simp]: "set (matching_ids s kind target effect) = matches_of s kind target effect"
  by (auto simp: matching_ids_def matches_of_def)

lemma matching_ids_Nil_iff: "matching_ids s kind target effect = [] \<longleftrightarrow> matches_of s kind target effect = {}"
  using set_matching_ids by (metis set_empty)

lemma matching_least_iff:
  "least (matching_ids s kind target effect) = Some i \<longleftrightarrow>
     i \<in> matches_of s kind target effect \<and> (\<forall>j\<in>matches_of s kind target effect. i \<le> j)"
proof
  assume "least (matching_ids s kind target effect) = Some i"
  from least_Some[OF this] show "i \<in> matches_of s kind target effect \<and> (\<forall>j\<in>matches_of s kind target effect. i \<le> j)"
    by simp
next
  assume i: "i \<in> matches_of s kind target effect \<and> (\<forall>j\<in>matches_of s kind target effect. i \<le> j)"
  then have "matching_ids s kind target effect \<noteq> []" using matching_ids_Nil_iff by blast
  then obtain m where m: "least (matching_ids s kind target effect) = Some m" by fastforce
  from least_Some[OF m] i have "m = i" by (simp add: order_antisym)
  then show "least (matching_ids s kind target effect) = Some i" using m by simp
qed

text \<open>Counting from the newest decision back is what the fold from the oldest does.\<close>

definition capped :: "nat \<Rightarrow> nat" where
  "capped n = min n (2 ^ 32 - 1)"

lemma unat_saturating_succ: "unat (saturating_add n 1 :: u32) = capped (Suc (unat n))"
  by (simp add: unat_saturating_add capped_def)

lemma capped_0 [simp]: "capped 0 = 0"
  by (simp add: capped_def)

lemma capped_succ: "capped (Suc (capped n)) = capped (Suc n)"
  by (simp add: capped_def)

definition blocked_tail :: "approval_decision list \<Rightarrow> nat" where
  "blocked_tail ds = length (filter (\<lambda>d. d = DBlocked) (takeWhile (\<lambda>d. d \<notin> {DPerson, DAllowed}) (rev ds)))"

definition refused_tail :: "approval_decision list \<Rightarrow> nat" where
  "refused_tail ds = length (filter (\<lambda>d. d \<in> {DBlocked, DNoVerdict}) (takeWhile (\<lambda>d. d \<noteq> DPerson) (rev ds)))"

lemma count_tail:
  "unat (trailing (fold count_decision ds no_blocks)) = capped (blocked_tail ds)
   \<and> unat (since_person (fold count_decision ds no_blocks)) = capped (refused_tail ds)"
proof (induction ds rule: rev_induct)
  case Nil
  show ?case by (simp add: no_blocks_def blocked_tail_def refused_tail_def)
next
  case (snoc d ds)
  then show ?case
    by (cases d)
       (simp_all add: unat_saturating_succ capped_succ blocked_tail_def refused_tail_def no_blocks_def)
qed

lemma fold_decisions:
  "fold (\<lambda>(_, d). count_decision d) xs b = fold count_decision (map snd xs) b"
  by (induction xs arbitrary: b) auto

lemma resolve_refused_iff:
  "resolve NeedsApproval (Some s) ceiling kind target auto_suspended = Refuse (ByRule i) \<longleftrightarrow>
     least (matching_ids s kind target RDeny) = Some i"
  by (cases "least (matching_ids s kind target RDeny)")
     (simp_all add: resolve_def Let_def split: option.split approval_mode.split)

section \<open>Properties\<close>

text \<open>
  Property C24. An approval is given in advance only where the Tenant's policy asks for one, for a
  person whom it lets approve this resource in advance, and against none of that person's own deny
  and ask rules: by the smallest matching allow rule, or, without one, by a Bypass mode that the
  policy allows and whose risk the person accepted.
\<close>

theorem advance_within_ceiling:
  assumes "resolve stance (Some s) (settings_ceiling s standing) kind target auto_suspended = Approve g"
  shows "stance = NeedsApproval \<and> st_approver standing \<and> st_advance standing
    \<and> matches_of s kind target RDeny = {} \<and> matches_of s kind target RAsk = {}
    \<and> (case g of
         GivenByRule i \<Rightarrow> i \<in> matches_of s kind target RAllow \<and> (\<forall>j\<in>matches_of s kind target RAllow. i \<le> j)
       | GivenByBypass \<Rightarrow> matches_of s kind target RAllow = {} \<and> mode s = Bypass \<and> st_mode standing \<and> bypass_accepted s
       | GivenByAuto _ \<Rightarrow> False)"
  using assms
  by (auto simp: resolve_def settings_ceiling_def Let_def matching_ids_Nil_iff matching_least_iff
      split: tenant_stance.splits option.splits if_splits approval_mode.splits)

theorem advance_within_ceiling_witness:
  "resolve NeedsApproval (Some \<lparr> mode = Bypass, rules = [], bypass_accepted = True, auto_available = False \<rparr>)
     (settings_ceiling \<lparr> mode = Bypass, rules = [], bypass_accepted = True, auto_available = False \<rparr>
        \<lparr> st_approver = True, st_advance = True, st_mode = True \<rparr>) KToolCall ''tool:a#b'' False = Approve GivenByBypass
   \<and> matches_of \<lparr> mode = Bypass, rules = [], bypass_accepted = True, auto_available = False \<rparr> KToolCall ''tool:a#b'' RAsk = {}"
proof -
  let ?s = "\<lparr> mode = Bypass, rules = [], bypass_accepted = True, auto_available = False \<rparr>"
  have "resolve NeedsApproval (Some ?s) (settings_ceiling ?s \<lparr> st_approver = True, st_advance = True, st_mode = True \<rparr>)
      KToolCall ''tool:a#b'' False = Approve GivenByBypass"
    by (simp add: resolve_def settings_ceiling_def matching_ids_def)
  from this advance_within_ceiling[OF this] show ?thesis by simp
qed

text \<open>
  A person's explicit decisions bind in every mode: without a person's settings a
  Designated approver is asked, a matching deny rule refuses with the smallest such rule, and a
  matching ask rule asks unless the mode in force is Don't ask, which refuses. In no case does the
  approval Decider judge while the Auto mode is suspended.
\<close>

theorem explicit_rules_bind:
  "resolve NeedsApproval None ceiling kind target auto_suspended = AskPerson
   \<and> (resolve NeedsApproval (Some s) ceiling kind target auto_suspended = Refuse (ByRule i) \<longleftrightarrow>
        i \<in> matches_of s kind target RDeny \<and> (\<forall>j\<in>matches_of s kind target RDeny. i \<le> j))
   \<and> (matches_of s kind target RDeny = {} \<and> matches_of s kind target RAsk \<noteq> {} \<longrightarrow>
        resolve NeedsApproval (Some s) ceiling kind target auto_suspended
          = (if mode s = DontAsk \<and> mode_allowed ceiling then Refuse ByDontAsk else AskPerson))
   \<and> resolve stance own ceiling kind target True \<noteq> Judge"
proof (intro conjI impI)
  show "resolve NeedsApproval None ceiling kind target auto_suspended = AskPerson" by (simp add: resolve_def)
  show "resolve NeedsApproval (Some s) ceiling kind target auto_suspended = Refuse (ByRule i) \<longleftrightarrow>
      i \<in> matches_of s kind target RDeny \<and> (\<forall>j\<in>matches_of s kind target RDeny. i \<le> j)"
    unfolding resolve_refused_iff by (rule matching_least_iff)
  show "resolve stance own ceiling kind target True \<noteq> Judge"
    by (simp add: resolve_def Let_def split: tenant_stance.split option.split approval_mode.split)
  assume rules: "matches_of s kind target RDeny = {} \<and> matches_of s kind target RAsk \<noteq> {}"
  then have "least (matching_ids s kind target RDeny) = None" "least (matching_ids s kind target RAsk) \<noteq> None"
    by (simp_all add: matching_ids_Nil_iff)
  then show "resolve NeedsApproval (Some s) ceiling kind target auto_suspended
      = (if mode s = DontAsk \<and> mode_allowed ceiling then Refuse ByDontAsk else AskPerson)"
    by (cases "mode s") (auto simp: resolve_def Let_def)
qed

theorem explicit_rules_bind_witness:
  "resolve NeedsApproval (Some \<lparr> mode = Auto, rules = [\<lparr> rule_id = 1, rule_kind = KOutbound, rule_target = Every, rule_effect = RAsk \<rparr>],
      bypass_accepted = False, auto_available = True \<rparr>) \<lparr> may_approve = True, mode_allowed = True \<rparr> KOutbound ''https://a'' False
   = AskPerson"
proof -
  let ?s = "\<lparr> mode = Auto, rules = [\<lparr> rule_id = 1, rule_kind = KOutbound, rule_target = Every, rule_effect = RAsk \<rparr>],
      bypass_accepted = False, auto_available = True \<rparr>"
  have "matches_of ?s KOutbound ''https://a'' RDeny = {} \<and> matches_of ?s KOutbound ''https://a'' RAsk \<noteq> {}"
    by (simp add: matches_of_def)
  then show ?thesis
    using explicit_rules_bind[where s = ?s and kind = KOutbound and target = "''https://a''" and auto_suspended = False
        and ceiling = "\<lparr> may_approve = True, mode_allowed = True \<rparr>"]
    by simp
qed

text \<open>
  The counts that suspend the Auto mode are those of the decisions in the order of
  their instants: the blocks since the last call that a person approved or the Decider allowed, and
  the refusals, with or without a verdict, since a person last approved a call, both saturating.
\<close>

theorem auto_blocks_count:
  "let ds = map snd (sort_key fst (List.map_filter (decided J G) records)) in
     unat (trailing (auto_blocks_of J G records)) = capped (blocked_tail ds)
     \<and> unat (since_person (auto_blocks_of J G records)) = capped (refused_tail ds)
     \<and> (auto_suspends (auto_blocks_of J G records) \<longleftrightarrow> 3 \<le> blocked_tail ds \<or> 20 \<le> refused_tail ds)"
proof -
  let ?ds = "map snd (sort_key fst (List.map_filter (decided J G) records))"
  have counts: "unat (trailing (auto_blocks_of J G records)) = capped (blocked_tail ?ds)"
    "unat (since_person (auto_blocks_of J G records)) = capped (refused_tail ?ds)"
    unfolding auto_blocks_of_def fold_decisions using count_tail[of ?ds] by auto
  have "auto_suspends (auto_blocks_of J G records) \<longleftrightarrow> 3 \<le> capped (blocked_tail ?ds) \<or> 20 \<le> capped (refused_tail ?ds)"
    by (simp add: auto_suspends_def TRAILING_LIMIT_def RUN_LIMIT_def word_le_nat_alt flip: counts)
  then show ?thesis using counts by (simp add: capped_def Let_def)
qed

end
