(* ===== verification/Tenancy_Base.thy ===== *)
theory Tenancy_Base
  imports Prelude
begin

text \<open>
  Names, labels and the deployment-wide rules of Tenants
  (crates/aidash-domain/src/identity/tenancy.rs, tenancy/words.rs, tenancy/deletion.rs and
  offering.rs): the assigned names drawn from the screened word lists, Tenant labels, the
  Tenancy Rules of each Offering, the creation limits of an External Identity, Invitation
  lifetimes, and Tenant Deletion with its purge steps. The policy a Tenant starts with and
  the last-administrator check, which need the policy engine, are in \<open>Tenancy\<close>.
\<close>

section \<open>Word lists and assigned names\<close>

definition ADJECTIVES :: "string list" where
  "ADJECTIVES = [
    ''able'', ''agile'', ''airy'', ''amber'', ''ample'', ''azure'', ''balmy'', ''bold'',
     ''brave'', ''breezy'', ''bright'', ''brisk'', ''calm'', ''candid'', ''cheery'', ''civic'',
     ''clear'', ''clever'', ''cobalt'', ''coral'', ''cosmic'', ''crisp'', ''curious'',
     ''dapper'', ''daring'', ''deft'', ''dewy'', ''eager'', ''early'', ''earnest'', ''easy'',
     ''elated'', ''even'', ''fair'', ''fancy'', ''fast'', ''fresh'', ''frosty'', ''gentle'',
     ''giant'', ''glad'', ''golden'', ''grand'', ''green'', ''happy'', ''hardy'', ''hazel'',
     ''honest'', ''humble'', ''ivory'', ''jade'', ''jolly'', ''keen'', ''kind'', ''lively'',
     ''loyal'', ''lucid'', ''lucky'', ''lunar'', ''maple'', ''merry'', ''mighty'', ''mellow'',
     ''misty'', ''modest'', ''nimble'', ''noble'', ''olive'', ''open'', ''orange'',
     ''patient'', ''peaceful'', ''pearl'', ''plucky'', ''polite'', ''proud'', ''quick'',
     ''quiet'', ''radiant'', ''rapid'', ''ready'', ''rosy'', ''royal'', ''ruby'', ''rustic'',
     ''sage'', ''sandy'', ''serene'', ''sharp'', ''shiny'', ''silent'', ''silver'', ''simple'',
     ''sleek'', ''smooth'', ''snowy'', ''solar'', ''solid'', ''sonic'', ''spry'', ''starry'',
     ''steady'', ''stellar'', ''sturdy'', ''sunny'', ''swift'', ''tidy'', ''tranquil'',
     ''true'', ''upbeat'', ''valiant'', ''velvet'', ''vivid'', ''warm'', ''wavy'', ''wild'',
     ''windy'', ''wise'', ''witty'', ''woven'', ''young'', ''zesty'', ''zippy'', ''cozy'',
     ''lofty'', ''polar'', ''teal'', ''tawny'']"

definition NOUNS :: "string list" where
  "NOUNS = [
    ''acorn'', ''alpaca'', ''anchor'', ''aspen'', ''badger'', ''bamboo'', ''beacon'',
     ''beaver'', ''birch'', ''bison'', ''brook'', ''canyon'', ''cedar'', ''cheetah'',
     ''cliff'', ''cloud'', ''comet'', ''condor'', ''coral'', ''cosmos'', ''coyote'', ''crane'',
     ''creek'', ''cypress'', ''delta'', ''dolphin'', ''dove'', ''dune'', ''eagle'', ''egret'',
     ''elk'', ''falcon'', ''fern'', ''finch'', ''fjord'', ''forest'', ''fox'', ''gazelle'',
     ''geyser'', ''glacier'', ''grove'', ''gull'', ''harbor'', ''hawk'', ''heron'', ''hill'',
     ''ibis'', ''island'', ''jaguar'', ''kestrel'', ''koala'', ''lagoon'', ''lark'', ''lemur'',
     ''lily'', ''lynx'', ''magpie'', ''maple'', ''marlin'', ''meadow'', ''meteor'', ''moose'',
     ''moss'', ''nebula'', ''newt'', ''oak'', ''ocean'', ''orca'', ''osprey'', ''otter'',
     ''owl'', ''panda'', ''panther'', ''pebble'', ''pelican'', ''penguin'', ''pine'',
     ''plover'', ''pond'', ''prairie'', ''puffin'', ''quail'', ''quartz'', ''rabbit'',
     ''raven'', ''reef'', ''ridge'', ''river'', ''robin'', ''salmon'', ''sequoia'', ''shore'',
     ''sparrow'', ''spruce'', ''stork'', ''summit'', ''swan'', ''tern'', ''thrush'', ''tiger'',
     ''trail'', ''trout'', ''tulip'', ''tundra'', ''turtle'', ''valley'', ''violet'',
     ''walrus'', ''willow'', ''wren'', ''yak'', ''zebra'', ''aurora'', ''bay'', ''breeze'',
     ''cove'', ''dawn'', ''ember'', ''galaxy'', ''harvest'', ''horizon'', ''lantern'',
     ''mesa'', ''orchid'', ''planet'', ''rain'', ''glade'', ''tide'']"

text \<open>The \<open>while\<close> loop of \<open>longest\<close> keeps the greatest length seen so far.\<close>

definition longest :: "string list \<Rightarrow> nat" where
  "longest ws = fold (\<lambda>w best. if length w > best then length w else best) ws 0"

definition RANDOM_LENGTH :: nat where "RANDOM_LENGTH = 8"

definition ALPHABET :: string where
  "ALPHABET = ''abcdefghijklmnopqrstuvwxyz0123456789''"

definition ASSIGNED_NAME_MAX_LEN :: nat where
  "ASSIGNED_NAME_MAX_LEN = longest ADJECTIVES + 1 + longest NOUNS + 1 + RANDOM_LENGTH"

text \<open>\<open>from_le_bytes\<close>: the first byte is the least significant one.\<close>

fun from_le_bytes :: "8 word list \<Rightarrow> 64 word" where
  "from_le_bytes [] = 0"
| "from_le_bytes (b # bs) = ucast b + 256 * from_le_bytes bs"

fun random_suffix :: "nat \<Rightarrow> 64 word \<Rightarrow> string" where
  "random_suffix 0 random = []"
| "random_suffix (Suc n) random =
     ALPHABET ! unat (random mod 36) # random_suffix n (random div 36)"

text \<open>
  The entropy is the 16-byte array of the source; the two slices are at most eight and four
  bytes, so both fit the 64-bit word that holds them. The \<open>XOR\<close> is bitwise.
\<close>

definition assigned_name :: "8 word list \<Rightarrow> string" where
  "assigned_name entropy =
     (let adjective = ADJECTIVES ! (unat (entropy ! 0) mod length ADJECTIVES);
          noun = NOUNS ! (unat (entropy ! 1) mod length NOUNS);
          random = Bit_Operations.xor (from_le_bytes (take 8 (drop 2 entropy)))
                     (from_le_bytes (take 4 (drop 10 entropy)))
      in adjective @ ''-'' @ noun @ ''-'' @ random_suffix RANDOM_LENGTH random)"

section \<open>Labels\<close>

definition LABEL_MAX :: nat where "LABEL_MAX = 64"

definition label :: "string \<Rightarrow> string result" where
  "label value =
     (let v = trim value
      in if v = [] \<or> length (chars v) > LABEL_MAX \<or> list_ex is_control (chars v)
         then Inl (Invalid ''a Tenant label needs 1 to 64 characters without control characters'')
         else Inr v)"

section \<open>Offerings and Tenancy Rules\<close>

datatype offering = SelfHosted | Cloud | Dedicated

definition DEFAULT_GRACE_DAYS :: u32 where "DEFAULT_GRACE_DAYS = 30"
definition MIN_GRACE_DAYS :: u32 where "MIN_GRACE_DAYS = 1"
definition MAX_GRACE_DAYS :: u32 where "MAX_GRACE_DAYS = 90"
definition DEFAULT_AUDIT_RETENTION_DAYS :: u32 where "DEFAULT_AUDIT_RETENTION_DAYS = 365"
definition MIN_AUDIT_RETENTION_DAYS :: u32 where "MIN_AUDIT_RETENTION_DAYS = 1"
definition MAX_AUDIT_RETENTION_DAYS :: u32 where "MAX_AUDIT_RETENTION_DAYS = 3650"
definition STALLED_AFTER_FAILURES :: u32 where "STALLED_AFTER_FAILURES = 3"
definition DEFAULT_NODES_PER_TENANT :: u32 where "DEFAULT_NODES_PER_TENANT = 10"

record tenancy_rules =
  personal_tenants :: bool
  tenant_creation :: bool
  creation_per_hour :: u32
  creation_total :: u32
  invitations :: bool
  deletion_grace_days :: u32
  node_deletion_grace_days :: u32
  audit_retention_days :: u32
  nodes_per_tenant :: u32

definition rules_of :: "offering \<Rightarrow> tenancy_rules" where
  "rules_of offering =
     (let administered =
        \<lparr> personal_tenants = False, tenant_creation = False, creation_per_hour = 5,
          creation_total = 20, invitations = True, deletion_grace_days = DEFAULT_GRACE_DAYS,
          node_deletion_grace_days = 30, audit_retention_days = DEFAULT_AUDIT_RETENTION_DAYS,
          nodes_per_tenant = DEFAULT_NODES_PER_TENANT \<rparr>
      in case offering of
           Cloud \<Rightarrow> administered\<lparr>personal_tenants := True, tenant_creation := True\<rparr>
         | SelfHosted \<Rightarrow> administered
         | Dedicated \<Rightarrow> administered)"

definition check_nodes_per_tenant :: "u32 \<Rightarrow> u32 result" where
  "check_nodes_per_tenant value =
     (if \<not> (1 \<le> value \<and> value \<le> 1000)
      then Inl (Invalid ''tenancy.nodes_per_tenant must be between 1 and 1000'')
      else Inr value)"

section \<open>Creation limits\<close>

datatype creation_refusal =
    NotAllowed
  | HourlyLimit int
  | TotalLimit

definition check_creation ::
  "tenancy_rules \<Rightarrow> datetime \<Rightarrow> datetime list \<Rightarrow> u32 \<Rightarrow> creation_refusal + unit" where
  "check_creation rules now recent total_held =
     (if \<not> tenant_creation rules then Inl NotAllowed
      else if creation_total rules \<le> total_held then Inl TotalLimit
      else
        let window = seconds 3600;
            recent = sort (filter (\<lambda>time. time > now - window) recent);
            limit = unat (creation_per_hour rules)
        in if limit = 0 then Inl NotAllowed
           else if length recent \<ge> limit
           then (let leaving = recent ! (length recent - limit)
                 in Inl (HourlyLimit (max (num_seconds (leaving + window - now)) 1)))
           else Inr ())"

section \<open>Invitations\<close>

definition DEFAULT_SECONDS :: int where "DEFAULT_SECONDS = 7 * 24 * 60 * 60"
definition MIN_SECONDS :: int where "MIN_SECONDS = 60"

definition lifetime :: "int option \<Rightarrow> duration result" where
  "lifetime requested_seconds =
     (let secs = (case requested_seconds of None \<Rightarrow> DEFAULT_SECONDS | Some s \<Rightarrow> s)
      in if \<not> (MIN_SECONDS \<le> secs \<and> secs \<le> DEFAULT_SECONDS)
         then Inl (Invalid ''an Invitation lasts between 60 and 604800 seconds'')
         else Inr (seconds secs))"

section \<open>Tenant Deletion\<close>

datatype deletion_actor = TenantAdministrator | DeploymentAdministrator

fun deletion_actor_str :: "deletion_actor \<Rightarrow> string" where
  "deletion_actor_str TenantAdministrator = ''tenant_administrator''"
| "deletion_actor_str DeploymentAdministrator = ''deployment_administrator''"

definition deletion_actor_parse :: "string \<Rightarrow> deletion_actor result" where
  "deletion_actor_parse value =
     (if value = ''tenant_administrator'' then Inr TenantAdministrator
      else if value = ''deployment_administrator'' then Inr DeploymentAdministrator
      else Inl (Invalid (''unknown deletion actor: '' @ value)))"

definition check_grace_days :: "u32 \<Rightarrow> u32 result" where
  "check_grace_days days =
     (if \<not> (MIN_GRACE_DAYS \<le> days \<and> days \<le> MAX_GRACE_DAYS)
      then Inl (Invalid ''the Tenant Deletion grace period lasts 1 to 90 days'')
      else Inr days)"

definition check_audit_retention_days :: "u32 \<Rightarrow> u32 result" where
  "check_audit_retention_days days =
     (if \<not> (MIN_AUDIT_RETENTION_DAYS \<le> days \<and> days \<le> MAX_AUDIT_RETENTION_DAYS)
      then Inl (Invalid ''audit history outlives a purge for 1 to 3650 days'')
      else Inr days)"

definition days :: "u32 \<Rightarrow> duration" where
  "days n = seconds (24 * 60 * 60 * uint n)"

definition audit_erase_after :: "datetime \<Rightarrow> u32 \<Rightarrow> datetime" where
  "audit_erase_after purged_at retention = purged_at + days retention"

definition purge_after :: "datetime \<Rightarrow> u32 \<Rightarrow> datetime" where
  "purge_after deleted_at grace = deleted_at + days grace"

definition confirm :: "string \<Rightarrow> string \<Rightarrow> unit result" where
  "confirm tenant confirmation =
     refuse_if (trim confirmation \<noteq> tenant)
       (Invalid ''type the Tenant name to confirm its deletion'')"

datatype purge_step = ProviderCredentials | CapabilityObjects | Rows | Finish

definition PURGE_ALL :: "purge_step list" where
  "PURGE_ALL = [ProviderCredentials, CapabilityObjects, Rows, Finish]"

definition PURGE_FIRST :: purge_step where "PURGE_FIRST = ProviderCredentials"

fun purge_step_str :: "purge_step \<Rightarrow> string" where
  "purge_step_str ProviderCredentials = ''provider_credentials''"
| "purge_step_str CapabilityObjects = ''capability_objects''"
| "purge_step_str Rows = ''rows''"
| "purge_step_str Finish = ''finish''"

definition purge_step_parse :: "string \<Rightarrow> purge_step result" where
  "purge_step_parse value =
     (case find (\<lambda>s. purge_step_str s = value) PURGE_ALL of
        Some s \<Rightarrow> Inr s
      | None \<Rightarrow> Inl (Invalid (''unknown purge step: '' @ value)))"

text \<open>The discriminants of \<open>PurgeStep\<close> are its positions, in the order it declares them.\<close>

fun purge_step_index :: "purge_step \<Rightarrow> nat" where
  "purge_step_index ProviderCredentials = 0"
| "purge_step_index CapabilityObjects = 1"
| "purge_step_index Rows = 2"
| "purge_step_index Finish = 3"

definition purge_step_next :: "purge_step \<Rightarrow> purge_step option" where
  "purge_step_next s =
     (let i = purge_step_index s + 1
      in if i < length PURGE_ALL then Some (PURGE_ALL ! i) else None)"

definition stalled :: "u32 \<Rightarrow> bool" where
  "stalled failures \<longleftrightarrow> STALLED_AFTER_FAILURES \<le> failures"

record deletion =
  deleted_by :: deletion_actor
  restorable_until :: datetime
  restored :: bool
  purged :: bool

definition check_restore :: "deletion \<Rightarrow> deletion_actor \<Rightarrow> datetime \<Rightarrow> unit result" where
  "check_restore d restorer now =
     (if restored d then Inl (Conflict ''the Tenant is not deleted'')
      else if purged d then Inl (Conflict ''tenant_purged'')
      else if restorable_until d \<le> now then Inl (Conflict ''tenant_grace_period_ended'')
      else if deleted_by d = DeploymentAdministrator \<and> restorer \<noteq> DeploymentAdministrator
      then Inl (Conflict
        ''only a Deployment Administrator restores a Tenant a Deployment Administrator deleted'')
      else Inr ())"

definition restorable :: "deletion \<Rightarrow> deletion_actor \<Rightarrow> datetime \<Rightarrow> bool" where
  "restorable d restorer now = is_ok (check_restore d restorer now)"

section \<open>Facts on assigned names\<close>

definition plain_word :: "string \<Rightarrow> bool" where
  "plain_word w \<longleftrightarrow> w \<noteq> [] \<and> list_all is_ascii_lowercase w"

definition suffix_char :: "char \<Rightarrow> bool" where
  "suffix_char c \<longleftrightarrow> is_ascii_lowercase c \<or> is_ascii_digit c"

lemma length_words [simp]: "length ADJECTIVES = 128" "length NOUNS = 128"
  by (simp_all add: ADJECTIVES_def NOUNS_def)

lemma words_plain: "list_all plain_word ADJECTIVES" "list_all plain_word NOUNS"
  by (simp_all add: ADJECTIVES_def NOUNS_def plain_word_def is_ascii_lowercase_def byte_def)

lemma alphabet_suffix_chars: "list_all suffix_char ALPHABET" "length ALPHABET = 36"
  by code_simp+

lemma name_max_len: "ASSIGNED_NAME_MAX_LEN = 25"
  by code_simp

lemma longest_fold_max: "longest ws = fold max (map length ws) 0"
proof -
  have "(\<lambda>w best. if length w > best then length w else best) = (\<lambda>w. max (length (w :: string)))"
    by (auto simp: fun_eq_iff max_def)
  then show ?thesis by (simp add: longest_def fold_map comp_def)
qed

lemma fold_max_ge: "x \<in> set xs \<or> x \<le> b \<Longrightarrow> (x :: nat) \<le> fold max xs b"
proof (induction xs arbitrary: b)
  case (Cons y ys)
  then have "x \<in> set ys \<or> x \<le> max y b" by (auto simp: le_max_iff_disj)
  with Cons.IH show ?case by simp
qed simp

lemma longest_ge: "w \<in> set ws \<Longrightarrow> length w \<le> longest ws"
  by (auto simp: longest_fold_max intro: fold_max_ge)

lemma random_suffix_shape:
  "length (random_suffix n r) = n" "list_all suffix_char (random_suffix n r)"
proof -
  have "unat (x mod 36 :: 64 word) < 36" for x :: "64 word"
    by (simp add: unat_mod)
  then have "suffix_char (ALPHABET ! unat (x mod 36 :: 64 word))" for x
    using alphabet_suffix_chars by (simp add: list_all_length)
  then show "length (random_suffix n r) = n" "list_all suffix_char (random_suffix n r)"
    by (induction n arbitrary: r) auto
qed

lemma assigned_name_shape:
  obtains a b s where "assigned_name e = a @ ''-'' @ b @ ''-'' @ s"
    "a \<in> set ADJECTIVES" "b \<in> set NOUNS" "length s = RANDOM_LENGTH" "list_all suffix_char s"
proof
  show "ADJECTIVES ! (unat (e ! 0) mod length ADJECTIVES) \<in> set ADJECTIVES"
    "NOUNS ! (unat (e ! 1) mod length NOUNS) \<in> set NOUNS" by (auto intro: nth_mem)
qed (auto simp: assigned_name_def Let_def random_suffix_shape)

section \<open>Creation limits\<close>

text \<open>How many creations lie in the hour that ends now.\<close>

definition in_window :: "datetime \<Rightarrow> datetime list \<Rightarrow> nat" where
  "in_window now recent = length (filter (\<lambda>time. time > now - seconds 3600) recent)"

lemma check_creation_ok:
  "check_creation rules now recent held = Inr () \<longleftrightarrow>
     tenant_creation rules \<and> held < creation_total rules
     \<and> in_window now recent < unat (creation_per_hour rules)"
  by (auto simp: check_creation_def in_window_def Let_def not_le)

lemma sorted_count_greater:
  assumes "sorted xs" "i < length xs"
  shows "length (filter (\<lambda>x. x > xs ! i) xs) \<le> length xs - Suc i"
proof -
  have "filter (\<lambda>x. x > xs ! i) (take (Suc i) xs) = []"
    using assms
    by (auto simp: filter_empty_conv in_set_conv_nth not_less less_Suc_eq_le sorted_iff_nth_mono)
  then have "filter (\<lambda>x. x > xs ! i) xs = filter (\<lambda>x. x > xs ! i) (drop (Suc i) xs)"
    by (metis append_Nil append_take_drop_id filter_append)
  then show ?thesis by (metis length_drop length_filter_le)
qed

lemma num_seconds_less: "d < seconds (num_seconds d + 1)"
proof (cases "0 \<le> d")
  case True
  have "d < (d div 1000000000 + 1) * 1000000000"
    using div_mult_mod_eq[of d 1000000000] pos_mod_bound[of 1000000000 d]
    unfolding distrib_right by simp
  with True show ?thesis by (simp add: num_seconds_def seconds_def)
next
  case False
  have "d < (- (- d div 1000000000) + 1) * 1000000000"
    using div_mult_mod_eq[of "- d" 1000000000] pos_mod_sign[of 1000000000 "- d"]
    unfolding distrib_right by simp
  with False show ?thesis by (simp add: num_seconds_def seconds_def)
qed

lemma length_filter_sort: "length (filter P (sort xs)) = length (filter P xs)"
  by (simp add: filter_sort)

text \<open>
  The creations that are still in the window one second after the announced wait are among
  those after the one that had to leave.
\<close>

lemma window_after_wait:
  assumes "check_creation rules now recent held = Inl (HourlyLimit s)"
  shows "in_window (now + seconds (s + 1)) recent < unat (creation_per_hour rules)"
proof -
  define xs where "xs = sort (filter (\<lambda>time. time > now - seconds 3600) recent)"
  define limit where "limit = unat (creation_per_hour rules)"
  define i where "i = length xs - limit"
  from assms have lim: "0 < limit" "limit \<le> length xs"
    and s: "s = max (num_seconds (xs ! i + seconds 3600 - now)) 1"
    by (auto simp: check_creation_def Let_def xs_def limit_def i_def split: if_splits)
  have i: "i < length xs" using lim by (simp add: i_def)
  have "xs ! i + seconds 3600 - now < seconds (s + 1)"
    using num_seconds_less[of "xs ! i + seconds 3600 - now"] s
    by (auto simp: seconds_def max_def split: if_splits)
  then have late: "time > xs ! i \<and> time > now - seconds 3600"
    if "time > now + seconds (s + 1) - seconds 3600" for time
    using that s by (auto simp: seconds_def)
  have "in_window (now + seconds (s + 1)) recent \<le>
      length (filter (\<lambda>x. x > xs ! i \<and> x > now - seconds 3600) recent)"
    unfolding in_window_def by (induction recent) (use late in auto)
  also have "\<dots> = length (filter (\<lambda>x. x > xs ! i) xs)"
    unfolding xs_def length_filter_sort by (simp add: conj_commute)
  also have "\<dots> \<le> length xs - Suc i"
    by (rule sorted_count_greater) (simp_all add: xs_def[symmetric] i, simp add: xs_def)
  also have "\<dots> < limit" using lim i by (simp add: i_def)
  finally show ?thesis by (simp add: limit_def)
qed

section \<open>Deletion\<close>

lemma check_restore_ok:
  "check_restore d restorer now = Inr () \<longleftrightarrow>
     \<not> restored d \<and> \<not> purged d \<and> now < restorable_until d
     \<and> (deleted_by d = DeploymentAdministrator \<longrightarrow> restorer = DeploymentAdministrator)"
  by (auto simp: check_restore_def)

interpretation actor_text: textual deletion_actor_parse deletion_actor_str "\<lambda>_. True"
proof unfold_locales
  fix s x assume "deletion_actor_parse s = Inr x"
  then show "True \<and> deletion_actor_str x = s"
    by (auto simp: deletion_actor_parse_def split: if_splits)
next
  fix x show "deletion_actor_parse (deletion_actor_str x) = Inr x"
    by (cases x) (simp_all add: deletion_actor_parse_def)
qed

interpretation purge_text: textual purge_step_parse purge_step_str "\<lambda>_. True"
proof unfold_locales
  fix s x assume "purge_step_parse s = Inr x"
  then show "True \<and> purge_step_str x = s"
    by (auto simp: purge_step_parse_def find_Some_iff split: option.splits)
next
  fix x show "purge_step_parse (purge_step_str x) = Inr x"
    by (cases x) (simp_all add: purge_step_parse_def PURGE_ALL_def)
qed

lemma purge_step_next_simps [simp]:
  "purge_step_next ProviderCredentials = Some CapabilityObjects"
  "purge_step_next CapabilityObjects = Some Rows"
  "purge_step_next Rows = Some Finish"
  "purge_step_next Finish = None"
  by (simp_all add: purge_step_next_def PURGE_ALL_def)

section \<open>Properties\<close>

text \<open>
  A refused creation succeeds one second after the announced wait, when the person's
  creations and Tenants are otherwise unchanged.
\<close>

theorem creation_after_wait:
  assumes "check_creation rules now recent held = Inl (HourlyLimit s)"
  shows "check_creation rules (now + seconds (s + 1)) recent held = Inr ()"
proof -
  from assms have "tenant_creation rules" "held < creation_total rules"
    by (auto simp: check_creation_def not_le split: if_splits)
  with window_after_wait[OF assms] show ?thesis by (simp add: check_creation_ok)
qed

definition two_an_hour :: tenancy_rules where
  "two_an_hour = (rules_of SelfHosted)\<lparr>tenant_creation := True, creation_per_hour := 2, creation_total := 9\<rparr>"

theorem creation_after_wait_witness:
  "check_creation two_an_hour (seconds 7200) [seconds 3601, seconds 3700, seconds 3900] 3
     = Inl (HourlyLimit 100)
   \<and> check_creation two_an_hour (seconds 7200 + seconds 101)
       [seconds 3601, seconds 3700, seconds 3900] 3 = Inr ()"
proof -
  have "check_creation two_an_hour (seconds 7200) [seconds 3601, seconds 3700, seconds 3900] 3
     = Inl (HourlyLimit 100)"
    by (simp add: check_creation_def two_an_hour_def seconds_def num_seconds_def Let_def)
  from this creation_after_wait[OF this] show ?thesis by simp
qed

text \<open>
  The extra second is needed: the announced wait drops the fraction of a second, and after exactly
  that wait the creation is refused again, although the documentation of the refusal says that a
  slot frees after that many seconds.
\<close>

lemma retry_after_truncated:
  "check_creation (two_an_hour\<lparr>creation_per_hour := 1\<rparr>) 0 [1500000000 - seconds 3600] 0
     = Inl (HourlyLimit 1)
   \<and> check_creation (two_an_hour\<lparr>creation_per_hour := 1\<rparr>) (0 + seconds 1) [1500000000 - seconds 3600] 0
     = Inl (HourlyLimit 1)"
  by (simp add: check_creation_def two_an_hour_def seconds_def num_seconds_def Let_def)

end
