(* ===== verification/Nodes.thy ===== *)
theory Nodes
  imports Tenancy_Base
begin

text \<open>
  Deployment and Node identity (crates/aidash-domain/src/nodes.rs): Deployment ids, assigned
  Node names, Node addresses and Deployment key ids with their parsers, the functions that
  read the Deployment part of an address, and how many Nodes a Tenant may hold; and Node
  deletion (nodes/deletion.rs).
\<close>

section \<open>Deployment ids\<close>

definition SCHEME :: string where "SCHEME = ''aidash://''"

definition DEPLOYMENT_NAME_MAX :: nat where "DEPLOYMENT_NAME_MAX = 100"

datatype deployment_id = DeploymentId (deployment_str: string)

definition DEPLOYMENT_MAX_LEN :: nat where
  "DEPLOYMENT_MAX_LEN = length SCHEME + DEPLOYMENT_NAME_MAX"

text \<open>
  Every byte of a character beyond ASCII is at least 128, so a test of all characters for an
  ASCII class is a test of all bytes.
\<close>

definition DeploymentId_parse :: "string \<Rightarrow> deployment_id result" where
  "DeploymentId_parse value =
     (let name = (case strip_prefix SCHEME value of None \<Rightarrow> [] | Some n \<Rightarrow> n)
      in if name = [] \<or> length name > DEPLOYMENT_NAME_MAX
            \<or> \<not> list_all (\<lambda>c. is_ascii_alphanumeric c \<or> c = CHR ''-'') name
         then Inl (Invalid ''a Deployment id is aidash:// followed by letters, numbers or hyphens'')
         else Inr (DeploymentId value))"

definition deployment_name :: "deployment_id \<Rightarrow> string" where
  "deployment_name d = drop (length SCHEME) (deployment_str d)"

section \<open>Node names\<close>

datatype node_name = NodeName (node_name_str: string)

definition NODE_NAME_MAX_LEN :: nat where "NODE_NAME_MAX_LEN = ASSIGNED_NAME_MAX_LEN"

definition NodeName_from_entropy :: "8 word list \<Rightarrow> node_name" where
  "NodeName_from_entropy entropy = NodeName (assigned_name entropy)"

definition NodeName_parse :: "string \<Rightarrow> node_name result" where
  "NodeName_parse value =
     (let invalid = Inl (Invalid ''a Node name is <adjective>-<noun>-<8 characters>'');
          word = (\<lambda>part. part \<noteq> [] \<and> list_all is_ascii_lowercase part)
      in if length value > NODE_NAME_MAX_LEN then invalid
         else case split CHR ''-'' value of
             [adjective, noun, random] \<Rightarrow>
               if \<not> word adjective \<or> \<not> word noun \<or> length random \<noteq> RANDOM_LENGTH
                  \<or> \<not> list_all (\<lambda>b. is_ascii_lowercase b \<or> is_ascii_digit b) random
               then invalid
               else Inr (NodeName value)
           | _ \<Rightarrow> invalid)"

section \<open>Node addresses\<close>

record node_address =
  addr_deployment :: deployment_id
  addr_node :: node_name

definition deployment_node :: "deployment_id \<Rightarrow> node_name \<Rightarrow> node_address" where
  "deployment_node d n = \<lparr>addr_deployment = d, addr_node = n\<rparr>"

definition NODE_ADDRESS_MAX_LEN :: nat where
  "NODE_ADDRESS_MAX_LEN = DEPLOYMENT_MAX_LEN + 1 + NODE_NAME_MAX_LEN"

definition NodeAddress_parse :: "string \<Rightarrow> node_address result" where
  "NodeAddress_parse value =
     (let invalid = Inl (Invalid ''a Node address is aidash://<deployment>/<node name>'')
      in if length value > NODE_ADDRESS_MAX_LEN then invalid
         else case strip_prefix SCHEME value of
             None \<Rightarrow> invalid
           | Some rest \<Rightarrow>
               (case split_once CHR ''/'' rest of
                  None \<Rightarrow> invalid
                | Some (deployment, node) \<Rightarrow>
                    (case DeploymentId_parse (SCHEME @ deployment) of
                       Inl _ \<Rightarrow> invalid
                     | Inr d \<Rightarrow>
                         (case NodeName_parse node of
                            Inl _ \<Rightarrow> invalid
                          | Inr n \<Rightarrow> Inr \<lparr>addr_deployment = d, addr_node = n\<rparr>))))"

definition NodeAddress_display :: "node_address \<Rightarrow> string" where
  "NodeAddress_display a = deployment_str (addr_deployment a) @ ''/'' @ node_name_str (addr_node a)"

section \<open>Deployment key ids\<close>

datatype deployment_key_id = DeploymentKeyId (key_id_str: string)

definition KEY_ID_LEN :: nat where "KEY_ID_LEN = 43"

definition DeploymentKeyId_parse :: "string \<Rightarrow> deployment_key_id result" where
  "DeploymentKeyId_parse value =
     (if length value \<noteq> KEY_ID_LEN
         \<or> \<not> list_all (\<lambda>b. is_ascii_alphanumeric b \<or> b = CHR ''-'' \<or> b = CHR ''_'') value
      then Inl (Invalid ''a key ID is 43 base64url characters without padding'')
      else Inr (DeploymentKeyId value))"

section \<open>The Deployment part of an address\<close>

definition find_char :: "char \<Rightarrow> string \<Rightarrow> nat option" where
  "find_char d s = (if d \<in> set s then Some (length (takeWhile (\<lambda>c. c \<noteq> d) s)) else None)"

definition deployment_of :: "string \<Rightarrow> string" where
  "deployment_of address =
     (let rest = (case strip_prefix SCHEME address of None \<Rightarrow> address | Some r \<Rightarrow> r);
          end_at = (case find_char CHR ''/'' rest of None \<Rightarrow> length rest | Some i \<Rightarrow> i)
      in take (length address - length rest + end_at) address)"

definition same_deployment :: "string \<Rightarrow> string \<Rightarrow> bool" where
  "same_deployment a b \<longleftrightarrow> deployment_of a = deployment_of b"

definition validate_node_ref :: "string \<Rightarrow> unit result" where
  "validate_node_ref value =
     (if (case strip_prefix SCHEME value of None \<Rightarrow> False | Some rest \<Rightarrow> CHR ''/'' \<in> set rest)
      then and_then (NodeAddress_parse value) (\<lambda>_. Inr ())
      else and_then (DeploymentId_parse value) (\<lambda>_. Inr ()))"

definition names_home :: "string \<Rightarrow> string \<Rightarrow> bool" where
  "names_home reference home \<longleftrightarrow> reference = home \<or> reference = deployment_of home"

definition is_home :: "string \<Rightarrow> string \<Rightarrow> string \<Rightarrow> bool" where
  "is_home home deployment node \<longleftrightarrow>
     (case strip_prefix deployment home of
        None \<Rightarrow> None
      | Some rest \<Rightarrow> strip_prefix ''/'' rest) = Some node"

section \<open>Nodes of a Tenant\<close>

definition node_label :: "string \<Rightarrow> string result" where
  "node_label value =
     (case label value of
        Inl _ \<Rightarrow> Inl (Invalid ''a Node label needs 1 to 64 characters without control characters'')
      | Inr v \<Rightarrow> Inr v)"

definition node_limit :: "tenancy_rules \<Rightarrow> u32 option \<Rightarrow> u32" where
  "node_limit rules tier =
     (case tier of
        None \<Rightarrow> nodes_per_tenant rules
      | Some t \<Rightarrow> min t (nodes_per_tenant rules))"

datatype node_limit_reached = NodeLimitReached

definition check_node_creation :: "u32 \<Rightarrow> u32 \<Rightarrow> node_limit_reached + unit" where
  "check_node_creation limit count = refuse_if (limit \<le> count) NodeLimitReached"

section \<open>Node deletion\<close>

definition node_grace_days :: "u32 \<Rightarrow> u32 result" where
  "node_grace_days n =
     (if \<not> (MIN_GRACE_DAYS \<le> n \<and> n \<le> MAX_GRACE_DAYS)
      then Inl (Invalid ''the Node Deletion grace period lasts 1 to 90 days'')
      else Inr n)"

text \<open>\<open>checked_add_signed\<close> fails beyond the greatest instant, a parameter here.\<close>

definition node_purge_after :: "datetime \<Rightarrow> datetime \<Rightarrow> u32 \<Rightarrow> datetime result" where
  "node_purge_after max_datetime deleted_at n =
     and_then (node_grace_days n) (\<lambda>n.
       if deleted_at + days n \<le> max_datetime then Inr (deleted_at + days n)
       else Inl (Invalid ''Node deletion deadline is out of range''))"

definition check_node_delete :: "bool \<Rightarrow> u32 \<Rightarrow> unit result" where
  "check_node_delete is_default live_count =
     (if is_default then Inl (Conflict ''node_is_default'')
      else if live_count \<le> 1 then Inl (Conflict ''node_is_last_live'')
      else Inr ())"

definition check_node_restore :: "deletion \<Rightarrow> deletion_actor \<Rightarrow> datetime \<Rightarrow> unit result" where
  "check_node_restore d restorer now =
     (if restored d then Inl (Conflict ''the Node is not deleted'')
      else if purged d then Inl (Conflict ''node_purged'')
      else if restorable_until d \<le> now then Inl (Conflict ''node_grace_period_ended'')
      else if deleted_by d = DeploymentAdministrator \<and> restorer \<noteq> DeploymentAdministrator
      then Inl (Conflict
        ''only a Deployment Administrator restores a Node a Deployment Administrator deleted'')
      else Inr ())"

datatype node_purge_step = NodeCapabilityObjects | NodeRows | NodeFinish

definition NODE_PURGE_ALL :: "node_purge_step list" where
  "NODE_PURGE_ALL = [NodeCapabilityObjects, NodeRows, NodeFinish]"

fun node_purge_step_str :: "node_purge_step \<Rightarrow> string" where
  "node_purge_step_str NodeCapabilityObjects = ''capability_objects''"
| "node_purge_step_str NodeRows = ''rows''"
| "node_purge_step_str NodeFinish = ''finish''"

definition node_purge_step_parse :: "string \<Rightarrow> node_purge_step result" where
  "node_purge_step_parse value =
     (case find (\<lambda>s. node_purge_step_str s = value) NODE_PURGE_ALL of
        Some s \<Rightarrow> Inr s
      | None \<Rightarrow> Inl (Invalid (''unknown Node purge step: '' @ value)))"

section \<open>The parsers and their printers\<close>

definition deployment_ok :: "deployment_id \<Rightarrow> bool" where
  "deployment_ok d \<longleftrightarrow> is_ok (DeploymentId_parse (deployment_str d))"

definition node_name_ok :: "node_name \<Rightarrow> bool" where
  "node_name_ok n \<longleftrightarrow> is_ok (NodeName_parse (node_name_str n))"

definition node_address_ok :: "node_address \<Rightarrow> bool" where
  "node_address_ok a \<longleftrightarrow> deployment_ok (addr_deployment a) \<and> node_name_ok (addr_node a)"

lemma DeploymentId_parse_iff:
  "DeploymentId_parse s = Inr d \<longleftrightarrow>
     d = DeploymentId s \<and> (\<exists>name. s = SCHEME @ name \<and> name \<noteq> [] \<and> length name \<le> DEPLOYMENT_NAME_MAX
       \<and> list_all (\<lambda>c. is_ascii_alphanumeric c \<or> c = CHR ''-'') name)"
  by (auto simp: DeploymentId_parse_def Let_def split: option.splits)

lemma NodeName_parse_sound: "NodeName_parse s = Inr n \<Longrightarrow> n = NodeName s"
  by (auto simp: NodeName_parse_def Let_def split: if_splits list.splits)

interpretation deployment_text: textual DeploymentId_parse deployment_str deployment_ok
proof unfold_locales
  fix s d assume "DeploymentId_parse s = Inr d"
  then show "deployment_ok d \<and> deployment_str d = s"
    by (auto simp: deployment_ok_def DeploymentId_parse_iff is_ok_iff)
next
  fix d assume "deployment_ok d"
  then show "DeploymentId_parse (deployment_str d) = Inr d"
    by (cases d) (auto simp: deployment_ok_def DeploymentId_parse_iff is_ok_iff)
qed

interpretation node_name_text: textual NodeName_parse node_name_str node_name_ok
proof unfold_locales
  fix s n assume "NodeName_parse s = Inr n"
  then show "node_name_ok n \<and> node_name_str n = s"
    using NodeName_parse_sound by (fastforce simp: node_name_ok_def)
next
  fix n assume "node_name_ok n"
  then show "NodeName_parse (node_name_str n) = Inr n"
    using NodeName_parse_sound by (cases n) (fastforce simp: node_name_ok_def is_ok_iff)
qed

interpretation key_id_text: textual DeploymentKeyId_parse key_id_str
  "\<lambda>k. is_ok (DeploymentKeyId_parse (key_id_str k))"
proof unfold_locales
  fix s k assume "DeploymentKeyId_parse s = Inr k"
  then show "is_ok (DeploymentKeyId_parse (key_id_str k)) \<and> key_id_str k = s"
    by (auto simp: DeploymentKeyId_parse_def split: if_splits)
next
  fix k assume "is_ok (DeploymentKeyId_parse (key_id_str k))"
  then show "DeploymentKeyId_parse (key_id_str k) = Inr k"
    by (cases k) (auto simp: DeploymentKeyId_parse_def is_ok_def split: if_splits)
qed

interpretation node_purge_text: textual node_purge_step_parse node_purge_step_str "\<lambda>_. True"
proof unfold_locales
  fix s x assume "node_purge_step_parse s = Inr x"
  then show "True \<and> node_purge_step_str x = s"
    by (auto simp: node_purge_step_parse_def find_Some_iff split: option.splits)
next
  fix x show "node_purge_step_parse (node_purge_step_str x) = Inr x"
    by (cases x) (simp_all add: node_purge_step_parse_def NODE_PURGE_ALL_def)
qed

lemma deployment_ok_str:
  assumes "deployment_ok d"
  obtains name where "deployment_str d = SCHEME @ name" "CHR ''/'' \<notin> set name"
    "length name \<le> DEPLOYMENT_NAME_MAX"
proof -
  from assms obtain name where name: "deployment_str d = SCHEME @ name"
    "length name \<le> DEPLOYMENT_NAME_MAX"
    "list_all (\<lambda>c. is_ascii_alphanumeric c \<or> c = CHR ''-'') name"
    by (auto simp: deployment_ok_def is_ok_iff DeploymentId_parse_iff)
  moreover have "\<not> is_ascii_alphanumeric CHR ''/''" by code_simp
  ultimately show ?thesis by (intro that[of name]) (auto simp: list_all_iff)
qed

lemma node_name_ok_length: "node_name_ok n \<Longrightarrow> length (node_name_str n) \<le> NODE_NAME_MAX_LEN"
  by (auto simp: node_name_ok_def NodeName_parse_def Let_def is_ok_iff split: if_splits)

interpretation address_text: textual NodeAddress_parse NodeAddress_display node_address_ok
proof unfold_locales
  fix s a assume "NodeAddress_parse s = Inr a"
  then obtain dep node d n where s: "s = SCHEME @ dep @ CHR ''/'' # node"
    and d: "DeploymentId_parse (SCHEME @ dep) = Inr d" and n: "NodeName_parse node = Inr n"
    and a: "a = \<lparr>addr_deployment = d, addr_node = n\<rparr>"
    by (auto simp: NodeAddress_parse_def Let_def split_once_Some_iff
        split: if_splits option.splits sum.splits)
  from deployment_text.parse_sound[OF d] node_name_text.parse_sound[OF n] s a
  show "node_address_ok a \<and> NodeAddress_display a = s"
    by (simp add: node_address_ok_def NodeAddress_display_def)
next
  fix a assume "node_address_ok a"
  then have ok: "deployment_ok (addr_deployment a)" "node_name_ok (addr_node a)"
    by (simp_all add: node_address_ok_def)
  from ok(1) obtain name where name: "deployment_str (addr_deployment a) = SCHEME @ name"
    "CHR ''/'' \<notin> set name" "length name \<le> DEPLOYMENT_NAME_MAX"
    by (rule deployment_ok_str)
  have "length (NodeAddress_display a) \<le> NODE_ADDRESS_MAX_LEN"
    using name node_name_ok_length[OF ok(2)]
    by (simp add: NodeAddress_display_def NODE_ADDRESS_MAX_LEN_def DEPLOYMENT_MAX_LEN_def)
  moreover have "NodeAddress_display a = SCHEME @ name @ CHR ''/'' # node_name_str (addr_node a)"
    by (simp add: NodeAddress_display_def name)
  moreover have "split_once CHR ''/'' (name @ CHR ''/'' # node_name_str (addr_node a))
      = Some (name, node_name_str (addr_node a))"
    using name(2) by (simp add: split_once_Some_iff)
  ultimately show "NodeAddress_parse (NodeAddress_display a) = Inr a"
    using deployment_text.parse_complete[OF ok(1)] node_name_text.parse_complete[OF ok(2)] name(1)
    by (simp add: NodeAddress_parse_def)
qed

section \<open>Assigned names are Node names\<close>

lemma plain_word_no_dash: "plain_word w \<Longrightarrow> CHR ''-'' \<notin> set w"
proof -
  have "\<not> is_ascii_lowercase CHR ''-''" by code_simp
  then show "plain_word w \<Longrightarrow> CHR ''-'' \<notin> set w" by (auto simp: plain_word_def list_all_iff)
qed

lemma suffix_no_dash: "list_all suffix_char s \<Longrightarrow> CHR ''-'' \<notin> set s"
proof -
  have "\<not> suffix_char CHR ''-''" by code_simp
  then show "list_all suffix_char s \<Longrightarrow> CHR ''-'' \<notin> set s" by (auto simp: list_all_iff)
qed

lemma assigned_name_parses: "NodeName_parse (assigned_name e) = Inr (NodeName (assigned_name e))"
proof -
  obtain a b s where name: "assigned_name e = a @ ''-'' @ b @ ''-'' @ s"
    and mem: "a \<in> set ADJECTIVES" "b \<in> set NOUNS"
    and s: "length s = RANDOM_LENGTH" "list_all suffix_char s"
    by (rule assigned_name_shape)
  have plain: "plain_word a" "plain_word b"
    using words_plain mem by (auto simp: list_all_iff)
  have "length (assigned_name e) \<le> NODE_NAME_MAX_LEN"
    using longest_ge[OF mem(1)] longest_ge[OF mem(2)] s(1)
    by (simp add: name NODE_NAME_MAX_LEN_def ASSIGNED_NAME_MAX_LEN_def)
  moreover have "split CHR ''-'' (assigned_name e) = [a, b, s]"
    using plain_word_no_dash[OF plain(1)] plain_word_no_dash[OF plain(2)] suffix_no_dash[OF s(2)]
    by (simp add: name split_append_sep split_no_sep)
  ultimately show ?thesis
    using plain s by (simp add: NodeName_parse_def plain_word_def suffix_char_def list_all_iff)
qed

section \<open>Addresses and Deployments\<close>

lemma deployment_of_display:
  assumes "node_address_ok a"
  shows "deployment_of (NodeAddress_display a) = deployment_str (addr_deployment a)"
proof -
  from assms obtain name where name: "deployment_str (addr_deployment a) = SCHEME @ name"
    "CHR ''/'' \<notin> set name"
    by (auto simp: node_address_ok_def elim: deployment_ok_str)
  have "takeWhile (\<lambda>c. c \<noteq> CHR ''/'') (name @ CHR ''/'' # node_name_str (addr_node a)) = name"
    using name(2) by (subst takeWhile_append2) auto
  then show ?thesis
    by (simp add: deployment_of_def NodeAddress_display_def find_char_def name)
qed

lemma deployment_of_id:
  assumes "deployment_ok d"
  shows "deployment_of (deployment_str d) = deployment_str d"
proof -
  from assms obtain name where name: "deployment_str d = SCHEME @ name" "CHR ''/'' \<notin> set name"
    by (rule deployment_ok_str)
  then show ?thesis by (simp add: deployment_of_def find_char_def)
qed

lemma is_home_iff: "is_home home deployment node \<longleftrightarrow> home = deployment @ ''/'' @ node"
  by (auto simp: is_home_def split: option.splits)

section \<open>Properties\<close>

text \<open>
  Property C40. Every name drawn from entropy has the form of a Node name, so a Node can be
  addressed by the name it was assigned.
\<close>

theorem assigned_name_is_node_name:
  "NodeName_parse (assigned_name e) = Inr (NodeName_from_entropy e)
   \<and> length (assigned_name e) \<le> NODE_NAME_MAX_LEN"
proof -
  have "node_name_ok (NodeName (assigned_name e))" by (simp add: node_name_ok_def assigned_name_parses)
  from node_name_ok_length[OF this] show ?thesis
    by (simp add: assigned_name_parses NodeName_from_entropy_def)
qed

text \<open>
  Property C39. Parsing a Node address accepts exactly the texts that displaying a well-formed
  address gives, and returns that address.
\<close>

theorem address_round_trip:
  "NodeAddress_parse s = Inr a \<longleftrightarrow>
     s = NodeAddress_display a
     \<and> DeploymentId_parse (deployment_str (addr_deployment a)) = Inr (addr_deployment a)
     \<and> NodeName_parse (node_name_str (addr_node a)) = Inr (addr_node a)"
  using address_text.parse_iff[of s a]
    deployment_text.parse_iff[of "deployment_str (addr_deployment a)" "addr_deployment a"]
    node_name_text.parse_iff[of "node_name_str (addr_node a)" "addr_node a"]
  by (auto simp: node_address_ok_def)

text \<open>
  Two Node addresses are of the same deployment, judged on their texts, exactly when
  their deployments are equal.
\<close>

theorem same_deployment_addresses:
  assumes "NodeAddress_parse s = Inr a" "NodeAddress_parse t = Inr b"
  shows "same_deployment s t \<longleftrightarrow> addr_deployment a = addr_deployment b"
proof -
  from assms have ok: "node_address_ok a" "s = NodeAddress_display a"
      "node_address_ok b" "t = NodeAddress_display b"
    by (auto simp: address_text.parse_iff)
  then show ?thesis
    by (auto simp: same_deployment_def deployment_of_display node_address_ok_def
        intro: deployment_text.print_inj)
qed

theorem same_deployment_addresses_witness:
  "let address = (\<lambda>dep e. NodeAddress_display
         \<lparr> addr_deployment = DeploymentId (SCHEME @ dep), addr_node = NodeName (assigned_name e) \<rparr>)
   in same_deployment (address ''acme'' (replicate 16 0)) (address ''acme'' (replicate 16 1))
      \<and> \<not> same_deployment (address ''acme'' (replicate 16 0)) (address ''acme-eu'' (replicate 16 0))"
proof -
  let ?a = "\<lambda>dep e. \<lparr> addr_deployment = DeploymentId (SCHEME @ dep), addr_node = NodeName (assigned_name e) \<rparr>"
  have dep: "deployment_ok (DeploymentId (SCHEME @ ''acme''))" "deployment_ok (DeploymentId (SCHEME @ ''acme-eu''))"
    by (simp_all add: deployment_ok_def DeploymentId_parse_iff is_ok_iff DEPLOYMENT_NAME_MAX_def text_eval)
  have parsed: "NodeAddress_parse (NodeAddress_display (?a d e)) = Inr (?a d e)"
    if "deployment_ok (DeploymentId (SCHEME @ d))" for d e
    using that by (intro address_text.parse_complete)
      (simp add: node_address_ok_def node_name_ok_def assigned_name_parses)
  from same_deployment_addresses[OF parsed parsed] dep show ?thesis by (simp add: Let_def)
qed

end
