(* ===== verification/Run_State.thy ===== *)
theory Run_State
  imports Nodes Json
begin

text \<open>
  Tasks and Runs (crates/aidash-domain/src/entities.rs, run\_state.rs, run\_state/capability.rs,
  media.rs, semantic/degraded.rs): the statuses of a Task, the phases and controls of a Run, the
  state a Run persists in each phase, suspension and resumption, and the capabilities a worker
  needs to load a persisted state.

  \<open>'v\<close> is the type of JSON values. Of the execution context of a Run only the fields that the
  modelled operations read or write are named; \<open>'x\<close> holds the others, which they keep.
\<close>

section \<open>Statuses\<close>

datatype task_status =
    TOpen | TClaimed | TRunning | TCompleted | TFailed | TBlocked | TCancelled | TAbandoned

fun listed_transition :: "task_status \<Rightarrow> task_status \<Rightarrow> bool" where
  "listed_transition TOpen s = (s \<in> {TClaimed, TFailed})"
| "listed_transition TClaimed s = (s \<in> {TRunning, TFailed})"
| "listed_transition TRunning s = (s \<in> {TCompleted, TFailed, TBlocked})"
| "listed_transition TBlocked s = (s = TRunning)"
| "listed_transition TFailed s = (s = TOpen)"
| "listed_transition _ s = False"

definition can_transition :: "task_status \<Rightarrow> task_status \<Rightarrow> bool" where
  "can_transition s s' \<longleftrightarrow>
     listed_transition s s' \<or> (s' = TCancelled \<and> s \<notin> {TCompleted, TCancelled, TAbandoned})"

definition task_is_terminal :: "task_status \<Rightarrow> bool" where
  "task_is_terminal s \<longleftrightarrow> s \<in> {TCompleted, TFailed, TCancelled, TAbandoned}"

datatype run_phase =
    PReady | PThinking | PToolCall | PWaiting | PCompleted | PFailed | PCancelled

definition phase_is_terminal :: "run_phase \<Rightarrow> bool" where
  "phase_is_terminal p \<longleftrightarrow> p \<in> {PCompleted, PFailed, PCancelled}"

datatype run_control = Active | Paused | ControlCancelled

datatype control_source = ByTenant | ByDeploymentAdministrator | BySystem

record child_task_summary =
  has_pending :: bool
  has_failed :: bool

definition include_status :: "task_status \<Rightarrow> child_task_summary \<Rightarrow> child_task_summary" where
  "include_status s c =
     \<lparr> has_pending = (has_pending c \<or> s \<notin> {TCompleted, TAbandoned}),
       has_failed = (has_failed c \<or> s \<in> {TFailed, TBlocked, TCancelled}) \<rparr>"

section \<open>What a persisted state holds\<close>

record model_file_selection =
  mf_file_id :: uuid
  mf_expected_digest :: string
  mf_workspace_id :: "uuid option"
  mf_area_id :: "uuid option"

record working_image_selection =
  wi_area_id :: uuid
  wi_generation :: int
  wi_file_id :: uuid
  wi_path :: string
  wi_expected_digest :: string

record page_image_selection =
  pi_evidence_ref :: string
  pi_expected_digest :: string

record thread_attachment_selection =
  ta_attachment_id :: uuid
  ta_message_id :: uuid
  ta_expected_digest :: string
  ta_wav :: bool

datatype model_media =
    MediaFile model_file_selection
  | WorkingImage working_image_selection
  | PageImage page_image_selection
  | ThreadAttachment thread_attachment_selection

definition supported_by :: "string list \<Rightarrow> model_media \<Rightarrow> bool" where
  "supported_by modalities m \<longleftrightarrow>
     (case m of WorkingImage _ \<Rightarrow> ''image'' \<in> set modalities | _ \<Rightarrow> True)"

record 'v tool_call =
  call_id :: string
  call_name :: string
  call_arguments :: 'v

text \<open>Of \<open>ModelResponse\<close> the usage report, which is not persisted, is left out.\<close>

record 'v model_response =
  provider_activity :: "'v list"
  response_text :: string
  tool_calls :: "'v tool_call list"
  input_tokens :: u64
  output_tokens :: u64
  usage_complete :: bool

datatype connection_cause =
    ConnectionRequired string
  | ConnectionScopeInsufficient string "string option"

fun cause_resource :: "connection_cause \<Rightarrow> string" where
  "cause_resource (ConnectionRequired resource) = resource"
| "cause_resource (ConnectionScopeInsufficient resource _) = resource"

record 'v connection_call_state =
  cc_cause :: "connection_cause option"
  cc_resolved :: bool
  cc_attempt :: u32
  cc_waited_millis :: u64
  cc_refused :: "'v option"

record connection_refusal =
  cr_cause :: connection_cause
  cr_tool :: string
  cr_scopes :: "string list"

record 'v connection_wait =
  cw_request_id :: uuid
  cw_resource :: string
  cw_started_at :: datetime
  cw_answer_by :: datetime
  cw_call :: "'v tool_call option"
  cw_key :: string

record 'v input_request =
  ir_method :: string
  ir_params :: 'v

record 'v required_input =
  request_state :: "string option"
  input_requests :: "(string, 'v input_request) btree_map"

record 'v sent_round =
  sr_key :: string
  sr_input :: 'v

record active_input =
  ai_id :: string
  ai_started_at :: datetime
  ai_deadline :: datetime

record 'v call_checkpoint =
  ck_key :: string
  continuation_sends :: u32
  wire_pending :: bool
  ck_sent :: "'v sent_round option"
  ck_input :: "'v required_input option"
  ck_responses :: "(string, 'v) btree_map"
  ck_active :: "active_input option"
  ck_waited_millis :: u64

record 'v deferred_read =
  dr_message :: string
  dr_call :: "'v tool_call"

record 'v read_plan =
  rp_step :: int
  rp_cursor :: nat
  rp_call :: "'v tool_call"
  rp_result :: 'v

record 'v home_approval =
  ha_key :: string
  ha_call :: "'v tool_call"
  ha_approved :: bool

record 'v thinking_state =
  force_workspace_read_compaction :: bool
  deferred_workspace_read :: "'v deferred_read option"
  deferred_skill_read :: "'v deferred_read option"
  deferred_workspace_observation :: "'v deferred_read option"
  th_selected_media :: "model_media list"
  th_media_intake_through_seq :: "int option"
  deferred_run_message_reads :: "uuid list"

text \<open>\<open>ThinkingState::default()\<close>\<close>

definition default_thinking :: "'v thinking_state" where
  "default_thinking =
     \<lparr> force_workspace_read_compaction = False, deferred_workspace_read = None,
       deferred_skill_read = None, deferred_workspace_observation = None, th_selected_media = [],
       th_media_intake_through_seq = None, deferred_run_message_reads = [] \<rparr>"

record 'v tool_call_state =
  ts_connection :: "'v connection_call_state option"
  response :: "'v model_response"
  response_epoch :: int
  cursor :: nat
  included_input_seq :: int
  request_window :: nat
  request_tokens :: nat
  finalizing :: bool
  media_inferred_seq_before_response :: int
  observed_input_seq_before_response :: int
  inferred_selected_media :: "model_media list"
  deferred_selected_media :: "model_media list"
  ts_selected_media :: "model_media list"
  deferred_human_media :: bool
  media_inferred_through_seq :: "int option"
  media_intake_through_seq :: int
  required_run_message_reads :: "uuid list"
  references_read_at_inference :: bool
  run_message_catchup :: bool
  run_message_summary_end_seq :: int
  run_message_summary_limit :: nat
  deferred_reads :: "'v thinking_state"
  workspace_read_plan :: "'v read_plan option"
  skill_read_plan :: "'v read_plan option"
  workspace_observation_plan :: "'v read_plan option"
  ts_home_approval :: "'v home_approval option"
  ts_approval :: "uuid option"
  batch_end :: "nat option"
  ts_mcp :: "'v call_checkpoint option"

datatype 'v resume_state =
    ResumeReady
  | ResumeThinking "'v thinking_state"
  | ResumeToolCall "'v tool_call_state"

datatype failure_target = TargetFailed | TargetCancelled

datatype 'v approval_ref =
    CapabilityApproval uuid
  | HomeApprovalRef uuid string "'v tool_call" datetime

datatype 'v waiting_state =
    Dependencies datetime
  | Children datetime "'v thinking_state"
  | Timer datetime "'v resume_state"
  | Human uuid "datetime option" "'v resume_state"
  | Approval "'v approval_ref" "'v tool_call_state"
  | Reconciliation uuid string "'v tool_call_state"
  | FailureDelivery failure_target datetime "string option"

datatype 'v run_state =
    RunReady
  | RunThinking "'v thinking_state"
  | RunToolCall "'v tool_call_state"
  | RunWaiting "'v waiting_state"
  | RunCompleted
  | RunFailed
  | RunCancelled

section \<open>Operations on states\<close>

definition advance :: "nat \<Rightarrow> 'v tool_call_state \<Rightarrow> 'v tool_call_state" where
  "advance c s =
     s\<lparr>cursor := c, ts_home_approval := None, ts_approval := None, ts_mcp := None, ts_connection := None\<rparr>"

definition selected_media :: "'v tool_call_state \<Rightarrow> model_media list" where
  "selected_media s = deferred_selected_media s @ ts_selected_media s"

text \<open>The loop of \<open>stale\<close> that keeps the first occurrence of each selection.\<close>

definition push_new :: "model_media \<Rightarrow> model_media list \<Rightarrow> model_media list" where
  "push_new value kept = (if value \<in> set kept then kept else kept @ [value])"

text \<open>
  \<open>stale\<close> also writes the \<open>media_inferred_seq\<close> of the context and the observed sequence of the
  Run; the model returns the three.
\<close>

definition stale :: "'v tool_call_state \<Rightarrow> 'v thinking_state \<times> int \<times> int" where
  "stale s =
     (default_thinking\<lparr>
        th_selected_media :=
          fold push_new (inferred_selected_media s @ deferred_selected_media s @ ts_selected_media s) [],
        th_media_intake_through_seq := Some (media_intake_through_seq s),
        deferred_run_message_reads := required_run_message_reads s\<rparr>,
      media_inferred_seq_before_response s, observed_input_seq_before_response s)"

fun into_state :: "'v resume_state \<Rightarrow> 'v run_state" where
  "into_state ResumeReady = RunReady"
| "into_state (ResumeThinking s) = RunThinking s"
| "into_state (ResumeToolCall s) = RunToolCall s"

fun target_task_status :: "failure_target \<Rightarrow> task_status" where
  "target_task_status TargetFailed = TFailed"
| "target_task_status TargetCancelled = TCancelled"

fun target_into_state :: "failure_target \<Rightarrow> 'v run_state" where
  "target_into_state TargetFailed = RunFailed"
| "target_into_state TargetCancelled = RunCancelled"

fun waiting_deadline :: "'v waiting_state \<Rightarrow> datetime option" where
  "waiting_deadline (Dependencies wake_at) = Some wake_at"
| "waiting_deadline (Children wake_at _) = Some wake_at"
| "waiting_deadline (Timer wake_at _) = Some wake_at"
| "waiting_deadline (FailureDelivery _ wake_at _) = Some wake_at"
| "waiting_deadline (Human _ answer_by _) = answer_by"
| "waiting_deadline (Approval (HomeApprovalRef _ _ _ expires_at) _) = Some expires_at"
| "waiting_deadline _ = None"

fun waiting_request_id :: "'v waiting_state \<Rightarrow> uuid option" where
  "waiting_request_id (Human request_id _ _) = Some request_id"
| "waiting_request_id (Approval (HomeApprovalRef request_id _ _ _) _) = Some request_id"
| "waiting_request_id (Reconciliation request_id _ _) = Some request_id"
| "waiting_request_id _ = None"

fun state_phase :: "'v run_state \<Rightarrow> run_phase" where
  "state_phase RunReady = PReady"
| "state_phase (RunThinking _) = PThinking"
| "state_phase (RunToolCall _) = PToolCall"
| "state_phase (RunWaiting _) = PWaiting"
| "state_phase RunCompleted = PCompleted"
| "state_phase RunFailed = PFailed"
| "state_phase RunCancelled = PCancelled"

fun failure_delivery :: "'v run_state \<Rightarrow> bool" where
  "failure_delivery (RunWaiting (FailureDelivery _ _ _)) = True"
| "failure_delivery _ = False"

fun state_tool :: "'v run_state \<Rightarrow> 'v tool_call_state result" where
  "state_tool (RunToolCall s) = Inr s"
| "state_tool _ = Inl (Invalid ''expected ToolCall state'')"

fun state_resume :: "'v run_state \<Rightarrow> 'v resume_state result" where
  "state_resume RunReady = Inr ResumeReady"
| "state_resume (RunThinking s) = Inr (ResumeThinking s)"
| "state_resume (RunToolCall s) = Inr (ResumeToolCall s)"
| "state_resume _ = Inl (Invalid ''state cannot be suspended'')"

definition check_progress :: "'v tool_call_state \<Rightarrow> unit result" where
  "check_progress s =
     refuse_if (cursor s > length (tool_calls (response s)) \<or> response_epoch s < 0 \<or> included_input_seq s < 0)
       (Invalid ''invalid ToolCall progress'')"

fun state_validate :: "'v run_state \<Rightarrow> unit result" where
  "state_validate (RunToolCall s) = check_progress s"
| "state_validate (RunWaiting (Approval _ s)) = check_progress s"
| "state_validate (RunWaiting (Reconciliation _ _ s)) = check_progress s"
| "state_validate (RunWaiting (Timer _ (ResumeToolCall s))) = check_progress s"
| "state_validate (RunWaiting (Human _ _ (ResumeToolCall s))) = check_progress s"
| "state_validate _ = Inr ()"

section \<open>Recovery state and Runs\<close>

datatype semantic_failure =
    SConfiguration | SAuthority | SInvalidated | SProviderContract | SEmbeddingModelNotFound
  | SContextBudget | SDurableMemoryBudget | SAllowance | SUnavailable | SRetriesExhausted
  | SPending | SStale

definition transient :: "semantic_failure \<Rightarrow> bool" where
  "transient f \<longleftrightarrow> f = SUnavailable"

fun compatible :: "semantic_failure \<Rightarrow> semantic_failure" where
  "compatible SDurableMemoryBudget = SContextBudget"
| "compatible SEmbeddingModelNotFound = SProviderContract"
| "compatible other = other"

definition OUTAGE_RETRIES :: u32 where "OUTAGE_RETRIES = 5"
definition PENDING_REPLAY_SECONDS :: int where "PENDING_REPLAY_SECONDS = 30"
definition LEASE_RECOVERY_LIMIT :: u32 where "LEASE_RECOVERY_LIMIT = 3"

datatype context_failure =
    SourceSelectionUnavailable | SourceSelectionForbidden | SourceSelectionUnapproved
  | SourceSelectionCallsExhausted | ContextUnreducible | DeciderUnapproved | DeciderCallsExhausted
  | DeciderUnavailable | SummaryUnavailable | SummaryInvalid | OverflowRetriesExhausted
  | OutputTruncated | Refused

datatype outage_cause = EmbeddingProvider | VectorBackend

record degraded_step =
  ds_step :: int
  ds_cause :: outage_cause

record degraded_context =
  dc_count :: u32
  dc_recent :: "degraded_step list"
  dc_outage :: bool

definition no_degradation :: degraded_context where
  "no_degradation = \<lparr> dc_count = 0, dc_recent = [], dc_outage = False \<rparr>"

definition degraded_is_empty :: "degraded_context \<Rightarrow> bool" where
  "degraded_is_empty d \<longleftrightarrow> d = no_degradation"

definition MAX_RECENT_DEGRADED_STEPS :: nat where "MAX_RECENT_DEGRADED_STEPS = 16"

definition record_degraded :: "int \<Rightarrow> outage_cause \<Rightarrow> degraded_context \<Rightarrow> bool \<times> degraded_context" where
  "record_degraded step cause d =
     (let d = d\<lparr>dc_outage := True\<rparr> in
      if dc_recent d \<noteq> [] \<and> ds_step (last (dc_recent d)) = step
      then (False, d\<lparr>dc_recent := butlast (dc_recent d) @ [(last (dc_recent d))\<lparr>ds_cause := cause\<rparr>]\<rparr>)
      else let recent = dc_recent d @ [\<lparr> ds_step = step, ds_cause = cause \<rparr>]
           in (True, d\<lparr>dc_count := saturating_add (dc_count d) 1,
                       dc_recent := drop (length recent - MAX_RECENT_DEGRADED_STEPS) recent\<rparr>))"

definition degraded_recovered :: "degraded_context \<Rightarrow> degraded_context" where
  "degraded_recovered d = d\<lparr>dc_outage := False\<rparr>"

record retry_state =
  retry_count :: u32
  retry_at :: datetime

record 'v recovery_state =
  connection_refusals :: "connection_refusal list"
  connection_waited :: "string btree_set"
  rs_connection_wait :: "'v connection_wait option"
  semantic_reason :: "semantic_failure option"
  context_reason :: "context_failure option"
  retry :: "retry_state option"
  lease_recoveries :: u32
  decision_cycle :: u32
  decider_retry :: u32
  degraded :: degraded_context

definition default_recovery :: "'v recovery_state" where
  "default_recovery =
     \<lparr> connection_refusals = [], connection_waited = [], rs_connection_wait = None,
       semantic_reason = None, context_reason = None, retry = None, lease_recoveries = 0,
       decision_cycle = 0, decider_retry = 0, degraded = no_degradation \<rparr>"

definition degrades_on_outage :: "'v recovery_state \<Rightarrow> bool" where
  "degrades_on_outage r \<longleftrightarrow>
     dc_outage (degraded r)
     \<or> (semantic_reason r \<in> {Some SUnavailable, Some SPending}
        \<and> (case retry r of None \<Rightarrow> False | Some x \<Rightarrow> OUTAGE_RETRIES \<le> retry_count x))"

record plugin_finding =
  pf_plugin :: string
  pf_connection :: "connection_cause option"

record ('v, 'x) exec_context =
  media_inferred_seq :: int
  source_observation :: "'v option"
  plugin_findings :: "plugin_finding list option"
  context_rest :: 'x

record ('v, 'x) run =
  run_id :: uuid
  run_task_id :: uuid
  run_workspace_id :: uuid
  run_node :: node_name
  home_node :: string
  run_agent_id :: string
  run_agent_version :: string
  state :: "'v run_state"
  recovery :: "'v recovery_state"
  control :: run_control
  control_revision :: int
  run_control_source :: control_source
  run_context :: "('v, 'x) exec_context"
  run_step :: int
  revision :: int
  observed_input_seq :: int
  ledger_worker_ready :: bool
  run_error :: "string option"
  lease_owner :: "uuid option"
  lease_until :: "datetime option"
  updated_at :: datetime

definition is_local :: "string \<Rightarrow> ('v, 'x) run \<Rightarrow> bool" where
  "is_local deployment r = is_home (home_node r) deployment (node_name_str (run_node r))"

definition agent_subject :: "string \<Rightarrow> string \<Rightarrow> string \<Rightarrow> string" where
  "agent_subject node i version = node @ ''/agents/'' @ i @ ''@'' @ version"

definition executor_subject :: "string \<Rightarrow> ('v, 'x) run \<Rightarrow> string" where
  "executor_subject deployment r =
     agent_subject (deployment @ ''/'' @ node_name_str (run_node r)) (run_agent_id r) (run_agent_version r)"

definition run_included_input_seq :: "('v, 'x) run \<Rightarrow> int" where
  "run_included_input_seq r =
     (case state r of
        RunToolCall s \<Rightarrow> included_input_seq s
      | RunWaiting (Approval _ s) \<Rightarrow> included_input_seq s
      | RunWaiting (Reconciliation _ _ s) \<Rightarrow> included_input_seq s
      | RunWaiting (Human _ _ (ResumeToolCall s)) \<Rightarrow> included_input_seq s
      | RunWaiting (Timer _ (ResumeToolCall s)) \<Rightarrow> included_input_seq s
      | _ \<Rightarrow> observed_input_seq r)"

definition suspend :: "('v resume_state \<Rightarrow> 'v waiting_state) \<Rightarrow> ('v, 'x) run \<Rightarrow> ('v, 'x) run result" where
  "suspend wait r =
     and_then (state_resume (state r)) (\<lambda>resume. Inr (r\<lparr>state := RunWaiting (wait resume)\<rparr>))"

definition cancelled_delivery :: "('v, 'x) run \<Rightarrow> ('v, 'x) run" where
  "cancelled_delivery r = r\<lparr>state := RunCancelled, run_error := None\<rparr>"

section \<open>Capabilities of workers\<close>

datatype persisted_capability =
    ToolBatchState | DegradedContext | McpCallState | McpSentRound | ConnectionWaitState

definition capability_ALL :: "persisted_capability list" where
  "capability_ALL = [ToolBatchState, DegradedContext, McpCallState, McpSentRound, ConnectionWaitState]"

text \<open>The derived order of the variants is the order of their declaration.\<close>

fun capability_rank :: "persisted_capability \<Rightarrow> nat" where
  "capability_rank ToolBatchState = 0"
| "capability_rank DegradedContext = 1"
| "capability_rank McpCallState = 2"
| "capability_rank McpSentRound = 3"
| "capability_rank ConnectionWaitState = 4"

instantiation persisted_capability :: linorder
begin

definition less_eq_persisted_capability :: "persisted_capability \<Rightarrow> persisted_capability \<Rightarrow> bool" where
  "less_eq_persisted_capability c d \<longleftrightarrow> capability_rank c \<le> capability_rank d"

definition less_persisted_capability :: "persisted_capability \<Rightarrow> persisted_capability \<Rightarrow> bool" where
  "less_persisted_capability c d \<longleftrightarrow> capability_rank c < capability_rank d"

instance
proof
  fix c d :: persisted_capability
  show "c \<le> d \<Longrightarrow> d \<le> c \<Longrightarrow> c = d" by (cases c; cases d; simp add: less_eq_persisted_capability_def)
qed (auto simp: less_eq_persisted_capability_def less_persisted_capability_def)

end

fun capability_name :: "persisted_capability \<Rightarrow> string" where
  "capability_name ToolBatchState = ''tool_batch_state''"
| "capability_name DegradedContext = ''degraded_context''"
| "capability_name McpCallState = ''mcp_call_state''"
| "capability_name McpSentRound = ''mcp_sent_round''"
| "capability_name ConnectionWaitState = ''connection_wait''"

definition tool_capabilities :: "'v tool_call_state \<Rightarrow> persisted_capability list" where
  "tool_capabilities s =
     (if batch_end s \<noteq> None then [ToolBatchState] else [])
     @ (if ts_connection s \<noteq> None then [ConnectionWaitState] else [])
     @ (if ts_mcp s \<noteq> None then [McpCallState] else [])
     @ (case ts_mcp s of None \<Rightarrow> [] | Some c \<Rightarrow> if ck_sent c \<noteq> None then [McpSentRound] else [])"

definition recovery_capabilities :: "'v recovery_state \<Rightarrow> persisted_capability list" where
  "recovery_capabilities r =
     (if \<not> degraded_is_empty (degraded r) then [DegradedContext] else [])
     @ (if connection_waited r \<noteq> [] \<or> rs_connection_wait r \<noteq> None \<or> connection_refusals r \<noteq> []
        then [ConnectionWaitState] else [])"

fun tool_states :: "'v run_state \<Rightarrow> 'v tool_call_state option" where
  "tool_states (RunToolCall s) = Some s"
| "tool_states (RunWaiting (Approval _ s)) = Some s"
| "tool_states (RunWaiting (Reconciliation _ _ s)) = Some s"
| "tool_states (RunWaiting (Timer _ (ResumeToolCall s))) = Some s"
| "tool_states (RunWaiting (Human _ _ (ResumeToolCall s))) = Some s"
| "tool_states _ = None"

text \<open>\<open>StateRequirements\<close>: the names of the needed capabilities, collected in a \<open>BTreeSet\<close>.\<close>

definition requirements_of :: "'v run_state \<Rightarrow> 'v recovery_state \<Rightarrow> string list" where
  "requirements_of s r =
     (let needed = set_extend [] ((case tool_states s of None \<Rightarrow> [] | Some t \<Rightarrow> tool_capabilities t)
                     @ recovery_capabilities r)
      in map capability_name needed)"

definition covered_by :: "string list \<Rightarrow> string list \<Rightarrow> bool" where
  "covered_by needed stored = list_all (\<lambda>name. name \<in> set stored) needed"

definition unmet :: "persisted_capability list \<Rightarrow> string list \<Rightarrow> string list" where
  "unmet supported names =
     filter (\<lambda>name. \<not> list_ex (\<lambda>c. capability_name c = name) supported) names"

section \<open>Lemmas\<close>

lemma check_progress_ok:
  "check_progress s = Inr () \<longleftrightarrow>
     cursor s \<le> length (tool_calls (response s)) \<and> 0 \<le> response_epoch s \<and> 0 \<le> included_input_seq s"
  by (auto simp: check_progress_def refuse_if_def)

lemma capability_name_inj [simp]: "capability_name c = capability_name d \<longleftrightarrow> c = d"
  by (cases c; cases d; simp)

lemma in_capability_ALL [simp]: "c \<in> set capability_ALL"
  by (cases c) (simp_all add: capability_ALL_def)

text \<open>When a suspended or running state needs a capability, by the field that needs it.\<close>

fun needs :: "'v run_state \<Rightarrow> 'v recovery_state \<Rightarrow> persisted_capability \<Rightarrow> bool" where
  "needs s r ToolBatchState \<longleftrightarrow> (\<exists>t. tool_states s = Some t \<and> batch_end t \<noteq> None)"
| "needs s r DegradedContext \<longleftrightarrow> degraded r \<noteq> no_degradation"
| "needs s r McpCallState \<longleftrightarrow> (\<exists>t. tool_states s = Some t \<and> ts_mcp t \<noteq> None)"
| "needs s r McpSentRound \<longleftrightarrow>
     (\<exists>t c. tool_states s = Some t \<and> ts_mcp t = Some c \<and> ck_sent c \<noteq> None)"
| "needs s r ConnectionWaitState \<longleftrightarrow>
     (\<exists>t. tool_states s = Some t \<and> ts_connection t \<noteq> None)
     \<or> connection_waited r \<noteq> [] \<or> rs_connection_wait r \<noteq> None \<or> connection_refusals r \<noteq> []"

lemma requirements_of_needs: "capability_name c \<in> set (requirements_of s r) \<longleftrightarrow> needs s r c"
proof -
  have "capability_name c \<in> set (requirements_of s r) \<longleftrightarrow>
      c \<in> set ((case tool_states s of None \<Rightarrow> [] | Some t \<Rightarrow> tool_capabilities t) @ recovery_capabilities r)"
    unfolding requirements_of_def Let_def by (auto simp: image_iff)
  also have "\<dots> \<longleftrightarrow> needs s r c"
    by (cases c; cases "tool_states s")
       (auto simp: tool_capabilities_def recovery_capabilities_def degraded_is_empty_def
         eq_commute[of "Some _" "ts_mcp _"] split: option.splits if_splits)
  finally show ?thesis .
qed

lemma unmet_Nil_iff: "unmet supported names = [] \<longleftrightarrow> set names \<subseteq> capability_name ` set supported"
  by (auto simp: unmet_def filter_empty_conv list_ex_iff)

lemma state_resume_Inr_iff:
  "state_resume s = Inr x \<longleftrightarrow> into_state x = s"
  by (cases s; cases x) auto

lemma push_new_fold:
  "set (fold push_new xs kept) = set kept \<union> set xs
   \<and> (distinct kept \<longrightarrow> distinct (fold push_new xs kept))"
  by (induction xs arbitrary: kept) (auto simp: push_new_def)

lemma final_no_transition: "can_transition s t \<Longrightarrow> s \<notin> {TCompleted, TCancelled, TAbandoned}"
  by (cases s) (auto simp: can_transition_def)

lemma final_closed:
  "can_transition\<^sup>*\<^sup>* s t \<Longrightarrow> s \<in> {TCompleted, TCancelled, TAbandoned} \<Longrightarrow> t = s"
  by (induction rule: rtranclp_induct) (auto dest: final_no_transition)

lemma recorded_bounds:
  assumes "record_degraded step cause d = (fresh, d')" "length (dc_recent d) \<le> MAX_RECENT_DEGRADED_STEPS"
  shows "length (dc_recent d') \<le> MAX_RECENT_DEGRADED_STEPS"
    and "dc_recent d' \<noteq> [] \<and> last (dc_recent d') = \<lparr> ds_step = step, ds_cause = cause \<rparr>"
    and "dc_count d' = (if fresh then saturating_add (dc_count d) 1 else dc_count d)"
    and "dc_outage d'"
proof -
  note rules = record_degraded_def Let_def MAX_RECENT_DEGRADED_STEPS_def
  show "length (dc_recent d') \<le> MAX_RECENT_DEGRADED_STEPS" "dc_outage d'"
    and "dc_count d' = (if fresh then saturating_add (dc_count d) 1 else dc_count d)"
    using assms by (auto simp: rules split: if_splits)
  show "dc_recent d' \<noteq> [] \<and> last (dc_recent d') = \<lparr> ds_step = step, ds_cause = cause \<rparr>"
    using assms by (auto simp: rules last_drop split: if_splits)
qed

section \<open>Properties\<close>

text \<open>A Run at which the witnesses evaluate the model.\<close>

definition sample_run :: "sample run_state \<Rightarrow> (sample, unit) run" where
  "sample_run s =
     \<lparr> run_id = 1, run_task_id = 2, run_workspace_id = 3, run_node = NodeName ''a-b'',
       home_node = ''d/a-b'', run_agent_id = ''agent'', run_agent_version = ''1'', state = s,
       recovery = default_recovery, control = Active, control_revision = 0,
       run_control_source = ByTenant,
       run_context = \<lparr> media_inferred_seq = 0, source_observation = None, plugin_findings = None,
                       context_rest = () \<rparr>,
       run_step = 4, revision = 7, observed_input_seq = 5, ledger_worker_ready = True,
       run_error = None, lease_owner = None, lease_until = None, updated_at = 0 \<rparr>"

lemma sample_run_simps [simp]:
  "state (sample_run s) = s" "recovery (sample_run s) = default_recovery" "control (sample_run s) = Active"
  by (simp_all add: sample_run_def)

definition sample_call :: "sample tool_call_state" where
  "sample_call =
     \<lparr> ts_connection = None,
       response = \<lparr> provider_activity = [], response_text = ''ready'', tool_calls = [], input_tokens = 0, output_tokens = 0, usage_complete = True \<rparr>,
       response_epoch = 0, cursor = 0, included_input_seq = 0, request_window = 0, request_tokens = 0, finalizing = True,
       media_inferred_seq_before_response = 0, observed_input_seq_before_response = 0, inferred_selected_media = [],
       deferred_selected_media = [], ts_selected_media = [], deferred_human_media = False, media_inferred_through_seq = None,
       media_intake_through_seq = 0, required_run_message_reads = [], references_read_at_inference = False,
       run_message_catchup = False, run_message_summary_end_seq = 0, run_message_summary_limit = 0,
       deferred_reads = default_thinking, workspace_read_plan = None, skill_read_plan = None, workspace_observation_plan = None,
       ts_home_approval = None, ts_approval = None, batch_end = None, ts_mcp = None \<rparr>"

text \<open>
  A completed, cancelled or abandoned Task keeps its status for ever; every other
  Task can be cancelled; a Task is completed only from running, and no transition abandons one.
\<close>

theorem task_statuses:
  assumes "can_transition\<^sup>*\<^sup>* s t"
  shows "(s \<in> {TCompleted, TCancelled, TAbandoned} \<longrightarrow> t = s)
    \<and> (can_transition t TCancelled \<longleftrightarrow> t \<notin> {TCompleted, TCancelled, TAbandoned})
    \<and> (can_transition t TCompleted \<longleftrightarrow> t = TRunning) \<and> \<not> can_transition t TAbandoned"
proof (intro conjI impI)
  show "t = s" if "s \<in> {TCompleted, TCancelled, TAbandoned}"
    using final_closed[OF assms that] .
qed (cases t; simp add: can_transition_def)+

theorem task_statuses_witness:
  "can_transition\<^sup>*\<^sup>* TRunning TCompleted \<and> \<not> can_transition TCompleted TCancelled"
proof -
  have "can_transition\<^sup>*\<^sup>* TRunning TCompleted" by (rule r_into_rtranclp) (simp add: can_transition_def)
  then show ?thesis using task_statuses[of TRunning TCompleted] by simp
qed

text \<open>
  Suspending a Run to wait for a timer or a person succeeds exactly in the phases
  Ready, Thinking and ToolCall, and loses nothing: resuming gives the state back, and while it
  waits the Run is as valid as before, has included the same input and needs the same capabilities.
\<close>

theorem suspend_keeps:
  assumes "wait = Timer wake_at \<or> wait = Human request_id answer_by"
  shows "case suspend wait r of
      Inl e \<Rightarrow> state_phase (state r) \<notin> {PReady, PThinking, PToolCall} \<and> e = Invalid ''state cannot be suspended''
    | Inr r' \<Rightarrow>
        (\<exists>x. r' = r\<lparr>state := RunWaiting (wait x)\<rparr> \<and> into_state x = state r)
        \<and> state_validate (state r') = state_validate (state r)
        \<and> run_included_input_seq r' = run_included_input_seq r
        \<and> requirements_of (state r') (recovery r') = requirements_of (state r) (recovery r)"
proof (cases "state_resume (state r)")
  case (Inl e)
  then show ?thesis by (cases "state r") (auto simp: suspend_def)
next
  case (Inr x)
  then have x: "into_state x = state r" by (simp add: state_resume_Inr_iff)
  have "tool_states (RunWaiting (wait x)) = tool_states (state r)"
    and "state_validate (RunWaiting (wait x)) = state_validate (state r)"
    using assms by (cases x; auto simp flip: x)+
  moreover have "run_included_input_seq (r\<lparr>state := RunWaiting (wait x)\<rparr>) = run_included_input_seq r"
    using assms by (cases x) (auto simp: run_included_input_seq_def simp flip: x)
  ultimately show ?thesis using Inr x by (auto simp: suspend_def requirements_of_def)
qed

theorem suspend_keeps_witness:
  "\<exists>r'. suspend (Timer 9) (sample_run RunReady) = Inr r'
     \<and> run_included_input_seq r' = run_included_input_seq (sample_run RunReady)"
proof -
  have "suspend (Timer 9) (sample_run RunReady) = Inr ((sample_run RunReady)\<lparr>state := RunWaiting (Timer 9 ResumeReady)\<rparr>)"
    by (simp add: suspend_def)
  then show ?thesis using suspend_keeps[of "Timer 9" 9 0 None "sample_run RunReady"] by simp
qed

text \<open>
  The capability gate is sound: a worker that supports everything the stored
  requirement names supports every capability that a field of the state needs, whenever the stored
  requirement covers the one derived from the state; and the derived one never exceeds what this
  build supports.
\<close>

theorem capability_gate:
  assumes "covered_by (requirements_of s r) stored" "unmet supported stored = []" "needs s r c"
  shows "c \<in> set supported \<and> unmet capability_ALL (requirements_of s r) = []"
proof -
  have "capability_name c \<in> capability_name ` set supported"
    using assms by (auto simp: covered_by_def list_all_iff unmet_Nil_iff simp flip: requirements_of_needs)
  moreover have "set (requirements_of s r) \<subseteq> capability_name ` set capability_ALL"
    by (auto simp: requirements_of_def Let_def)
  ultimately show ?thesis by (auto simp: unmet_Nil_iff)
qed

theorem capability_gate_witness:
  "covered_by (requirements_of (RunReady :: sample run_state) (default_recovery\<lparr>connection_waited := [''r'']\<rparr>)) [''connection_wait'']
   \<and> ConnectionWaitState \<in> set [ToolBatchState, ConnectionWaitState]"
proof -
  have "covered_by (requirements_of (RunReady :: sample run_state) (default_recovery\<lparr>connection_waited := [''r'']\<rparr>)) [''connection_wait'']"
    by (simp add: covered_by_def requirements_of_def recovery_capabilities_def default_recovery_def
        degraded_is_empty_def set_extend_def)
  moreover have "unmet [ToolBatchState, ConnectionWaitState] [''connection_wait''] = []"
    by (simp add: unmet_def)
  ultimately show ?thesis
    using capability_gate[of "RunReady :: sample run_state" "default_recovery\<lparr>connection_waited := [''r'']\<rparr>"
        "[''connection_wait'']" "[ToolBatchState, ConnectionWaitState]" ConnectionWaitState]
    by simp
qed

text \<open>
  A response that became stale returns to thinking with every selected medium once,
  none lost, and with the sequences from before the response.
\<close>

theorem stale_keeps_media:
  "case stale s of (t, inferred, observed) \<Rightarrow>
     set (th_selected_media t) = set (inferred_selected_media s) \<union> set (selected_media s)
     \<and> distinct (th_selected_media t)
     \<and> deferred_run_message_reads t = required_run_message_reads s
     \<and> inferred = media_inferred_seq_before_response s \<and> observed = observed_input_seq_before_response s"
  using push_new_fold[of "inferred_selected_media s @ deferred_selected_media s @ ts_selected_media s" "[]"]
  by (auto simp: stale_def selected_media_def)

end
