(* ===== verification/Failures.thy ===== *)
theory Failures
  imports Prelude
begin

text \<open>
  The errors at the boundary of the use cases (crates/aidash-application/src/lib.rs) and how the
  domain's errors become one of them.
\<close>

text \<open>The domain's check of required texts (crates/aidash-domain/src/entities.rs).\<close>

definition nonempty :: "string \<Rightarrow> string \<Rightarrow> unit result" where
  "nonempty s name =
     (if trim s = [] \<or> length s > 64000
      then Inl (Invalid (name @ '' must contain 1 to 64000 bytes''))
      else Inr ())"

text \<open>
  \<open>aidash_application::Error\<close>, with the variants that the modelled workflows create or inspect;
  \<open>OtherFailure\<close> stands for the rest.
\<close>

datatype failure =
    DomainFailure error
  | JsonFailure
  | FInvalid string
  | FConflict string
  | NotFound string
  | Unauthorized
  | Forbidden
  | TransactionPending
  | FRefused string
  | AuthorityRefused
  | StaleInference
  | OtherFailure string

definition domain :: "'a result \<Rightarrow> failure + 'a" where
  "domain r = (case r of Inl e \<Rightarrow> Inl (DomainFailure e) | Inr x \<Rightarrow> Inr x)"

lemma domain_iff [simp]:
  "domain r = Inr x \<longleftrightarrow> r = Inr x"
  "domain r = Inl f \<longleftrightarrow> (\<exists>e. r = Inl e \<and> f = DomainFailure e)"
  by (cases r; auto simp: domain_def)+

end
