(* ===== verification/Completion.thy ===== *)
theory Completion
  imports Run_State Failures Json "HOL-Library.Product_Lexorder"
begin

text \<open>
  The Completion Gate (crates/aidash-domain/src/completion.rs, crates/aidash-harness/src/agent/
  completion.rs and crates/aidash-application/src/ports/execution/completion.rs): Completion Policies and
  their Checks, the evidence of Check invocations, the deterministic decision on a Completion Candidate,
  and the step of the harness that harvests, starts and reviews Checks.

  Digests are parameters, and so is the Debug form of a text in an error message. Each call of the gate
  reads the clock once, as the code does before it looks at a pending Check; the poll timer reads it again.
\<close>

section \<open>Policies and Checks\<close>

definition MAX_CHECKS :: nat where "MAX_CHECKS = 8"
definition MAX_REPAIR_ALLOWANCE :: u32 where "MAX_REPAIR_ALLOWANCE = 16"
definition MAX_CHECK_SECONDS :: u64 where "MAX_CHECK_SECONDS = 600"
definition MAX_VERIFICATION_SECONDS :: u64 where "MAX_VERIFICATION_SECONDS = 3600"
definition MAX_COMMAND_BYTES :: nat where "MAX_COMMAND_BYTES = 65536"
definition MAX_DIAGNOSTIC_BYTES :: nat where "MAX_DIAGNOSTIC_BYTES = 4096"
definition MAX_REVIEW_DETAIL_BYTES :: nat where "MAX_REVIEW_DETAIL_BYTES = 512"
definition MAX_EVIDENCE :: nat where "MAX_EVIDENCE = 32"
definition CHECK_GRACE_SECONDS :: u64 where "CHECK_GRACE_SECONDS = 120"
definition CHECK_START_SECONDS :: u64 where "CHECK_START_SECONDS = 600"
definition SHELL :: string where "SHELL = ''shell''"

datatype check_when = Always | ContentChanged

record check =
  chk_name :: string
  chk_capability :: string
  chk_command :: string
  chk_timeout_seconds :: "u64 option"
  chk_when :: check_when

record completion_policy =
  cp_checks :: "check list"
  cp_repair_allowance :: u32
  cp_verification_seconds :: u64
  cp_exception :: bool

definition needs_start_content :: "completion_policy \<Rightarrow> bool" where
  "needs_start_content p = list_ex (\<lambda>c. chk_when c = ContentChanged) (cp_checks p)"

definition check_name_ok :: "string \<Rightarrow> bool" where
  "check_name_ok name \<longleftrightarrow>
     name \<noteq> [] \<and> length name \<le> 64
     \<and> list_all (\<lambda>(i, b). is_ascii_lowercase b \<or> is_ascii_digit b \<or> 0 < i \<and> b \<in> {CHR ''_'', CHR ''-''}) (List.enumerate 0 name)"

definition check_validate :: "(string \<Rightarrow> string) \<Rightarrow> check \<Rightarrow> unit result" where
  "check_validate debug c =
     (if \<not> check_name_ok (chk_name c) \<or> chk_capability c \<noteq> SHELL \<or> trim (chk_command c) = []
         \<or> MAX_COMMAND_BYTES < length (chk_command c) \<or> CHR 0x00 \<in> set (chk_command c)
         \<or> (case chk_timeout_seconds c of None \<Rightarrow> False | Some s \<Rightarrow> \<not> (1 \<le> s \<and> s \<le> MAX_CHECK_SECONDS))
      then Inl (Invalid (''Check '' @ debug (chk_name c)
        @ '' requires a lowercase name, capability \"shell\", a command of at most 65536 bytes and timeout_seconds within 1..=600''))
      else Inr ())"

fun check_names :: "(string \<Rightarrow> string) \<Rightarrow> string list \<Rightarrow> check list \<Rightarrow> unit result" where
  "check_names debug names [] = Inr ()"
| "check_names debug names (c # cs) =
     and_then (check_validate debug c) (\<lambda>_.
     if chk_name c \<in> set names then Inl (Invalid (''duplicate Check name '' @ chk_name c))
     else check_names debug (chk_name c # names) cs)"

definition completion_validate :: "(string \<Rightarrow> string) \<Rightarrow> completion_policy \<Rightarrow> unit result" where
  "completion_validate debug p =
     (if cp_checks p = [] \<or> MAX_CHECKS < length (cp_checks p) \<or> MAX_REPAIR_ALLOWANCE < cp_repair_allowance p
         \<or> \<not> (1 \<le> cp_verification_seconds p \<and> cp_verification_seconds p \<le> MAX_VERIFICATION_SECONDS)
      then Inl (Invalid ''Completion Policy requires 1 to 8 Checks, repair_allowance <= 16 and verification_seconds within 1..=3600'')
      else check_names debug [] (cp_checks p))"

section \<open>Content and evidence\<close>

datatype file_scope = Working | References | Received

record mounted_file =
  mf_scope :: file_scope
  mf_path :: string
  mf_digest :: string

fun file_scope_str :: "file_scope \<Rightarrow> string" where
  "file_scope_str Working = ''working''"
| "file_scope_str References = ''references''"
| "file_scope_str Received = ''received''"

text \<open>The parameters: the digests of a Check's definition and of a list of entries, and the key of an attempt.\<close>

record completion_digests =
  check_digest :: "check \<Rightarrow> string"
  entries_digest :: "(string \<times> string \<times> string) list \<Rightarrow> string"

definition content_digest :: "completion_digests \<Rightarrow> mounted_file list \<Rightarrow> string" where
  "content_digest D files = entries_digest D (sort (map (\<lambda>f. (file_scope_str (mf_scope f), mf_path f, mf_digest f)) files))"

definition empty_content :: "completion_digests \<Rightarrow> string" where
  "empty_content D = content_digest D []"

record check_subject =
  cs_check :: string
  cs_check_digest :: string
  cs_capability_digest :: string
  cs_content_digest :: string

datatype check_outcome = OPassed | OFailed | OTimedOut | OUnavailable | ODenied

definition repairable :: "check_outcome \<Rightarrow> bool" where
  "repairable o' \<longleftrightarrow> o' \<in> {OFailed, OTimedOut}"

record verification_evidence =
  ve_subject :: check_subject
  ve_operation_id :: "uuid option"
  ve_attempt :: u32
  ve_outcome :: check_outcome
  ve_exit_code :: "int option"
  ve_diagnostics :: string
  ve_seconds :: u64
  ve_finished_at :: datetime

record pending_check =
  pc_subject :: check_subject
  pc_operation_id :: uuid
  pc_attempt :: u32
  pc_timeout_seconds :: u64
  pc_started_at :: datetime
  pc_running_since :: "datetime option"

definition saturating_mul :: "'a::len word \<Rightarrow> 'a word \<Rightarrow> 'a word" where
  "saturating_mul a b = (if unat a * unat b < 2 ^ LENGTH('a) then a * b else - 1)"

definition div_ceil :: "u64 \<Rightarrow> u64 \<Rightarrow> u64" where
  "div_ceil a b = (if a mod b = 0 then a div b else a div b + 1)"

definition num_milliseconds :: "duration \<Rightarrow> int" where
  "num_milliseconds d = (if 0 \<le> d then d div 1000000 else - ((- d) div 1000000))"

text \<open>\<open>u64::try_from(n).unwrap_or(0)\<close>\<close>

definition to_u64 :: "int \<Rightarrow> u64" where
  "to_u64 n = (if n < 0 then 0 else word_of_int n)"

definition elapsed :: "datetime \<Rightarrow> datetime \<Rightarrow> u64" where
  "elapsed since until = to_u64 (num_seconds (until - since))"

definition check_timeout :: "u64 option \<Rightarrow> u64 option \<Rightarrow> u64 \<Rightarrow> u64" where
  "check_timeout own binding_ceiling node_default =
     (case own of Some s \<Rightarrow> s | None \<Rightarrow> (case binding_ceiling of Some s \<Rightarrow> s | None \<Rightarrow> node_default))"

definition continuation_byte :: "char \<Rightarrow> bool" where
  "continuation_byte c \<longleftrightarrow> 128 \<le> byte c \<and> byte c < 192"

definition bounded_tail :: "string \<Rightarrow> nat \<Rightarrow> string" where
  "bounded_tail s limit =
     (if length s \<le> limit then s else dropWhile continuation_byte (drop (length s - limit) s))"

definition unmeasured_millis :: "pending_check \<Rightarrow> datetime \<Rightarrow> u64" where
  "unmeasured_millis p now =
     min (to_u64 (num_milliseconds (now - pc_started_at p))) (saturating_mul (pc_timeout_seconds p) 1000)"

definition unmeasured :: "pending_check \<Rightarrow> datetime \<Rightarrow> u64" where
  "unmeasured p now = div_ceil (unmeasured_millis p now) 1000"

definition evidence_of :: "pending_check \<Rightarrow> check_outcome \<Rightarrow> int option \<Rightarrow> string \<Rightarrow> datetime \<Rightarrow> verification_evidence" where
  "evidence_of p result exit_code diagnostics now =
     \<lparr> ve_subject = pc_subject p, ve_operation_id = Some (pc_operation_id p), ve_attempt = pc_attempt p, ve_outcome = result,
       ve_exit_code = exit_code, ve_diagnostics = bounded_tail diagnostics MAX_DIAGNOSTIC_BYTES,
       ve_seconds = unmeasured p now, ve_finished_at = now \<rparr>"

definition check_finish ::
  "pending_check \<Rightarrow> bool \<Rightarrow> int option \<Rightarrow> string \<Rightarrow> u64 option \<Rightarrow> bool option \<Rightarrow> datetime \<Rightarrow> verification_evidence" where
  "check_finish p passed exit_code diagnostics runtime_millis deadline_expired now =
     (let millis = (case runtime_millis of Some n \<Rightarrow> n | None \<Rightarrow> unmeasured_millis p now);
          timed_out = (case deadline_expired of Some b \<Rightarrow> b | None \<Rightarrow> \<not> passed \<and> saturating_mul (pc_timeout_seconds p) 1000 \<le> millis);
          result = (if timed_out then OTimedOut else if passed then OPassed else OFailed)
      in (evidence_of p result exit_code diagnostics now)\<lparr>ve_seconds := div_ceil millis 1000\<rparr>)"

definition check_unavailable :: "pending_check \<Rightarrow> string \<Rightarrow> datetime \<Rightarrow> verification_evidence" where
  "check_unavailable p detail now = evidence_of p OUnavailable None detail now"

definition overdue :: "pending_check \<Rightarrow> datetime \<Rightarrow> bool" where
  "overdue p now =
     (let permitted = saturating_add (pc_timeout_seconds p) CHECK_GRACE_SECONDS
      in case pc_running_since p of
           Some since \<Rightarrow> permitted < elapsed since now
         | None \<Rightarrow> saturating_add permitted CHECK_START_SECONDS < elapsed (pc_started_at p) now)"

definition check_refused :: "check_subject \<Rightarrow> u32 \<Rightarrow> check_outcome \<Rightarrow> string \<Rightarrow> datetime \<Rightarrow> verification_evidence" where
  "check_refused s attempt result detail now =
     \<lparr> ve_subject = s, ve_operation_id = None, ve_attempt = attempt, ve_outcome = result, ve_exit_code = None,
       ve_diagnostics = bounded_tail detail MAX_DIAGNOSTIC_BYTES, ve_seconds = 0, ve_finished_at = now \<rparr>"

section \<open>Progress\<close>

datatype completion_basis = Verified | NotRequired | Excepted

fun basis_str :: "completion_basis \<Rightarrow> string" where
  "basis_str Verified = ''verified''"
| "basis_str NotRequired = ''not_required''"
| "basis_str Excepted = ''excepted''"

definition basis_parse :: "string \<Rightarrow> completion_basis result" where
  "basis_parse s =
     (if s = ''verified'' then Inr Verified else if s = ''not_required'' then Inr NotRequired
      else if s = ''excepted'' then Inr Excepted else Inl (Invalid (''unknown Completion Basis '' @ s)))"

record completion_progress =
  cg_start_content :: "string option"
  cg_input_seq :: int
  cg_repairs :: u32
  cg_attempts :: u32
  cg_seconds :: u64
  cg_evidence :: "verification_evidence list"
  cg_pending :: "pending_check option"
  cg_reviews :: u32
  cg_review :: "uuid option"
  cg_basis :: "completion_basis option"

definition no_progress :: completion_progress where
  "no_progress =
     \<lparr> cg_start_content = None, cg_input_seq = 0, cg_repairs = 0, cg_attempts = 0, cg_seconds = 0, cg_evidence = [],
       cg_pending = None, cg_reviews = 0, cg_review = None, cg_basis = None \<rparr>"

definition renew_repairs :: "int \<Rightarrow> completion_progress \<Rightarrow> completion_progress" where
  "renew_repairs input_seq g = (if cg_input_seq g < input_seq then g\<lparr>cg_input_seq := input_seq, cg_repairs := 0\<rparr> else g)"

definition record_evidence :: "verification_evidence \<Rightarrow> completion_progress \<Rightarrow> completion_progress" where
  "record_evidence e g =
     (let kept = filter (\<lambda>x. ve_subject x \<noteq> ve_subject e) (cg_evidence g) @ [e]
      in g\<lparr>cg_seconds := saturating_add (cg_seconds g) (ve_seconds e),
           cg_evidence := drop (length kept - MAX_EVIDENCE) kept\<rparr>)"

definition latest :: "check_subject \<Rightarrow> completion_progress \<Rightarrow> verification_evidence option" where
  "latest s g = List.find (\<lambda>e. ve_subject e = s) (rev (cg_evidence g))"

definition count_repair :: "check_subject \<Rightarrow> completion_progress \<Rightarrow> completion_progress" where
  "count_repair s g = g\<lparr>cg_repairs := cg_repairs g + 1, cg_evidence := filter (\<lambda>e. ve_subject e \<noteq> s) (cg_evidence g)\<rparr>"

definition retry_checks :: "completion_progress \<Rightarrow> completion_progress" where
  "retry_checks g = g\<lparr>cg_evidence := filter (\<lambda>e. ve_outcome e = OPassed) (cg_evidence g)\<rparr>"

section \<open>The decision\<close>

datatype review_reason =
    RUnavailable string string
  | RUnbound string string
  | RDenied string string
  | RRepairExhausted string
  | RStepsExhausted string
  | RTimeExhausted

definition trim_dots :: "string \<Rightarrow> string" where
  "trim_dots s = rev (dropWhile (\<lambda>c. c = CHR ''.'') (rev s))"

definition review_wording :: "string \<Rightarrow> string" where
  "review_wording why =
     ''Completion Review: '' @ why
     @ ''. Answer retry to run the Checks again, send a new message to correct the task, or cancel the Run.''"

fun prompt :: "review_reason \<Rightarrow> string" where
  "prompt (RUnavailable c detail) =
     (let d = trim_dots (bounded_tail (trim detail) MAX_REVIEW_DETAIL_BYTES)
      in review_wording (if d = [] then ''Check '' @ c @ '' could not run'' else ''Check '' @ c @ '' could not run: '' @ d))"
| "prompt (RUnbound c capability) =
     ''Completion Review: Check '' @ c @ '' could not run because this Run's pinned Bindings do not bind capability '' @ capability
     @ ''. Neither retry nor a new message changes them. Cancel the Run and start a new one with a corrected Agent or Binding.''"
| "prompt (RDenied c detail) =
     ''Completion Review: Check '' @ c @ '' was refused. A new message cannot change the Run's authority or its pinned Bindings. Answer retry once the refusal is lifted to run the Checks again, or cancel the Run; if the Run's pinned Binding refused the Check, start a new Run with a corrected Binding.''"
| "prompt (RRepairExhausted c) = review_wording (''Check '' @ c @ '' still fails and the Repair Allowance is spent'')"
| "prompt (RStepsExhausted c) =
     ''Completion Review: Check '' @ c @ '' still fails and the Run has no step left to repair it. Answer retry to run the Checks again, or cancel the Run.''"
| "prompt RTimeExhausted =
     ''Completion Review: the Run's verification time is spent, so no Check can run in this Run again. Cancel the Run and start a new one to verify a correction.''"

record candidate =
  cd_content :: "string option"
  cd_capability :: "string option"
  cd_unavailable :: "string option"

datatype gate_decision =
    Complete completion_basis
  | Start check check_subject
  | Repair verification_evidence
  | Review review_reason

definition current_content :: "completion_digests \<Rightarrow> candidate \<Rightarrow> string" where
  "current_content D k = (case cd_content k of None \<Rightarrow> empty_content D | Some d \<Rightarrow> d)"

definition check_applies :: "completion_digests \<Rightarrow> completion_progress \<Rightarrow> candidate \<Rightarrow> check \<Rightarrow> bool" where
  "check_applies D g k c =
     (case chk_when c of
        Always \<Rightarrow> True
      | ContentChanged \<Rightarrow> cd_unavailable k \<noteq> None \<or> cg_start_content g \<noteq> Some (current_content D k))"

definition subject_of :: "completion_digests \<Rightarrow> check \<Rightarrow> string \<Rightarrow> string \<Rightarrow> check_subject" where
  "subject_of D c capability content =
     \<lparr> cs_check = chk_name c, cs_check_digest = check_digest D c, cs_capability_digest = capability, cs_content_digest = content \<rparr>"

text \<open>What one applicable Check decides; \<open>None\<close> when its evidence passes and the next one is asked.\<close>

definition decide_check :: "completion_digests \<Rightarrow> completion_policy \<Rightarrow> completion_progress \<Rightarrow> candidate \<Rightarrow> check \<Rightarrow> gate_decision option" where
  "decide_check D p g k c =
     (case cd_unavailable k of
        Some detail \<Rightarrow> Some (Review (RUnavailable (chk_name c) detail))
      | None \<Rightarrow>
          (case cd_capability k of
             None \<Rightarrow> Some (Review (RUnbound (chk_name c) (chk_capability c)))
           | Some capability \<Rightarrow>
               (case cd_content k of
                  None \<Rightarrow> Some (Review (RUnavailable (chk_name c) ''the Run has no Working Area''))
                | Some content \<Rightarrow>
                    let s = subject_of D c capability content
                    in case latest s g of
                         None \<Rightarrow> Some (if cp_verification_seconds p \<le> cg_seconds g then Review RTimeExhausted else Start c s)
                       | Some e \<Rightarrow>
                           (case ve_outcome e of
                              OPassed \<Rightarrow> None
                            | OUnavailable \<Rightarrow> Some (Review (RUnavailable (chk_name c) (ve_diagnostics e)))
                            | ODenied \<Rightarrow> Some (Review (RDenied (chk_name c) (ve_diagnostics e)))
                            | _ \<Rightarrow> Some (if cp_verification_seconds p \<le> cg_seconds g then Review RTimeExhausted
                                         else if cg_repairs g < cp_repair_allowance p then Repair e
                                         else Review (RRepairExhausted (chk_name c)))))))"

fun decide_checks :: "completion_digests \<Rightarrow> completion_policy \<Rightarrow> completion_progress \<Rightarrow> candidate \<Rightarrow> bool \<Rightarrow> check list \<Rightarrow> gate_decision" where
  "decide_checks D p g k applied [] = Complete (if applied then Verified else NotRequired)"
| "decide_checks D p g k applied (c # cs) =
     (if \<not> check_applies D g k c then decide_checks D p g k applied cs
      else case decide_check D p g k c of
             Some d \<Rightarrow> d
           | None \<Rightarrow> decide_checks D p g k True cs)"

definition decide_completion :: "completion_digests \<Rightarrow> completion_policy \<Rightarrow> completion_progress \<Rightarrow> candidate \<Rightarrow> gate_decision" where
  "decide_completion D p g k = decide_checks D p g k False (cp_checks p)"

section \<open>The port of Checks\<close>

datatype content_state = AreaReady | AreaBusy | AreaUnavailable string

record mounted_content =
  mc_digest :: string
  mc_revision :: int
  mc_state :: content_state

record check_request =
  cq_key :: uuid
  cq_command :: string
  cq_timeout_seconds :: "u64 option"
  cq_remaining_seconds :: u64
  cq_revision :: int

datatype check_start = CheckStarted uuid u64 | CheckStale | CheckUnavailable string | CheckDenied string

datatype check_status =
    CheckStarting
  | CheckRunning
  | CheckFinished bool "int option" string "u64 option" "bool option"
  | CheckLost string

record 'v result_json = "'v json_ops" +
  as_i64 :: "'v \<Rightarrow> int option"
  as_u64 :: "'v \<Rightarrow> u64 option"
  as_bool :: "'v \<Rightarrow> bool option"
  json_display :: "'v \<Rightarrow> string"

definition INFRASTRUCTURE_CODES :: "string list" where
  "INFRASTRUCTURE_CODES = [''SANDBOX_LOST'', ''SESSION_LOST'', ''INPUT_PATH_COLLISION'', ''WORKING_QUOTA_EXCEEDED'']"

definition str_or_empty :: "string option \<Rightarrow> string" where
  "str_or_empty x = (case x of None \<Rightarrow> [] | Some s \<Rightarrow> s)"

definition check_status_of :: "'v result_json \<Rightarrow> 'v \<Rightarrow> check_status" where
  "check_status_of J v =
     (let field = (\<lambda>k. json_field J v k); err = field ''error''; code = as_str J (json_field J err ''code'');
          status = str_or_empty (as_str J (field ''status''));
          exit_code = as_i64 J (field ''exit_code''); printed = str_or_empty (as_str J (field ''output''))
      in if status = ''failed'' \<and> (case code of None \<Rightarrow> False | Some c \<Rightarrow> c \<in> set INFRASTRUCTURE_CODES)
         then CheckLost (''the Check's result was lost: '' @ str_or_empty code)
         else if status \<in> {''completed'', ''failed''} \<and> as_bool J (field ''termination_confirmed'') = Some True
         then CheckFinished (status = ''completed'' \<and> exit_code = Some 0) exit_code
                (if printed = [] then str_or_empty (as_str J (json_field J err ''message'')) else printed)
                (as_u64 J (field ''runtime_millis'')) (as_bool J (field ''deadline_expired''))
         else if status = ''cancelled'' then CheckLost ''the Check was cancelled''
         else if status \<in> {''uncertain'', ''withdrawn''}
         then CheckLost (''the Check's outcome is unknown: '' @ json_display J err)
         else if status \<in> {''prepared'', ''submitted''} then CheckStarting
         else CheckRunning)"

section \<open>The context of a gated Run\<close>

record repair_note =
  rn_check :: string
  rn_outcome :: check_outcome
  rn_exit_code :: "int option"
  rn_diagnostics :: string

definition note_of :: "verification_evidence \<Rightarrow> repair_note" where
  "note_of e =
     \<lparr> rn_check = cs_check (ve_subject e), rn_outcome = ve_outcome e, rn_exit_code = ve_exit_code e,
       rn_diagnostics = ve_diagnostics e \<rparr>"

datatype 'e context_event = CompletionRepairRequired "repair_note list" string int | OtherEvent 'e

record 'e gate_context =
  completion :: completion_progress
  history :: "(u64 \<times> 'e context_event) list"
  journal_head :: u64

definition SUPERSEDED_DIAGNOSTICS :: string where
  "SUPERSEDED_DIAGNOSTICS = ''[superseded by a later Check run; the full diagnostics remain in the execution journal]''"

definition REPAIR_INSTRUCTION :: string where
  "REPAIR_INSTRUCTION = ''Your final answer was not accepted: a completion Check did not pass on the current files. Fix the problem, then give your final answer again. The Check runs again on the files as they are then.''"

definition push_event :: "'e context_event \<Rightarrow> 'e gate_context \<Rightarrow> 'e gate_context" where
  "push_event ev c = c\<lparr>journal_head := journal_head c + 1, history := history c @ [(journal_head c + 1, ev)]\<rparr>"

definition supersede_note :: "repair_note \<Rightarrow> repair_note" where
  "supersede_note n =
     (if length SUPERSEDED_DIAGNOSTICS < length (rn_diagnostics n) then n\<lparr>rn_diagnostics := SUPERSEDED_DIAGNOSTICS\<rparr> else n)"

fun supersede_event :: "'e context_event \<Rightarrow> 'e context_event" where
  "supersede_event (CompletionRepairRequired ns i q) = CompletionRepairRequired (map supersede_note ns) i q"
| "supersede_event (OtherEvent x) = OtherEvent x"

definition push_repair :: "repair_note list \<Rightarrow> string \<Rightarrow> int \<Rightarrow> 'e gate_context \<Rightarrow> 'e gate_context" where
  "push_repair ns instruction through_seq c =
     push_event (CompletionRepairRequired ns instruction through_seq)
       (c\<lparr>history := map (\<lambda>(i, ev). (i, supersede_event ev)) (history c)\<rparr>)"

type_synonym ('v, 'e) gate_run = "('v, 'e gate_context) run"

definition completion_of :: "('v, 'e) gate_run \<Rightarrow> completion_progress" where
  "completion_of r = completion (context_rest (run_context r))"

definition map_context :: "('e gate_context \<Rightarrow> 'e gate_context) \<Rightarrow> ('v, 'e) gate_run \<Rightarrow> ('v, 'e) gate_run" where
  "map_context f r = r\<lparr>run_context := (run_context r)\<lparr>context_rest := f (context_rest (run_context r))\<rparr>\<rparr>"

definition set_completion :: "completion_progress \<Rightarrow> ('v, 'e) gate_run \<Rightarrow> ('v, 'e) gate_run" where
  "set_completion g = map_context (\<lambda>c. c\<lparr>completion := g\<rparr>)"

section \<open>The gate\<close>

text \<open>
  What the gate asks of its surroundings: whether this node can run Checks, the port of Checks, the
  digest of the bound shell capability, the key of an attempt, the permission to ask a person and the
  request itself (whose key is made of the Run, the response epoch and the number of the review), and
  the clock of the poll timer.
\<close>

record gate_env =
  ge_checks :: bool
  ge_status :: "uuid \<Rightarrow> failure + check_status"
  ge_content :: "failure + mounted_content option"
  ge_start :: "check_request \<Rightarrow> failure + check_start"
  ge_capability :: "string option"
  ge_key :: "check_subject \<Rightarrow> uuid \<Rightarrow> u32 \<Rightarrow> uuid"
  ge_permit :: "failure + unit"
  ge_request :: "string \<Rightarrow> uuid \<times> int \<times> u32 \<Rightarrow> failure + uuid"
  ge_clock :: datetime

datatype ('v, 'e) gate = Proceed "('v, 'e) gate_run" | Saved "('v, 'e) gate_run" string

definition CHECK_POLL_SECONDS :: int where "CHECK_POLL_SECONDS = 2"

definition NO_CHECKS :: string where "NO_CHECKS = ''Completion Checks cannot run on this node''"
definition OVERDUE :: string where "OVERDUE = ''the Check did not stop within its timeout''"
definition NOT_STARTED :: string where "NOT_STARTED = ''the Check did not start running''"

definition gate_wait :: "gate_env \<Rightarrow> completion_progress \<Rightarrow> string \<Rightarrow> ('v, 'e) gate_run \<Rightarrow> failure + ('v, 'e) gate" where
  "gate_wait E g event r =
     and_then (domain (suspend (Timer (ge_clock E + seconds CHECK_POLL_SECONDS)) (set_completion g r))) (\<lambda>r'. Inr (Saved r' event))"

definition gate_review :: "gate_env \<Rightarrow> completion_progress \<Rightarrow> review_reason \<Rightarrow> ('v, 'e) gate_run \<Rightarrow> failure + ('v, 'e) gate" where
  "gate_review E g why r =
     and_then (ge_permit E) (\<lambda>_.
     and_then (domain (state_tool (state r))) (\<lambda>t.
     and_then (ge_request E (prompt why) (run_id r, response_epoch t, cg_reviews g + 1)) (\<lambda>i.
     and_then (domain (suspend (Human i None) (set_completion (g\<lparr>cg_reviews := cg_reviews g + 1, cg_review := Some i\<rparr>) r))) (\<lambda>r'.
     Inr (Saved r' ''run.completion_review_required'')))))"

datatype harvested = Harvested completion_progress | StillRunning completion_progress | Hung completion_progress review_reason

definition harvest :: "gate_env \<Rightarrow> datetime \<Rightarrow> completion_progress \<Rightarrow> failure + harvested" where
  "harvest E now g =
     (case cg_pending g of
        None \<Rightarrow> Inr (Harvested g)
      | Some p0 \<Rightarrow>
          and_then (ge_status E (pc_operation_id p0)) (\<lambda>status.
          let p = (if status = CheckRunning \<and> pc_running_since p0 = None then p0\<lparr>pc_running_since := Some now\<rparr> else p0);
              cleared = g\<lparr>cg_pending := None\<rparr>;
              kept = g\<lparr>cg_pending := Some p\<rparr>
          in Inr (case status of
                    CheckFinished passed exit_code diagnostics runtime expired \<Rightarrow>
                      Harvested (record_evidence (check_finish p passed exit_code diagnostics runtime expired now) cleared)
                  | CheckLost detail \<Rightarrow> Harvested (record_evidence (check_unavailable p detail now) cleared)
                  | _ \<Rightarrow> if \<not> overdue p now then StillRunning kept
                         else Hung kept (RUnavailable (cs_check (pc_subject p))
                                (if pc_running_since p \<noteq> None then OVERDUE else NOT_STARTED)))))"

definition candidate_of :: "gate_env \<Rightarrow> mounted_content option \<Rightarrow> candidate" where
  "candidate_of E content =
     \<lparr> cd_content = map_option mc_digest content, cd_capability = ge_capability E,
       cd_unavailable = (case content of
                           Some m \<Rightarrow> (case mc_state m of AreaUnavailable detail \<Rightarrow> Some detail | _ \<Rightarrow> None)
                         | None \<Rightarrow> None) \<rparr>"

definition request_of :: "gate_env \<Rightarrow> completion_policy \<Rightarrow> completion_progress \<Rightarrow> mounted_content \<Rightarrow> check \<Rightarrow> check_subject \<Rightarrow> uuid \<Rightarrow> check_request" where
  "request_of E p g m c s run =
     \<lparr> cq_key = ge_key E s run (cg_attempts g), cq_command = chk_command c, cq_timeout_seconds = chk_timeout_seconds c,
       cq_remaining_seconds = max (if cg_seconds g \<le> cp_verification_seconds p then cp_verification_seconds p - cg_seconds g else 0) 1,
       cq_revision = mc_revision m \<rparr>"

definition start_attempt ::
  "gate_env \<Rightarrow> completion_policy \<Rightarrow> completion_progress \<Rightarrow> mounted_content option \<Rightarrow> check \<Rightarrow> check_subject \<Rightarrow> uuid \<Rightarrow> failure + check_start" where
  "start_attempt E p g content c s run =
     (case content of
        Some m \<Rightarrow>
          (case mc_state m of
             AreaReady \<Rightarrow> ge_start E (request_of E p g m c s run)
           | AreaUnavailable detail \<Rightarrow> Inr (CheckUnavailable detail)
           | AreaBusy \<Rightarrow> Inr (CheckUnavailable NO_CHECKS))
      | None \<Rightarrow> Inr (CheckUnavailable NO_CHECKS))"

definition repaired_run :: "completion_progress \<Rightarrow> verification_evidence \<Rightarrow> int \<Rightarrow> ('v, 'e) gate_run \<Rightarrow> ('v, 'e) gate_run" where
  "repaired_run g e through_seq r =
     (map_context (\<lambda>c. push_repair [note_of e] REPAIR_INSTRUCTION through_seq (c\<lparr>completion := count_repair (ve_subject e) g\<rparr>)) r)
       \<lparr>run_step := run_step r + 1, state := RunThinking default_thinking\<rparr>"

definition saturating_step :: "int \<Rightarrow> int" where
  "saturating_step n = min (n + 1) (2 ^ 31 - 1)"

text \<open>The position of the Check that decides to start, as a bound on the rounds of the loop.\<close>

fun start_at :: "completion_digests \<Rightarrow> completion_policy \<Rightarrow> completion_progress \<Rightarrow> candidate \<Rightarrow> check list \<Rightarrow> nat" where
  "start_at D p g k [] = 0"
| "start_at D p g k (c # cs) =
     (let later = (case start_at D p g k cs of 0 \<Rightarrow> 0 | Suc n \<Rightarrow> Suc (Suc n))
      in if \<not> check_applies D g k c then later
         else case decide_check D p g k c of None \<Rightarrow> later | Some (Start _ _) \<Rightarrow> 1 | Some _ \<Rightarrow> 0)"

lemma latest_recorded: "latest (ve_subject e) (record_evidence e g) = Some e"
proof -
  have "drop (length (xs @ [e]) - MAX_EVIDENCE) (xs @ [e]) = drop (length xs + 1 - MAX_EVIDENCE) xs @ [e]" for xs
    by (simp add: MAX_EVIDENCE_def)
  then show ?thesis by (simp add: latest_def record_evidence_def Let_def)
qed

lemma decide_check_subject:
  "decide_check D p g k c = Some (Start c' s) \<Longrightarrow>
     c' = c \<and> cd_unavailable k = None \<and> latest s g = None \<and> cg_seconds g < cp_verification_seconds p
     \<and> (\<exists>capability content. cd_capability k = Some capability \<and> cd_content k = Some content \<and> s = subject_of D c capability content)"
  by (auto simp: decide_check_def Let_def not_le split: option.splits check_outcome.splits if_splits)

lemma decide_check_latest:
  "cd_unavailable k = None \<Longrightarrow> cd_capability k = Some cap \<Longrightarrow> cd_content k = Some d \<Longrightarrow> latest (subject_of D c cap d) g = Some e
     \<Longrightarrow> ve_outcome e \<in> {OUnavailable, ODenied} \<Longrightarrow> \<exists>why. decide_check D p g k c = Some (Review why)"
  by (auto simp: decide_check_def)

lemma check_applies_cong: "cg_start_content g' = cg_start_content g \<Longrightarrow> check_applies D g' k c = check_applies D g k c"
  by (auto simp: check_applies_def split: check_when.splits)

lemma start_at_decreases:
  assumes "decide_checks D p g k b cs = Start c s" "ve_subject e = s" "ve_outcome e \<in> {OUnavailable, ODenied}"
    and "cg_start_content g' = cg_start_content g"
  shows "start_at D p (record_evidence e g') k cs < start_at D p g k cs"
  using assms(1)
proof (induction cs arbitrary: b)
  case (Cons a cs)
  let ?h = "record_evidence e g'"
  have applies: "check_applies D ?h k a = check_applies D g k a"
    by (rule check_applies_cong) (simp add: record_evidence_def Let_def assms(4))
  show ?case
  proof (cases "check_applies D g k a")
    case False
    then have "start_at D p ?h k cs < start_at D p g k cs" using Cons by simp
    then show ?thesis using False by (auto simp: applies split: nat.splits)
  next
    case True
    show ?thesis
    proof (cases "decide_check D p g k a")
      case None
      then have "start_at D p ?h k cs < start_at D p g k cs" using Cons True by simp
      then show ?thesis using True None by (auto simp: applies split: nat.splits option.splits gate_decision.splits)
    next
      case (Some d)
      then have "d = Start c s" using Cons.prems True by simp
      note d = decide_check_subject[OF Some[unfolded this]]
      then obtain cap content where "cd_capability k = Some cap" "cd_content k = Some content" "s = subject_of D a cap content" by blast
      then obtain why where "decide_check D p ?h k a = Some (Review why)"
        using decide_check_latest[of k cap content D a ?h e p] latest_recorded[of e g'] d assms(2,3) by auto
      then show ?thesis using True Some \<open>d = Start c s\<close> by (simp add: applies)
    qed
  qed
qed simp

function gate_loop ::
  "completion_digests \<Rightarrow> gate_env \<Rightarrow> completion_policy \<Rightarrow> int \<Rightarrow> datetime \<Rightarrow> mounted_content option \<Rightarrow> completion_progress
     \<Rightarrow> ('v, 'e) gate_run \<Rightarrow> failure + ('v, 'e) gate" where
  "gate_loop D E p max_steps now content g r =
     (case decide_completion D p g (candidate_of E content) of
        Complete basis \<Rightarrow> Inr (Proceed (set_completion (g\<lparr>cg_basis := Some basis\<rparr>) r))
      | Start c s \<Rightarrow>
          (let g1 = g\<lparr>cg_attempts := cg_attempts g + 1\<rparr>
           in case start_attempt E p g1 content c s (run_id r) of
                Inl f \<Rightarrow> Inl f
              | Inr (CheckStarted operation timeout) \<Rightarrow>
                  gate_wait E (g1\<lparr>cg_pending := Some \<lparr> pc_subject = s, pc_operation_id = operation, pc_attempt = cg_attempts g1,
                    pc_timeout_seconds = timeout, pc_started_at = now, pc_running_since = None \<rparr>\<rparr>) ''run.completion_check_started'' r
              | Inr CheckStale \<Rightarrow> gate_wait E g1 ''run.completion_content_changed'' r
              | Inr (CheckUnavailable detail) \<Rightarrow>
                  gate_loop D E p max_steps now content (record_evidence (check_refused s (cg_attempts g1) OUnavailable detail now) g1) r
              | Inr (CheckDenied detail) \<Rightarrow>
                  gate_loop D E p max_steps now content (record_evidence (check_refused s (cg_attempts g1) ODenied detail now) g1) r)
      | Repair e \<Rightarrow>
          if saturating_step (run_step r) < max_steps
          then and_then (domain (state_tool (state r))) (\<lambda>t.
               Inr (Saved (repaired_run g e (included_input_seq t) r) ''run.completion_repair_required''))
          else gate_review E g (RStepsExhausted (cs_check (ve_subject e))) r
      | Review why \<Rightarrow> gate_review E g why r)"
  by pat_completeness auto

termination
proof (relation "measure (\<lambda>(D, E, p, _, _, content, g, _). start_at D p g (candidate_of E content) (cp_checks p))", goal_cases)
  case (2 D E p max_steps now content g r c s g1 st detail)
  then show ?case
    by (auto simp: decide_completion_def intro!: start_at_decreases[where b = False and s = s and c = c] simp: check_refused_def)
next
  case (3 D E p max_steps now content g r c s g1 st detail)
  then show ?case
    by (auto simp: decide_completion_def intro!: start_at_decreases[where b = False and s = s and c = c] simp: check_refused_def)
qed simp

declare gate_loop.simps [simp del]

definition completion_gate ::
  "completion_digests \<Rightarrow> gate_env \<Rightarrow> completion_policy option \<Rightarrow> int \<Rightarrow> datetime \<Rightarrow> ('v, 'e) gate_run \<Rightarrow> failure + ('v, 'e) gate" where
  "completion_gate D E policy max_steps now r =
     (case policy of
        None \<Rightarrow> Inr (Proceed r)
      | Some p \<Rightarrow>
          and_then (domain (state_tool (state r))) (\<lambda>t.
          let g = renew_repairs (included_input_seq t) ((completion_of r)\<lparr>cg_basis := None\<rparr>)
          in if \<not> ge_checks E
             then (case cp_checks p of
                     [] \<Rightarrow> Inl (OtherFailure ''index out of bounds'')
                   | c # _ \<Rightarrow> gate_review E g (RUnavailable (chk_name c) NO_CHECKS) r)
             else and_then (harvest E now g) (\<lambda>h.
               case h of
                 StillRunning g1 \<Rightarrow> gate_wait E g1 ''run.completion_check_running'' r
               | Hung g1 why \<Rightarrow> gate_review E g1 why r
               | Harvested g1 \<Rightarrow>
                   and_then (ge_content E) (\<lambda>content.
                   if (case content of Some m \<Rightarrow> mc_state m = AreaBusy | None \<Rightarrow> False)
                   then gate_wait E g1 ''run.completion_content_busy'' r
                   else gate_loop D E p max_steps now content g1 r))))"

definition record_start_content :: "completion_digests \<Rightarrow> gate_env \<Rightarrow> completion_policy option \<Rightarrow> ('v, 'e) gate_run \<Rightarrow> failure + ('v, 'e) gate_run" where
  "record_start_content D E policy r =
     (case policy of
        None \<Rightarrow> Inr r
      | Some p \<Rightarrow>
          if \<not> needs_start_content p \<or> cg_start_content (completion_of r) \<noteq> None \<or> \<not> ge_checks E then Inr r
          else and_then (ge_content E) (\<lambda>content.
            Inr (set_completion ((completion_of r)\<lparr>cg_start_content :=
              Some (case content of None \<Rightarrow> empty_content D | Some m \<Rightarrow> mc_digest m)\<rparr>) r)))"

section \<open>Reviews\<close>

definition review_superseded :: "int list \<Rightarrow> ('v, 'e) gate_run \<Rightarrow> uuid \<Rightarrow> bool" where
  "review_superseded inputs r request \<longleftrightarrow>
     cg_review (completion_of r) = Some request \<and> inputs \<noteq> [] \<and> run_included_input_seq r < last inputs"

definition supersede_review :: "failure + unit \<Rightarrow> ('v, 'e) gate_run \<Rightarrow> failure + ('v, 'e) gate_run" where
  "supersede_review closed r =
     (let r' = set_completion ((completion_of r)\<lparr>cg_review := None\<rparr>) r
      in case closed of Inr _ \<Rightarrow> Inr r' | Inl (FConflict _) \<Rightarrow> Inr r' | Inl f \<Rightarrow> Inl f)"

definition asks_retry :: "'v result_json \<Rightarrow> 'v \<Rightarrow> bool" where
  "asks_retry J v \<longleftrightarrow>
     as_bool J (json_field J v ''retry'') = Some True
     \<or> (case as_str J v of None \<Rightarrow> False | Some s \<Rightarrow> to_ascii_lowercase (trim s) = ''retry'')"

definition answer_review :: "'v result_json \<Rightarrow> uuid \<Rightarrow> 'v option \<Rightarrow> ('v, 'e) gate_run \<Rightarrow> ('v, 'e) gate_run" where
  "answer_review J request answer r =
     (let g = completion_of r; g1 = g\<lparr>cg_review := None\<rparr>
      in if cg_review g \<noteq> Some request then r
         else set_completion (if (case answer of None \<Rightarrow> False | Some v \<Rightarrow> asks_retry J v) then retry_checks g1 else g1) r)"

end
