(* ===== verification/Completion_Props.thy ===== *)
theory Completion_Props
  imports Completion
begin

text \<open>
  What the Completion Gate guarantees: a Run is completed as verified only on evidence of Checks that
  the gate itself started on exactly the mounted content and that were reported to pass; repairs,
  evidence and Check time are bounded; and when Checks pass the gate comes to a decision.
\<close>

section \<open>Runs and their progress\<close>

lemma completion_of_simps [simp]:
  "completion_of (set_completion g r) = g"
  "completion_of (r\<lparr>state := s\<rparr>) = completion_of r" "completion_of (r\<lparr>run_step := n\<rparr>) = completion_of r"
  by (simp_all add: completion_of_def set_completion_def map_context_def)

lemma set_completion_again [simp]: "set_completion g (set_completion h r) = set_completion g r"
  by (simp add: set_completion_def map_context_def)

lemma suspend_completion: "suspend wait r = Inr r' \<Longrightarrow> completion_of r' = completion_of r"
  by (auto simp: suspend_def and_then_Inr_iff)

lemma gate_wait_Inr:
  "gate_wait E g event r = Inr out \<Longrightarrow> \<exists>r'. out = Saved r' event \<and> completion_of r' = g"
  by (auto simp: gate_wait_def and_then_Inr_iff dest: suspend_completion)

lemma gate_review_Inr:
  "gate_review E g why r = Inr out \<Longrightarrow>
     \<exists>r' i. out = Saved r' ''run.completion_review_required'' \<and> completion_of r' = g\<lparr>cg_reviews := cg_reviews g + 1, cg_review := Some i\<rparr>"
  by (auto simp: gate_review_def and_then_Inr_iff dest!: suspend_completion)

lemma repaired_completion: "completion_of (repaired_run g e q r) = count_repair (ve_subject e) g"
  by (simp add: repaired_run_def completion_of_def map_context_def push_repair_def push_event_def)

fun gate_run_of :: "('v, 'e) gate \<Rightarrow> ('v, 'e) gate_run" where
  "gate_run_of (Proceed r) = r"
| "gate_run_of (Saved r _) = r"

section \<open>The decision\<close>

lemma decide_check_None:
  "decide_check D p g k c = None \<longleftrightarrow>
     cd_unavailable k = None \<and> (\<exists>cap d e. cd_capability k = Some cap \<and> cd_content k = Some d
       \<and> latest (subject_of D c cap d) g = Some e \<and> ve_outcome e = OPassed)"
  by (auto simp: decide_check_def Let_def split: option.splits check_outcome.splits)

lemma decide_checks_Complete:
  "decide_checks D p g k applied cs = Complete b \<Longrightarrow>
     (\<forall>c \<in> set cs. check_applies D g k c \<longrightarrow> decide_check D p g k c = None)
     \<and> (b = (if applied \<or> (\<exists>c \<in> set cs. check_applies D g k c) then Verified else NotRequired))"
proof (induction cs arbitrary: applied)
  case (Cons c cs)
  show ?case
  proof (cases "check_applies D g k c")
    case True
    have "decide_check D p g k c = None"
    proof (cases "decide_check D p g k c")
      case (Some d)
      then have "d = Complete b" using Cons.prems True by simp
      then show ?thesis using Some by (auto simp: decide_check_def Let_def split: option.splits check_outcome.splits if_splits)
    qed
    then show ?thesis using Cons.IH[of True] Cons.prems True by auto
  next
    case False
    then show ?thesis using Cons.IH[of applied] Cons.prems by auto
  qed
qed simp

lemma decided_basis: "decide_completion D p g k = Complete b \<Longrightarrow> b = Verified \<or> b = NotRequired"
  unfolding decide_completion_def by (auto dest!: decide_checks_Complete split: if_splits)

lemma decide_checks_Start:
  "decide_checks D p g k applied cs = Start c s \<Longrightarrow> c \<in> set cs \<and> check_applies D g k c \<and> decide_check D p g k c = Some (Start c s)"
proof (induction cs arbitrary: applied)
  case (Cons a cs)
  then show ?case by (auto split: if_splits option.splits dest: decide_check_subject)
qed simp

lemma decide_checks_Repair:
  "decide_checks D p g k applied cs = Repair e \<Longrightarrow> cg_repairs g < cp_repair_allowance p \<and> repairable (ve_outcome e)"
proof (induction cs arbitrary: applied)
  case (Cons a cs)
  then show ?case
    by (auto simp: decide_check_def Let_def repairable_def split: if_splits option.splits check_outcome.splits)
qed simp

lemma latest_in: "latest s g = Some e \<Longrightarrow> e \<in> set (cg_evidence g) \<and> ve_subject e = s"
  unfolding latest_def find_Some_iff by (metis length_rev nth_mem set_rev)

section \<open>The system\<close>

text \<open>
  A gated Run with what really happened: the operations the gate started with their subjects, and the
  operations that were reported as finished and passed.
\<close>

record ('v, 'e) gate_world =
  gw_run :: "('v, 'e) gate_run"
  gw_started :: "(uuid \<times> check_subject) list"
  gw_passed :: "uuid list"

definition started_by :: "('v, 'e) gate \<Rightarrow> (uuid \<times> check_subject) list" where
  "started_by out =
     (case out of
        Saved r event \<Rightarrow>
          (case cg_pending (completion_of r) of
             Some c \<Rightarrow> if event = ''run.completion_check_started'' then [(pc_operation_id c, pc_subject c)] else []
           | None \<Rightarrow> [])
      | Proceed _ \<Rightarrow> [])"

definition reported :: "gate_env \<Rightarrow> completion_progress \<Rightarrow> uuid list" where
  "reported E g =
     (case cg_pending g of
        Some c \<Rightarrow> (case ge_status E (pc_operation_id c) of Inr (CheckFinished True _ _ _ _) \<Rightarrow> [pc_operation_id c] | _ \<Rightarrow> [])
      | None \<Rightarrow> [])"

inductive gate_step ::
  "completion_digests \<Rightarrow> completion_policy \<Rightarrow> int \<Rightarrow> ('v, 'e) gate_world \<Rightarrow> ('v, 'e) gate_world \<Rightarrow> bool" for D p max_steps w where
  step_gate: "completion_gate D E (Some p) max_steps now (gw_run w) = Inr out
    \<Longrightarrow> gate_step D p max_steps w \<lparr> gw_run = gate_run_of out, gw_started = started_by out @ gw_started w,
          gw_passed = reported E (completion_of (gw_run w)) @ gw_passed w \<rparr>"
| step_start_content: "record_start_content D E (Some p) (gw_run w) = Inr r \<Longrightarrow> gate_step D p max_steps w (w\<lparr>gw_run := r\<rparr>)"
| step_answer: "gate_step D p max_steps w (w\<lparr>gw_run := answer_review J request answer (gw_run w)\<rparr>)"
| step_supersede: "supersede_review closed (gw_run w) = Inr r \<Longrightarrow> gate_step D p max_steps w (w\<lparr>gw_run := r\<rparr>)"
| step_other: "completion_of r = completion_of (gw_run w) \<Longrightarrow> gate_step D p max_steps w (w\<lparr>gw_run := r\<rparr>)"

definition gate_init :: "('v, 'e) gate_world \<Rightarrow> bool" where
  "gate_init w \<longleftrightarrow> completion_of (gw_run w) = no_progress \<and> gw_started w = [] \<and> gw_passed w = []"

definition evidence_ok :: "(uuid \<times> check_subject) list \<Rightarrow> uuid list \<Rightarrow> verification_evidence \<Rightarrow> bool" where
  "evidence_ok started passed e \<longleftrightarrow>
     length (ve_diagnostics e) \<le> MAX_DIAGNOSTIC_BYTES
     \<and> (ve_outcome e = OPassed \<longrightarrow> (\<exists>op. ve_operation_id e = Some op \<and> (op, ve_subject e) \<in> set started \<and> op \<in> set passed))"

definition progress_ok :: "completion_policy \<Rightarrow> (uuid \<times> check_subject) list \<Rightarrow> uuid list \<Rightarrow> completion_progress \<Rightarrow> bool" where
  "progress_ok p started passed g \<longleftrightarrow>
     cg_repairs g \<le> cp_repair_allowance p \<and> length (cg_evidence g) \<le> MAX_EVIDENCE \<and> distinct (map ve_subject (cg_evidence g))
     \<and> list_all (evidence_ok started passed) (cg_evidence g)
     \<and> (case cg_pending g of None \<Rightarrow> True | Some c \<Rightarrow> (pc_operation_id c, pc_subject c) \<in> set started)"

lemma length_bounded_tail: "length (bounded_tail s n) \<le> n"
proof (cases "length s \<le> n")
  case False
  have "length (dropWhile P xs) \<le> length xs" for P and xs :: string by (rule length_dropWhile_le)
  from this[of continuation_byte "drop (length s - n) s"] False show ?thesis by (simp add: bounded_tail_def)
qed (simp add: bounded_tail_def)

lemma progress_ok_mono:
  "progress_ok p started passed g \<Longrightarrow> set started \<subseteq> set started' \<Longrightarrow> set passed \<subseteq> set passed' \<Longrightarrow> progress_ok p started' passed' g"
  unfolding progress_ok_def evidence_ok_def list_all_iff by (auto split: option.splits) blast+

lemma progress_ok_record:
  assumes "progress_ok p started passed g" "evidence_ok started passed e"
  shows "progress_ok p started passed (record_evidence e g)"
proof -
  define kept where "kept = filter (\<lambda>x. ve_subject x \<noteq> ve_subject e) (cg_evidence g) @ [e]"
  define new where "new = drop (length kept - MAX_EVIDENCE) kept"
  have "distinct (map ve_subject kept)" using assms(1) by (auto simp: kept_def progress_ok_def distinct_map_filter)
  then have "distinct (map ve_subject new)" unfolding new_def by (metis distinct_drop drop_map)
  moreover have "list_all (evidence_ok started passed) new"
    using assms by (auto simp: new_def kept_def progress_ok_def list_all_iff dest!: in_set_dropD)
  moreover have "length new \<le> MAX_EVIDENCE" by (simp add: new_def)
  ultimately show ?thesis
    using assms(1) unfolding progress_ok_def record_evidence_def Let_def kept_def[symmetric] new_def[symmetric] by simp
qed

lemma progress_ok_filter:
  assumes "progress_ok p started passed g"
  shows "progress_ok p started passed (g\<lparr>cg_evidence := filter P (cg_evidence g)\<rparr>)"
proof -
  have "length (filter P (cg_evidence g)) \<le> MAX_EVIDENCE"
    using assms le_trans[OF length_filter_le] by (auto simp: progress_ok_def)
  then show ?thesis using assms by (auto simp: progress_ok_def list_all_iff distinct_map_filter split: option.splits)
qed

lemma progress_ok_update [simp]:
  "progress_ok p started passed (g\<lparr>cg_attempts := n\<rparr>) = progress_ok p started passed g"
  "progress_ok p started passed (g\<lparr>cg_basis := b\<rparr>) = progress_ok p started passed g"
  "progress_ok p started passed (g\<lparr>cg_review := i\<rparr>) = progress_ok p started passed g"
  "progress_ok p started passed (g\<lparr>cg_reviews := n\<rparr>) = progress_ok p started passed g"
  "progress_ok p started passed (g\<lparr>cg_start_content := d\<rparr>) = progress_ok p started passed g"
  by (simp_all add: progress_ok_def)

lemma progress_ok_renew: "progress_ok p started passed g \<Longrightarrow> progress_ok p started passed (renew_repairs n g)"
  by (simp add: renew_repairs_def progress_ok_def)

lemma progress_ok_repair:
  assumes "progress_ok p started passed g" "cg_repairs g < cp_repair_allowance p"
  shows "progress_ok p started passed (count_repair s g)"
proof -
  have "cg_repairs g + 1 \<le> cp_repair_allowance p" using assms(2) by (rule inc_le)
  then show ?thesis using progress_ok_filter[OF assms(1), of "\<lambda>e. ve_subject e \<noteq> s"]
    by (simp add: count_repair_def progress_ok_def)
qed

lemma refused_ok: "result \<noteq> OPassed \<Longrightarrow> evidence_ok started passed (check_refused s n result detail now)"
  using length_bounded_tail by (simp add: evidence_ok_def check_refused_def)

lemma finished_ok:
  assumes "(pc_operation_id c, pc_subject c) \<in> set started" "ok \<longrightarrow> pc_operation_id c \<in> set passed"
  shows "evidence_ok started passed (check_finish c ok exit_code diagnostics runtime expired now)"
  using assms length_bounded_tail
  by (auto simp: evidence_ok_def check_finish_def evidence_of_def Let_def split: if_splits)

lemma lost_ok: "evidence_ok started passed (check_unavailable c detail now)"
  using length_bounded_tail by (simp add: evidence_ok_def check_unavailable_def evidence_of_def)

text \<open>Harvesting a pending Check.\<close>

lemma harvest_ok:
  assumes "harvest E now g = Inr h" "progress_ok p started passed g"
  shows "case h of
      Harvested g1 \<Rightarrow> cg_pending g1 = None \<and> progress_ok p started (reported E g @ passed) g1
    | StillRunning g1 \<Rightarrow> progress_ok p started passed g1
    | Hung g1 _ \<Rightarrow> progress_ok p started passed g1"
proof (cases "cg_pending g")
  case None
  then show ?thesis using assms progress_ok_mono[OF assms(2), of started "reported E g @ passed"] by (auto simp: harvest_def)
next
  case (Some c)
  then have c: "(pc_operation_id c, pc_subject c) \<in> set started" using assms(2) by (simp add: progress_ok_def)
  obtain st where st: "ge_status E (pc_operation_id c) = Inr st" using assms(1) Some by (auto simp: harvest_def and_then_Inr_iff)
  have mono: "progress_ok p started (reported E g @ passed) (g\<lparr>cg_pending := None\<rparr>)"
    using progress_ok_mono[OF assms(2), of started "reported E g @ passed"] by (simp add: progress_ok_def)
  have kept: "progress_ok p started passed (g\<lparr>cg_pending := Some c'\<rparr>)"
    if "pc_operation_id c' = pc_operation_id c" "pc_subject c' = pc_subject c" for c'
    using assms(2) c that by (simp add: progress_ok_def)
  have pend: "cg_pending (record_evidence e g0) = cg_pending g0" for e g0 by (simp add: record_evidence_def Let_def)
  show ?thesis
  proof (cases st)
    case (CheckFinished ok exit_code diagnostics runtime expired)
    have "evidence_ok started (reported E g @ passed) (check_finish c ok exit_code diagnostics runtime expired now)"
      by (rule finished_ok[OF c]) (use Some st CheckFinished in \<open>simp add: reported_def\<close>)
    then show ?thesis using assms(1) Some st CheckFinished progress_ok_record[OF mono] by (auto simp: harvest_def pend Let_def)
  next
    case (CheckLost detail)
    then show ?thesis using assms(1) Some st progress_ok_record[OF mono lost_ok] by (auto simp: harvest_def pend Let_def)
  qed (use assms(1) Some st kept in \<open>auto simp: harvest_def Let_def split: if_splits\<close>)
qed

text \<open>A review and a wait that starts nothing save the progress they were given.\<close>

lemma gate_review_ok:
  assumes "gate_review E g why r = Inr out" "progress_ok p started passed g"
  shows "progress_ok p (started_by out @ started) passed (completion_of (gate_run_of out)) \<and> (\<forall>r'. out \<noteq> Proceed r')"
  using gate_review_Inr[OF assms(1)] assms(2) by (auto simp: started_by_def split: option.splits)

lemma gate_wait_ok:
  assumes "gate_wait E g event r = Inr out" "event \<noteq> ''run.completion_check_started''" "progress_ok p started passed g"
  shows "progress_ok p (started_by out @ started) passed (completion_of (gate_run_of out)) \<and> (\<forall>r'. out \<noteq> Proceed r')"
  using gate_wait_Inr[OF assms(1)] assms(2,3) by (auto simp: started_by_def split: option.splits)

lemma gate_started_ok:
  assumes "gate_wait E (g\<lparr>cg_attempts := n, cg_pending := Some c\<rparr>) ''run.completion_check_started'' r = Inr out"
    and "progress_ok p started passed g"
  shows "progress_ok p (started_by out @ started) passed (completion_of (gate_run_of out)) \<and> (\<forall>r'. out \<noteq> Proceed r')"
proof -
  obtain r' where out: "out = Saved r' ''run.completion_check_started''"
    and g: "completion_of r' = g\<lparr>cg_attempts := n, cg_pending := Some c\<rparr>"
    using gate_wait_Inr[OF assms(1)] by blast
  then have st: "started_by out = [(pc_operation_id c, pc_subject c)]" by (simp add: started_by_def)
  have "progress_ok p ((pc_operation_id c, pc_subject c) # started) passed g"
    by (rule progress_ok_mono[OF assms(2)]) auto
  then show ?thesis by (simp add: out g st[unfolded out] progress_ok_def)
qed

lemma gate_loop_Start:
  assumes "decide_completion D p g (candidate_of E content) = Start c s"
  shows "gate_loop D E p max_steps now content g r =
     (case start_attempt E p (g\<lparr>cg_attempts := cg_attempts g + 1\<rparr>) content c s (run_id r) of
        Inl f \<Rightarrow> Inl f
      | Inr (CheckStarted operation timeout) \<Rightarrow>
          gate_wait E (g\<lparr>cg_attempts := cg_attempts g + 1, cg_pending := Some \<lparr> pc_subject = s, pc_operation_id = operation,
            pc_attempt = cg_attempts g + 1, pc_timeout_seconds = timeout, pc_started_at = now, pc_running_since = None \<rparr>\<rparr>)
            ''run.completion_check_started'' r
      | Inr CheckStale \<Rightarrow> gate_wait E (g\<lparr>cg_attempts := cg_attempts g + 1\<rparr>) ''run.completion_content_changed'' r
      | Inr (CheckUnavailable detail) \<Rightarrow>
          gate_loop D E p max_steps now content
            (record_evidence (check_refused s (cg_attempts g + 1) OUnavailable detail now) (g\<lparr>cg_attempts := cg_attempts g + 1\<rparr>)) r
      | Inr (CheckDenied detail) \<Rightarrow>
          gate_loop D E p max_steps now content
            (record_evidence (check_refused s (cg_attempts g + 1) ODenied detail now) (g\<lparr>cg_attempts := cg_attempts g + 1\<rparr>)) r)"
  by (subst gate_loop.simps) (simp add: assms Let_def split: sum.split check_start.split)

text \<open>The rounds of the gate.\<close>

lemma gate_loop_ok:
  assumes "gate_loop D E p max_steps now content g r = Inr out" "progress_ok p started passed g" "cg_pending g = None"
  shows "progress_ok p (started_by out @ started) passed (completion_of (gate_run_of out))
    \<and> (\<forall>r'. out = Proceed r' \<longrightarrow> (\<exists>g' b. r' = set_completion (g'\<lparr>cg_basis := Some b\<rparr>) r
          \<and> decide_completion D p g' (candidate_of E content) = Complete b \<and> cg_pending g' = None))"
  using assms
proof (induction D E p max_steps now content g r rule: gate_loop.induct)
  case (1 D E p max_steps now content g r)
  have refused: "progress_ok p started passed (record_evidence (check_refused s n result detail now) (g\<lparr>cg_attempts := m\<rparr>))"
      "cg_pending (record_evidence (check_refused s n result detail now) (g\<lparr>cg_attempts := m\<rparr>)) = None"
    if "result \<noteq> OPassed" for s n result detail m
    using progress_ok_record[OF _ refused_ok[OF that], of p started passed "g\<lparr>cg_attempts := m\<rparr>"] "1.prems"(2,3)
    by simp (simp add: record_evidence_def Let_def "1.prems"(3))
  show ?case
  proof (cases "decide_completion D p g (candidate_of E content)")
    case (Complete b)
    then show ?thesis using "1.prems" by (auto simp: gate_loop.simps started_by_def)
  next
    case (Review why)
    then show ?thesis using "1.prems" gate_review_ok[of E g why r out p started passed] by (auto simp: gate_loop.simps)
  next
    case (Repair e)
    then have "cg_repairs g < cp_repair_allowance p" using decide_checks_Repair by (auto simp: decide_completion_def)
    then have ok: "progress_ok p started passed (count_repair (ve_subject e) g)" by (rule progress_ok_repair[OF "1.prems"(2)])
    show ?thesis
    proof (cases "saturating_step (run_step r) < max_steps")
      case True
      then show ?thesis using "1.prems"(1) Repair ok
        by (auto simp: gate_loop.simps started_by_def and_then_Inr_iff repaired_completion split: option.splits)
    next
      case False
      then show ?thesis
        using "1.prems"(1,2) Repair gate_review_ok[of E g "RStepsExhausted (cs_check (ve_subject e))" r out p started passed]
        by (auto simp: gate_loop.simps)
    qed
  next
    case (Start c s)
    note prem = "1.prems"(1)[unfolded gate_loop_Start[OF Start]]
    show ?thesis
    proof (cases "start_attempt E p (g\<lparr>cg_attempts := cg_attempts g + 1\<rparr>) content c s (run_id r)")
      case (Inl f)
      then show ?thesis using prem by simp
    next
      case (Inr st)
      show ?thesis
      proof (cases st)
        case (CheckStarted op t)
        then show ?thesis using prem Inr gate_started_ok "1.prems"(2) by fastforce
      next
        case CheckStale
        then have "gate_wait E (g\<lparr>cg_attempts := cg_attempts g + 1\<rparr>) ''run.completion_content_changed'' r = Inr out"
          using prem Inr by simp
        from gate_wait_ok[OF this, of p started passed] show ?thesis using "1.prems"(2) by simp
      next
        case (CheckUnavailable detail)
        then show ?thesis using prem Inr "1.IH"(1)[OF Start refl Inr CheckUnavailable] refused[of OUnavailable] by simp
      next
        case (CheckDenied detail)
        then show ?thesis using prem Inr "1.IH"(2)[OF Start refl Inr CheckDenied] refused[of ODenied] by simp
      qed
    qed
  qed
qed

text \<open>One call of the gate, and the other operations on the progress.\<close>

lemma completion_gate_ok:
  assumes "completion_gate D E (Some p) max_steps now r = Inr out" "progress_ok p started passed (completion_of r)"
  shows "progress_ok p (started_by out @ started) (reported E (completion_of r) @ passed) (completion_of (gate_run_of out))
    \<and> (\<forall>r'. out = Proceed r' \<longrightarrow> (\<exists>content g b. ge_content E = Inr content
          \<and> (\<forall>m. content = Some m \<longrightarrow> mc_state m \<noteq> AreaBusy) \<and> r' = set_completion (g\<lparr>cg_basis := Some b\<rparr>) r
          \<and> decide_completion D p g (candidate_of E content) = Complete b \<and> cg_pending g = None))"
proof -
  let ?passed = "reported E (completion_of r) @ passed"
  obtain t where t: "state_tool (state r) = Inr t" using assms(1) by (auto simp: completion_gate_def and_then_Inr_iff)
  define g where "g = renew_repairs (included_input_seq t) ((completion_of r)\<lparr>cg_basis := None\<rparr>)"
  have ok: "progress_ok p started passed g" unfolding g_def by (rule progress_ok_renew) (simp add: assms(2))
  have rep: "reported E g = reported E (completion_of r)" by (simp add: g_def reported_def renew_repairs_def)
  have more: "progress_ok p started ?passed g1" if "progress_ok p started passed g1" for g1
    using that by (rule progress_ok_mono) auto
  show ?thesis
  proof (cases "ge_checks E")
    case False
    then obtain c :: check where "gate_review E g (RUnavailable (chk_name c) NO_CHECKS) r = Inr out"
      using assms(1) t by (auto simp: completion_gate_def domain_def g_def Let_def split: list.splits)
    from gate_review_ok[OF this more[OF ok]] show ?thesis by auto
  next
    case True
    then obtain h where h: "harvest E now g = Inr h" using assms(1) t by (auto simp: completion_gate_def domain_def g_def Let_def and_then_Inr_iff)
    note hv = harvest_ok[OF h ok]
    show ?thesis
    proof (cases h)
      case (StillRunning g1)
      then have "gate_wait E g1 ''run.completion_check_running'' r = Inr out"
        using assms(1) t True h by (simp add: completion_gate_def domain_def g_def Let_def)
      from gate_wait_ok[OF this, of p started ?passed] hv StillRunning more show ?thesis by auto
    next
      case (Hung g1 why)
      then have "gate_review E g1 why r = Inr out" using assms(1) t True h by (simp add: completion_gate_def domain_def g_def Let_def)
      from gate_review_ok[OF this, of p started ?passed] hv Hung more show ?thesis by auto
    next
      case (Harvested g1)
      then have g1: "cg_pending g1 = None" "progress_ok p started ?passed g1" using hv rep by simp_all
      obtain content where content: "ge_content E = Inr content"
        and k: "(if (case content of Some m \<Rightarrow> mc_state m = AreaBusy | None \<Rightarrow> False)
          then gate_wait E g1 ''run.completion_content_busy'' r else gate_loop D E p max_steps now content g1 r) = Inr out"
        using assms(1) t True h Harvested by (auto simp: completion_gate_def domain_def g_def Let_def and_then_Inr_iff)
      show ?thesis
      proof (cases "case content of Some m \<Rightarrow> mc_state m = AreaBusy | None \<Rightarrow> False")
        case True
        then have "gate_wait E g1 ''run.completion_content_busy'' r = Inr out" using k by simp
        from gate_wait_ok[OF this, of p started ?passed] g1 show ?thesis by auto
      next
        case False
        then have "gate_loop D E p max_steps now content g1 r = Inr out" using k by simp
        from gate_loop_ok[OF this g1(2,1)] False content show ?thesis by fastforce
      qed
    qed
  qed
qed

lemma gate_step_ok:
  assumes "progress_ok p (gw_started w) (gw_passed w) (completion_of (gw_run w))" "gate_step D p max_steps w w'"
  shows "progress_ok p (gw_started w') (gw_passed w') (completion_of (gw_run w'))"
  using assms(2)
proof cases
  case (step_gate E now out)
  then show ?thesis using completion_gate_ok[OF step_gate(2) assms(1)] by simp
next
  case (step_start_content E r)
  then show ?thesis using assms(1) by (auto simp: record_start_content_def and_then_Inr_iff split: if_splits)
next
  case (step_answer J request answer)
  then show ?thesis using assms(1) progress_ok_filter[of p "gw_started w" "gw_passed w" "(completion_of (gw_run w))\<lparr>cg_review := None\<rparr>"]
    by (simp add: answer_review_def retry_checks_def Let_def)
next
  case (step_supersede closed r)
  then have "r = set_completion ((completion_of (gw_run w))\<lparr>cg_review := None\<rparr>) (gw_run w)"
    by (auto simp: supersede_review_def Let_def split: sum.splits failure.splits)
  then show ?thesis using step_supersede(1) assms(1) by simp
next
  case (step_other r)
  then show ?thesis using assms(1) by simp
qed

interpretation gating: invariant_system gate_init "gate_step D p max_steps"
  "\<lambda>w. progress_ok p (gw_started w) (gw_passed w) (completion_of (gw_run w))" for D p max_steps
proof
  show "progress_ok p (gw_started w) (gw_passed w) (completion_of (gw_run w))" if "gate_init w" for w
    using that by (simp add: gate_init_def progress_ok_def no_progress_def)
qed (rule gate_step_ok)

section \<open>Rounds of passing Checks\<close>

text \<open>
  The decisions while every Check that is started is answered by evidence about its subject:
  \<open>verify\<close> gives the last decision of at most that many rounds.
\<close>

fun verify ::
  "completion_digests \<Rightarrow> completion_policy \<Rightarrow> candidate \<Rightarrow> (check_subject \<Rightarrow> completion_progress \<Rightarrow> verification_evidence)
     \<Rightarrow> nat \<Rightarrow> completion_progress \<Rightarrow> gate_decision" where
  "verify D p k answer 0 g = decide_completion D p g k"
| "verify D p k answer (Suc n) g =
     (case decide_completion D p g k of
        Start c s \<Rightarrow> verify D p k answer n (record_evidence (answer s g) g)
      | d \<Rightarrow> d)"

lemma latest_None: "latest s g = None \<longleftrightarrow> s \<notin> ve_subject ` set (cg_evidence g)"
  by (auto simp: latest_def find_None_iff)

lemma record_new:
  "latest (ve_subject e) g = None \<Longrightarrow>
     cg_evidence (record_evidence e g) = drop (Suc (length (cg_evidence g)) - MAX_EVIDENCE) (cg_evidence g @ [e])"
proof -
  assume "latest (ve_subject e) g = None"
  then have "filter (\<lambda>x. ve_subject x \<noteq> ve_subject e) (cg_evidence g) = cg_evidence g"
    by (auto simp: latest_None filter_id_conv) (metis imageI)
  then show ?thesis by (simp add: record_evidence_def Let_def)
qed

lemma completion_validate_checks: "completion_validate debug p = Inr () \<Longrightarrow> length (cp_checks p) \<le> MAX_CHECKS"
  by (auto simp: completion_validate_def split: if_splits)

text \<open>The evidence that the last \<open>m\<close> rounds recorded is still there and is about \<open>m\<close> different Checks.\<close>

definition rounds_kept :: "completion_digests \<Rightarrow> completion_policy \<Rightarrow> string \<Rightarrow> string \<Rightarrow> nat \<Rightarrow> completion_progress \<Rightarrow> bool" where
  "rounds_kept D p cap d m g \<longleftrightarrow>
     (\<exists>older recorded. cg_evidence g = older @ recorded \<and> length recorded = m \<and> distinct (map ve_subject recorded)
        \<and> ve_subject ` set recorded \<subseteq> (\<lambda>c. subject_of D c cap d) ` set (cp_checks p))"

lemma rounds_kept_bound: "rounds_kept D p cap d m g \<Longrightarrow> m \<le> length (cp_checks p)"
proof -
  assume "rounds_kept D p cap d m g"
  then obtain rec :: "verification_evidence list" where rec: "length rec = m" "distinct (map ve_subject rec)"
    "ve_subject ` set rec \<subseteq> (\<lambda>c. subject_of D c cap d) ` set (cp_checks p)" by (auto simp: rounds_kept_def)
  have "m = card (ve_subject ` set rec)" using rec(1) distinct_card[OF rec(2)] by simp
  also have "\<dots> \<le> card ((\<lambda>c. subject_of D c cap d) ` set (cp_checks p))" using rec(3) by (simp add: card_mono)
  also have "\<dots> \<le> length (cp_checks p)" by (metis card_image_le card_length le_trans List.finite_set)
  finally show ?thesis .
qed

lemma rounds_kept_step:
  assumes "rounds_kept D p cap d m g" "latest s g = None" "ve_subject e = s"
    and "s = subject_of D c cap d" "c \<in> set (cp_checks p)" "length (cp_checks p) \<le> MAX_CHECKS"
  shows "rounds_kept D p cap d (Suc m) (record_evidence e g)"
proof -
  obtain older recorded where r: "cg_evidence g = older @ recorded" "length recorded = m" "distinct (map ve_subject recorded)"
    "ve_subject ` set recorded \<subseteq> (\<lambda>c. subject_of D c cap d) ` set (cp_checks p)"
    using assms(1) by (auto simp: rounds_kept_def)
  let ?n = "Suc (length (cg_evidence g)) - MAX_EVIDENCE"
  have "m \<le> 8" using rounds_kept_bound[OF assms(1)] assms(6) by (simp add: MAX_CHECKS_def)
  then have "?n \<le> length older" using r(1,2) by (simp add: MAX_EVIDENCE_def)
  then have "cg_evidence (record_evidence e g) = drop ?n older @ (recorded @ [e])"
    using record_new[of e g] assms(2,3) r(1) by simp
  moreover have "s \<notin> ve_subject ` set recorded" using assms(2) r(1) by (auto simp: latest_None)
  ultimately show ?thesis unfolding rounds_kept_def using r(2,3,4) assms(3,4,5) by fastforce
qed

text \<open>When no evidence about the candidate refuses it, a decision is one of these.\<close>

definition no_objection :: "completion_digests \<Rightarrow> completion_policy \<Rightarrow> string \<Rightarrow> string \<Rightarrow> completion_progress \<Rightarrow> bool" where
  "no_objection D p cap d g \<longleftrightarrow>
     (\<forall>e \<in> set (cg_evidence g). ve_subject e \<in> (\<lambda>c. subject_of D c cap d) ` set (cp_checks p) \<longrightarrow> ve_outcome e = OPassed)"

lemma decide_without_objection:
  assumes "no_objection D p cap d g" "cd_unavailable k = None" "cd_capability k = Some cap" "cd_content k = Some d"
  shows "(\<exists>b. decide_completion D p g k = Complete b) \<or> decide_completion D p g k = Review RTimeExhausted
    \<or> (\<exists>c \<in> set (cp_checks p). decide_completion D p g k = Start c (subject_of D c cap d) \<and> latest (subject_of D c cap d) g = None)"
proof -
  have one: "decide_check D p g k c \<in> {None, Some (Review RTimeExhausted)}
      \<or> decide_check D p g k c = Some (Start c (subject_of D c cap d)) \<and> latest (subject_of D c cap d) g = None"
    if "c \<in> set (cp_checks p)" for c
  proof (cases "latest (subject_of D c cap d) g")
    case (Some e)
    then have "ve_outcome e = OPassed" using assms(1) that latest_in[OF Some] by (auto simp: no_objection_def)
    then show ?thesis using Some assms(2-4) by (simp add: decide_check_def)
  qed (simp add: decide_check_def assms(2-4))
  have "(\<exists>b. decide_checks D p g k a cs = Complete b) \<or> decide_checks D p g k a cs = Review RTimeExhausted
    \<or> (\<exists>c \<in> set cs. decide_checks D p g k a cs = Start c (subject_of D c cap d) \<and> latest (subject_of D c cap d) g = None)"
    if "set cs \<subseteq> set (cp_checks p)" for a cs
    using that
  proof (induction cs arbitrary: a)
    case (Cons c cs)
    show ?case
    proof (cases "check_applies D g k c \<and> decide_check D p g k c \<noteq> None")
      case True
      then show ?thesis using one[of c] Cons.prems by auto
    next
      case False
      then obtain a' where eq: "decide_checks D p g k a (c # cs) = decide_checks D p g k a' cs"
        by (cases "check_applies D g k c") auto
      show ?thesis unfolding eq using Cons.IH[of a'] Cons.prems by auto
    qed
  qed simp
  then show ?thesis unfolding decide_completion_def by blast
qed

lemma no_objection_record:
  assumes "no_objection D p cap d g" "ve_outcome e = OPassed"
  shows "no_objection D p cap d (record_evidence e g)"
  using assms by (auto simp: no_objection_def record_evidence_def Let_def dest!: in_set_dropD)

lemma verify_concludes:
  assumes "length (cp_checks p) \<le> MAX_CHECKS" "cd_unavailable k = None" "cd_capability k = Some cap" "cd_content k = Some d"
    and answer: "\<And>s h. ve_subject (answer s h) = s \<and> ve_outcome (answer s h) = OPassed"
  shows "rounds_kept D p cap d m g \<Longrightarrow> no_objection D p cap d g \<Longrightarrow> length (cp_checks p) \<le> m + n
    \<Longrightarrow> verify D p k answer n g \<in> {Complete Verified, Complete NotRequired, Review RTimeExhausted}"
proof (induction n arbitrary: m g)
  case (0 m g)
  have "\<not> (\<exists>c \<in> set (cp_checks p). latest (subject_of D c cap d) g = None)"
    using rounds_kept_step[OF 0(1) _ _ refl _ assms(1)] answer rounds_kept_bound 0(3) by (metis Suc_n_not_le_n add_0_right le_trans)
  then show ?case using decide_without_objection[OF 0(2) assms(2-4)] decided_basis[of D p g k] by auto
next
  case (Suc n m g)
  from decide_without_objection[OF Suc.prems(2) assms(2-4)]
  consider b where "decide_completion D p g k = Complete b" | "decide_completion D p g k = Review RTimeExhausted"
    | c where "c \<in> set (cp_checks p)" "decide_completion D p g k = Start c (subject_of D c cap d)"
        "latest (subject_of D c cap d) g = None" by blast
  then show ?case
  proof cases
    case (3 c)
    let ?e = "answer (subject_of D c cap d) g"
    have "rounds_kept D p cap d (Suc m) (record_evidence ?e g)"
      by (rule rounds_kept_step[OF Suc.prems(1) 3(3) _ refl 3(1) assms(1)]) (simp add: answer)
    from Suc.IH[OF this no_objection_record[OF Suc.prems(2)]] Suc.prems(3) answer 3(2) show ?thesis by simp
  qed (auto dest: decided_basis)
qed

section \<open>A Run at the gate\<close>

text \<open>One Check that always applies, and the surroundings in which it is started and then passes.\<close>

definition sample_digests :: completion_digests where
  "sample_digests = \<lparr> check_digest = chk_command, entries_digest = (\<lambda>_. []) \<rparr>"

definition sample_check :: check where
  "sample_check = \<lparr> chk_name = ''t'', chk_capability = SHELL, chk_command = ''m'', chk_timeout_seconds = None, chk_when = Always \<rparr>"

definition sample_completion :: completion_policy where
  "sample_completion = \<lparr> cp_checks = [sample_check], cp_repair_allowance = 1, cp_verification_seconds = 60, cp_exception = False \<rparr>"

definition sample_area :: mounted_content where
  "sample_area = \<lparr> mc_digest = ''d'', mc_revision = 1, mc_state = AreaReady \<rparr>"

definition sample_gate_env :: "check_status \<Rightarrow> gate_env" where
  "sample_gate_env status =
     \<lparr> ge_checks = True, ge_status = (\<lambda>_. Inr status), ge_content = Inr (Some sample_area),
       ge_start = (\<lambda>_. Inr (CheckStarted 9 30)), ge_capability = Some ''c'', ge_key = (\<lambda>_ _ n. 9), ge_permit = Inr (),
       ge_request = (\<lambda>_ _. Inr 8), ge_clock = 0 \<rparr>"

definition sample_gated :: "(sample, unit) gate_run" where
  "sample_gated =
     \<lparr> run_id = 1, run_task_id = 2, run_workspace_id = 3, run_node = NodeName ''a-b'',
       home_node = ''d/a-b'', run_agent_id = ''agent'', run_agent_version = ''1'', state = RunToolCall sample_call,
       recovery = default_recovery, control = Active, control_revision = 0,
       run_control_source = ByTenant,
       run_context = \<lparr> media_inferred_seq = 0, source_observation = None, plugin_findings = None,
         context_rest = \<lparr> completion = no_progress, history = [], journal_head = 0 \<rparr> \<rparr>,
       run_step = 4, revision = 7, observed_input_seq = 5, ledger_worker_ready = True,
       run_error = None, lease_owner = None, lease_until = None, updated_at = 0 \<rparr>"

definition sample_launched :: pending_check where
  "sample_launched =
     \<lparr> pc_subject = subject_of sample_digests sample_check ''c'' ''d'', pc_operation_id = 9, pc_attempt = 1,
       pc_timeout_seconds = 30, pc_started_at = 0, pc_running_since = None \<rparr>"

definition sample_waiting :: completion_progress where
  "sample_waiting = no_progress\<lparr>cg_attempts := 1, cg_pending := Some sample_launched\<rparr>"

definition sample_passed :: verification_evidence where
  "sample_passed = check_finish sample_launched True (Some 0) [] (Some 5) None 0"

lemma sample_gated_simps [simp]:
  "state (set_completion g sample_gated) = RunToolCall sample_call" "state sample_gated = RunToolCall sample_call"
  "completion_of sample_gated = no_progress" "included_input_seq sample_call = 0"
  by (simp_all add: set_completion_def map_context_def completion_of_def sample_gated_def sample_call_def)

lemma sample_progress:
  "renew_repairs 0 (no_progress\<lparr>cg_basis := None\<rparr>) = no_progress" "renew_repairs 0 (sample_waiting\<lparr>cg_basis := None\<rparr>) = sample_waiting"
  by (simp_all add: renew_repairs_def sample_waiting_def no_progress_def)

lemma sample_env_simps [simp]:
  "ge_checks (sample_gate_env st)" "ge_status (sample_gate_env st) op = Inr st" "ge_content (sample_gate_env st) = Inr (Some sample_area)"
  "ge_start (sample_gate_env st) q = Inr (CheckStarted 9 30)" "ge_capability (sample_gate_env st) = Some ''c''"
  "ge_clock (sample_gate_env st) = 0" "mc_state sample_area = AreaReady" "mc_digest sample_area = ''d''"
  by (simp_all add: sample_gate_env_def sample_area_def)

abbreviation sample_subject :: check_subject where
  "sample_subject \<equiv> subject_of sample_digests sample_check ''c'' ''d''"

lemma sample_decides:
  "latest sample_subject g = None \<Longrightarrow> cg_seconds g < 60 \<Longrightarrow>
     decide_completion sample_digests sample_completion g (candidate_of (sample_gate_env st) (Some sample_area)) = Start sample_check sample_subject"
  "latest sample_subject g = Some e \<Longrightarrow> ve_outcome e = OPassed \<Longrightarrow>
     decide_completion sample_digests sample_completion g (candidate_of (sample_gate_env st) (Some sample_area)) = Complete Verified"
proof -
  have "check_applies sample_digests g k sample_check" for k by (simp add: check_applies_def sample_check_def)
  then show "latest sample_subject g = None \<Longrightarrow> cg_seconds g < 60 \<Longrightarrow>
      decide_completion sample_digests sample_completion g (candidate_of (sample_gate_env st) (Some sample_area)) = Start sample_check sample_subject"
    "latest sample_subject g = Some e \<Longrightarrow> ve_outcome e = OPassed \<Longrightarrow>
      decide_completion sample_digests sample_completion g (candidate_of (sample_gate_env st) (Some sample_area)) = Complete Verified"
    by (simp_all add: decide_completion_def sample_completion_def decide_check_def candidate_of_def Let_def)
qed

lemma sample_gate:
  assumes "completion_of r = g" "renew_repairs 0 (g\<lparr>cg_basis := None\<rparr>) = g" "state r = RunToolCall sample_call"
    and "harvest (sample_gate_env st) 0 g = Inr (Harvested g1)"
  shows "completion_gate sample_digests (sample_gate_env st) (Some sample_completion) 100 0 r =
    gate_loop sample_digests (sample_gate_env st) sample_completion 100 0 (Some sample_area) g1 r"
  using assms by (simp add: completion_gate_def domain_def Let_def)

lemma sample_starts:
  "\<exists>r. completion_gate sample_digests (sample_gate_env CheckRunning) (Some sample_completion) 100 0 sample_gated
     = Inr (Saved r ''run.completion_check_started'') \<and> completion_of r = sample_waiting"
proof -
  have h: "harvest E now no_progress = Inr (Harvested no_progress)" for E now by (simp add: harvest_def no_progress_def)
  have d: "decide_completion sample_digests sample_completion no_progress (candidate_of (sample_gate_env CheckRunning) (Some sample_area)) =
      Start sample_check sample_subject"
    by (rule sample_decides) (simp_all add: latest_def no_progress_def)
  have g: "no_progress\<lparr>cg_attempts := cg_attempts no_progress + 1, cg_pending := Some \<lparr> pc_subject = sample_subject, pc_operation_id = 9,
      pc_attempt = cg_attempts no_progress + 1, pc_timeout_seconds = 30, pc_started_at = 0, pc_running_since = None \<rparr>\<rparr> = sample_waiting"
    by (simp add: sample_waiting_def sample_launched_def no_progress_def)
  show ?thesis
    by (simp add: sample_gate[OF _ _ _ h] sample_progress gate_loop_Start[OF d] start_attempt_def g gate_wait_def domain_def suspend_def)
qed

lemma sample_passes:
  "completion_gate sample_digests (sample_gate_env (CheckFinished True (Some 0) [] (Some 5) None)) (Some sample_completion) 100 0
       (set_completion sample_waiting sample_gated)
     = Inr (Proceed (set_completion (record_evidence sample_passed (sample_waiting\<lparr>cg_pending := None\<rparr>)\<lparr>cg_basis := Some Verified\<rparr>) sample_gated))"
proof -
  let ?E = "sample_gate_env (CheckFinished True (Some 0) [] (Some 5) None)" and ?g = "record_evidence sample_passed (sample_waiting\<lparr>cg_pending := None\<rparr>)"
  have h: "harvest ?E 0 sample_waiting = Inr (Harvested ?g)" by (simp add: harvest_def sample_waiting_def sample_passed_def)
  have e: "ve_subject sample_passed = sample_subject" "ve_outcome sample_passed = OPassed"
    by (simp_all add: sample_passed_def check_finish_def evidence_of_def sample_launched_def)
  have d: "decide_completion sample_digests sample_completion ?g (candidate_of ?E (Some sample_area)) = Complete Verified"
    by (rule sample_decides(2)[OF latest_recorded[of sample_passed, unfolded e(1)] e(2)])
  show ?thesis by (subst sample_gate[OF _ _ _ h]) (simp_all add: sample_progress gate_loop.simps d)
qed

definition sample_gate_world :: "(sample, unit) gate_world" where
  "sample_gate_world = \<lparr> gw_run = set_completion sample_waiting sample_gated, gw_started = [(9, sample_subject)], gw_passed = [] \<rparr>"

lemma sample_gate_reached: "reaches gate_init (gate_step sample_digests sample_completion 100) sample_gate_world"
proof -
  let ?w0 = "\<lparr> gw_run = sample_gated, gw_started = [], gw_passed = [] \<rparr>"
  obtain r where r: "completion_gate sample_digests (sample_gate_env CheckRunning) (Some sample_completion) 100 0 sample_gated
      = Inr (Saved r ''run.completion_check_started'')" "completion_of r = sample_waiting" using sample_starts by blast
  have "reaches gate_init (gate_step sample_digests sample_completion 100) ?w0" by (rule reaches_init) (simp add: gate_init_def)
  from reaches_step[OF this step_gate[of _ _ _ _ _ ?w0]] r
  have "reaches gate_init (gate_step sample_digests sample_completion 100) \<lparr> gw_run = r, gw_started = [(9, sample_subject)], gw_passed = [] \<rparr>"
    by (fastforce simp: started_by_def reported_def sample_waiting_def sample_launched_def no_progress_def)
  from reaches_step[OF this step_other[of "set_completion sample_waiting sample_gated"]] r(2) show ?thesis
    by (simp add: sample_gate_world_def)
qed

section \<open>Properties\<close>

text \<open>
  Property C5. A completion is genuine: a Run under a Completion Policy passes the gate only with no
  Check applying, or with every applicable Check started by the gate on exactly the mounted content
  under the bound capability, and that operation reported to have passed, on a ready Working Area.
\<close>

theorem completion_genuine:
  assumes "reaches gate_init (gate_step D p max_steps) w" "completion_gate D E (Some p) max_steps now (gw_run w) = Inr (Proceed r')"
  shows "\<exists>content b. ge_content E = Inr content \<and> cg_basis (completion_of r') = Some b \<and> cg_pending (completion_of r') = None
    \<and> (b = Verified \<or> b = NotRequired)
    \<and> (b = NotRequired \<longleftrightarrow> \<not> (\<exists>c \<in> set (cp_checks p). check_applies D (completion_of r') (candidate_of E content) c))
    \<and> (\<forall>c \<in> set (cp_checks p). check_applies D (completion_of r') (candidate_of E content) c \<longrightarrow>
         (\<exists>m cap op. content = Some m \<and> mc_state m = AreaReady \<and> ge_capability E = Some cap
            \<and> (op, subject_of D c cap (mc_digest m)) \<in> set (gw_started w)
            \<and> op \<in> set (reported E (completion_of (gw_run w)) @ gw_passed w)))"
proof -
  let ?passed = "reported E (completion_of (gw_run w)) @ gw_passed w"
  note ok = completion_gate_ok[OF assms(2) gating.reachable_inv[OF assms(1)]]
  then obtain content g b where content: "ge_content E = Inr content" "\<forall>m. content = Some m \<longrightarrow> mc_state m \<noteq> AreaBusy"
    and r': "r' = set_completion (g\<lparr>cg_basis := Some b\<rparr>) (gw_run w)"
    and d: "decide_completion D p g (candidate_of E content) = Complete b" and pending: "cg_pending g = None" by blast
  let ?k = "candidate_of E content"
  have g: "progress_ok p (gw_started w) ?passed g" using ok r' by (simp add: started_by_def)
  have cong: "check_applies D (completion_of r') ?k c = check_applies D g ?k c" for c
    by (rule check_applies_cong) (simp add: r')
  note c = decide_checks_Complete[OF d[unfolded decide_completion_def]]
  have "\<exists>m cap op. content = Some m \<and> mc_state m = AreaReady \<and> ge_capability E = Some cap
      \<and> (op, subject_of D c cap (mc_digest m)) \<in> set (gw_started w) \<and> op \<in> set ?passed"
    if c': "c \<in> set (cp_checks p)" "check_applies D g ?k c" for c
  proof -
    from c c' have "decide_check D p g ?k c = None" by blast
    then obtain cap m e where m: "content = Some m" "cd_unavailable ?k = None" "ge_capability E = Some cap"
        "latest (subject_of D c cap (mc_digest m)) g = Some e" "ve_outcome e = OPassed"
      by (auto simp: decide_check_None candidate_of_def)
    then have "mc_state m = AreaReady" using content(2) by (cases "mc_state m") (auto simp: candidate_of_def)
    moreover have "evidence_ok (gw_started w) ?passed e" using g latest_in[OF m(4)] by (auto simp: progress_ok_def list_all_iff)
    ultimately show ?thesis using m latest_in[OF m(4)] by (auto simp: evidence_ok_def)
  qed
  moreover have "b = NotRequired \<longleftrightarrow> \<not> (\<exists>c \<in> set (cp_checks p). check_applies D g ?k c)" using c by (simp split: if_splits)
  moreover have "cg_basis (completion_of r') = Some b" "cg_pending (completion_of r') = None" using pending by (simp_all add: r')
  ultimately show ?thesis
    unfolding cong[symmetric] using content(1) decided_basis[OF d] by (intro exI[of _ content] exI[of _ b]) blast
qed

theorem completion_genuine_witness:
  "\<exists>(w :: (sample, unit) gate_world) E r'. reaches gate_init (gate_step sample_digests sample_completion 100) w
     \<and> completion_gate sample_digests E (Some sample_completion) 100 0 (gw_run w) = Inr (Proceed r')
     \<and> cg_basis (completion_of r') = Some Verified"
proof -
  have run: "gw_run sample_gate_world = set_completion sample_waiting sample_gated" by (simp add: sample_gate_world_def)
  have "check_applies sample_digests g k sample_check" for g k by (simp add: check_applies_def sample_check_def)
  then show ?thesis
    using sample_gate_reached sample_passes completion_genuine[OF sample_gate_reached, unfolded run, OF sample_passes] unfolding run[symmetric]
    by (fastforce simp: sample_completion_def)
qed

text \<open>
  Property C12. The progress of a gated Run is bounded: at most the allowed repairs since the last input,
  at most 32 records of evidence about different subjects with diagnostics of at most 4096 bytes, and a
  pending Check is one that the gate started.
\<close>

theorem completion_progress_bounded:
  assumes "reaches gate_init (gate_step D p max_steps) w"
  shows "cg_repairs (completion_of (gw_run w)) \<le> cp_repair_allowance p
    \<and> length (cg_evidence (completion_of (gw_run w))) \<le> MAX_EVIDENCE
    \<and> distinct (map ve_subject (cg_evidence (completion_of (gw_run w))))
    \<and> (\<forall>e \<in> set (cg_evidence (completion_of (gw_run w))). length (ve_diagnostics e) \<le> MAX_DIAGNOSTIC_BYTES)
    \<and> (\<forall>c. cg_pending (completion_of (gw_run w)) = Some c \<longrightarrow> (pc_operation_id c, pc_subject c) \<in> set (gw_started w))"
  using gating.reachable_inv[OF assms] by (auto simp: progress_ok_def evidence_ok_def list_all_iff split: option.splits)

theorem completion_progress_bounded_witness:
  "cg_repairs (completion_of (gw_run sample_gate_world)) \<le> 1
     \<and> (\<exists>c. cg_pending (completion_of (gw_run sample_gate_world)) = Some c \<and> (pc_operation_id c, pc_subject c) \<in> set (gw_started sample_gate_world))"
proof -
  have "cg_pending (completion_of (gw_run sample_gate_world)) = Some sample_launched"
    by (simp add: sample_gate_world_def sample_waiting_def)
  then show ?thesis using completion_progress_bounded[OF sample_gate_reached] by (auto simp: sample_completion_def)
qed

text \<open>
  Property C13. Verification ends: under a valid policy, when every Check that is started passes and
  nothing known about the candidate refuses it, the gate comes to a completion within as many rounds as
  the policy has Checks, or tells that the verification time is spent.
\<close>

theorem verification_ends:
  assumes "completion_validate debug p = Inr ()" "cd_unavailable k = None" "cd_capability k = Some cap" "cd_content k = Some d"
    and "\<And>e c. e \<in> set (cg_evidence g) \<Longrightarrow> c \<in> set (cp_checks p) \<Longrightarrow> ve_subject e = subject_of D c cap d \<Longrightarrow> ve_outcome e = OPassed"
    and "\<And>s h. ve_subject (answer s h) = s \<and> ve_outcome (answer s h) = OPassed"
  shows "verify D p k answer (length (cp_checks p)) g \<in> {Complete Verified, Complete NotRequired, Review RTimeExhausted}"
proof (rule verify_concludes[OF completion_validate_checks[OF assms(1)] assms(2-4,6)])
  show "rounds_kept D p cap d 0 g" by (simp add: rounds_kept_def)
  show "no_objection D p cap d g" using assms(5) by (auto simp: no_objection_def)
qed simp

theorem verification_ends_witness:
  "verify sample_digests sample_completion (candidate_of (sample_gate_env CheckRunning) (Some sample_area))
     (\<lambda>s _. sample_passed\<lparr>ve_subject := s\<rparr>) 1 no_progress \<in> {Complete Verified, Complete NotRequired, Review RTimeExhausted}"
proof -
  have "completion_validate id sample_completion = Inr ()"
    by (simp add: completion_validate_def sample_completion_def check_validate_def sample_check_def check_name_ok_def SHELL_def
        MAX_CHECKS_def MAX_REPAIR_ALLOWANCE_def MAX_VERIFICATION_SECONDS_def MAX_COMMAND_BYTES_def is_ascii_lowercase_def trim_def Let_def byte_def utf8_width_def is_whitespace_def)
  moreover have "ve_outcome sample_passed = OPassed" by (simp add: sample_passed_def check_finish_def evidence_of_def)
  ultimately show ?thesis
    using verification_ends[of id sample_completion "candidate_of (sample_gate_env CheckRunning) (Some sample_area)" "''c''" "''d''"
        no_progress sample_digests "\<lambda>s _. sample_passed\<lparr>ve_subject := s\<rparr>"]
    by (simp add: candidate_of_def no_progress_def sample_completion_def)
qed

end
