(* ===== verification/Graph.thy ===== *)
theory Graph
  imports Run_State Failures Json "HOL-Library.Product_Lexorder"
begin

text \<open>
  The scoped graph that a Node shows to people and to peers (crates/aidash-domain/src/federation/graph.rs
  and crates/aidash-application/src/federation/graph.rs): options, nodes and edges, the projection of one
  page from the candidates that its viewer may see, and the check of a page that a peer returned.

  JSON texts of keys, UUID texts, digests, sizes and the scope of the projection (the transaction that
  lists candidates and decides what is visible) are parameters. Of the entities the fields that the
  graph uses are kept.
\<close>

section \<open>Options, nodes and pages\<close>

record graph_options =
  go_scope_workspace :: "uuid option"
  go_depth :: nat
  go_mode :: string
  go_kinds :: "string list"
  go_relations :: "string list"
  go_hours :: nat
  go_limit :: nat
  go_cursor :: "string option"

record graph_node =
  gn_id :: string
  gn_node_id :: string
  gn_kind :: string
  gn_name :: "(string, string) btree_map"
  gn_resource_id :: "string option"
  gn_version :: "string option"
  gn_workspace_id :: "uuid option"
  gn_status :: "string option"
  gn_goal_body :: "string option"
  gn_at :: "datetime option"

record graph_edge =
  ge_source :: string
  ge_target :: string
  ge_relation :: string
  ge_layer :: string

record graph_activity =
  ga_kind :: string
  ga_at :: datetime
  ga_reference :: string

record graph_page =
  gp_node_id :: string
  gp_generation :: string
  gp_checked_at :: datetime
  gp_nodes :: "graph_node list"
  gp_edges :: "graph_edge list"
  gp_activity :: "graph_activity list"
  gp_next_cursor :: "string option"

record graph_cursor =
  gc_kind :: nat
  gc_offset :: nat
  gc_generation :: string
  gc_binding :: string
  gc_window_end :: int
  gc_expires_at :: int

definition CANDIDATE_BATCH :: nat where "CANDIDATE_BATCH = 64"
definition CANDIDATE_KINDS :: nat where "CANDIDATE_KINDS = 6"
definition direct_depth :: nat where "direct_depth = 1"

definition GRAPH_MODES :: "string list" where
  "GRAPH_MODES = [''mesh'', ''collaboration'', ''knowledge'', ''execution'', ''topology'']"

definition GRAPH_KINDS :: "string list" where
  "GRAPH_KINDS = [''workspace'', ''goal'', ''task'', ''run'', ''artifact'', ''conversation'', ''agent'', ''cluster'', ''tool'', ''model'', ''skill'']"

definition GRAPH_RELATIONS :: "string list" where
  "GRAPH_RELATIONS = [''contains'', ''goal'', ''depends'', ''produces'', ''executes'', ''tool'', ''model'', ''skill'', ''member'',
     ''hosts'', ''coordinates'', ''participates'']"

definition options_validate :: "graph_options \<Rightarrow> unit result" where
  "options_validate o' =
     refuse_if (go_mode o' \<notin> set GRAPH_MODES \<or> go_depth o' \<noteq> direct_depth \<or> go_limit o' < 2 \<or> 80 < go_limit o' \<or> 720 < go_hours o'
         \<or> 12 < length (go_kinds o') \<or> 16 < length (go_relations o')
         \<or> (case go_cursor o' of None \<Rightarrow> False | Some c \<Rightarrow> 4096 < length c)
         \<or> list_ex (\<lambda>k. k \<notin> set GRAPH_KINDS) (go_kinds o') \<or> list_ex (\<lambda>r. r \<notin> set GRAPH_RELATIONS) (go_relations o'))
       (Invalid ''invalid graph bounds'')"

section \<open>Candidates\<close>

record 'v graph_entry =
  en_id :: string
  en_version :: string
  en_kind :: string
  en_name :: "(string, string) btree_map"
  en_config :: 'v

record graph_workspace =
  gw_id :: uuid
  gw_title :: string
  gw_goal :: string
  gw_created_at :: datetime

record graph_task =
  gt_id :: uuid
  gt_workspace_id :: uuid
  gt_title :: string
  gt_status :: task_status
  gt_dependencies :: "uuid list"
  gt_parent_id :: "uuid option"
  gt_created_at :: datetime

record graph_run =
  gr_id :: uuid
  gr_task_id :: uuid
  gr_workspace_id :: uuid
  gr_agent_id :: string
  gr_agent_version :: string
  gr_phase :: run_phase
  gr_control :: run_control
  gr_updated_at :: datetime

record graph_artifact =
  gf_id :: uuid
  gf_workspace_id :: uuid
  gf_task_id :: uuid
  gf_kind :: string
  gf_name :: string
  gf_created_at :: datetime

record graph_conversation =
  gv_id :: uuid
  gv_workspace_id :: uuid
  gv_target :: string
  gv_target_kind :: string
  gv_created_at :: datetime

datatype 'v graph_candidate =
    CRegistry "'v graph_entry"
  | CWorkspace graph_workspace
  | CTask graph_task
  | CRun graph_run
  | CArtifact graph_artifact
  | CConversation graph_conversation

text \<open>The texts: of a UUID in both forms and back, of a list of strings as JSON, of statuses and phases.\<close>

record graph_text =
  uuid_text :: "uuid \<Rightarrow> string"
  uuid_simple :: "uuid \<Rightarrow> string"
  uuid_parse :: "string \<Rightarrow> uuid option"
  strings_json :: "string list \<Rightarrow> string"
  status_text :: "task_status \<Rightarrow> string"
  phase_text :: "run_phase \<Rightarrow> string"

definition resource_key :: "graph_text \<Rightarrow> string \<Rightarrow> string \<Rightarrow> string \<Rightarrow> string" where
  "resource_key T node kind i = strings_json T [''resource'', node, kind, i]"

definition entity_key :: "graph_text \<Rightarrow> string \<Rightarrow> string \<Rightarrow> string \<Rightarrow> string \<Rightarrow> string" where
  "entity_key T node kind i version = strings_json T [''entity'', node, kind, i, version]"

definition kind_allowed :: "string \<Rightarrow> graph_options \<Rightarrow> bool" where
  "kind_allowed kind o' \<longleftrightarrow>
     kind \<in> set (go_kinds o')
     \<and> (if go_mode o' = ''topology'' then kind \<in> set [''agent'', ''cluster'', ''tool'']
        else if go_mode o' = ''execution'' then kind \<in> set [''goal'', ''task'', ''run'', ''agent'', ''artifact'']
        else if go_mode o' = ''collaboration''
        then kind \<in> set [''workspace'', ''goal'', ''conversation'', ''task'', ''agent'', ''cluster'', ''artifact'']
        else if go_mode o' = ''knowledge'' then kind \<noteq> ''run''
        else True)"

definition relation_allowed :: "string \<Rightarrow> graph_options \<Rightarrow> bool" where
  "relation_allowed relation o' \<longleftrightarrow> relation \<in> set (go_relations o')"

definition registry_ref :: "'v json_ops \<Rightarrow> 'v \<Rightarrow> (string \<times> string) option" where
  "registry_ref J v =
     (case (as_str J (json_field J v ''id''), as_str J (json_field J v ''version'')) of
        (Some i, Some version) \<Rightarrow> if i = [] \<or> version = [] then None else Some (i, version)
      | _ \<Rightarrow> None)"

definition registry_refs :: "'v json_ops \<Rightarrow> 'v \<Rightarrow> (string \<times> string) list" where
  "registry_refs J v =
     List.map_filter (registry_ref J) (case as_array J v of Some items \<Rightarrow> items | None \<Rightarrow> [v])"

definition AGENT_FIELDS :: "(string \<times> string \<times> string) list" where
  "AGENT_FIELDS = [(''tool'', ''tools'', ''tool''), (''model'', ''model'', ''model''), (''skill'', ''skills'', ''skill''), (''cluster'', ''cluster'', ''member'')]"

text \<open>\<open>str::rsplit_once\<close>\<close>

definition rsplit_once :: "char \<Rightarrow> string \<Rightarrow> (string \<times> string) option" where
  "rsplit_once d s = map_option (\<lambda>(a, b). (rev b, rev a)) (split_once d (rev s))"

definition opt_list :: "('a \<Rightarrow> 'b list) \<Rightarrow> 'a option \<Rightarrow> 'b list" where
  "opt_list f x = (case x of None \<Rightarrow> [] | Some y \<Rightarrow> f y)"

lemma set_opt_list [simp]: "e \<in> set (opt_list f x) \<longleftrightarrow> (\<exists>y. x = Some y \<and> e \<in> set (f y))"
  by (cases x) (simp_all add: opt_list_def)

fun candidate_kind :: "'v graph_candidate \<Rightarrow> string" where
  "candidate_kind (CRegistry e) = en_kind e"
| "candidate_kind (CWorkspace _) = ''workspace''"
| "candidate_kind (CTask _) = ''task''"
| "candidate_kind (CRun _) = ''run''"
| "candidate_kind (CArtifact _) = ''artifact''"
| "candidate_kind (CConversation _) = ''conversation''"

text \<open>\<open>str::lines\<close>: a last empty line is dropped, and so is a carriage return at the end of a line.\<close>

definition text_lines :: "string \<Rightarrow> string list" where
  "text_lines s =
     (let parts = split (CHR 0x0A) s; kept = (if last parts = [] then butlast parts else parts)
      in map (\<lambda>l. if l \<noteq> [] \<and> last l = CHR 0x0D then butlast l else l) kept)"

definition goal_label :: "string \<Rightarrow> string" where
  "goal_label goal =
     (let label = (case List.find (\<lambda>l. trim l \<noteq> []) (text_lines goal) of Some l \<Rightarrow> l | None \<Rightarrow> ''Goal'')
      in concat (take 100 (utf8_chunks label)))"

definition plain_node :: "graph_text \<Rightarrow> string \<Rightarrow> string \<Rightarrow> uuid \<Rightarrow> string \<Rightarrow> uuid option \<Rightarrow> string option \<Rightarrow> datetime \<Rightarrow> graph_node" where
  "plain_node T node kind i name workspace status at =
     \<lparr> gn_id = resource_key T node kind (uuid_text T i), gn_node_id = node, gn_kind = kind, gn_name = [(''en'', name)],
       gn_resource_id = Some (uuid_text T i), gn_version = None, gn_workspace_id = workspace, gn_status = status,
       gn_goal_body = None, gn_at = Some at \<rparr>"

fun candidate_nodes :: "graph_text \<Rightarrow> string \<Rightarrow> graph_options \<Rightarrow> 'v graph_candidate \<Rightarrow> graph_node list" where
  "candidate_nodes T node o' (CRegistry e) =
     [\<lparr> gn_id = entity_key T node (en_kind e) (en_id e) (en_version e), gn_node_id = node, gn_kind = en_kind e, gn_name = en_name e,
        gn_resource_id = Some (en_id e), gn_version = Some (en_version e), gn_workspace_id = None, gn_status = None,
        gn_goal_body = None, gn_at = None \<rparr>]"
| "candidate_nodes T node o' (CWorkspace w) =
     (if kind_allowed ''workspace'' o'
      then [plain_node T node ''workspace'' (gw_id w) (gw_title w) (Some (gw_id w)) None (gw_created_at w)] else [])
     @ (if trim (gw_goal w) \<noteq> [] \<and> kind_allowed ''goal'' o'
        then [(plain_node T node ''goal'' (gw_id w) (goal_label (gw_goal w)) (Some (gw_id w)) None (gw_created_at w))
                \<lparr>gn_goal_body := Some (gw_goal w)\<rparr>] else [])"
| "candidate_nodes T node o' (CTask t) =
     [plain_node T node ''task'' (gt_id t) (gt_title t) (Some (gt_workspace_id t)) (Some (status_text T (gt_status t))) (gt_created_at t)]"
| "candidate_nodes T node o' (CRun r) =
     [plain_node T node ''run'' (gr_id r) (''Run '' @ uuid_simple T (gr_id r)) (Some (gr_workspace_id r))
        (Some (if gr_control r = Paused then ''PAUSED'' else phase_text T (gr_phase r))) (gr_updated_at r)]"
| "candidate_nodes T node o' (CArtifact a) =
     [plain_node T node ''artifact'' (gf_id a) (gf_name a) (Some (gf_workspace_id a)) (Some (gf_kind a)) (gf_created_at a)]"
| "candidate_nodes T node o' (CConversation c) =
     [plain_node T node ''conversation'' (gv_id c) ''Conversation'' (Some (gv_workspace_id c)) None (gv_created_at c)]"

section \<open>Edges\<close>

definition graph_edge_of :: "string \<Rightarrow> string \<Rightarrow> string \<Rightarrow> string \<Rightarrow> graph_edge" where
  "graph_edge_of source target relation layer = \<lparr> ge_source = source, ge_target = target, ge_relation = relation, ge_layer = layer \<rparr>"

text \<open>The edges that a record asks for, in the order of the calls of \<open>add\<close>.\<close>

fun record_edges :: "graph_text \<Rightarrow> 'v json_ops \<Rightarrow> string \<Rightarrow> 'v graph_candidate \<Rightarrow> graph_edge list" where
  "record_edges T J node (CWorkspace w) =
     [graph_edge_of (resource_key T node ''workspace'' (uuid_text T (gw_id w))) (resource_key T node ''goal'' (uuid_text T (gw_id w)))
        ''goal'' ''configuration'']"
| "record_edges T J node (CTask t) =
     (let i = resource_key T node ''task'' (uuid_text T (gt_id t)) in
      [graph_edge_of (resource_key T node ''workspace'' (uuid_text T (gt_workspace_id t))) i ''contains'' ''configuration'',
       (case gt_parent_id t of
          Some parent \<Rightarrow> graph_edge_of (resource_key T node ''task'' (uuid_text T parent)) i ''contains'' ''activity''
        | None \<Rightarrow> graph_edge_of (resource_key T node ''goal'' (uuid_text T (gt_workspace_id t))) i ''contains'' ''activity'')]
      @ map (\<lambda>dep. graph_edge_of (resource_key T node ''task'' (uuid_text T dep)) i ''depends'' ''activity'') (gt_dependencies t))"
| "record_edges T J node (CRun r) =
     (let i = resource_key T node ''run'' (uuid_text T (gr_id r)) in
      [graph_edge_of (entity_key T node ''agent'' (gr_agent_id r) (gr_agent_version r)) i ''executes'' ''activity'',
       graph_edge_of i (resource_key T node ''task'' (uuid_text T (gr_task_id r))) ''executes'' ''activity''])"
| "record_edges T J node (CArtifact a) =
     [graph_edge_of (resource_key T node ''task'' (uuid_text T (gf_task_id a))) (resource_key T node ''artifact'' (uuid_text T (gf_id a)))
        ''produces'' ''activity'']"
| "record_edges T J node (CConversation c) =
     (let i = resource_key T node ''conversation'' (uuid_text T (gv_id c)) in
      graph_edge_of (resource_key T node ''workspace'' (uuid_text T (gv_workspace_id c))) i ''contains'' ''configuration''
      # (if gv_target_kind c \<in> set [''agent'', ''cluster'']
         then opt_list (\<lambda>(target, version). [graph_edge_of (entity_key T node (gv_target_kind c) target version) i ''participates'' ''activity''])
                (rsplit_once (CHR ''@'') (gv_target c))
         else []))"
| "record_edges T J node (CRegistry e) =
     (let i = entity_key T node (en_kind e) (en_id e) (en_version e) in
      (if en_kind e = ''cluster''
       then opt_list (\<lambda>(target, version). [graph_edge_of i (entity_key T node ''agent'' target version) ''coordinates'' ''configuration''])
              (registry_ref J (json_field J (en_config e) ''coordinator''))
       else [])
      @ (if en_kind e = ''agent''
         then concat (map (\<lambda>(kind, field, relation).
                map (\<lambda>(target, version). graph_edge_of i (entity_key T node kind target version) relation ''configuration'')
                  (registry_refs J (json_field J (en_config e) field))) AGENT_FIELDS)
         else []))"

definition add_edge ::
  "string list \<Rightarrow> graph_options \<Rightarrow> graph_edge \<Rightarrow> (string \<times> string \<times> string, graph_edge) btree_map
     \<Rightarrow> (string \<times> string \<times> string, graph_edge) btree_map" where
  "add_edge visible o' e edges =
     (if ge_source e \<noteq> ge_target e \<and> ge_source e \<in> set visible \<and> ge_target e \<in> set visible \<and> relation_allowed (ge_relation e) o'
      then map_insert (ge_source e, ge_relation e, ge_target e) e edges else edges)"

definition build_edges ::
  "graph_text \<Rightarrow> 'v json_ops \<Rightarrow> string \<Rightarrow> 'v graph_candidate list \<Rightarrow> graph_node list \<Rightarrow> graph_options \<Rightarrow> graph_edge list" where
  "build_edges T J node records nodes o' =
     take 600 (map snd (fold (add_edge (map gn_id nodes) o') (concat (map (record_edges T J node) records)) []))"

section \<open>Pages of peers\<close>

definition event_reference ::
  "graph_text \<Rightarrow> 'v json_ops \<Rightarrow> string \<Rightarrow> string \<Rightarrow> uuid option \<Rightarrow> 'v \<Rightarrow> string option" where
  "event_reference T J node kind workspace data =
     (let starts = (\<lambda>p. strip_prefix p kind \<noteq> None);
          uuid_of = (\<lambda>v. case as_str J v of None \<Rightarrow> None | Some text \<Rightarrow> uuid_parse T text);
          first = (\<lambda>vs. case List.map_filter uuid_of vs of [] \<Rightarrow> None | i # _ \<Rightarrow> Some (uuid_text T i))
      in if starts ''run.''
         then map_option (resource_key T node ''run'') (first [json_field J data ''run_id'', json_field J data ''id''])
         else case workspace of
                None \<Rightarrow> None
              | Some w \<Rightarrow>
                  if starts ''task.''
                  then map_option (resource_key T node ''task'')
                         (first [json_field J (json_field J data ''task'') ''id'', json_field J data ''task_id'', json_field J data ''id''])
                  else if starts ''artifact.'' then map_option (resource_key T node ''artifact'') (first [json_field J data ''id''])
                  else if starts ''conversation.'' then map_option (resource_key T node ''conversation'') (first [json_field J data ''id''])
                  else if starts ''message.'' \<or> starts ''workspace.'' then Some (resource_key T node ''workspace'' (uuid_text T w))
                  else None)"

definition hex_digit :: "char \<Rightarrow> bool" where
  "hex_digit c \<longleftrightarrow> is_ascii_digit c \<or> 97 \<le> byte c \<and> byte c \<le> 102 \<or> 65 \<le> byte c \<and> byte c \<le> 70"

definition generation_ok :: "string \<Rightarrow> bool" where
  "generation_ok g =
     (case strip_prefix ''sha256:'' g of None \<Rightarrow> False | Some digest \<Rightarrow> length digest = 64 \<and> list_all hex_digit digest)"

definition REGISTRY_KINDS :: "string list" where
  "REGISTRY_KINDS = [''agent'', ''cluster'', ''tool'', ''model'', ''skill'']"

definition node_ok :: "graph_text \<Rightarrow> string \<Rightarrow> graph_options \<Rightarrow> graph_node \<Rightarrow> bool" where
  "node_ok T node o' n \<longleftrightarrow>
     \<not> (gn_node_id n \<noteq> node \<or> \<not> kind_allowed (gn_kind n) o'
        \<or> (case gn_resource_id n of None \<Rightarrow> True | Some i \<Rightarrow> i = [])
        \<or> gn_goal_body n \<noteq> None \<and> gn_kind n \<noteq> ''goal''
        \<or> (gn_kind n \<in> set REGISTRY_KINDS) \<noteq> (gn_version n \<noteq> None))
     \<and> gn_id n = (let resource = (case gn_resource_id n of None \<Rightarrow> [] | Some i \<Rightarrow> i) in
          case gn_version n of
            Some version \<Rightarrow> entity_key T node (gn_kind n) resource version
          | None \<Rightarrow> resource_key T node (gn_kind n) resource)"

fun check_nodes :: "graph_text \<Rightarrow> string \<Rightarrow> graph_options \<Rightarrow> string list \<Rightarrow> graph_node list \<Rightarrow> string list option" where
  "check_nodes T node o' ids [] = Some ids"
| "check_nodes T node o' ids (n # ns) =
     (if node_ok T node o' n \<and> gn_id n \<notin> set ids then check_nodes T node o' (gn_id n # ids) ns else None)"

definition valid_remote_page :: "graph_text \<Rightarrow> graph_page \<Rightarrow> string \<Rightarrow> graph_options \<Rightarrow> bool" where
  "valid_remote_page T page node o' =
     (if gp_node_id page \<noteq> node \<or> 80 < length (gp_nodes page) \<or> 600 < length (gp_edges page) \<or> 80 < length (gp_activity page)
         \<or> (case gp_next_cursor page of None \<Rightarrow> False | Some c \<Rightarrow> 4096 < length c) \<or> \<not> generation_ok (gp_generation page)
      then False
      else case check_nodes T node o' [] (gp_nodes page) of
             None \<Rightarrow> False
           | Some ids \<Rightarrow>
               list_all (\<lambda>a. ga_reference a \<in> set ids \<and> length (ga_kind a) \<le> 100) (gp_activity page)
               \<and> list_all (\<lambda>e. ge_source e \<in> set ids \<and> ge_target e \<in> set ids \<and> relation_allowed (ge_relation e) o'
                    \<and> ge_layer e \<in> set [''configuration'', ''activity'', ''federation'']) (gp_edges page))"

section \<open>The projection of a page\<close>

record 'v graph_scope =
  gs_node_id :: string
  gs_now :: datetime
  gs_checked_at :: datetime
  gs_encode :: "graph_cursor \<Rightarrow> failure + string"
  gs_decode :: "string \<Rightarrow> failure + graph_cursor"
  gs_generation :: "failure + string"
  gs_generation_after :: "failure + string"
  gs_candidates :: "nat \<Rightarrow> nat \<Rightarrow> failure + 'v graph_candidate list"
  gs_visible :: "'v graph_candidate \<Rightarrow> bool \<Rightarrow> failure + bool"
  gs_linked_workspace :: "uuid \<Rightarrow> failure + 'v graph_candidate option"
  gs_linked_task :: "uuid \<Rightarrow> failure + 'v graph_candidate option"
  gs_linked_registry :: "string \<Rightarrow> string \<Rightarrow> string \<Rightarrow> failure + 'v graph_candidate option"
  gs_activity :: "graph_node list \<Rightarrow> int \<Rightarrow> failure + graph_activity list"
  gs_size :: "graph_node list \<Rightarrow> failure + nat"
  gs_page_size :: "graph_page \<Rightarrow> failure + nat"
  gs_binding :: "string \<Rightarrow> string \<Rightarrow> graph_options \<Rightarrow> string"

definition timestamp :: "datetime \<Rightarrow> int" where
  "timestamp t = t div 1000000000"

definition cursor_binding :: "'v graph_scope \<Rightarrow> string \<Rightarrow> string \<Rightarrow> graph_options \<Rightarrow> string" where
  "cursor_binding G node subject o' = gs_binding G node subject (o'\<lparr>go_cursor := None\<rparr>)"

definition checked_cursor :: "graph_cursor \<Rightarrow> string \<Rightarrow> string \<Rightarrow> int \<Rightarrow> failure + graph_cursor" where
  "checked_cursor c binding generation now =
     (if gc_binding c \<noteq> binding \<or> CANDIDATE_KINDS \<le> gc_kind c \<or> now + 60 < gc_window_end c \<or> gc_expires_at c - gc_window_end c \<noteq> 300
      then Inl Forbidden
      else if gc_expires_at c \<le> now \<or> gc_generation c \<noteq> generation then Inl (FConflict ''graph projection changed'')
      else Inr c)"

text \<open>The resources a candidate is linked to: Workspaces, Tasks and Registry entries.\<close>

fun link_targets ::
  "'v json_ops \<Rightarrow> graph_options \<Rightarrow> 'v graph_candidate \<Rightarrow> uuid list \<times> uuid list \<times> (string \<times> string \<times> string) list" where
  "link_targets J o' (CWorkspace _) = ([], [], [])"
| "link_targets J o' (CTask t) =
     (if go_scope_workspace o' \<noteq> None then ([], [], [])
      else (if (kind_allowed ''workspace'' o' \<or> kind_allowed ''goal'' o') \<and> relation_allowed ''contains'' o' then [gt_workspace_id t] else [],
            if kind_allowed ''task'' o'
            then (if relation_allowed ''contains'' o' then opt_list (\<lambda>parent. [parent]) (gt_parent_id t) else [])
              @ (if relation_allowed ''depends'' o' then gt_dependencies t else [])
            else [],
            []))"
| "link_targets J o' (CArtifact a) =
     (if go_scope_workspace o' \<noteq> None then ([], [], [])
      else ([], if kind_allowed ''task'' o' \<and> relation_allowed ''produces'' o' then [gf_task_id a] else [], []))"
| "link_targets J o' (CRun r) =
     (if \<not> relation_allowed ''executes'' o' then ([], [], [])
      else ([], if go_scope_workspace o' = None \<and> kind_allowed ''task'' o' then [gr_task_id r] else [],
            if kind_allowed ''agent'' o' then [(''agent'', gr_agent_id r, gr_agent_version r)] else []))"
| "link_targets J o' (CConversation c) =
     (if go_scope_workspace o' \<noteq> None then ([], [], [])
      else (if kind_allowed ''workspace'' o' \<and> relation_allowed ''contains'' o' then [gv_workspace_id c] else [], [],
            if relation_allowed ''participates'' o' \<and> kind_allowed (gv_target_kind c) o' \<and> gv_target_kind c \<in> set [''agent'', ''cluster'']
            then opt_list (\<lambda>(i, version). [(gv_target_kind c, i, version)]) (rsplit_once (CHR ''@'') (gv_target c))
            else []))"
| "link_targets J o' (CRegistry e) =
     ([], [],
      (if en_kind e = ''cluster'' \<and> relation_allowed ''coordinates'' o' \<and> kind_allowed ''agent'' o'
       then opt_list (\<lambda>(i, version). [(''agent'', i, version)]) (registry_ref J (json_field J (en_config e) ''coordinator''))
       else [])
      @ (if en_kind e = ''agent''
         then concat (map (\<lambda>(kind, field, relation).
                if \<not> kind_allowed kind o' \<or> \<not> relation_allowed relation o' then []
                else map (\<lambda>(i, version). (kind, i, version)) (registry_refs J (json_field J (en_config e) field))) AGENT_FIELDS)
         else []))"

definition node_ids :: "graph_text \<Rightarrow> string \<Rightarrow> graph_options \<Rightarrow> 'v graph_candidate \<Rightarrow> string list" where
  "node_ids T node o' c = map gn_id (candidate_nodes T node o' c)"

text \<open>
  One of the three loops over linked resources: \<open>fetch\<close> gives the resource to add, if it is there and
  not seen yet; it is added when it is visible.
\<close>

fun link_each ::
  "'v graph_scope \<Rightarrow> ('v graph_candidate \<Rightarrow> string list) \<Rightarrow> (string list \<Rightarrow> 'i \<Rightarrow> failure + 'v graph_candidate option)
     \<Rightarrow> 'i list \<Rightarrow> string list \<Rightarrow> failure + 'v graph_candidate list \<times> string list" where
  "link_each G ids fetch [] seen = Inr ([], seen)"
| "link_each G ids fetch (i # is) seen =
     and_then (fetch seen i) (\<lambda>item.
     case item of
       None \<Rightarrow> link_each G ids fetch is seen
     | Some c \<Rightarrow>
         and_then (gs_visible G c False) (\<lambda>visible.
         if \<not> visible then link_each G ids fetch is seen
         else and_then (link_each G ids fetch is (ids c @ seen)) (\<lambda>(linked, seen'). Inr (c # linked, seen'))))"

definition fetch_workspace :: "'v graph_scope \<Rightarrow> ('v graph_candidate \<Rightarrow> string list) \<Rightarrow> string list \<Rightarrow> uuid \<Rightarrow> failure + 'v graph_candidate option" where
  "fetch_workspace G ids seen i =
     and_then (gs_linked_workspace G i) (\<lambda>item.
     Inr (case item of
            Some c \<Rightarrow> if list_ex (\<lambda>x. x \<notin> set seen) (ids c) then Some c else None
          | None \<Rightarrow> None))"

definition fetch_task :: "'v graph_scope \<Rightarrow> graph_text \<Rightarrow> string \<Rightarrow> string list \<Rightarrow> uuid \<Rightarrow> failure + 'v graph_candidate option" where
  "fetch_task G T node seen i =
     (if resource_key T node ''task'' (uuid_text T i) \<in> set seen then Inr None else gs_linked_task G i)"

definition fetch_registry ::
  "'v graph_scope \<Rightarrow> graph_text \<Rightarrow> string \<Rightarrow> string list \<Rightarrow> string \<times> string \<times> string \<Rightarrow> failure + 'v graph_candidate option" where
  "fetch_registry G T node seen r =
     (case r of (kind, i, version) \<Rightarrow>
        if entity_key T node kind i version \<in> set seen then Inr None else gs_linked_registry G kind i version)"

definition linked_candidates ::
  "'v graph_scope \<Rightarrow> 'v json_ops \<Rightarrow> graph_text \<Rightarrow> graph_options \<Rightarrow> string \<Rightarrow> graph_node list \<Rightarrow> 'v graph_candidate
     \<Rightarrow> failure + 'v graph_candidate list" where
  "linked_candidates G J T o' node visible c =
     (case link_targets J o' c of (workspaces, tasks, entries) \<Rightarrow>
      and_then (link_each G (node_ids T node o') (fetch_workspace G (node_ids T node o')) workspaces
        (map gn_id visible @ node_ids T node o' c)) (\<lambda>(linked1, seen1).
      and_then (link_each G (node_ids T node o') (fetch_task G T node) (take (go_limit o') tasks) seen1) (\<lambda>(linked2, seen2).
      and_then (link_each G (node_ids T node o') (fetch_registry G T node) (take (go_limit o') entries) seen2) (\<lambda>(linked3, _).
      Inr (linked1 @ linked2 @ linked3)))))"

record 'v page_state =
  ps_nodes :: "graph_node list"
  ps_records :: "'v graph_candidate list"
  ps_bytes :: nat
  ps_scanned :: nat
  ps_cursor :: graph_cursor
  ps_next :: "string option"

definition fresh_nodes :: "graph_node list \<Rightarrow> graph_node list \<Rightarrow> graph_node list" where
  "fresh_nodes existing new = filter (\<lambda>n. gn_id n \<notin> gn_id ` set existing) new"

definition group_add ::
  "graph_text \<Rightarrow> string \<Rightarrow> graph_options \<Rightarrow> graph_node list \<Rightarrow> 'v graph_candidate
     \<Rightarrow> graph_node list \<times> 'v graph_candidate list \<Rightarrow> graph_node list \<times> 'v graph_candidate list" where
  "group_add T node o' nodes linked gr =
     (case gr of (grp, records) \<Rightarrow>
        let addition = fresh_nodes (nodes @ grp) (candidate_nodes T node o' linked)
        in if go_limit o' < length grp + length addition then (grp, records) else (grp @ addition, records @ [linked]))"

definition candidate_allowed :: "graph_options \<Rightarrow> 'v graph_candidate \<Rightarrow> bool" where
  "candidate_allowed o' c \<longleftrightarrow>
     kind_allowed (candidate_kind c) o' \<or> (case c of CWorkspace _ \<Rightarrow> kind_allowed ''goal'' o' | _ \<Rightarrow> False)"

definition outside_window :: "graph_options \<Rightarrow> int \<Rightarrow> 'v graph_candidate \<Rightarrow> bool" where
  "outside_window o' window_end c =
     (case c of
        CRun r \<Rightarrow> 0 < go_hours o' \<and> phase_is_terminal (gr_phase r)
                   \<and> timestamp (gr_updated_at r) < window_end - int (go_hours o') * 3600
      | _ \<Rightarrow> False)"

definition add_group ::
  "'v graph_scope \<Rightarrow> graph_options \<Rightarrow> nat \<Rightarrow> graph_node list \<times> 'v graph_candidate list \<Rightarrow> 'v page_state \<Rightarrow> failure + 'v page_state" where
  "add_group G o' before gr s =
     (case gr of (grp, records) \<Rightarrow>
      and_then (gs_size G grp) (\<lambda>size.
      if go_limit o' < length (ps_nodes s) + length grp \<or> 3000000 < ps_bytes s + size
      then (if ps_nodes s = [] then Inl (FInvalid ''graph resource exceeds response limit'')
            else let c = (ps_cursor s)\<lparr>gc_offset := before\<rparr> in
              and_then (gs_encode G c) (\<lambda>token. Inr (s\<lparr>ps_cursor := c, ps_next := Some token\<rparr>)))
      else Inr (s\<lparr>ps_bytes := ps_bytes s + size, ps_nodes := ps_nodes s @ grp, ps_records := ps_records s @ records\<rparr>)))"

definition scan_one ::
  "'v graph_scope \<Rightarrow> 'v json_ops \<Rightarrow> graph_text \<Rightarrow> graph_options \<Rightarrow> 'v graph_candidate \<Rightarrow> 'v page_state \<Rightarrow> failure + 'v page_state" where
  "scan_one G J T o' c s0 =
     (let before = gc_offset (ps_cursor s0);
          s = s0\<lparr>ps_cursor := (ps_cursor s0)\<lparr>gc_offset := before + 1\<rparr>, ps_scanned := ps_scanned s0 + 1\<rparr>
      in if \<not> candidate_allowed o' c then Inr s
         else and_then (gs_visible G c (go_scope_workspace o' \<noteq> None)) (\<lambda>visible.
           if \<not> visible \<or> outside_window o' (gc_window_end (ps_cursor s)) c then Inr s
           else let addition = fresh_nodes (ps_nodes s) (candidate_nodes T (gs_node_id G) o' c) in
             if addition = [] then Inr s
             else and_then (linked_candidates G J T o' (gs_node_id G) (ps_nodes s) c) (\<lambda>linked.
               add_group G o' before (fold (group_add T (gs_node_id G) o' (ps_nodes s)) linked (addition, [c])) s)))"

fun scan_batch ::
  "'v graph_scope \<Rightarrow> 'v json_ops \<Rightarrow> graph_text \<Rightarrow> graph_options \<Rightarrow> 'v graph_candidate list \<Rightarrow> 'v page_state \<Rightarrow> failure + 'v page_state" where
  "scan_batch G J T o' [] s = Inr s"
| "scan_batch G J T o' (c # cs) s =
     (if 4096 \<le> ps_scanned s then and_then (gs_encode G (ps_cursor s)) (\<lambda>token. Inr (s\<lparr>ps_next := Some token\<rparr>))
      else and_then (scan_one G J T o' c s) (\<lambda>s'. if ps_next s' \<noteq> None then Inr s' else scan_batch G J T o' cs s'))"

definition next_kind :: "'v page_state \<Rightarrow> 'v page_state" where
  "next_kind s = s\<lparr>ps_cursor := (ps_cursor s)\<lparr>gc_kind := gc_kind (ps_cursor s) + 1, gc_offset := 0\<rparr>\<rparr>"

text \<open>What a scan keeps, for the termination of the loop over kinds.\<close>

lemma add_group_keeps:
  "add_group G o' before gr s = Inr s' \<Longrightarrow>
     ps_scanned s' = ps_scanned s \<and> gc_kind (ps_cursor s') = gc_kind (ps_cursor s)"
  by (auto simp: add_group_def and_then_Inr_iff Let_def split: prod.splits if_splits)

lemma scan_one_keeps:
  "scan_one G J T o' c s = Inr s' \<Longrightarrow>
     ps_scanned s' = ps_scanned s + 1 \<and> gc_kind (ps_cursor s') = gc_kind (ps_cursor s)"
  by (auto simp: scan_one_def and_then_Inr_iff Let_def split: if_splits dest!: add_group_keeps)

lemma scan_batch_keeps:
  "scan_batch G J T o' cs s = Inr s' \<Longrightarrow>
     ps_scanned s \<le> ps_scanned s' \<and> gc_kind (ps_cursor s') = gc_kind (ps_cursor s)
     \<and> (cs \<noteq> [] \<longrightarrow> ps_scanned s < 4096 \<longrightarrow> ps_scanned s < ps_scanned s')"
proof (induction cs arbitrary: s)
  case (Cons c cs)
  show ?case
  proof (cases "4096 \<le> ps_scanned s")
    case True
    then show ?thesis using Cons.prems by (auto simp: and_then_Inr_iff)
  next
    case False
    then obtain t where t: "scan_one G J T o' c s = Inr t" "(if ps_next t \<noteq> None then Inr t else scan_batch G J T o' cs t) = Inr s'"
      using Cons.prems by (auto simp: and_then_Inr_iff)
    then show ?thesis using scan_one_keeps[OF t(1)] Cons.IH[of t] by (fastforce split: if_splits)
  qed
qed simp

function scan_kinds ::
  "'v graph_scope \<Rightarrow> 'v json_ops \<Rightarrow> graph_text \<Rightarrow> graph_options \<Rightarrow> 'v page_state \<Rightarrow> failure + 'v page_state" where
  "scan_kinds G J T o' s =
     (if CANDIDATE_KINDS \<le> gc_kind (ps_cursor s) then Inr s
      else if 4096 \<le> ps_scanned s then and_then (gs_encode G (ps_cursor s)) (\<lambda>token. Inr (s\<lparr>ps_next := Some token\<rparr>))
      else case gs_candidates G (gc_kind (ps_cursor s)) (gc_offset (ps_cursor s)) of
             Inl f \<Rightarrow> Inl f
           | Inr batch \<Rightarrow>
               if batch = [] then scan_kinds G J T o' (next_kind s)
               else (case scan_batch G J T o' batch s of
                       Inl f \<Rightarrow> Inl f
                     | Inr s' \<Rightarrow>
                         if ps_next s' \<noteq> None then Inr s'
                         else scan_kinds G J T o' (if length batch < CANDIDATE_BATCH then next_kind s' else s')))"
  by pat_completeness auto

termination
proof (relation "measures [\<lambda>(_, _, _, _, s). CANDIDATE_KINDS - gc_kind (ps_cursor s), \<lambda>(_, _, _, _, s). 4096 - ps_scanned s]", goal_cases)
  case 1
  show ?case by simp
next
  case (2 G J T o' s batch)
  then show ?case by (simp add: next_kind_def)
next
  case (3 G J T o' s batch s')
  then show ?case using scan_batch_keeps[OF 3(5)] by (auto simp: next_kind_def)
qed

declare scan_kinds.simps [simp del]

definition first_cursor :: "string \<Rightarrow> string \<Rightarrow> int \<Rightarrow> graph_cursor" where
  "first_cursor generation binding now =
     \<lparr> gc_kind = 0, gc_offset = 0, gc_generation = generation, gc_binding = binding, gc_window_end = now, gc_expires_at = now + 300 \<rparr>"

definition project ::
  "'v graph_scope \<Rightarrow> 'v json_ops \<Rightarrow> graph_text \<Rightarrow> string \<Rightarrow> string \<Rightarrow> graph_options \<Rightarrow> failure + graph_page" where
  "project G J T source_node subject o' =
     and_then (domain (options_validate o')) (\<lambda>_.
     and_then (gs_generation G) (\<lambda>generation.
     let binding = cursor_binding G source_node subject o'; now = timestamp (gs_now G) in
     and_then (case go_cursor o' of
         Some token \<Rightarrow> and_then (gs_decode G token) (\<lambda>c. checked_cursor c binding generation now)
       | None \<Rightarrow> Inr (first_cursor generation binding now)) (\<lambda>start.
     and_then (scan_kinds G J T o' \<lparr> ps_nodes = [], ps_records = [], ps_bytes = 0, ps_scanned = 0, ps_cursor = start, ps_next = None \<rparr>) (\<lambda>s.
     and_then (gs_activity G (ps_nodes s) (gc_window_end (ps_cursor s))) (\<lambda>activity.
     and_then (gs_generation_after G) (\<lambda>after.
     if after \<noteq> generation then Inl (FConflict ''graph projection changed'')
     else let page = \<lparr> gp_node_id = gs_node_id G, gp_generation = generation, gp_checked_at = gs_checked_at G, gp_nodes = ps_nodes s,
                gp_edges = build_edges T J (gs_node_id G) (ps_records s) (ps_nodes s) o', gp_activity = activity, gp_next_cursor = ps_next s \<rparr> in
       and_then (gs_page_size G page) (\<lambda>size.
       if 3000000 < size then Inl (FInvalid ''graph response exceeds size limit'') else Inr page)))))))"

end
