(* ===== verification/Graph_Props.thy ===== *)
theory Graph_Props
  imports Graph
begin

text \<open>
  What the graph projection guarantees: a page that a Node returns passes the check of the peer that
  asked for it, its cursor is strictly ahead and resumes the projection, and the page shows every
  resource between the two cursors that its viewer may see.
\<close>

section \<open>Assumptions\<close>

text \<open>
  JSON texts of different lists of strings differ, and a UUID has a text. The scope of the projection
  gives Registry entries with an id and a Registry kind, linked resources of the kind asked for,
  activity about the nodes shown, generations that are SHA-256 digests, and cursors of bounded length.
\<close>

definition text_ok :: "graph_text \<Rightarrow> bool" where
  "text_ok T \<longleftrightarrow> inj (strings_json T) \<and> (\<forall>i. uuid_text T i \<noteq> [])"

fun entry_ok :: "'v graph_candidate \<Rightarrow> bool" where
  "entry_ok (CRegistry e) \<longleftrightarrow> en_kind e \<in> set REGISTRY_KINDS \<and> en_id e \<noteq> []"
| "entry_ok _ \<longleftrightarrow> True"

definition scope_ok :: "'v graph_scope \<Rightarrow> bool" where
  "scope_ok G \<longleftrightarrow>
     (\<forall>kind off batch. gs_candidates G kind off = Inr batch \<longrightarrow> list_all entry_ok batch)
     \<and> (\<forall>i c. gs_linked_workspace G i = Inr (Some c) \<longrightarrow> (\<exists>w. c = CWorkspace w))
     \<and> (\<forall>i c. gs_linked_task G i = Inr (Some c) \<longrightarrow> (\<exists>t. c = CTask t))
     \<and> (\<forall>kind i version c. gs_linked_registry G kind i version = Inr (Some c)
          \<longrightarrow> (\<exists>e. c = CRegistry e \<and> en_kind e = kind \<and> en_id e \<noteq> []))
     \<and> (\<forall>g. gs_generation G = Inr g \<longrightarrow> generation_ok g)
     \<and> (\<forall>nodes w acts. gs_activity G nodes w = Inr acts
          \<longrightarrow> length acts \<le> 80 \<and> list_all (\<lambda>a. ga_reference a \<in> gn_id ` set nodes \<and> length (ga_kind a) \<le> 100) acts)
     \<and> (\<forall>c token. gs_encode G c = Inr token \<longrightarrow> length token \<le> 4096)"

section \<open>Nodes\<close>

fun shown :: "graph_options \<Rightarrow> 'v graph_candidate \<Rightarrow> bool" where
  "shown o' (CWorkspace _) \<longleftrightarrow> True"
| "shown o' c \<longleftrightarrow> kind_allowed (candidate_kind c) o'"

lemma candidate_allowed_shown: "candidate_allowed o' c \<Longrightarrow> shown o' c"
  by (cases c) (simp_all add: candidate_allowed_def)

lemma candidate_nodes_ok:
  assumes "text_ok T" "entry_ok c" "shown o' c"
  shows "list_all (node_ok T node o') (candidate_nodes T node o' c) \<and> distinct (map gn_id (candidate_nodes T node o' c))"
proof -
  have "strings_json T xs = strings_json T ys \<longleftrightarrow> xs = ys" for xs ys using assms(1) by (auto simp: text_ok_def dest: injD)
  moreover have "uuid_text T i \<noteq> []" for i using assms(1) by (simp add: text_ok_def)
  ultimately show ?thesis using assms(2,3)
    by (cases c) (auto simp: node_ok_def plain_node_def resource_key_def entity_key_def REGISTRY_KINDS_def)
qed

lemma check_nodes_ok:
  "list_all (node_ok T node o') ns \<Longrightarrow> distinct (map gn_id ns) \<Longrightarrow> gn_id ` set ns \<inter> set ids = {} \<Longrightarrow>
     check_nodes T node o' ids ns = Some (rev (map gn_id ns) @ ids)"
  by (induction ns arbitrary: ids) auto

section \<open>Edges\<close>

lemma set_map_insert: "set (map_insert k v m) \<subseteq> insert (k, v) (set m)"
  by (induction k v m rule: map_insert.induct) auto

definition edge_ok :: "string list \<Rightarrow> graph_options \<Rightarrow> graph_edge \<Rightarrow> bool" where
  "edge_ok visible o' e \<longleftrightarrow>
     ge_source e \<in> set visible \<and> ge_target e \<in> set visible \<and> relation_allowed (ge_relation e) o'
     \<and> ge_layer e \<in> {''configuration'', ''activity''}"

lemma layer_graph_edge_of [simp]: "ge_layer (graph_edge_of source target relation layer) = layer"
  by (simp add: graph_edge_of_def)

lemma record_edges_layer: "e \<in> set (record_edges T J node c) \<Longrightarrow> ge_layer e \<in> {''configuration'', ''activity''}"
  by (cases c) (auto simp: Let_def split: if_splits option.splits)

lemma fold_add_edge:
  "(\<forall>e \<in> set es. ge_layer e \<in> {''configuration'', ''activity''}) \<Longrightarrow> (\<forall>(_, e) \<in> set m. edge_ok visible o' e)
     \<Longrightarrow> (\<forall>(_, e) \<in> set (fold (add_edge visible o') es m). edge_ok visible o' e)"
proof (induction es arbitrary: m)
  case (Cons e es)
  have "\<forall>(_, e) \<in> set (add_edge visible o' e m). edge_ok visible o' e"
    using Cons.prems set_map_insert[of "(ge_source e, ge_relation e, ge_target e)" e m] by (auto simp: add_edge_def edge_ok_def)
  then show ?case using Cons by simp
qed simp

lemma build_edges_ok:
  "length (build_edges T J node records nodes o') \<le> 600 \<and> list_all (edge_ok (map gn_id nodes) o') (build_edges T J node records nodes o')"
proof -
  let ?es = "concat (map (record_edges T J node) records)"
  have "\<forall>(_, e) \<in> set (fold (add_edge (map gn_id nodes) o') ?es []). edge_ok (map gn_id nodes) o' e"
    by (rule fold_add_edge) (auto dest: record_edges_layer)
  then show ?thesis by (fastforce simp: build_edges_def list_all_iff dest!: in_set_takeD)
qed

section \<open>Linked resources\<close>

lemma link_each_in:
  "link_each G ids fetch is seen = Inr (linked, seen') \<Longrightarrow> c \<in> set linked \<Longrightarrow> \<exists>seen i. i \<in> set is \<and> fetch seen i = Inr (Some c)"
proof (induction "is" arbitrary: seen linked seen')
  case (Cons i "is")
  then show ?case by (fastforce simp: and_then_Inr_iff split: option.splits if_splits prod.splits)
qed simp

lemma link_targets_kinds:
  assumes "link_targets J o' c = (workspaces, tasks, entries)"
  shows "(tasks \<noteq> [] \<longrightarrow> kind_allowed ''task'' o') \<and> (\<forall>(kind, _, _) \<in> set entries. kind_allowed kind o' \<and> kind \<in> set REGISTRY_KINDS)"
proof (cases c)
  case (CRegistry e)
  then show ?thesis using assms by (auto simp: REGISTRY_KINDS_def AGENT_FIELDS_def split: if_splits option.splits prod.splits)
qed (use assms in \<open>auto simp: REGISTRY_KINDS_def split: if_splits option.splits prod.splits\<close>)

lemma linked_ok:
  assumes "scope_ok G" "linked_candidates G J T o' node visible c = Inr linked" "d \<in> set linked"
  shows "entry_ok d \<and> shown o' d"
proof -
  obtain workspaces tasks entries where t: "link_targets J o' c = (workspaces, tasks, entries)" by (cases "link_targets J o' c") auto
  note k = link_targets_kinds[OF t]
  obtain l1 s1 l2 s2 l3 s3 where l: "link_each G (node_ids T node o') (fetch_workspace G (node_ids T node o')) workspaces
        (map gn_id visible @ node_ids T node o' c) = Inr (l1, s1)"
      "link_each G (node_ids T node o') (fetch_task G T node) (take (go_limit o') tasks) s1 = Inr (l2, s2)"
      "link_each G (node_ids T node o') (fetch_registry G T node) (take (go_limit o') entries) s2 = Inr (l3, s3)"
      "linked = l1 @ l2 @ l3"
    using assms(2) by (auto simp: linked_candidates_def t and_then_Inr_iff split: prod.splits)
  consider "d \<in> set l1" | "d \<in> set l2" | "d \<in> set l3" using assms(3) l(4) by auto
  then show ?thesis
  proof cases
    case 1
    from link_each_in[OF l(1) this] show ?thesis
      using assms(1) by (fastforce simp: fetch_workspace_def scope_ok_def and_then_Inr_iff split: option.splits if_splits)
  next
    case 2
    from link_each_in[OF l(2) this] obtain s i where i: "i \<in> set tasks" "gs_linked_task G i = Inr (Some d)"
      by (auto simp: fetch_task_def split: if_splits dest: in_set_takeD)
    then have "tasks \<noteq> []" by auto
    then show ?thesis using k assms(1) i(2) by (fastforce simp: scope_ok_def)
  next
    case 3
    from link_each_in[OF l(3) this] obtain kind i version where i: "(kind, i, version) \<in> set entries" "gs_linked_registry G kind i version = Inr (Some d)"
      by (auto simp: fetch_registry_def split: if_splits prod.splits dest: in_set_takeD)
    then show ?thesis using k assms(1) by (fastforce simp: scope_ok_def)
  qed
qed

section \<open>The page under construction\<close>

definition nodes_ok :: "graph_text \<Rightarrow> string \<Rightarrow> graph_options \<Rightarrow> graph_node list \<Rightarrow> bool" where
  "nodes_ok T node o' ns \<longleftrightarrow> list_all (node_ok T node o') ns \<and> distinct (map gn_id ns)"

lemma nodes_ok_fresh:
  assumes "text_ok T" "entry_ok c" "shown o' c" "nodes_ok T node o' ns"
  shows "nodes_ok T node o' (ns @ fresh_nodes ns (candidate_nodes T node o' c))"
  using candidate_nodes_ok[OF assms(1-3), of node] assms(4)
  by (auto simp: nodes_ok_def fresh_nodes_def list_all_iff distinct_map_filter) (metis imageI)

lemma group_add_ok:
  assumes "text_ok T" "\<forall>c \<in> set linked. entry_ok c \<and> shown o' c" "nodes_ok T node o' (ns @ fst gr)"
  shows "nodes_ok T node o' (ns @ fst (fold (group_add T node o' ns) linked gr)) \<and> set (fst gr) \<subseteq> set (fst (fold (group_add T node o' ns) linked gr))"
  using assms(2,3)
proof (induction linked arbitrary: gr)
  case (Cons c linked)
  have "nodes_ok T node o' (ns @ fst (group_add T node o' ns c gr)) \<and> set (fst gr) \<subseteq> set (fst (group_add T node o' ns c gr))"
    using nodes_ok_fresh[OF assms(1), of c o' node "ns @ fst gr"] Cons.prems by (cases gr) (auto simp: group_add_def Let_def)
  then show ?case using Cons.IH[of "group_add T node o' ns c gr"] Cons.prems(1) by (simp del: append_assoc) blast
qed simp

definition advanced :: "'v page_state \<Rightarrow> 'v page_state" where
  "advanced s = s\<lparr>ps_cursor := (ps_cursor s)\<lparr>gc_offset := gc_offset (ps_cursor s) + 1\<rparr>, ps_scanned := ps_scanned s + 1\<rparr>"

definition wanted :: "'v graph_scope \<Rightarrow> graph_options \<Rightarrow> int \<Rightarrow> 'v graph_candidate \<Rightarrow> bool" where
  "wanted G o' window_end c \<longleftrightarrow>
     candidate_allowed o' c \<and> gs_visible G c (go_scope_workspace o' \<noteq> None) = Inr True \<and> \<not> outside_window o' window_end c"

lemma scan_one_cases:
  assumes "scan_one G J T o' c s = Inr s'"
  obtains (skipped) "s' = advanced s" "\<not> wanted G o' (gc_window_end (ps_cursor s)) c
      \<or> fresh_nodes (ps_nodes s) (candidate_nodes T (gs_node_id G) o' c) = []"
  | (grouped) linked where "candidate_allowed o' c" "linked_candidates G J T o' (gs_node_id G) (ps_nodes s) c = Inr linked"
      "add_group G o' (gc_offset (ps_cursor s)) (fold (group_add T (gs_node_id G) o' (ps_nodes s)) linked
         (fresh_nodes (ps_nodes s) (candidate_nodes T (gs_node_id G) o' c), [c])) (advanced s) = Inr s'"
proof -
  have t: "advanced s = s\<lparr>ps_cursor := (ps_cursor s)\<lparr>gc_offset := gc_offset (ps_cursor s) + 1\<rparr>, ps_scanned := ps_scanned s + 1\<rparr>"
    by (simp add: advanced_def)
  have "ps_nodes (advanced s) = ps_nodes s" "gc_window_end (ps_cursor (advanced s)) = gc_window_end (ps_cursor s)" by (simp_all add: advanced_def)
  then show thesis using assms that unfolding scan_one_def Let_def t[symmetric]
    by (auto simp: and_then_Inr_iff wanted_def split: if_splits)
qed

lemma advanced_simps [simp]:
  "ps_nodes (advanced s) = ps_nodes s" "ps_bytes (advanced s) = ps_bytes s" "ps_next (advanced s) = ps_next s" "ps_scanned (advanced s) = ps_scanned s + 1"
  "ps_cursor (advanced s) = (ps_cursor s)\<lparr>gc_offset := gc_offset (ps_cursor s) + 1\<rparr>"
  by (simp_all add: advanced_def)

lemma scan_one_ok:
  assumes "text_ok T" "scope_ok G" "entry_ok c" "scan_one G J T o' c s = Inr s'" "nodes_ok T (gs_node_id G) o' (ps_nodes s)"
    and "length (ps_nodes s) \<le> go_limit o'"
  shows "nodes_ok T (gs_node_id G) o' (ps_nodes s') \<and> length (ps_nodes s') \<le> go_limit o'"
  using assms(4)
proof (cases rule: scan_one_cases)
  case (grouped linked)
  let ?node = "gs_node_id G" and ?ns = "ps_nodes s"
  let ?gr = "(fresh_nodes ?ns (candidate_nodes T ?node o' c), [c])"
  have "nodes_ok T ?node o' (?ns @ fst (fold (group_add T ?node o' ?ns) linked ?gr))"
    using group_add_ok[OF assms(1), of linked o' ?node ?ns ?gr] linked_ok[OF assms(2) grouped(2)]
      nodes_ok_fresh[OF assms(1,3) candidate_allowed_shown[OF grouped(1)] assms(5)] by simp
  then show ?thesis using grouped(3) assms(5,6) by (auto simp: add_group_def and_then_Inr_iff Let_def split: prod.splits if_splits)
qed (use assms(5,6) in simp)

lemma scan_batch_ok:
  assumes "text_ok T" "scope_ok G"
  shows "scan_batch G J T o' cs s = Inr s' \<Longrightarrow> list_all entry_ok cs \<Longrightarrow> nodes_ok T (gs_node_id G) o' (ps_nodes s)
    \<Longrightarrow> length (ps_nodes s) \<le> go_limit o' \<Longrightarrow> nodes_ok T (gs_node_id G) o' (ps_nodes s') \<and> length (ps_nodes s') \<le> go_limit o'"
proof (induction cs arbitrary: s)
  case (Cons c cs)
  show ?case
  proof (cases "4096 \<le> ps_scanned s")
    case True
    then show ?thesis using Cons.prems by (auto simp: and_then_Inr_iff)
  next
    case False
    then obtain t where t: "scan_one G J T o' c s = Inr t" "(if ps_next t \<noteq> None then Inr t else scan_batch G J T o' cs t) = Inr s'"
      using Cons.prems by (auto simp: and_then_Inr_iff)
    have "nodes_ok T (gs_node_id G) o' (ps_nodes t) \<and> length (ps_nodes t) \<le> go_limit o'"
      using scan_one_ok[OF assms _ t(1)] Cons.prems by simp
    then show ?thesis using Cons.IH[of t] t(2) Cons.prems(2) by (auto split: if_splits)
  qed
qed simp

text \<open>The loop over kinds: what holds between batches, and what holds at its end.\<close>

lemma scan_kinds_rule:
  assumes "scan_kinds G J T o' s = Inr s'" "Inv s"
    and finish: "\<And>s. Inv s \<Longrightarrow> CANDIDATE_KINDS \<le> gc_kind (ps_cursor s) \<Longrightarrow> Fin s"
    and limit: "\<And>s token. Inv s \<Longrightarrow> gc_kind (ps_cursor s) < CANDIDATE_KINDS \<Longrightarrow> 4096 \<le> ps_scanned s
      \<Longrightarrow> gs_encode G (ps_cursor s) = Inr token \<Longrightarrow> Fin (s\<lparr>ps_next := Some token\<rparr>)"
    and none: "\<And>s. Inv s \<Longrightarrow> gc_kind (ps_cursor s) < CANDIDATE_KINDS
      \<Longrightarrow> gs_candidates G (gc_kind (ps_cursor s)) (gc_offset (ps_cursor s)) = Inr [] \<Longrightarrow> Inv (next_kind s)"
    and batch: "\<And>s batch t. Inv s \<Longrightarrow> gc_kind (ps_cursor s) < CANDIDATE_KINDS
      \<Longrightarrow> gs_candidates G (gc_kind (ps_cursor s)) (gc_offset (ps_cursor s)) = Inr batch \<Longrightarrow> scan_batch G J T o' batch s = Inr t
      \<Longrightarrow> (if ps_next t \<noteq> None then Fin t else Inv (if length batch < CANDIDATE_BATCH then next_kind t else t))"
  shows "Fin s'"
  using assms
proof (induction G J T o' s rule: scan_kinds.induct)
  case (1 G J T o' s)
  note unfolded = 1(3)[unfolded scan_kinds.simps[of G J T o' s]]
  consider (finish) "CANDIDATE_KINDS \<le> gc_kind (ps_cursor s)"
    | (limit) "\<not> CANDIDATE_KINDS \<le> gc_kind (ps_cursor s)" "4096 \<le> ps_scanned s"
    | (batch) "\<not> CANDIDATE_KINDS \<le> gc_kind (ps_cursor s)" "\<not> 4096 \<le> ps_scanned s" by blast
  then show ?case
  proof cases
    case finish
    then show ?thesis using unfolded 1(4,5) by simp
  next
    case limit
    then show ?thesis using unfolded 1(4,6) by (auto simp: and_then_Inr_iff)
  next
    case batch
    then obtain b where b: "gs_candidates G (gc_kind (ps_cursor s)) (gc_offset (ps_cursor s)) = Inr b"
      using unfolded by (auto split: sum.splits)
    show ?thesis
    proof (cases "b = []")
      case True
      then have "scan_kinds G J T o' (next_kind s) = Inr s'" using unfolded batch b by simp
      moreover have "Inv (next_kind s)" using 1(7)[OF 1(4)] batch b True by simp
      ultimately show ?thesis using 1(1)[OF batch b True] 1(5-8) by blast
    next
      case False
      then obtain t where t: "scan_batch G J T o' b s = Inr t" using unfolded batch b by (auto split: sum.splits)
      note fin = 1(8)[OF 1(4) _ b t]
      show ?thesis
      proof (cases "ps_next t \<noteq> None")
        case True
        then show ?thesis using fin batch unfolded b False t by simp
      next
        case goes_on: False
        then have "scan_kinds G J T o' (if length b < CANDIDATE_BATCH then next_kind t else t) = Inr s'"
          using unfolded batch b False t by simp
        then show ?thesis using 1(2)[OF batch b False t goes_on] fin goes_on batch(1) 1(5-8) by (simp add: not_le)
      qed
    qed
  qed
qed

lemma group_add_subset: "set (fst gr) \<subseteq> set (fst (fold (group_add T node o' ns) linked gr))"
proof (induction linked arbitrary: gr)
  case (Cons c linked)
  have "set (fst gr) \<subseteq> set (fst (group_add T node o' ns c gr))" by (cases gr) (auto simp: group_add_def Let_def)
  then show ?case using Cons[of "group_add T node o' ns c gr"] by auto
qed simp

lemma scan_one_position:
  assumes "scan_one G J T o' c s = Inr s'" "ps_next s = None"
  shows "case ps_next s' of
      None \<Rightarrow> ps_cursor s' = (ps_cursor s)\<lparr>gc_offset := gc_offset (ps_cursor s) + 1\<rparr> \<and> gn_id ` set (ps_nodes s) \<subseteq> gn_id ` set (ps_nodes s')
        \<and> (wanted G o' (gc_window_end (ps_cursor s)) c \<longrightarrow> set (node_ids T (gs_node_id G) o' c) \<subseteq> gn_id ` set (ps_nodes s'))
    | Some token \<Rightarrow> ps_cursor s' = ps_cursor s \<and> gs_encode G (ps_cursor s) = Inr token \<and> ps_nodes s' = ps_nodes s \<and> ps_nodes s \<noteq> []"
  using assms(1)
proof (cases rule: scan_one_cases)
  case skipped
  then show ?thesis using assms(2) by (auto simp: fresh_nodes_def filter_empty_conv node_ids_def)
next
  case (grouped linked)
  let ?gr = "fold (group_add T (gs_node_id G) o' (ps_nodes s)) linked (fresh_nodes (ps_nodes s) (candidate_nodes T (gs_node_id G) o' c), [c])"
  have "set (fresh_nodes (ps_nodes s) (candidate_nodes T (gs_node_id G) o' c)) \<subseteq> set (fst ?gr)"
    using group_add_subset[of "(fresh_nodes (ps_nodes s) (candidate_nodes T (gs_node_id G) o' c), [c])"] by simp
  then have ids: "set (node_ids T (gs_node_id G) o' c) \<subseteq> gn_id ` set (ps_nodes s @ fst ?gr)"
    by (fastforce simp: node_ids_def fresh_nodes_def)
  have restored: "(ps_cursor (advanced s))\<lparr>gc_offset := gc_offset (ps_cursor s)\<rparr> = ps_cursor s" by simp
  show ?thesis using grouped(3) assms(2) ids unfolding add_group_def restored Let_def
    by (auto simp: and_then_Inr_iff split: prod.splits if_splits)
qed

section \<open>Positions and coverage\<close>

definition position :: "graph_cursor \<Rightarrow> nat \<times> nat" where
  "position c = (gc_kind c, gc_offset c)"

definition same_window :: "graph_cursor \<Rightarrow> graph_cursor \<Rightarrow> bool" where
  "same_window a b \<longleftrightarrow>
     gc_generation b = gc_generation a \<and> gc_binding b = gc_binding a \<and> gc_window_end b = gc_window_end a \<and> gc_expires_at b = gc_expires_at a"

text \<open>The wanted candidates of \<open>table\<close> between two positions are shown.\<close>

definition covered ::
  "'v graph_scope \<Rightarrow> graph_text \<Rightarrow> graph_options \<Rightarrow> (nat \<Rightarrow> 'v graph_candidate list) \<Rightarrow> graph_cursor \<Rightarrow> nat \<times> nat \<Rightarrow> graph_node list \<Rightarrow> bool" where
  "covered G T o' table start stop nodes \<longleftrightarrow>
     (\<forall>k i. i < length (table k) \<longrightarrow> position start \<le> (k, i) \<longrightarrow> (k, i) < stop \<longrightarrow> wanted G o' (gc_window_end start) (table k ! i)
        \<longrightarrow> set (node_ids T (gs_node_id G) o' (table k ! i)) \<subseteq> gn_id ` set nodes)"

definition going ::
  "'v graph_scope \<Rightarrow> graph_text \<Rightarrow> graph_options \<Rightarrow> (nat \<Rightarrow> 'v graph_candidate list) \<Rightarrow> graph_cursor \<Rightarrow> 'v page_state \<Rightarrow> bool" where
  "going G T o' table start s \<longleftrightarrow>
     ps_next s = None \<and> same_window start (ps_cursor s) \<and> position start \<le> position (ps_cursor s)
     \<and> (ps_nodes s \<noteq> [] \<or> 0 < ps_scanned s \<longrightarrow> position start < position (ps_cursor s))
     \<and> covered G T o' table start (position (ps_cursor s)) (ps_nodes s)"

definition ended ::
  "'v graph_scope \<Rightarrow> graph_text \<Rightarrow> graph_options \<Rightarrow> (nat \<Rightarrow> 'v graph_candidate list) \<Rightarrow> graph_cursor \<Rightarrow> 'v page_state \<Rightarrow> bool" where
  "ended G T o' table start s \<longleftrightarrow>
     same_window start (ps_cursor s) \<and> covered G T o' table start (position (ps_cursor s)) (ps_nodes s)
     \<and> (case ps_next s of
          None \<Rightarrow> CANDIDATE_KINDS \<le> gc_kind (ps_cursor s)
        | Some token \<Rightarrow> gs_encode G (ps_cursor s) = Inr token \<and> position start < position (ps_cursor s) \<and> gc_kind (ps_cursor s) < CANDIDATE_KINDS)"

lemma covered_next:
  assumes "covered G T o' table start (k, i) nodes" "gn_id ` set nodes \<subseteq> gn_id ` set nodes'"
    and "wanted G o' (gc_window_end start) (table k ! i) \<longrightarrow> set (node_ids T (gs_node_id G) o' (table k ! i)) \<subseteq> gn_id ` set nodes'"
  shows "covered G T o' table start (k, i + 1) nodes'"
  unfolding covered_def
proof (intro allI impI)
  fix l j assume c: "j < length (table l)" "position start \<le> (l, j)" "(l, j) < (k, i + 1)" "wanted G o' (gc_window_end start) (table l ! j)"
  then consider "(l, j) < (k, i)" | "l = k" "j = i" by (cases "l < k") (auto simp: less_Suc_eq)
  then show "set (node_ids T (gs_node_id G) o' (table l ! j)) \<subseteq> gn_id ` set nodes'"
  proof cases
    case 1
    then have "set (node_ids T (gs_node_id G) o' (table l ! j)) \<subseteq> gn_id ` set nodes" using assms(1) c(1,2,4) by (simp only: covered_def)
    then show ?thesis using assms(2) by (rule subset_trans)
  next
    case 2
    then show ?thesis using assms(3) c(4) by simp
  qed
qed

lemma covered_kind:
  assumes "covered G T o' table start (k, i) nodes" "length (table k) \<le> i"
  shows "covered G T o' table start (k + 1, 0) nodes"
  using assms unfolding covered_def by (auto simp: less_Suc_eq)

lemma scan_one_going:
  assumes "scan_one G J T o' (table k ! i) s = Inr s'" "going G T o' table start s" "position (ps_cursor s) = (k, i)" "k < CANDIDATE_KINDS"
  shows "if ps_next s' \<noteq> None then ended G T o' table start s' else going G T o' table start s' \<and> position (ps_cursor s') = (k, i + 1)"
proof -
  have n: "ps_next s = None" and w: "gc_window_end (ps_cursor s) = gc_window_end start" using assms(2) by (auto simp: going_def same_window_def)
  note p = scan_one_position[OF assms(1) n]
  show ?thesis
  proof (cases "ps_next s'")
    case None
    then have p': "ps_cursor s' = (ps_cursor s)\<lparr>gc_offset := gc_offset (ps_cursor s) + 1\<rparr>" "gn_id ` set (ps_nodes s) \<subseteq> gn_id ` set (ps_nodes s')"
      "wanted G o' (gc_window_end start) (table k ! i) \<longrightarrow> set (node_ids T (gs_node_id G) o' (table k ! i)) \<subseteq> gn_id ` set (ps_nodes s')"
      using p w by auto
    then have pos: "position (ps_cursor s') = (k, i + 1)" using assms(3) by (simp add: position_def)
    have "covered G T o' table start (k, i + 1) (ps_nodes s')"
      using covered_next[of G T o' table start k i "ps_nodes s" "ps_nodes s'"] p'(2,3) assms(2,3) by (simp add: going_def)
    moreover have "position start \<le> (k, i)" using assms(2,3) by (auto simp: going_def)
    then have "position start < (k, i + 1)" by (rule le_less_trans) simp
    moreover have "same_window start (ps_cursor s')" using assms(2) p'(1) by (simp add: going_def same_window_def)
    ultimately show ?thesis using None pos \<open>position start < (k, i + 1)\<close> by (simp add: going_def)
  next
    case (Some token)
    then show ?thesis using p assms by (auto simp: ended_def going_def position_def)
  qed
qed

lemma scan_batch_going:
  assumes "scan_batch G J T o' cs s = Inr s'" "going G T o' table start s" "position (ps_cursor s) = (k, i)" "k < CANDIDATE_KINDS"
    and "\<And>j. j < length cs \<Longrightarrow> table k ! (i + j) = cs ! j"
  shows "if ps_next s' \<noteq> None then ended G T o' table start s' else going G T o' table start s' \<and> position (ps_cursor s') = (k, i + length cs)"
  using assms
proof (induction cs arbitrary: s i)
  case Nil
  then show ?case by (auto simp: going_def)
next
  case (Cons c cs)
  show ?case
  proof (cases "4096 \<le> ps_scanned s")
    case True
    then show ?thesis using Cons.prems by (auto simp: and_then_Inr_iff ended_def going_def position_def)
  next
    case False
    then obtain t where t: "scan_one G J T o' c s = Inr t" "(if ps_next t \<noteq> None then Inr t else scan_batch G J T o' cs t) = Inr s'"
      using Cons.prems by (auto simp: and_then_Inr_iff)
    have "c = table k ! i" using Cons.prems(5)[of 0] by simp
    note one = scan_one_going[OF t(1)[unfolded this] Cons.prems(2-4)]
    have shift: "table k ! (i + 1 + j) = cs ! j" if "j < length cs" for j using Cons.prems(5)[of "Suc j"] that by simp
    show ?thesis
    proof (cases "ps_next t")
      case None
      then have "scan_batch G J T o' cs t = Inr s'" "going G T o' table start t" "position (ps_cursor t) = (k, i + 1)" using t(2) one by simp_all
      from Cons.IH[OF this Cons.prems(4) shift] show ?thesis by simp
    next
      case (Some token)
      then show ?thesis using t(2) one by auto
    qed
  qed
qed

lemma scan_kinds_ended:
  assumes "scan_kinds G J T o' s = Inr s'" "going G T o' table start s"
    and pages: "\<And>kind off. kind < CANDIDATE_KINDS \<Longrightarrow> gs_candidates G kind off = Inr (take CANDIDATE_BATCH (drop off (table kind)))"
  shows "ended G T o' table start s'"
proof (rule scan_kinds_rule[where Inv = "going G T o' table start" and Fin = "ended G T o' table start", OF assms(1,2)], goal_cases)
  case (1 s)
  then show ?case by (auto simp: going_def ended_def)
next
  case (2 s token)
  then show ?case by (auto simp: going_def ended_def)
next
  case (3 s)
  then have "length (table (gc_kind (ps_cursor s))) \<le> gc_offset (ps_cursor s)" using pages[OF 3(2)] by (simp add: CANDIDATE_BATCH_def)
  then show ?case using 3(1) covered_kind by (fastforce simp: going_def next_kind_def position_def same_window_def)
next
  case (4 s batch t)
  let ?k = "gc_kind (ps_cursor s)" and ?i = "gc_offset (ps_cursor s)"
  have b: "batch = take CANDIDATE_BATCH (drop ?i (table ?k))" using pages[OF 4(2)] 4(3) by simp
  have at: "table ?k ! (?i + j) = batch ! j" if "j < length batch" for j using that unfolding b by (auto simp: nth_drop)
  note g = scan_batch_going[OF 4(4,1) _ 4(2) at]
  show ?case
  proof (cases "ps_next t")
    case None
    then have t: "going G T o' table start t" "position (ps_cursor t) = (?k, ?i + length batch)" using g by (simp_all add: position_def)
    show ?thesis
    proof (cases "length batch < CANDIDATE_BATCH")
      case True
      then have "length (table ?k) \<le> ?i + length batch" by (simp add: b)
      then show ?thesis using t None True covered_kind by (fastforce simp: going_def next_kind_def position_def same_window_def)
    qed (use t None in simp)
  next
    case (Some token)
    then show ?thesis using g by (simp add: position_def)
  qed
qed

lemma scan_kinds_nodes:
  assumes "scan_kinds G J T o' s = Inr s'" "text_ok T" "scope_ok G" "ps_next s = None"
    and "nodes_ok T (gs_node_id G) o' (ps_nodes s)" "length (ps_nodes s) \<le> go_limit o'"
  shows "nodes_ok T (gs_node_id G) o' (ps_nodes s') \<and> length (ps_nodes s') \<le> go_limit o'"
proof -
  let ?P = "\<lambda>s. nodes_ok T (gs_node_id G) o' (ps_nodes s) \<and> length (ps_nodes s) \<le> go_limit o'"
  show ?thesis
  proof (rule scan_kinds_rule[where Inv = ?P and Fin = ?P, OF assms(1)], goal_cases)
    case (5 s batch t)
    then have "list_all entry_ok batch" using assms(3) by (simp add: scope_ok_def)
    then show ?case using scan_batch_ok[OF assms(2,3) 5(4)] 5(1) by (auto simp: next_kind_def)
  qed (use assms(5,6) in \<open>auto simp: next_kind_def\<close>)
qed

lemma project_Inr:
  assumes "project G J T source_node subject o' = Inr page"
  obtains start s where "options_validate o' = Inr ()" "gs_generation G = Inr (gp_generation page)"
    "(case go_cursor o' of
        Some token \<Rightarrow> gs_decode G token = Inr start
          \<and> checked_cursor start (cursor_binding G source_node subject o') (gp_generation page) (timestamp (gs_now G)) = Inr start
      | None \<Rightarrow> start = first_cursor (gp_generation page) (cursor_binding G source_node subject o') (timestamp (gs_now G)))"
    "scan_kinds G J T o' \<lparr> ps_nodes = [], ps_records = [], ps_bytes = 0, ps_scanned = 0, ps_cursor = start, ps_next = None \<rparr> = Inr s"
    "gs_activity G (ps_nodes s) (gc_window_end (ps_cursor s)) = Inr (gp_activity page)"
    "gp_node_id page = gs_node_id G" "gp_nodes page = ps_nodes s" "gp_next_cursor page = ps_next s"
    "gp_edges page = build_edges T J (gs_node_id G) (ps_records s) (ps_nodes s) o'"
proof -
  have "checked_cursor c b g n = Inr c' \<Longrightarrow> c' = c" for c b g n c' by (auto simp: checked_cursor_def split: if_splits)
  then show thesis using assms that
    by (cases "go_cursor o'") (fastforce simp: project_def and_then_Inr_iff Let_def split: if_splits)+
qed

lemma scan_batch_token:
  "scan_batch G J T o' cs s = Inr s' \<Longrightarrow> ps_next s = None \<Longrightarrow> ps_next s' = Some token \<Longrightarrow> \<exists>c. gs_encode G c = Inr token"
proof (induction cs arbitrary: s)
  case (Cons c cs)
  show ?case
  proof (cases "4096 \<le> ps_scanned s")
    case True
    then show ?thesis using Cons.prems by (auto simp: and_then_Inr_iff)
  next
    case False
    then obtain t where t: "scan_one G J T o' c s = Inr t" "(if ps_next t \<noteq> None then Inr t else scan_batch G J T o' cs t) = Inr s'"
      using Cons.prems by (auto simp: and_then_Inr_iff)
    show ?thesis using scan_one_position[OF t(1) Cons.prems(2)] t(2) Cons.IH[of t] Cons.prems(3) by (cases "ps_next t") auto
  qed
qed simp

lemma scan_kinds_token:
  assumes "scan_kinds G J T o' s = Inr s'" "ps_next s = None" "ps_next s' = Some token"
  shows "\<exists>c. gs_encode G c = Inr token"
proof -
  let ?Fin = "\<lambda>s. \<forall>token. ps_next s = Some token \<longrightarrow> (\<exists>c. gs_encode G c = Inr token)"
  have "?Fin s'"
  proof (rule scan_kinds_rule[where Inv = "\<lambda>s. ps_next s = None" and Fin = ?Fin, OF assms(1)], goal_cases)
    case (5 s batch t)
    then show ?case using scan_batch_token[OF 5(4)] by (auto simp: next_kind_def)
  qed (use assms(2) in \<open>auto simp: next_kind_def\<close>)
  then show ?thesis using assms(3) by simp
qed

section \<open>Following the cursors\<close>

text \<open>The cursor a projection starts from.\<close>

definition starts_at :: "'v graph_scope \<Rightarrow> graph_options \<Rightarrow> graph_cursor \<Rightarrow> bool" where
  "starts_at G o' start \<longleftrightarrow>
     (case go_cursor o' of
        Some token \<Rightarrow> gs_decode G token = Inr start
      | None \<Rightarrow> position start = (0, 0) \<and> gc_window_end start = timestamp (gs_now G))"

lemma project_covers:
  assumes "project G J T source_node subject o' = Inr page" "starts_at G o' start"
    and pages: "\<And>kind off. kind < CANDIDATE_KINDS \<Longrightarrow> gs_candidates G kind off = Inr (take CANDIDATE_BATCH (drop off (table kind)))"
  shows "\<exists>c. covered G T o' table start (position c) (gp_nodes page) \<and> gc_window_end c = gc_window_end start
    \<and> (case gp_next_cursor page of
         None \<Rightarrow> CANDIDATE_KINDS \<le> gc_kind c
       | Some token \<Rightarrow> gs_encode G c = Inr token \<and> position start < position c \<and> gc_kind c < CANDIDATE_KINDS
           \<and> gc_expires_at c = gc_window_end c + 300 \<and> gc_binding c = cursor_binding G source_node subject o' \<and> gc_generation c = gp_generation page)"
  using assms(1)
proof (cases rule: project_Inr)
  case (1 first s)
  have f: "position first = position start" "gc_window_end first = gc_window_end start"
    using 1(3) assms(2) by (auto simp: starts_at_def first_cursor_def position_def split: option.splits)
  have b: "gc_expires_at first = gc_window_end first + 300 \<and> gc_binding first = cursor_binding G source_node subject o' \<and> gc_generation first = gp_generation page"
    using 1(3) by (auto simp: first_cursor_def checked_cursor_def split: option.splits if_splits)
  have "going G T o' table first \<lparr> ps_nodes = [], ps_records = [], ps_bytes = 0, ps_scanned = 0, ps_cursor = first, ps_next = None \<rparr>"
    by (auto simp: going_def same_window_def covered_def)
  from scan_kinds_ended[OF 1(4) this pages] have e: "ended G T o' table first s" .
  then show ?thesis using f b 1(7,8)
    by (intro exI[of _ "ps_cursor s"]) (auto simp: ended_def covered_def same_window_def split: option.splits)
qed

text \<open>
  A viewer that follows the cursors of a projection to its end: each page is projected at its own time,
  from the cursor of the page before it.
\<close>

fun followed ::
  "'v graph_scope \<Rightarrow> 'v json_ops \<Rightarrow> graph_text \<Rightarrow> string \<Rightarrow> string \<Rightarrow> graph_options \<Rightarrow> (datetime \<times> graph_page) list \<Rightarrow> bool" where
  "followed G J T source_node subject o' [] \<longleftrightarrow> False"
| "followed G J T source_node subject o' ((now, page) # pages) \<longleftrightarrow>
     project (G\<lparr>gs_now := now\<rparr>) J T source_node subject o' = Inr page
     \<and> (case gp_next_cursor page of
          None \<Rightarrow> pages = []
        | Some token \<Rightarrow> followed G J T source_node subject (o'\<lparr>go_cursor := Some token\<rparr>) pages)"

lemma wanted_cursor [simp]: "wanted G (o'\<lparr>go_cursor := token\<rparr>) w c \<longleftrightarrow> wanted G o' w c"
  by (cases c) (simp_all add: wanted_def candidate_allowed_def kind_allowed_def outside_window_def)

lemma wanted_now [simp]: "wanted (G\<lparr>gs_now := now\<rparr>) o' w c \<longleftrightarrow> wanted G o' w c"
  by (simp add: wanted_def)

lemma node_ids_cursor [simp]: "node_ids T node (o'\<lparr>go_cursor := token\<rparr>) c = node_ids T node o' c"
  by (cases c) (simp_all add: node_ids_def kind_allowed_def)

lemma followed_covers:
  assumes pages: "\<And>kind off. kind < CANDIDATE_KINDS \<Longrightarrow> gs_candidates G kind off = Inr (take CANDIDATE_BATCH (drop off (table kind)))"
    and tokens: "\<And>c token. gs_encode G c = Inr token \<Longrightarrow> gs_decode G token = Inr c"
    and at: "k < CANDIDATE_KINDS" "i < length (table k)"
  shows "followed G J T source_node subject o' ps \<Longrightarrow> starts_at (G\<lparr>gs_now := fst (hd ps)\<rparr>) o' start \<Longrightarrow> position start \<le> (k, i)
    \<Longrightarrow> wanted G o' (gc_window_end start) (table k ! i) \<Longrightarrow> \<forall>n \<in> set (node_ids T (gs_node_id G) o' (table k ! i)). \<exists>(now, page) \<in> set ps. n \<in> gn_id ` set (gp_nodes page)"
proof (induction ps arbitrary: o' start)
  case (Cons p ps)
  obtain now page where p: "p = (now, page)" by fastforce
  then have project: "project (G\<lparr>gs_now := now\<rparr>) J T source_node subject o' = Inr page" using Cons.prems(1) by simp
  obtain c where c: "covered (G\<lparr>gs_now := now\<rparr>) T o' table start (position c) (gp_nodes page)" "gc_window_end c = gc_window_end start"
      "case gp_next_cursor page of None \<Rightarrow> CANDIDATE_KINDS \<le> gc_kind c | Some token \<Rightarrow> gs_encode G c = Inr token"
    using project_covers[OF project, of start table] Cons.prems(2) p pages by (force split: option.splits)
  show ?case
  proof (cases "(k, i) < position c")
    case True
    then have "set (node_ids T (gs_node_id G) o' (table k ! i)) \<subseteq> gn_id ` set (gp_nodes page)"
      using c(1) at(2) Cons.prems(3,4) by (auto simp: covered_def)
    then show ?thesis using p by auto
  next
    case False
    then have "position c \<le> (k, i)" "gc_kind c < CANDIDATE_KINDS" using at(1) by (auto simp: position_def)
    then obtain token where token: "gp_next_cursor page = Some token" "gs_encode G c = Inr token" using c(3) by (cases "gp_next_cursor page") auto
    have "starts_at (G\<lparr>gs_now := fst (hd ps)\<rparr>) (o'\<lparr>go_cursor := Some token\<rparr>) c" using tokens[OF token(2)] by (simp add: starts_at_def)
    from Cons.IH[OF _ this \<open>position c \<le> (k, i)\<close>] show ?thesis using Cons.prems(1,4) p token(1) c(2) by auto
  qed
qed simp

section \<open>A sample projection\<close>

text \<open>An injective text of a list of strings: each character is marked, and each string is closed.\<close>

fun marked :: "string list \<Rightarrow> string" where
  "marked [] = []"
| "marked ([] # xs) = CHR ''0'' # marked xs"
| "marked ((c # cs) # xs) = CHR ''1'' # c # marked (cs # xs)"

lemma marked_eq: "marked xs = marked ys \<Longrightarrow> xs = ys"
proof (induction xs arbitrary: ys rule: marked.induct)
  case 1
  then show ?case by (cases ys rule: marked.cases) simp_all
next
  case (2 xs)
  then show ?case by (cases ys rule: marked.cases) simp_all
next
  case (3 c cs xs)
  then show ?case by (cases ys rule: marked.cases) fastforce+
qed

definition sample_text :: graph_text where
  "sample_text =
     \<lparr> uuid_text = (\<lambda>i. if i = 1 then ''a'' else if i = 2 then ''b'' else ''c''), uuid_simple = (\<lambda>_. ''u''), uuid_parse = (\<lambda>_. None),
       strings_json = marked, status_text = (\<lambda>_. ''OPEN''), phase_text = (\<lambda>_. ''READY'') \<rparr>"

lemma sample_text_ok: "text_ok sample_text"
  by (auto simp: text_ok_def sample_text_def intro: injI marked_eq)

definition sample_workspace :: "uuid \<Rightarrow> sample graph_candidate" where
  "sample_workspace i = CWorkspace \<lparr> gw_id = i, gw_title = ''w'', gw_goal = [], gw_created_at = 0 \<rparr>"

text \<open>Three Workspaces, and pages of two.\<close>

definition sample_table :: "nat \<Rightarrow> sample graph_candidate list" where
  "sample_table kind = (if kind = 0 then map sample_workspace [1, 2, 3] else [])"

definition sample_generation :: string where
  "sample_generation = ''sha256:'' @ replicate 64 (CHR ''0'')"

definition sample_options :: graph_options where
  "sample_options =
     \<lparr> go_scope_workspace = None, go_depth = 1, go_mode = ''mesh'', go_kinds = [''workspace''], go_relations = [''contains''], go_hours = 0,
       go_limit = 2, go_cursor = None \<rparr>"

definition sample_cursor :: graph_cursor where
  "sample_cursor = (first_cursor sample_generation ''b'' 0)\<lparr>gc_offset := 2\<rparr>"

definition sample_scope :: "sample graph_scope" where
  "sample_scope =
     \<lparr> gs_node_id = ''n'', gs_now = 0, gs_checked_at = 0, gs_encode = (\<lambda>c. if c = sample_cursor then Inr ''t'' else Inl Forbidden),
       gs_decode = (\<lambda>token. if token = ''t'' then Inr sample_cursor else Inl Forbidden),
       gs_generation = Inr sample_generation, gs_generation_after = Inr sample_generation,
       gs_candidates = (\<lambda>kind off. Inr (take CANDIDATE_BATCH (drop off (sample_table kind)))), gs_visible = (\<lambda>_ _. Inr True),
       gs_linked_workspace = (\<lambda>_. Inr None), gs_linked_task = (\<lambda>_. Inr None), gs_linked_registry = (\<lambda>_ _ _. Inr None),
       gs_activity = (\<lambda>_ _. Inr []), gs_size = (\<lambda>_. Inr 1), gs_page_size = (\<lambda>_. Inr 1), gs_binding = (\<lambda>_ _ _. ''b'') \<rparr>"

lemma sample_scope_simps [simp]:
  "gs_node_id sample_scope = ''n''" "gs_now sample_scope = 0"
  "gs_encode sample_scope c = (if c = sample_cursor then Inr ''t'' else Inl Forbidden)"
  "gs_decode sample_scope token = (if token = ''t'' then Inr sample_cursor else Inl Forbidden)"
  "gs_generation sample_scope = Inr sample_generation" "gs_generation_after sample_scope = Inr sample_generation"
  "gs_candidates sample_scope kind off = Inr (take CANDIDATE_BATCH (drop off (sample_table kind)))"
  "gs_visible sample_scope cand inside = Inr True" "gs_activity sample_scope nodes w = Inr []" "gs_size sample_scope nodes = Inr 1"
  "gs_page_size sample_scope page = Inr 1" "gs_linked_workspace sample_scope i = Inr None" "gs_linked_task sample_scope i = Inr None"
  "gs_linked_registry sample_scope k j v = Inr None" "gs_binding sample_scope node subject o' = ''b''"
  by (simp_all add: sample_scope_def)

lemma sample_scope_ok: "scope_ok sample_scope"
proof -
  have digest: "strip_prefix ''sha256:'' sample_generation = Some (replicate 64 (CHR ''0''))"
    unfolding sample_generation_def by (rule strip_prefix_append)
  have "generation_ok sample_generation" unfolding generation_ok_def digest option.case
    by (simp add: hex_digit_def is_ascii_digit_def byte_def list_all_iff)
  then show ?thesis
    by (auto simp: scope_ok_def sample_table_def sample_workspace_def list_all_iff dest!: in_set_takeD in_set_dropD split: if_splits)
qed

definition sample_node :: "uuid \<Rightarrow> graph_node" where
  "sample_node i = plain_node sample_text ''n'' ''workspace'' i ''w'' (Some i) None 0"

lemma sample_scan_one:
  assumes "o' \<in> {sample_options, sample_options\<lparr>go_cursor := Some ''t''\<rparr>}" "ps_bytes s < 100"
    "gn_id (sample_node i) \<notin> gn_id ` set (ps_nodes s)"
  shows "scan_one sample_scope sample_json sample_text o' (sample_workspace i) s =
    (if 2 \<le> length (ps_nodes s)
     then and_then (gs_encode sample_scope (ps_cursor s)) (\<lambda>token. Inr ((advanced s)\<lparr>ps_cursor := ps_cursor s, ps_next := Some token\<rparr>))
     else Inr ((advanced s)\<lparr>ps_bytes := ps_bytes s + 1, ps_nodes := ps_nodes s @ [sample_node i], ps_records := ps_records s @ [sample_workspace i]\<rparr>))"
proof -
  have o': "go_limit o' = 2" "kind_allowed ''workspace'' o'" "\<not> kind_allowed ''goal'' o'"
    using assms(1) by (auto simp: sample_options_def kind_allowed_def)
  have nodes: "candidate_nodes sample_text ''n'' o' (sample_workspace i) = [sample_node i]"
    using o' by (simp add: sample_workspace_def sample_node_def trim_def)
  have none: "linked_candidates sample_scope sample_json sample_text o' ''n'' ns (sample_workspace i) = Inr []" for ns
    by (simp add: sample_workspace_def linked_candidates_def)
  have ok: "candidate_allowed o' (sample_workspace i)" "\<not> outside_window o' w (sample_workspace i)" for w
    using o' by (simp_all add: sample_workspace_def candidate_allowed_def outside_window_def)
  have fresh: "fresh_nodes (ps_nodes s) [sample_node i] = [sample_node i]" using assms(3) by (simp add: fresh_nodes_def)
  show ?thesis using assms(2) o'(1)
    by (auto simp: scan_one_def ok nodes none fresh add_group_def Let_def advanced_def)
qed

lemma sample_ids: "distinct (map (\<lambda>i. gn_id (sample_node i)) [3, 2, 1])"
  by (simp add: sample_node_def plain_node_def resource_key_def sample_text_def)

definition sample_start :: "graph_cursor \<Rightarrow> sample page_state" where
  "sample_start c = \<lparr> ps_nodes = [], ps_records = [], ps_bytes = 0, ps_scanned = 0, ps_cursor = c, ps_next = None \<rparr>"

lemma sample_full:
  "\<exists>s. scan_kinds sample_scope sample_json sample_text sample_options (sample_start (first_cursor sample_generation ''b'' 0)) = Inr s
     \<and> ps_next s = Some ''t'' \<and> ps_nodes s = [sample_node 1, sample_node 2]"
  using sample_ids
  by (subst scan_kinds.simps) (auto simp: sample_start_def sample_table_def CANDIDATE_KINDS_def CANDIDATE_BATCH_def sample_scan_one
      advanced_def sample_cursor_def first_cursor_def)

lemma sample_rest:
  "0 < gc_kind (ps_cursor s) \<Longrightarrow> ps_scanned s < 4096 \<Longrightarrow> ps_next s = None
     \<Longrightarrow> \<exists>s'. scan_kinds sample_scope J T o' s = Inr s' \<and> ps_next s' = None \<and> ps_nodes s' = ps_nodes s"
proof (induction "CANDIDATE_KINDS - gc_kind (ps_cursor s)" arbitrary: s)
  case 0
  then show ?case by (subst scan_kinds.simps) simp
next
  case (Suc n)
  then have "\<exists>s'. scan_kinds sample_scope J T o' (next_kind s) = Inr s' \<and> ps_next s' = None \<and> ps_nodes s' = ps_nodes (next_kind s)"
    by (intro Suc.hyps(1)) (auto simp: next_kind_def)
  then show ?case using Suc.prems by (subst scan_kinds.simps) (simp add: sample_table_def next_kind_def)
qed

lemma sample_last:
  "\<exists>s. scan_kinds sample_scope sample_json sample_text (sample_options\<lparr>go_cursor := Some ''t''\<rparr>) (sample_start sample_cursor) = Inr s
     \<and> ps_next s = None \<and> ps_nodes s = [sample_node 3]"
proof -
  let ?o = "sample_options\<lparr>go_cursor := Some ''t''\<rparr>" and ?s = "sample_start sample_cursor"
  let ?t = "(advanced ?s)\<lparr>ps_bytes := 1, ps_nodes := [sample_node 3], ps_records := [sample_workspace 3]\<rparr>"
  have "scan_one sample_scope sample_json sample_text ?o (sample_workspace 3) ?s = Inr ?t"
    by (subst sample_scan_one) (simp_all add: sample_start_def)
  moreover have "\<exists>s. scan_kinds sample_scope sample_json sample_text ?o (next_kind ?t) = Inr s \<and> ps_next s = None \<and> ps_nodes s = [sample_node 3]"
    using sample_rest[of "next_kind ?t" sample_json sample_text ?o] by (simp add: next_kind_def sample_start_def advanced_def)
  ultimately show ?thesis
    by (subst scan_kinds.simps)
      (simp add: sample_start_def sample_cursor_def first_cursor_def sample_table_def CANDIDATE_KINDS_def CANDIDATE_BATCH_def advanced_def)
qed

lemma sample_now: "sample_scope\<lparr>gs_now := 0\<rparr> = sample_scope"
  by (simp add: sample_scope_def)

lemma sample_followed:
  "\<exists>first final. followed sample_scope sample_json sample_text ''s'' ''p'' sample_options [(0, first), (0, final)]
     \<and> gp_nodes first = [sample_node 1, sample_node 2] \<and> gp_nodes final = [sample_node 3]"
proof -
  have valid: "options_validate sample_options = Inr ()" "options_validate (sample_options\<lparr>go_cursor := Some ''t''\<rparr>) = Inr ()"
    by (simp_all add: options_validate_def refuse_if_def sample_options_def GRAPH_MODES_def GRAPH_KINDS_def GRAPH_RELATIONS_def direct_depth_def)
  have checked: "checked_cursor sample_cursor ''b'' sample_generation 0 = Inr sample_cursor"
    by (simp add: checked_cursor_def sample_cursor_def first_cursor_def CANDIDATE_KINDS_def)
  have none: "go_cursor sample_options = None" by (simp add: sample_options_def)
  obtain s where s: "scan_kinds sample_scope sample_json sample_text sample_options (sample_start (first_cursor sample_generation ''b'' 0)) = Inr s"
    "ps_next s = Some ''t''" "ps_nodes s = [sample_node 1, sample_node 2]" using sample_full by blast
  obtain t where t: "scan_kinds sample_scope sample_json sample_text (sample_options\<lparr>go_cursor := Some ''t''\<rparr>) (sample_start sample_cursor) = Inr t"
    "ps_next t = None" "ps_nodes t = [sample_node 3]" using sample_last by blast
  show ?thesis using s t
    by (auto simp: sample_now project_def domain_def valid checked none Let_def cursor_binding_def timestamp_def sample_start_def)
qed

lemma sample_projects:
  "\<exists>page. project sample_scope sample_json sample_text ''s'' ''p'' sample_options = Inr page \<and> length (gp_nodes page) = 2"
  using sample_followed by (auto simp: sample_now)

section \<open>Properties\<close>

text \<open>
  Property C21. A page that a Node projects is accepted by the peer that asked for it: it has at most 80
  nodes of allowed kinds with different, well-formed identities, at most 600 edges between nodes of the
  page with allowed relations, activity about its nodes, and a bounded cursor.
\<close>

theorem graph_page_accepted:
  assumes "project G J T source_node subject o' = Inr page" "text_ok T" "scope_ok G"
  shows "valid_remote_page T page (gs_node_id G) o'"
  using assms(1)
proof (cases rule: project_Inr)
  case (1 start s)
  have limit: "go_limit o' \<le> 80" using 1(1) by (simp add: options_validate_def)
  have nodes: "nodes_ok T (gs_node_id G) o' (ps_nodes s)" "length (ps_nodes s) \<le> go_limit o'"
    using scan_kinds_nodes[OF 1(4) assms(2,3)] by (simp_all add: nodes_ok_def)
  have ids: "check_nodes T (gs_node_id G) o' [] (ps_nodes s) = Some (rev (map gn_id (ps_nodes s)))"
    using check_nodes_ok[of T "gs_node_id G" o' "ps_nodes s" "[]"] nodes(1) by (simp add: nodes_ok_def)
  have cursor: "length token \<le> 4096" if "ps_next s = Some token" for token
    using scan_kinds_token[OF 1(4) _ that] assms(3) by (auto simp: scope_ok_def)
  note edges = build_edges_ok[of T J "gs_node_id G" "ps_records s" "ps_nodes s" o']
  have "length (gp_activity page) \<le> 80 \<and> list_all (\<lambda>a. ga_reference a \<in> gn_id ` set (ps_nodes s) \<and> length (ga_kind a) \<le> 100) (gp_activity page)"
    "generation_ok (gp_generation page)" using assms(3) 1(2,5) by (simp_all add: scope_ok_def)
  then show ?thesis
    using 1(6-9) ids limit nodes(2) cursor edges
    by (auto simp: valid_remote_page_def edge_ok_def list_all_iff split: option.splits)
qed

theorem graph_page_accepted_witness:
  "\<exists>page. project sample_scope sample_json sample_text ''s'' ''p'' sample_options = Inr page \<and> length (gp_nodes page) = 2
     \<and> valid_remote_page sample_text page ''n'' sample_options"
proof -
  obtain page where "project sample_scope sample_json sample_text ''s'' ''p'' sample_options = Inr page" "length (gp_nodes page) = 2"
    using sample_projects by blast
  then show ?thesis using graph_page_accepted[OF _ sample_text_ok sample_scope_ok] by fastforce
qed

text \<open>
  Property C20. A viewer that follows the cursors from a first page to the last one has been shown every
  resource that the options ask for and that the viewer may see, although pages are cut off by their size
  and by the number of resources scanned, and although each page is projected at a time of its own.
  Candidates are listed in batches of a fixed table as long as the generation does not change, and a
  cursor that was encoded is decoded.
\<close>

theorem graph_shows_all:
  assumes "followed G J T source_node subject o' ((now, page) # pages)" "go_cursor o' = None"
    and "\<And>kind off. kind < CANDIDATE_KINDS \<Longrightarrow> gs_candidates G kind off = Inr (take CANDIDATE_BATCH (drop off (table kind)))"
    and "\<And>c token. gs_encode G c = Inr token \<Longrightarrow> gs_decode G token = Inr c"
    and "k < CANDIDATE_KINDS" "i < length (table k)" "candidate_allowed o' (table k ! i)"
    and "gs_visible G (table k ! i) (go_scope_workspace o' \<noteq> None) = Inr True" "\<not> outside_window o' (timestamp now) (table k ! i)"
  shows "\<forall>n \<in> set (candidate_nodes T (gs_node_id G) o' (table k ! i)). \<exists>(now, page) \<in> set ((now, page) # pages). gn_id n \<in> gn_id ` set (gp_nodes page)"
proof -
  define start where "start = first_cursor [] [] (timestamp now)"
  have "starts_at (G\<lparr>gs_now := fst (hd ((now, page) # pages))\<rparr>) o' start" using assms(2)
    by (simp add: starts_at_def start_def first_cursor_def position_def)
  from followed_covers[OF assms(3,4,5,6,1) this] show ?thesis using assms(7-9)
    by (simp add: start_def first_cursor_def position_def wanted_def node_ids_def)
qed

theorem graph_shows_all_witness:
  "\<exists>first final. followed sample_scope sample_json sample_text ''s'' ''p'' sample_options [(0, first), (0, final)]
     \<and> (\<forall>n \<in> set (candidate_nodes sample_text ''n'' sample_options (sample_workspace 3)).
          \<exists>(now, page) \<in> set [(0 :: datetime, first), (0, final)]. gn_id n \<in> gn_id ` set (gp_nodes page))"
proof -
  obtain first final where f: "followed sample_scope sample_json sample_text ''s'' ''p'' sample_options [(0, first), (0, final)]"
    using sample_followed by blast
  have at: "sample_table 0 ! 2 = sample_workspace 3" "2 < length (sample_table 0)" by (simp_all add: sample_table_def)
  have o': "candidate_allowed sample_options (sample_workspace 3)" "\<not> outside_window sample_options (timestamp 0) (sample_workspace 3)"
      "go_cursor sample_options = None"
    by (simp_all add: sample_workspace_def candidate_allowed_def kind_allowed_def sample_options_def outside_window_def)
  have tokens: "gs_decode sample_scope token = Inr c" if "gs_encode sample_scope c = Inr token" for c token using that by (simp split: if_splits)
  have pages: "gs_candidates sample_scope kind off = Inr (take CANDIDATE_BATCH (drop off (sample_table kind)))" for kind off by simp
  have zero: "0 < CANDIDATE_KINDS" by (simp add: CANDIDATE_KINDS_def)
  from graph_shows_all[OF f o'(3) pages tokens zero at(2)] o'(1,2) f show ?thesis by (auto simp: at(1) simp del: followed.simps candidate_nodes.simps)
qed

end
