(* ===== verification/Run_Rows.thy ===== *)
theory Run_Rows
  imports Run_State
begin

text \<open>
  The stored form of a Run (crates/aidash-domain/src/run\_state.rs, \<open>encode\<close> and \<open>decode\<close>;
  run\_state/row.rs; run\_state/capability.rs): the JSON envelope of the column \<open>pending\<close>, which holds
  the state of the phase, the recovery state and the capabilities a worker needs to load them, and
  the raw row of which it is a part.

  Serialization is \<open>serde_json\<close> with derived codecs, the parameter \<open>state_codec\<close>; writing cannot fail
  for these types. \<open>state_codec_laws\<close> is what the code relies on: a written value is read back, and
  reading the payload of a phase gives a state of that phase.
\<close>

section \<open>The codec\<close>

record serde_error =
  se_data :: bool
  se_message :: string

definition is_unknown_shape :: "serde_error \<Rightarrow> bool" where
  "is_unknown_shape e \<longleftrightarrow>
     se_data e \<and> (strip_prefix ''unknown field'' (se_message e) \<noteq> None
                   \<or> strip_prefix ''unknown variant'' (se_message e) \<noteq> None)"

text \<open>\<open>'d\<close> is the JSON of the payload.\<close>

record ('v, 'd) pending_state =
  ps_version :: u32
  ps_data :: 'd
  ps_recovery :: "'v recovery_state"
  ps_requires :: "string list"

text \<open>
  What is asked of the column \<open>pending\<close> (type \<open>'p\<close>): the number under \<open>state_version\<close>; the boolean
  under \<open>recovery.lease_recovered\<close>, its removal, and the insertion of one lease recovery where none
  is counted; the value under \<open>requires\<close>, which may not be a list of strings; the derived readers and
  writers; and the update that counts lease recoveries in place. Of the column \<open>context\<close> (type \<open>'c\<close>):
  its reader and writer, whether the binding snapshot is remote, and whether a request is the
  Completion Review.
\<close>

record ('v, 'x, 'p, 'd, 'c) state_codec =
  version_at :: "'p \<Rightarrow> u64 option"
  legacy_recovered :: "'p \<Rightarrow> bool option"
  without_legacy :: "'p \<Rightarrow> 'p"
  or_one_recovery :: "'p \<Rightarrow> 'p"
  requires_at :: "'p \<Rightarrow> string list option option"
  read_envelope :: "'p \<Rightarrow> serde_error + ('v, 'd) pending_state"
  write_envelope :: "('v, 'd) pending_state \<Rightarrow> 'p"
  read_payload :: "run_phase \<Rightarrow> 'd \<Rightarrow> serde_error + 'v run_state"
  write_payload :: "'v run_state \<Rightarrow> 'd"
  set_lease_recoveries :: "u32 \<Rightarrow> 'p \<Rightarrow> 'p"
  read_context :: "'c \<Rightarrow> ('v, 'x) exec_context option"
  write_context :: "('v, 'x) exec_context \<Rightarrow> 'c"
  context_remote :: "'c \<Rightarrow> bool"
  context_reviews :: "'c \<Rightarrow> uuid \<Rightarrow> bool"

definition state_codec_laws :: "('v, 'x, 'p, 'd, 'c) state_codec \<Rightarrow> bool" where
  "state_codec_laws C \<longleftrightarrow>
     (\<forall>e. ps_version e = 1 \<longrightarrow>
        read_envelope C (write_envelope C e) = Inr e \<and> version_at C (write_envelope C e) = Some 1
        \<and> legacy_recovered C (write_envelope C e) = None
        \<and> requires_at C (write_envelope C e) = (if ps_requires e = [] then None else Some (Some (ps_requires e)))
        \<and> (\<forall>n. set_lease_recoveries C n (write_envelope C e)
              = write_envelope C (e\<lparr>ps_recovery := (ps_recovery e)\<lparr>lease_recoveries := n\<rparr>\<rparr>)))
     \<and> (\<forall>s. read_payload C (state_phase s) (write_payload C s) = Inr s)
     \<and> (\<forall>ph d s. read_payload C ph d = Inr s \<longrightarrow> state_phase s = ph)
     \<and> (\<forall>x. read_context C (write_context C x) = Some x)"

section \<open>Encoding and decoding\<close>

definition from_pending :: "('v, 'x, 'p, 'd, 'c) state_codec \<Rightarrow> 'p \<Rightarrow> string list result" where
  "from_pending C p =
     (case requires_at C p of
        None \<Rightarrow> Inr []
      | Some None \<Rightarrow> Inl (Invalid ''invalid capability requirement'')
      | Some (Some names) \<Rightarrow> Inr (remdups_adj (sort names)))"

definition encode ::
  "('v, 'x, 'p, 'd, 'c) state_codec \<Rightarrow> 'v run_state \<Rightarrow> 'v recovery_state \<Rightarrow> 'p result" where
  "encode C s r =
     and_then (state_validate s) (\<lambda>_.
     Inr (write_envelope C
       \<lparr> ps_version = 1, ps_data = write_payload C s, ps_recovery = r, ps_requires = requirements_of s r \<rparr>))"

text \<open>Older rows carry a boolean in place of the count of lease recoveries.\<close>

definition upgrade_pending :: "('v, 'x, 'p, 'd, 'c) state_codec \<Rightarrow> 'p \<Rightarrow> 'p" where
  "upgrade_pending C p =
     (case legacy_recovered C p of
        None \<Rightarrow> p
      | Some recovered \<Rightarrow> let p' = without_legacy C p in if recovered then or_one_recovery C p' else p')"

definition unreadable :: "string \<Rightarrow> serde_error \<Rightarrow> error" where
  "unreadable message e = (if is_unknown_shape e then UnsupportedState (se_message e) else Invalid message)"

text \<open>\<open>join(", ")\<close>\<close>

fun join_names :: "string list \<Rightarrow> string" where
  "join_names [] = []"
| "join_names [n] = n"
| "join_names (n # ns) = n @ '', '' @ join_names ns"

text \<open>The decimal text of a number.\<close>

fun decimal :: "nat \<Rightarrow> string" where
  "decimal n = (if n < 10 then [char_of (48 + n)] else decimal (n div 10) @ [char_of (48 + n mod 10)])"

declare decimal.simps [simp del]

definition newer_version :: "('v, 'x, 'p, 'd, 'c) state_codec \<Rightarrow> 'p \<Rightarrow> u64 option" where
  "newer_version C p =
     (case version_at C p of Some v \<Rightarrow> if 1 < v then Some v else None | None \<Rightarrow> None)"

definition decode ::
  "('v, 'x, 'p, 'd, 'c) state_codec \<Rightarrow> run_phase \<Rightarrow> 'p \<Rightarrow> ('v run_state \<times> 'v recovery_state) result" where
  "decode C phase pending =
     (let p = upgrade_pending C pending
      in case newer_version C p of
           Some v \<Rightarrow> Inl (UnsupportedState (''run state version '' @ decimal (unat v)))
         | None \<Rightarrow>
             (case read_envelope C p of
                Inl e \<Rightarrow> Inl (unreadable ''invalid pending envelope or state version'' e)
              | Inr env \<Rightarrow>
                  let lacking = unmet capability_ALL (ps_requires env)
                  in if lacking \<noteq> [] then Inl (UnsupportedState (''needs capabilities '' @ join_names lacking))
                     else case read_payload C phase (ps_data env) of
                            Inl e \<Rightarrow> Inl (unreadable ''invalid phase payload'' e)
                          | Inr s \<Rightarrow>
                              and_then (state_validate s) (\<lambda>_.
                              and_then (refuse_if (\<not> covered_by (requirements_of s (ps_recovery env)) (ps_requires env))
                                (Invalid ''stored capability requirement does not cover the state'')) (\<lambda>_.
                              Inr (s, ps_recovery env)))))"

section \<open>Rows\<close>

record run_metadata =
  md_id :: uuid
  md_task_id :: uuid
  md_workspace_id :: uuid
  md_node :: node_name
  md_home_node :: string
  md_agent_id :: string
  md_agent_version :: string
  md_phase :: run_phase
  md_control :: run_control
  md_control_revision :: int
  md_control_source :: control_source
  md_step :: int
  md_revision :: int
  md_observed_input_seq :: int
  md_ledger_worker_ready :: bool
  md_error :: "string option"
  md_lease_owner :: "uuid option"
  md_lease_until :: "datetime option"
  md_updated_at :: datetime

record ('p, 'c) raw_run = run_metadata +
  raw_context :: 'c
  raw_pending :: 'p

definition raw_decode ::
  "('v, 'x, 'p, 'd, 'c) state_codec \<Rightarrow> ('p, 'c) raw_run \<Rightarrow> ('v, 'x) run result" where
  "raw_decode C m =
     and_then (decode C (md_phase m) (raw_pending m)) (\<lambda>(s, r).
     case read_context C (raw_context m) of
       None \<Rightarrow> Inl (Invalid ''invalid execution context'')
     | Some c \<Rightarrow> Inr
         \<lparr> run_id = md_id m, run_task_id = md_task_id m, run_workspace_id = md_workspace_id m,
           run_node = md_node m, home_node = md_home_node m, run_agent_id = md_agent_id m,
           run_agent_version = md_agent_version m, state = s, recovery = r, control = md_control m,
           control_revision = md_control_revision m, run_control_source = md_control_source m,
           run_context = c, run_step = md_step m, revision = md_revision m,
           observed_input_seq = md_observed_input_seq m, ledger_worker_ready = md_ledger_worker_ready m,
           run_error = md_error m, lease_owner = md_lease_owner m, lease_until = md_lease_until m,
           updated_at = md_updated_at m \<rparr>)"

definition metadata :: "('v, 'x) run \<Rightarrow> run_metadata" where
  "metadata r =
     \<lparr> md_id = run_id r, md_task_id = run_task_id r, md_workspace_id = run_workspace_id r,
       md_node = run_node r, md_home_node = home_node r, md_agent_id = run_agent_id r,
       md_agent_version = run_agent_version r, md_phase = state_phase (state r), md_control = control r,
       md_control_revision = control_revision r, md_control_source = run_control_source r,
       md_step = run_step r, md_revision = revision r, md_observed_input_seq = observed_input_seq r,
       md_ledger_worker_ready = ledger_worker_ready r, md_error = run_error r,
       md_lease_owner = lease_owner r, md_lease_until = lease_until r, md_updated_at = updated_at r \<rparr>"

definition stored_pending :: "('v, 'x, 'p, 'd, 'c) state_codec \<Rightarrow> ('v, 'x) run \<Rightarrow> 'p result" where
  "stored_pending C r = encode C (state r) (recovery r)"

text \<open>Why no worker claims a Run; the current time is an argument.\<close>

definition lease_wait :: "datetime \<Rightarrow> string list \<Rightarrow> ('p, 'c) raw_run \<Rightarrow> string list option" where
  "lease_wait now requires m =
     (if requires \<noteq> [] \<and> \<not> (case md_lease_until m of None \<Rightarrow> False | Some t \<Rightarrow> now < t)
         \<and> \<not> phase_is_terminal (md_phase m) \<and> md_control m = Active
      then Some requires else None)"

fun error_text :: "error \<Rightarrow> string" where
  "error_text (Invalid m) = m"
| "error_text (Conflict m) = m"
| "error_text (UnsupportedState m) = ''persisted state needs a newer worker: '' @ m"

record ('v, 'x) run_inspection =
  in_metadata :: run_metadata
  in_state :: "'v run_state option"
  in_recovery :: "'v recovery_state option"
  in_context :: "('v, 'x) exec_context option"
  in_state_error :: "string option"
  in_lease_wait :: "string list option"

definition inspect ::
  "('v, 'x, 'p, 'd, 'c) state_codec \<Rightarrow> datetime \<Rightarrow> ('p, 'c) raw_run \<Rightarrow> ('v, 'x) run_inspection" where
  "inspect C now m =
     (let waits = (case from_pending C (raw_pending m) of Inl _ \<Rightarrow> None | Inr requires \<Rightarrow> lease_wait now requires m)
      in case raw_decode C m of
           Inr r \<Rightarrow> \<lparr> in_metadata = run_metadata.truncate m, in_state = Some (state r), in_recovery = Some (recovery r),
                     in_context = Some (run_context r), in_state_error = None, in_lease_wait = waits \<rparr>
         | Inl e \<Rightarrow>
             (let delivery = (case decode C (md_phase m) (raw_pending m) of
                                Inr (s, r) \<Rightarrow> if failure_delivery s then Some (s, r) else None
                              | Inl _ \<Rightarrow> None)
              in \<lparr> in_metadata = run_metadata.truncate m, in_state = map_option fst delivery,
                   in_recovery = map_option snd delivery, in_context = None,
                   in_state_error = Some (error_text e), in_lease_wait = waits \<rparr>))"


section \<open>Lemmas\<close>

lemma laws_envelope:
  assumes "state_codec_laws C" "ps_version e = 1"
  shows "read_envelope C (write_envelope C e) = Inr e" "version_at C (write_envelope C e) = Some 1"
    "legacy_recovered C (write_envelope C e) = None"
    "requires_at C (write_envelope C e) = (if ps_requires e = [] then None else Some (Some (ps_requires e)))"
    "set_lease_recoveries C n (write_envelope C e)
       = write_envelope C (e\<lparr>ps_recovery := (ps_recovery e)\<lparr>lease_recoveries := n\<rparr>\<rparr>)"
  using assms unfolding state_codec_laws_def by blast+

lemma laws_payload:
  assumes "state_codec_laws C"
  shows "read_payload C (state_phase s) (write_payload C s) = Inr s"
    "read_payload C ph d = Inr s \<Longrightarrow> state_phase s = ph" "read_context C (write_context C x) = Some x"
  using assms unfolding state_codec_laws_def by blast+

lemma supported_requirements [simp]: "unmet capability_ALL (requirements_of s r) = []"
  by (auto simp: unmet_def requirements_of_def Let_def filter_empty_conv list_ex_iff)

lemma covered_by_refl [simp]: "covered_by xs xs"
  by (simp add: covered_by_def list_all_iff)

definition envelope_of :: "('v, 'x, 'p, 'd, 'c) state_codec \<Rightarrow> 'v run_state \<Rightarrow> 'v recovery_state \<Rightarrow> ('v, 'd) pending_state" where
  "envelope_of C s r =
     \<lparr> ps_version = 1, ps_data = write_payload C s, ps_recovery = r, ps_requires = requirements_of s r \<rparr>"

lemma envelope_of_simps [simp]:
  "ps_version (envelope_of C s r) = 1" "ps_data (envelope_of C s r) = write_payload C s"
  "ps_recovery (envelope_of C s r) = r" "ps_requires (envelope_of C s r) = requirements_of s r"
  by (simp_all add: envelope_of_def)

lemma encode_Inr_iff: "encode C s r = Inr p \<longleftrightarrow> state_validate s = Inr () \<and> p = write_envelope C (envelope_of C s r)"
  by (auto simp: encode_def envelope_of_def and_then_Inr_iff)

lemma decode_envelope:
  assumes "state_codec_laws C" "state_validate s = Inr ()" "ps_version e = 1" "ps_data e = write_payload C s"
    and "unmet capability_ALL (ps_requires e) = []" "covered_by (requirements_of s (ps_recovery e)) (ps_requires e)"
  shows "decode C (state_phase s) (write_envelope C e) = Inr (s, ps_recovery e)"
  using assms
  by (simp add: decode_def upgrade_pending_def newer_version_def laws_envelope laws_payload Let_def)

lemma decode_encode:
  assumes "state_codec_laws C" "encode C s r = Inr p"
  shows "decode C (state_phase s) p = Inr (s, r)"
  using assms decode_envelope[OF assms(1), of s "envelope_of C s r"] by (simp add: encode_Inr_iff)

text \<open>Counting a lease recovery in place changes nothing else, not even the capabilities needed.\<close>

lemma decode_charged:
  assumes "state_codec_laws C" "encode C s r = Inr p"
  shows "decode C (state_phase s) (set_lease_recoveries C n p) = Inr (s, r\<lparr>lease_recoveries := n\<rparr>)"
    "set_lease_recoveries C n p = write_envelope C (envelope_of C s (r\<lparr>lease_recoveries := n\<rparr>))"
proof -
  have req: "requirements_of s (r\<lparr>lease_recoveries := n\<rparr>) = requirements_of s r"
    by (simp add: requirements_of_def recovery_capabilities_def)
  have p: "state_validate s = Inr ()" "p = write_envelope C (envelope_of C s r)"
    using assms(2) by (simp_all add: encode_Inr_iff)
  let ?e = "(envelope_of C s r)\<lparr>ps_recovery := r\<lparr>lease_recoveries := n\<rparr>\<rparr>"
  have "set_lease_recoveries C n p = write_envelope C ?e"
    using laws_envelope(5)[OF assms(1)] p(2) by simp
  then show "decode C (state_phase s) (set_lease_recoveries C n p) = Inr (s, r\<lparr>lease_recoveries := n\<rparr>)"
    "set_lease_recoveries C n p = write_envelope C (envelope_of C s (r\<lparr>lease_recoveries := n\<rparr>))"
    using decode_envelope[OF assms(1) p(1), of ?e] req by (simp_all add: envelope_of_def)
qed

lemma decode_Inr:
  assumes "decode C ph p = Inr (s, r)"
  obtains env where "read_envelope C (upgrade_pending C p) = Inr env" "read_payload C ph (ps_data env) = Inr s"
    "state_validate s = Inr ()" "unmet capability_ALL (ps_requires env) = []"
    "covered_by (requirements_of s r) (ps_requires env)" "ps_recovery env = r"
  using assms
  by (auto simp: decode_def Let_def and_then_Inr_iff split: option.splits sum.splits if_splits)

lemma decode_sound:
  assumes "state_codec_laws C" "decode C ph p = Inr (s, r)"
  shows "state_phase s = ph" "state_validate s = Inr ()"
  using assms(2) by (auto elim!: decode_Inr dest: laws_payload(2)[OF assms(1)])

text \<open>The row that a Run is stored as.\<close>

definition row_of :: "('v, 'x, 'p, 'd, 'c) state_codec \<Rightarrow> 'p \<Rightarrow> ('v, 'x) run \<Rightarrow> ('p, 'c) raw_run" where
  "row_of C p r =
     run_metadata.extend (metadata r) \<lparr> raw_context = write_context C (run_context r), raw_pending = p \<rparr>"

lemma raw_decode_row:
  assumes "state_codec_laws C" "stored_pending C r = Inr p"
  shows "raw_decode C (row_of C p r) = Inr r"
proof -
  have "decode C (state_phase (state r)) p = Inr (state r, recovery r)"
    using decode_encode[OF assms(1)] assms(2) by (simp add: stored_pending_def)
  then show ?thesis
    by (simp add: raw_decode_def row_of_def metadata_def run_metadata.defs raw_run.defs laws_payload(3)[OF assms(1)])
qed

lemma raw_decode_Inr:
  assumes "raw_decode C m = Inr r"
  shows "decode C (md_phase m) (raw_pending m) = Inr (state r, recovery r)"
    "run_id r = md_id m" "control r = md_control m" "revision r = md_revision m"
    "lease_owner r = md_lease_owner m" "lease_until r = md_lease_until m" "updated_at r = md_updated_at m"
    "run_task_id r = md_task_id m"
  using assms by (auto simp: raw_decode_def and_then_Inr_iff split: option.splits)

section \<open>Properties\<close>

text \<open>A codec that stores values as they are.\<close>

definition plain_codec ::
  "('v, 'x, ('v, 'v run_state) pending_state, 'v run_state, ('v, 'x) exec_context) state_codec" where
  "plain_codec =
     \<lparr> version_at = (\<lambda>p. Some (ucast (ps_version p))), legacy_recovered = (\<lambda>p. None), without_legacy = id,
       or_one_recovery = id, requires_at = (\<lambda>p. if ps_requires p = [] then None else Some (Some (ps_requires p))),
       read_envelope = (\<lambda>p. if ps_version p = 1 then Inr p else Inl \<lparr> se_data = True, se_message = ''unsupported run state version'' \<rparr>),
       write_envelope = id,
       read_payload = (\<lambda>ph s. if state_phase s = ph then Inr s else Inl \<lparr> se_data = True, se_message = ''missing field'' \<rparr>),
       write_payload = id,
       set_lease_recoveries = (\<lambda>n p. p\<lparr>ps_recovery := (ps_recovery p)\<lparr>lease_recoveries := n\<rparr>\<rparr>),
       read_context = Some, write_context = id, context_remote = (\<lambda>_. False), context_reviews = (\<lambda>_ _. False) \<rparr>"

lemma plain_codec_laws [simp]: "state_codec_laws plain_codec"
  by (auto simp: state_codec_laws_def plain_codec_def)

text \<open>
  Property C22. A saved Run is loaded unchanged: a Run with a valid state is stored, decoding its row
  gives the same Run, and the stored requirement names exactly the capabilities that the state needs.
  Conversely a row is loaded only when the requirement stored in its envelope is within what this build
  supports and names every capability that the loaded state needs; the state is valid and of the row's
  phase, the columns are the row's, and the Run can be stored again. A row whose requirement does not
  cover its state is refused.
\<close>

theorem stored_run_round_trip:
  assumes "state_codec_laws C"
  shows "(state_validate (state r) = Inr () \<longrightarrow>
      (\<exists>p names. stored_pending C r = Inr p \<and> raw_decode C (row_of C p r) = Inr r
         \<and> from_pending C p = Inr names \<and> set names = set (requirements_of (state r) (recovery r))))
    \<and> (raw_decode C m = Inr r' \<longrightarrow>
         state_phase (state r') = md_phase m \<and> state_validate (state r') = Inr ()
         \<and> (\<exists>env. read_envelope C (upgrade_pending C (raw_pending m)) = Inr env
              \<and> unmet capability_ALL (ps_requires env) = [] \<and> (\<forall>c. needs (state r') (recovery r') c \<longrightarrow> capability_name c \<in> set (ps_requires env)))
         \<and> metadata r' = run_metadata.truncate m \<and> is_ok (stored_pending C r'))"
proof (intro conjI impI)
  assume valid: "state_validate (state r) = Inr ()"
  let ?p = "write_envelope C (envelope_of C (state r) (recovery r))"
  have p: "stored_pending C r = Inr ?p" using valid by (simp add: stored_pending_def encode_Inr_iff)
  show "\<exists>p names. stored_pending C r = Inr p \<and> raw_decode C (row_of C p r) = Inr r
         \<and> from_pending C p = Inr names \<and> set names = set (requirements_of (state r) (recovery r))"
    using p raw_decode_row[OF assms p] laws_envelope(4)[OF assms, of "envelope_of C (state r) (recovery r)"]
    by (auto simp: from_pending_def)
next
  assume r': "raw_decode C m = Inr r'"
  note d = decode_sound[OF assms raw_decode_Inr(1)[OF r']]
  show "state_phase (state r') = md_phase m" "state_validate (state r') = Inr ()" by (fact d)+
  show "\<exists>env. read_envelope C (upgrade_pending C (raw_pending m)) = Inr env \<and> unmet capability_ALL (ps_requires env) = []
      \<and> (\<forall>c. needs (state r') (recovery r') c \<longrightarrow> capability_name c \<in> set (ps_requires env))"
    using raw_decode_Inr(1)[OF r'] by (rule decode_Inr) (auto simp: covered_by_def list_all_iff simp flip: requirements_of_needs)
  show "metadata r' = run_metadata.truncate m"
    using r' d(1) by (auto simp: raw_decode_def metadata_def run_metadata.defs and_then_Inr_iff split: option.splits)
  show "is_ok (stored_pending C r')" using d(2) by (simp add: is_ok_iff stored_pending_def encode_Inr_iff)
qed

theorem stored_run_round_trip_witness:
  "\<exists>p. let r = (sample_run RunReady)\<lparr>recovery := default_recovery\<lparr>connection_waited := [''r'']\<rparr>\<rparr> in
     stored_pending plain_codec r = Inr p \<and> raw_decode plain_codec (row_of plain_codec p r) = Inr r
     \<and> ''connection_wait'' \<in> set (ps_requires p)"
proof -
  let ?r = "(sample_run RunReady)\<lparr>recovery := default_recovery\<lparr>connection_waited := [''r'']\<rparr>\<rparr>"
  obtain p where p: "stored_pending plain_codec ?r = Inr p" "raw_decode plain_codec (row_of plain_codec p ?r) = Inr ?r"
    using conjunct1[OF stored_run_round_trip[OF plain_codec_laws, of ?r]] by auto
  have at: "raw_pending (row_of plain_codec p ?r) = p" by (simp add: row_of_def run_metadata.defs raw_run.defs)
  note l = conjunct2[OF stored_run_round_trip[OF plain_codec_laws, of ?r "row_of plain_codec p ?r" ?r], THEN mp, OF p(2)]
  have "\<forall>c. needs (state ?r) (recovery ?r) c \<longrightarrow> capability_name c \<in> set (ps_requires p)"
    using l[THEN conjunct2, THEN conjunct2, THEN conjunct1] unfolding at by (auto simp: plain_codec_def upgrade_pending_def split: if_splits)
  from spec[OF this, of ConnectionWaitState] have "''connection_wait'' \<in> set (ps_requires p)" by simp
  then show ?thesis using p unfolding Let_def by blast
qed

end
