(* ===== verification/Recovery.thy ===== *)
theory Recovery
  imports Run_State
begin

text \<open>
  Recovery of a failed execution step (crates/aidash-harness/src/recovery.rs), with the failure
  classes of crates/aidash-application/src/recovery.rs, the connection waits of
  crates/aidash-application/src/connection\_wait.rs, the snapshot a worker saves
  (crates/aidash-domain/src/run\_state/persistence.rs) and the write of a pause
  (server/src/apps/execution/repositories/store.rs).

  \<open>recover\<close> reads the leased Run and ends in at most one write of the store; the model returns that
  write. What the store answers on the way, and the renderings of third-party crates (URLs, JSON
  text, digests), are fields of the parameter \<open>recovery_env\<close>.
\<close>

section \<open>Failures\<close>

datatype refusal_check =
    CheckPolicy | CheckAgentFlag | CheckCoreCapability | CheckCatalog | CheckRemoteAuthority
  | CheckCallUnapprovedDeny | CheckRegistryTool | CheckPluginTool | CheckAgentExecution

record authority_refusal =
  refusal_tool :: string
  refusal_check :: refusal_check
  refusal_action :: "string option"

definition refusal_text :: "authority_refusal \<Rightarrow> string" where
  "refusal_text r = refusal_tool r @
     (case (refusal_check r, refusal_action r) of
        (CheckPolicy, Some action) \<Rightarrow> '': '' @ action @ '' was denied''
      | (CheckPolicy, None) \<Rightarrow> '': policy denied the call''
      | (CheckAgentFlag, _) \<Rightarrow> '': the agent'' @ CHR 0x27 # ''s configuration does not permit this tool''
      | (CheckCoreCapability, _) \<Rightarrow> '': the agent lacks the core capability this tool needs''
      | (CheckCatalog, Some action) \<Rightarrow> '': Catalog Approval refused '' @ action
      | (CheckCatalog, None) \<Rightarrow> '': Catalog Approval refused the call''
      | (CheckRemoteAuthority, _) \<Rightarrow> '': the remote Node'' @ CHR 0x27 # ''s authority does not cover the call''
      | (CheckCallUnapprovedDeny, _) \<Rightarrow> '': tool.call_unapproved is explicitly denied''
      | (CheckRegistryTool, _) \<Rightarrow> '': the agent is not configured with this tool''
      | (CheckPluginTool, _) \<Rightarrow> '': the Run did not pin this plugin tool''
      | (CheckAgentExecution, _) \<Rightarrow> '': the agent may not delegate to this Node'')"

datatype authority_failure =
    IdentityUnavailable
  | Denied "authority_refusal option"

fun authority_reason :: "authority_failure \<Rightarrow> string" where
  "authority_reason IdentityUnavailable = ''identity status unavailable''"
| "authority_reason (Denied (Some refusal)) = refusal_text refusal"
| "authority_reason (Denied None) = ''execution authority denied''"

fun authority_refused :: "authority_failure \<Rightarrow> authority_refusal option" where
  "authority_refused (Denied refusal) = refusal"
| "authority_refused IdentityUnavailable = None"

fun semantic_text :: "semantic_failure \<Rightarrow> string" where
  "semantic_text SConfiguration = ''Semantic retrieval configuration is unavailable or changed''"
| "semantic_text SAuthority = ''Home semantic retrieval requires current authority at both nodes''"
| "semantic_text SInvalidated = ''A consumed semantic source changed; create a follow-up Task''"
| "semantic_text SProviderContract = ''The semantic provider violated its approved response contract''"
| "semantic_text SEmbeddingModelNotFound = ''The embedding provider cannot find the configured model''"
| "semantic_text SContextBudget = ''Semantic context does not fit the available context budget''"
| "semantic_text SDurableMemoryBudget =
     ''The native-memory operation'' @ CHR 0x27 # ''s durable model budget is exhausted; create a follow-up Task''"
| "semantic_text SAllowance = ''The generated lineage has insufficient provider allowance''"
| "semantic_text SUnavailable = ''The semantic backend is temporarily unavailable''"
| "semantic_text SRetriesExhausted = ''Semantic retries are exhausted; an authorized manual retry is required''"
| "semantic_text SPending = ''The semantic operation is already in progress''"
| "semantic_text SStale = ''The reused semantic retrieval is out of date; retrieve it again''"

fun context_text :: "context_failure \<Rightarrow> string" where
  "context_text SourceSelectionUnavailable = ''The source selection Decider is unavailable''"
| "context_text SourceSelectionForbidden = ''Source candidate disclosure is forbidden''"
| "context_text SourceSelectionUnapproved = ''The exact source selection Decider is not approved''"
| "context_text SourceSelectionCallsExhausted = ''The source selection Decider call allowance is exhausted''"
| "context_text ContextUnreducible =
     ''Mandatory context cannot fit the model window; reduce instructions, tools or pinned context''"
| "context_text DeciderUnapproved =
     ''The compaction Decider has no Catalog Approval for its exact version on this Node''"
| "context_text DeciderCallsExhausted = ''The compaction Decider reached its call limit for this Run''"
| "context_text DeciderUnavailable =
     ''The compaction Decider is unavailable: no OpenRouter connection, a provider failure, or more context than it accepts''"
| "context_text SummaryUnavailable = ''The context Summary Stage is unavailable or not approved for this Run''"
| "context_text SummaryInvalid = ''The context summary was invalid or did not reduce the context''"
| "context_text OverflowRetriesExhausted =
     ''The provider still reported a context overflow after bounded recovery''"
| "context_text OutputTruncated =
     ''The provider truncated its output; no tool call from it was dispatched''"
| "context_text Refused = ''The provider refused the request''"

text \<open>A \<open>std::time::Duration\<close> is a number of nanoseconds; an HTTP status is a \<open>u16\<close>.\<close>

datatype execution_failure =
    ESemantic semantic_failure
  | EContext context_failure
  | DeciderOutage
  | EAuthority authority_failure
  | MediaRoute string
  | Deferred
  | ToolRetry u32 "nat option" string
  | Inference bool "16 word option" string
  | EOther string

fun retryable :: "execution_failure \<Rightarrow> bool" where
  "retryable (Inference transport status _) \<longleftrightarrow>
     transport \<or> (case status of None \<Rightarrow> False | Some c \<Rightarrow> c = 408 \<or> c = 429 \<or> (500 \<le> c \<and> c \<le> 599))"
| "retryable _ \<longleftrightarrow> False"

fun failure_message :: "execution_failure \<Rightarrow> string" where
  "failure_message (ESemantic reason) = semantic_text reason"
| "failure_message (EContext reason) = context_text reason"
| "failure_message (EAuthority failure) = authority_reason failure"
| "failure_message (MediaRoute message) = message"
| "failure_message (Inference _ _ message) = message"
| "failure_message (EOther message) = message"
| "failure_message Deferred = ''execution state is temporarily unavailable''"
| "failure_message (ToolRetry _ _ message) = message"
| "failure_message DeciderOutage = ''every Decider Route is unavailable''"

section \<open>Connection waits\<close>

record need =
  need_resource :: string
  need_scopes :: "string list"
  need_reason :: string
  need_tool :: string

record wait_policy =
  answer_deadline_seconds :: "int option"
  human_wait_seconds :: u64

definition wait_deadline :: "wait_policy \<Rightarrow> datetime \<Rightarrow> u64 \<Rightarrow> datetime" where
  "wait_deadline p started waited_millis =
     (let allowed = min (unat (human_wait_seconds p) * 1000) (2 ^ 64 - 1);
          remaining = int (min (allowed - unat waited_millis) (2 ^ 63 - 1));
          answer = (case answer_deadline_seconds p of
                      None \<Rightarrow> remaining
                    | Some s \<Rightarrow> min (max s 0 * 1000) (2 ^ 63 - 1))
      in started + min remaining answer * 1000000)"

text \<open>\<open>str::split_whitespace\<close>\<close>

fun split_chunks :: "string list \<Rightarrow> string list" where
  "split_chunks [] = [[]]"
| "split_chunks (c # cs) =
     (if is_whitespace (code_point c) then [] # split_chunks cs
      else (case split_chunks cs of w # ws \<Rightarrow> (c @ w) # ws | [] \<Rightarrow> [c]))"

definition split_whitespace :: "string \<Rightarrow> string list" where
  "split_whitespace s = filter (\<lambda>w. w \<noteq> []) (split_chunks (utf8_chunks s))"

record ('v, 'x, 'e) recovery_env =
  canonical_resource :: "string \<Rightarrow> string option"
  prompt_json :: "need \<Rightarrow> string \<Rightarrow> string"
  resource_digest :: "string \<Rightarrow> string"
  id_text :: "uuid \<Rightarrow> string"
  connection_wait_policy :: "('v, 'x) run \<Rightarrow> 'e + wait_policy option"
  connection_request :: "('v, 'x) run \<Rightarrow> string \<Rightarrow> string \<Rightarrow> 'e + uuid \<times> datetime"

definition need_from_cause :: "('v, 'x, 'e) recovery_env \<Rightarrow> connection_cause \<Rightarrow> string \<Rightarrow> need option" where
  "need_from_cause E cause tool =
     (case canonical_resource E (cause_resource cause) of
        None \<Rightarrow> None
      | Some resource \<Rightarrow> Some
          (case cause of
             ConnectionRequired _ \<Rightarrow>
               \<lparr> need_resource = resource, need_scopes = [], need_reason = ''missing'', need_tool = tool \<rparr>
           | ConnectionScopeInsufficient _ scope \<Rightarrow>
               \<lparr> need_resource = resource,
                 need_scopes = split_whitespace (case scope of None \<Rightarrow> [] | Some s \<Rightarrow> s),
                 need_reason = ''scope'', need_tool = tool \<rparr>))"

definition need_prompt :: "('v, 'x, 'e) recovery_env \<Rightarrow> need \<Rightarrow> string" where
  "need_prompt E n = prompt_json E n (''Connect to '' @ need_resource n @ '' to continue this task.'')"

definition record_refusal ::
  "string \<Rightarrow> connection_cause \<Rightarrow> string list \<Rightarrow> ('v, 'x) run \<Rightarrow> ('v, 'x) run" where
  "record_refusal tool cause scopes r =
     r\<lparr>recovery := (recovery r)\<lparr>connection_refusals :=
         filter (\<lambda>old. cause_resource (cr_cause old) \<noteq> cause_resource cause) (connection_refusals (recovery r))
         @ [\<lparr> cr_cause = cause, cr_tool = tool, cr_scopes = scopes \<rparr>]\<rparr>\<rparr>"

text \<open>\<open>Iterator::find_map\<close>\<close>

fun find_map :: "('a \<Rightarrow> 'b option) \<Rightarrow> 'a list \<Rightarrow> 'b option" where
  "find_map f [] = None"
| "find_map f (x # xs) = (case f x of None \<Rightarrow> find_map f xs | Some y \<Rightarrow> Some y)"

definition refusal_need :: "('v, 'x, 'e) recovery_env \<Rightarrow> ('v, 'x) run \<Rightarrow> connection_refusal \<Rightarrow> need option" where
  "refusal_need E r refusal =
     (if cause_resource (cr_cause refusal) \<in> set (connection_waited (recovery r)) then None
      else map_option (\<lambda>n. n\<lparr>need_scopes := remdups_adj (sort (need_scopes n @ cr_scopes refusal))\<rparr>)
             (need_from_cause E (cr_cause refusal) (cr_tool refusal)))"

definition finding_need :: "('v, 'x, 'e) recovery_env \<Rightarrow> ('v, 'x) run \<Rightarrow> plugin_finding \<Rightarrow> need option" where
  "finding_need E r finding =
     (case pf_connection finding of
        None \<Rightarrow> None
      | Some cause \<Rightarrow>
          if cause_resource cause \<in> set (connection_waited (recovery r)) then None
          else need_from_cause E cause (pf_plugin finding @ '' MCP server''))"

definition failure_need :: "('v, 'x, 'e) recovery_env \<Rightarrow> ('v, 'x) run \<Rightarrow> need option" where
  "failure_need E r =
     (case find_map (refusal_need E r) (rev (connection_refusals (recovery r))) of
        Some n \<Rightarrow> Some n
      | None \<Rightarrow> (case plugin_findings (run_context r) of
                  None \<Rightarrow> None
                | Some findings \<Rightarrow> find_map (finding_need E r) findings))"

section \<open>Recovery\<close>

text \<open>The write that ends a recovery: a save with its event, or a pause with its reason.\<close>

datatype ('v, 'x) recovery_write =
    SaveRun "('v, 'x) run" string
  | PauseRun "('v, 'x) run" string string "authority_refusal option"
  | PauseSemantic "('v, 'x) run" semantic_failure
  | PauseContext "('v, 'x) run" context_failure

definition attempts :: "('v, 'x) run \<Rightarrow> u32" where
  "attempts r = (case retry (recovery r) of None \<Rightarrow> 0 | Some x \<Rightarrow> retry_count x) + 1"

definition scheduled :: "u32 \<Rightarrow> datetime \<Rightarrow> 'v recovery_state \<Rightarrow> 'v recovery_state" where
  "scheduled count at r = r\<lparr>retry := Some \<lparr> retry_count = count, retry_at = at \<rparr>\<rparr>"

definition semantic_delay :: "semantic_failure \<Rightarrow> ('v, 'x) run \<Rightarrow> int" where
  "semantic_delay reason r =
     (if reason = SPending
      then if retry (recovery r) \<noteq> None \<and> semantic_reason (recovery r) = Some SPending
           then PENDING_REPLAY_SECONDS else 1
      else 2 ^ unat (attempts r))"

definition recover_semantic :: "datetime \<Rightarrow> semantic_failure \<Rightarrow> ('v, 'x) run \<Rightarrow> ('v, 'x) recovery_write" where
  "recover_semantic now reason r =
     (if reason = SStale \<and> attempts r \<le> OUTAGE_RETRIES
      then SaveRun (r\<lparr>run_context := (run_context r)\<lparr>source_observation := None\<rparr>,
                      recovery := scheduled (attempts r) (now + seconds 1)
                                    ((recovery r)\<lparr>semantic_reason := Some reason\<rparr>),
                      run_error := Some (semantic_text reason)\<rparr>) ''run.semantic_retrying''
      else if reason = SPending \<or> (transient reason \<and> attempts r \<le> OUTAGE_RETRIES)
      then SaveRun (r\<lparr>recovery := scheduled (if reason = SPending then attempts r - 1 else attempts r)
                                    (now + seconds (semantic_delay reason r))
                                    ((recovery r)\<lparr>semantic_reason := Some reason\<rparr>),
                      run_error := Some (semantic_text reason)\<rparr>) ''run.semantic_retrying''
      else let reason' = (if transient reason \<or> reason = SStale then SRetriesExhausted else reason)
           in PauseSemantic (r\<lparr>recovery := (recovery r)\<lparr>semantic_reason := Some reason'\<rparr>\<rparr>) reason')"

definition recover_decider :: "datetime \<Rightarrow> ('v, 'x) run \<Rightarrow> ('v, 'x) recovery_write" where
  "recover_decider now r =
     (let retries = decider_retry (recovery r) + 1 in
      if retries \<le> OUTAGE_RETRIES
      then SaveRun (r\<lparr>recovery := scheduled retries (now + seconds (2 ^ unat retries))
                                    ((recovery r)\<lparr>decider_retry := retries\<rparr>),
                      run_error := Some (failure_message DeciderOutage)\<rparr>) ''run.decider_retrying''
      else PauseContext (r\<lparr>recovery := (recovery r)\<lparr>context_reason := Some DeciderUnavailable\<rparr>\<rparr>)
             DeciderUnavailable)"

text \<open>The wait before a tool is called again, in whole seconds.\<close>

definition tool_delay :: "u32 \<Rightarrow> nat option \<Rightarrow> int" where
  "tool_delay count retry_after =
     (let backoff = 2 ^ min (unat count) 5 * 1000000000;
          asked = min (case retry_after of None \<Rightarrow> 0 | Some d \<Rightarrow> d) (32 * 1000000000)
      in int (max backoff asked div 1000000000))"

definition redeliver :: "datetime \<Rightarrow> string \<Rightarrow> 'v run_state \<Rightarrow> 'v run_state" where
  "redeliver now message s =
     (case s of
        RunWaiting (FailureDelivery target _ _) \<Rightarrow>
          RunWaiting (FailureDelivery target (now + seconds 5) (Some message))
      | _ \<Rightarrow> s)"

definition wait_for_connection ::
  "('v, 'x, 'e) recovery_env \<Rightarrow> string \<Rightarrow> need \<Rightarrow> wait_policy \<Rightarrow> ('v, 'x) run
     \<Rightarrow> 'e + ('v, 'x) recovery_write" where
  "wait_for_connection E message n policy r =
     (let key = id_text E (run_id r) @ '':failure:connection:'' @ resource_digest E (need_resource n) in
      and_then (connection_request E r (need_prompt E n) key) (\<lambda>(request_id, created_at).
        let deadline = wait_deadline policy created_at 0;
            waiting = \<lparr> cw_request_id = request_id, cw_resource = need_resource n,
                        cw_started_at = created_at, cw_answer_by = deadline, cw_call = None,
                        cw_key = key \<rparr>
        in Inr (SaveRun (r\<lparr>recovery := (recovery r)\<lparr>
                              connection_waited := set_insert (need_resource n) (connection_waited (recovery r)),
                              rs_connection_wait := Some waiting\<rparr>,
                           state := RunWaiting (Human request_id (Some deadline) (ResumeThinking default_thinking)),
                           run_error := Some message\<rparr>) ''run.failure_deferred_for_connection'')))"

definition fail_run :: "datetime \<Rightarrow> string \<Rightarrow> ('v, 'x) run \<Rightarrow> ('v, 'x) recovery_write" where
  "fail_run now message r =
     SaveRun (r\<lparr>state := RunWaiting (FailureDelivery
                  (if control r = ControlCancelled then TargetCancelled else TargetFailed) now None),
                run_error := Some message\<rparr>) ''run.failure_pending''"

text \<open>The chain of branches after the typed pauses; the flag counts a worker retry.\<close>

definition recover_step ::
  "('v, 'x, 'e) recovery_env \<Rightarrow> datetime \<Rightarrow> execution_failure \<Rightarrow> ('v, 'x) run
     \<Rightarrow> 'e + bool \<times> ('v, 'x) recovery_write" where
  "recover_step E now failure r =
     (let message = failure_message failure in
      if (case failure of ToolRetry _ _ _ \<Rightarrow> True | _ \<Rightarrow> False)
         \<and> control r \<noteq> ControlCancelled \<and> \<not> failure_delivery (state r)
      then (case failure of ToolRetry count retry_after text \<Rightarrow>
             Inr (True, SaveRun (r\<lparr>recovery := scheduled count (now + seconds (tool_delay count retry_after)) (recovery r),
                                   run_error := Some text\<rparr>) ''run.retrying''))
      else if failure = Deferred
      then Inr (True, SaveRun (r\<lparr>recovery := scheduled (attempts r) (now + seconds 1) (recovery r)\<rparr>) ''run.retrying'')
      else if failure_delivery (state r)
      then Inr (False, SaveRun (r\<lparr>state := redeliver now message (state r)\<rparr>) ''run.failure_pending'')
      else if retryable failure \<and> attempts r \<le> 5 \<and> control r \<noteq> ControlCancelled
      then Inr (True, SaveRun (r\<lparr>recovery := scheduled (attempts r) (now + seconds (2 ^ unat (attempts r))) (recovery r),
                                 run_error := Some message\<rparr>) ''run.retrying'')
      else case (if control r \<noteq> ControlCancelled then failure_need E r else None) of
        None \<Rightarrow> Inr (False, fail_run now message r)
      | Some n \<Rightarrow>
          and_then (connection_wait_policy E r) (\<lambda>policy. case policy of
            None \<Rightarrow> Inr (False, fail_run now message r)
          | Some p \<Rightarrow> and_then (wait_for_connection E message n p r) (\<lambda>w. Inr (False, w))))"

definition recover ::
  "('v, 'x, 'e) recovery_env \<Rightarrow> datetime \<Rightarrow> ('v, 'x) run option \<Rightarrow> execution_failure
     \<Rightarrow> 'e + bool \<times> ('v, 'x) recovery_write option" where
  "recover E now leased failure =
     (case leased of
        None \<Rightarrow> Inr (False, None)
      | Some r \<Rightarrow>
          (case failure of
             ESemantic reason \<Rightarrow> Inr (False, Some (recover_semantic now reason r))
           | DeciderOutage \<Rightarrow> Inr (False, Some (recover_decider now r))
           | EContext reason \<Rightarrow>
               Inr (False, Some (PauseContext (r\<lparr>recovery := (recovery r)\<lparr>context_reason := Some reason\<rparr>\<rparr>) reason))
           | EAuthority authority \<Rightarrow>
               Inr (False, Some (PauseRun r (authority_reason authority) ''run.authorization_blocked''
                                   (authority_refused authority)))
           | MediaRoute message \<Rightarrow> Inr (False, Some (PauseRun r message ''run.media_route_blocked'' None))
           | _ \<Rightarrow> and_then (recover_step E now failure r) (\<lambda>(counted, w). Inr (counted, Some w))))"

section \<open>What is stored\<close>

definition retains_lease :: "string \<Rightarrow> bool" where
  "retains_lease event \<longleftrightarrow> event \<in> set
     [''run.sources_observed'', ''run.semantic_degraded'', ''run.semantic_recovered'',
      ''run.estimate_pinned'', ''run.plugin_tools_pinned'', ''run.mcp_checkpoint'',
      ''context.summary_revoked'']"

definition retrying_event :: "string \<Rightarrow> bool" where
  "retrying_event event \<longleftrightarrow> event \<in> set
     [''run.retrying'', ''run.semantic_retrying'', ''run.decider_retrying'', ''run.failure_pending'']"

text \<open>The recovery state and the error of \<open>WorkerSnapshot\<close>; \<open>encode\<close> validates the state first.\<close>

definition worker_snapshot :: "string \<Rightarrow> ('v, 'x) run \<Rightarrow> ('v recovery_state \<times> string option) result" where
  "worker_snapshot event r =
     (let rec0 = recovery r;
          rec1 = (if retrying_event event then rec0 else rec0\<lparr>retry := None\<rparr>);
          rec2 = (if event = ''run.decider_retrying'' then rec1 else rec1\<lparr>decider_retry := 0\<rparr>);
          rec3 = (if retains_lease event then rec2 else rec2\<lparr>lease_recoveries := 0\<rparr>)
      in and_then (state_validate (state r)) (\<lambda>_.
           Inr (rec3, if retrying_event event \<or> event = ''run.failed'' then run_error r else None)))"

text \<open>The columns a pause writes to the Run's row, which the worker must still lease.\<close>

definition pause_row ::
  "datetime \<Rightarrow> uuid \<Rightarrow> string \<Rightarrow> ('v recovery_state \<Rightarrow> 'v recovery_state) \<Rightarrow> ('v, 'x) run \<Rightarrow> ('v, 'x) run result" where
  "pause_row now worker reason noted r =
     (if lease_owner r = Some worker \<and> (case lease_until r of None \<Rightarrow> False | Some t \<Rightarrow> now < t)
      then Inr (r\<lparr>recovery := (if control r = Active then noted (recovery r) else recovery r),
                  control := (if control r = ControlCancelled then ControlCancelled else Paused),
                  run_error := (if control r = Paused \<and> run_error r \<noteq> Some ''identity status unavailable''
                                then run_error r else Some reason),
                  revision := revision r + 1, updated_at := now,
                  lease_owner := None, lease_until := None\<rparr>)
      else Inl (Conflict ''worker lease lost''))"

section \<open>Lemmas\<close>

definition retry_event :: "string \<Rightarrow> bool" where
  "retry_event event \<longleftrightarrow> event \<in> set [''run.retrying'', ''run.semantic_retrying'', ''run.decider_retrying'']"

lemma retry_events [simp]:
  "retry_event ''run.retrying''" "retry_event ''run.semantic_retrying''" "retry_event ''run.decider_retrying''"
  "\<not> retry_event ''run.failure_pending''" "\<not> retry_event ''run.failure_deferred_for_connection''"
  by (simp_all add: retry_event_def)

lemma scheduled_simps [simp]:
  "retry (scheduled count at x) = Some \<lparr> retry_count = count, retry_at = at \<rparr>"
  "decider_retry (scheduled count at x) = decider_retry x"
  by (simp_all add: scheduled_def)

lemma few_attempts:
  assumes "n \<le> (5 :: u32)"
  shows "(1 :: int) \<le> 2 ^ unat n" "(2 :: int) ^ unat n \<le> 32"
proof -
  have "unat n \<le> 5" using assms by (simp add: word_le_nat_alt)
  then show "(2 :: int) ^ unat n \<le> 32" using power_increasing[of "unat n" 5 "2 :: int"] by simp
qed simp

lemma tool_delay_bounds: "1 \<le> tool_delay count after" "tool_delay count after \<le> 32"
proof -
  have p: "(2 :: nat) ^ min (unat count) 5 \<le> 32"
    using power_increasing[of "min (unat count) 5" 5 "2 :: nat"] by simp
  have "1 * 1000000000 \<le> (2 :: nat) ^ min (unat count) 5 * 1000000000" by (rule mult_le_mono1) simp
  then show "1 \<le> tool_delay count after"
    using div_le_mono[of "1 * 1000000000" _ 1000000000] by (auto simp: tool_delay_def Let_def le_max_iff_disj)
  have "max (2 ^ min (unat count) 5 * 1000000000) (min (case after of None \<Rightarrow> 0 | Some d \<Rightarrow> d) (32 * 1000000000))
      \<le> (32 * 1000000000 :: nat)" using p by simp
  from div_le_mono[OF this, of 1000000000] show "tool_delay count after \<le> 32"
    by (simp add: tool_delay_def Let_def)
qed

lemma semantic_delay_bounds:
  assumes "reason = SPending \<or> attempts r \<le> 5"
  shows "1 \<le> semantic_delay reason r" "semantic_delay reason r \<le> 32"
  using assms few_attempts[of "attempts r"]
  by (auto simp: semantic_delay_def PENDING_REPLAY_SECONDS_def)

lemma seconds_mono: "a \<le> b \<longleftrightarrow> seconds a \<le> seconds b"
  by (simp add: seconds_def)

text \<open>Everything that a save of \<open>recover_step\<close> can be.\<close>

lemma wait_for_connection_Inr:
  assumes "wait_for_connection E message n p r = Inr w"
  shows "\<exists>r'. w = SaveRun r' ''run.failure_deferred_for_connection''
    \<and> (\<exists>i by. state r' = RunWaiting (Human i (Some by) (ResumeThinking default_thinking)))
    \<and> r' = r\<lparr>state := state r', recovery := recovery r', run_error := run_error r'\<rparr>"
  using assms by (auto simp: wait_for_connection_def Let_def and_then_Inr_iff)

definition written :: "('v, 'x) recovery_write \<Rightarrow> ('v, 'x) run" where
  "written w = (case w of SaveRun r _ \<Rightarrow> r | PauseRun r _ _ _ \<Rightarrow> r | PauseSemantic r _ \<Rightarrow> r | PauseContext r _ \<Rightarrow> r)"

definition same_run :: "('v, 'x) run \<Rightarrow> ('v, 'x) run \<Rightarrow> bool" where
  "same_run r r' \<longleftrightarrow>
     r' = r\<lparr>state := state r', recovery := recovery r', run_error := run_error r',
            run_context := (run_context r)\<lparr>source_observation := source_observation (run_context r')\<rparr>\<rparr>"

lemma redeliver_valid [simp]: "state_validate (redeliver now message s) = state_validate s"
  by (cases s) (auto simp: redeliver_def split: waiting_state.splits)

lemma recover_step_cases:
  assumes "recover_step E now failure r = Inr (counted, w)"
  obtains (tool) c a t where "failure = ToolRetry c a t"
      "w = SaveRun (r\<lparr>recovery := scheduled c (now + seconds (tool_delay c a)) (recovery r), run_error := Some t\<rparr>) ''run.retrying''"
  | (deferred) "failure = Deferred"
      "w = SaveRun (r\<lparr>recovery := scheduled (attempts r) (now + seconds 1) (recovery r)\<rparr>) ''run.retrying''"
  | (deliver) "failure_delivery (state r)"
      "w = SaveRun (r\<lparr>state := redeliver now (failure_message failure) (state r)\<rparr>) ''run.failure_pending''"
  | (again) "attempts r \<le> 5" "control r \<noteq> ControlCancelled"
      "w = SaveRun (r\<lparr>recovery := scheduled (attempts r) (now + seconds (2 ^ unat (attempts r))) (recovery r),
                      run_error := Some (failure_message failure)\<rparr>) ''run.retrying''"
  | (fail) "w = fail_run now (failure_message failure) r"
  | (connect) n p where "control r \<noteq> ControlCancelled" "failure_need E r = Some n"
      "wait_for_connection E (failure_message failure) n p r = Inr w"
proof (cases "(case failure of ToolRetry _ _ _ \<Rightarrow> True | _ \<Rightarrow> False) \<and> control r \<noteq> ControlCancelled \<and> \<not> failure_delivery (state r)")
  case True
  then obtain c a t where "failure = ToolRetry c a t" by (cases failure) auto
  then show thesis using True assms by (intro tool) (auto simp: recover_step_def Let_def)
next
  case not_tool: False
  show thesis
  proof (cases "failure = Deferred \<or> failure_delivery (state r)
      \<or> (retryable failure \<and> attempts r \<le> 5 \<and> control r \<noteq> ControlCancelled)")
    case True
    then show thesis using not_tool assms
      by (simp add: recover_step_def Let_def del: de_Morgan_conj split: if_splits) (auto intro: deferred deliver again)
  next
    case False
    then have "(case (if control r \<noteq> ControlCancelled then failure_need E r else None) of
        None \<Rightarrow> Inr (False, fail_run now (failure_message failure) r)
      | Some n \<Rightarrow> and_then (connection_wait_policy E r) (\<lambda>policy. case policy of
            None \<Rightarrow> Inr (False, fail_run now (failure_message failure) r)
          | Some p \<Rightarrow> and_then (wait_for_connection E (failure_message failure) n p r) (\<lambda>w. Inr (False, w))))
      = Inr (counted, w)"
      using not_tool assms by (simp only: recover_step_def Let_def if_False simp_thms de_Morgan_disj)
    then show thesis
      by (auto simp: and_then_Inr_iff split: if_splits option.splits intro: fail connect)
  qed
qed

lemma same_run_simps [simp]:
  "same_run r r" "same_run r (r\<lparr>recovery := x\<rparr>)" "same_run r (r\<lparr>state := s\<rparr>)"
  "same_run r (r\<lparr>recovery := x, run_error := y\<rparr>)" "same_run r (r\<lparr>state := s, run_error := y\<rparr>)"
  "same_run r (r\<lparr>state := s, recovery := x, run_error := y\<rparr>)"
  by (simp_all add: same_run_def)

lemma recover_step_same:
  assumes "recover_step E now failure r = Inr (counted, w)"
  shows "same_run r (written w)"
    and "state_validate (state r) = Inr () \<longrightarrow> state_validate (state (written w)) = Inr ()"
proof -
  have "same_run r (written w) \<and> (state_validate (state r) = Inr () \<longrightarrow> state_validate (state (written w)) = Inr ())"
    using assms
  proof (cases rule: recover_step_cases)
    case (connect n p)
    from wait_for_connection_Inr[OF connect(3)] obtain r' i deadline where
      w: "w = SaveRun r' ''run.failure_deferred_for_connection''"
      and s: "state r' = RunWaiting (Human i (Some deadline) (ResumeThinking default_thinking))"
      and same: "r' = r\<lparr>state := state r', recovery := recovery r', run_error := run_error r'\<rparr>" by blast
    have "same_run r r'" using same same_run_simps(6) by metis
    then show ?thesis using w s by (simp add: written_def)
  qed (simp_all add: written_def fail_run_def)
  then show "same_run r (written w)"
    and "state_validate (state r) = Inr () \<longrightarrow> state_validate (state (written w)) = Inr ()" by blast+
qed

lemma recover_semantic_same:
  "same_run r (written (recover_semantic now reason r))" "state (written (recover_semantic now reason r)) = state r"
  by (simp_all add: recover_semantic_def Let_def written_def same_run_def)

lemma recover_decider_same:
  "same_run r (written (recover_decider now r))" "state (written (recover_decider now r)) = state r"
  by (simp_all add: recover_decider_def Let_def written_def same_run_def)

lemma recover_cases:
  assumes "recover E now (Some r) failure = Inr (counted, Some w)"
  obtains (semantic) reason where "failure = ESemantic reason" "w = recover_semantic now reason r"
  | (decider) "failure = DeciderOutage" "w = recover_decider now r"
  | (pause) "\<forall>r' e. w \<noteq> SaveRun r' e" "state (written w) = state r" "same_run r (written w)"
  | (stepped) "recover_step E now failure r = Inr (counted, w)"
      "\<And>reason. failure \<noteq> ESemantic reason" "failure \<noteq> DeciderOutage"
  using assms by (cases failure) (auto simp: recover_def and_then_Inr_iff written_def)

text \<open>When a step is to be retried, and with what count.\<close>

lemma recover_step_retry:
  assumes "recover_step E now failure r = Inr (counted, SaveRun r' event)" "retry_event event"
  obtains x where "retry (recovery r') = Some x" "now + seconds 1 \<le> retry_at x" "retry_at x \<le> now + seconds 32"
    and "retry_count x = attempts r \<and> attempts r \<le> 5 \<or> failure = Deferred \<or> (\<exists>c a t. failure = ToolRetry c a t)"
proof -
  have "\<exists>x. retry (recovery r') = Some x \<and> now + seconds 1 \<le> retry_at x \<and> retry_at x \<le> now + seconds 32
      \<and> (retry_count x = attempts r \<and> attempts r \<le> 5 \<or> failure = Deferred \<or> (\<exists>c a t. failure = ToolRetry c a t))"
    using assms(1)
  proof (cases rule: recover_step_cases)
    case (connect n p)
    then show ?thesis using assms(2) wait_for_connection_Inr[OF connect(3)] by auto
  qed (use assms(2) few_attempts[of "attempts r"] tool_delay_bounds in
      \<open>auto simp: fail_run_def simp flip: seconds_mono\<close>)
  then show ?thesis using that by blast
qed

lemma recover_semantic_retry:
  assumes "recover_semantic now reason r = SaveRun r' event"
  obtains x where "retry (recovery r') = Some x" "now + seconds 1 \<le> retry_at x" "retry_at x \<le> now + seconds 32"
    and "retry_count x = attempts r \<and> attempts r \<le> 5 \<or> reason = SPending"
proof -
  have "\<exists>x. retry (recovery r') = Some x \<and> now + seconds 1 \<le> retry_at x \<and> retry_at x \<le> now + seconds 32
      \<and> (retry_count x = attempts r \<and> attempts r \<le> 5 \<or> reason = SPending)"
    using assms semantic_delay_bounds[of reason r]
    by (auto simp: recover_semantic_def Let_def OUTAGE_RETRIES_def simp flip: seconds_mono split: if_splits)
  then show ?thesis using that by blast
qed

lemma recover_decider_retry:
  assumes "recover_decider now r = SaveRun r' event"
  obtains x where "retry (recovery r') = Some x" "now + seconds 1 \<le> retry_at x" "retry_at x \<le> now + seconds 32"
    and "decider_retry (recovery r') = decider_retry (recovery r) + 1" "decider_retry (recovery r) + 1 \<le> 5"
    and "event = ''run.decider_retrying''"
proof -
  have "decider_retry (recovery r) + 1 \<le> 5 \<and> event = ''run.decider_retrying''
      \<and> recovery r' = scheduled (decider_retry (recovery r) + 1)
           (now + seconds (2 ^ unat (decider_retry (recovery r) + 1)))
           ((recovery r)\<lparr>decider_retry := decider_retry (recovery r) + 1\<rparr>)"
    using assms by (auto simp: recover_decider_def Let_def OUTAGE_RETRIES_def split: if_splits)
  then show ?thesis
    using that few_attempts[of "decider_retry (recovery r) + 1"] by (simp flip: seconds_mono)
qed

lemma recover_retry:
  assumes "recover E now (Some r) failure = Inr (counted, Some (SaveRun r' event))" "retry_event event"
  obtains x where "retry (recovery r') = Some x" "now + seconds 1 \<le> retry_at x" "retry_at x \<le> now + seconds 32"
    and "retry_count x = attempts r \<and> attempts r \<le> 5
      \<or> failure \<in> {Deferred, DeciderOutage, ESemantic SPending} \<or> (\<exists>c a t. failure = ToolRetry c a t)"
    and "failure = DeciderOutage \<longrightarrow> event = ''run.decider_retrying''
      \<and> decider_retry (recovery r') = decider_retry (recovery r) + 1 \<and> decider_retry (recovery r) + 1 \<le> 5"
  using assms(1)
proof (cases rule: recover_cases)
  case (semantic reason)
  obtain x where "retry (recovery r') = Some x" "now + seconds 1 \<le> retry_at x" "retry_at x \<le> now + seconds 32"
    "retry_count x = attempts r \<and> attempts r \<le> 5 \<or> reason = SPending"
    using recover_semantic_retry[OF semantic(2)[symmetric]] by blast
  then show thesis using that semantic(1) by auto
next
  case decider
  obtain x where "retry (recovery r') = Some x" "now + seconds 1 \<le> retry_at x" "retry_at x \<le> now + seconds 32"
    "decider_retry (recovery r') = decider_retry (recovery r) + 1" "decider_retry (recovery r) + 1 \<le> 5"
    "event = ''run.decider_retrying''"
    using recover_decider_retry[OF decider(2)[symmetric]] by blast
  then show thesis using that decider(1) by auto
next
  case pause
  then show thesis by blast
next
  case stepped
  obtain x where "retry (recovery r') = Some x" "now + seconds 1 \<le> retry_at x" "retry_at x \<le> now + seconds 32"
    "retry_count x = attempts r \<and> attempts r \<le> 5 \<or> failure = Deferred \<or> (\<exists>c a t. failure = ToolRetry c a t)"
    by (rule recover_step_retry[OF stepped(1) assms(2)])
  then show thesis using that stepped(3) by auto
qed

text \<open>
  The history of a Run's step: failures that are recovered into a retry, and saves that are not retries
  (checkpoints inside the step, which keep the lease, or the save that ends it). The Run that fails or
  is saved has the retries that were stored last; the rest of it is not constrained.
\<close>

datatype step_event = Failed execution_failure | Saved string

definition same_retries :: "'v recovery_state \<Rightarrow> 'v recovery_state \<Rightarrow> bool" where
  "same_retries rc rc' \<longleftrightarrow> retry rc' = retry rc \<and> decider_retry rc' = decider_retry rc"

inductive tried ::
  "('v, 'x, 'e) recovery_env \<Rightarrow> 'v recovery_state \<Rightarrow> step_event list \<Rightarrow> 'v recovery_state \<Rightarrow> bool" for E where
  tried_none: "tried E rc [] rc"
| tried_failed: "same_retries rc (recovery r) \<Longrightarrow> recover E now (Some r) failure = Inr (counted, Some (SaveRun r' event))
    \<Longrightarrow> retry_event event \<Longrightarrow> worker_snapshot event r' = Inr (stored, message)
    \<Longrightarrow> tried E stored tr rc' \<Longrightarrow> tried E rc (Failed failure # tr) rc'"
| tried_saved: "same_retries rc (recovery (r :: ('v, 'x) run)) \<Longrightarrow> \<not> retrying_event event \<Longrightarrow> worker_snapshot event r = Inr (stored, message)
    \<Longrightarrow> tried E stored tr rc' \<Longrightarrow> tried E rc (Saved event # tr) rc'"

inductive_cases tried_NilE: "tried E rc [] rc'"


definition counted_failure :: "execution_failure \<Rightarrow> bool" where
  "counted_failure f \<longleftrightarrow>
     f \<notin> {Deferred, DeciderOutage, ESemantic SPending} \<and> (case f of ToolRetry _ _ _ \<Rightarrow> False | _ \<Rightarrow> True)"












section \<open>Properties\<close>

text \<open>An environment at which the witnesses evaluate the model: nothing to connect to.\<close>

definition sample_recovery :: "(sample, unit, error) recovery_env" where
  "sample_recovery =
     \<lparr> canonical_resource = Some, prompt_json = (\<lambda>n m. m), resource_digest = (\<lambda>x. x), id_text = (\<lambda>i. ''id''),
       connection_wait_policy = (\<lambda>r. Inr None),
       connection_request = (\<lambda>r prompt key. Inl (Invalid ''no request'')) \<rparr>"

lemma sample_attempts [simp]: "attempts (sample_run s) = 1"
  by (simp add: attempts_def default_recovery_def)

lemma sample_retry:
  "recover E now (Some (sample_run RunReady)) (Inference True None ''reset'')
   = Inr (True, Some (SaveRun ((sample_run RunReady)\<lparr>
       recovery := scheduled 1 (now + seconds 2) default_recovery, run_error := Some ''reset''\<rparr>) ''run.retrying''))"
  by (simp add: recover_def recover_step_def Let_def word_le_nat_alt)

text \<open>
  Whenever recovery schedules a retry, it is due at least one second and at most
  32 seconds later, whatever is stored of earlier retries and whatever a tool asks for.
\<close>

theorem retry_window:
  assumes "recover E now leased failure = Inr (counted, Some (SaveRun r' event))" "retry_event event"
  shows "\<exists>x. retry (recovery r') = Some x \<and> now + seconds 1 \<le> retry_at x \<and> retry_at x \<le> now + seconds 32"
proof -
  obtain r where "leased = Some r" using assms(1) by (cases leased) (auto simp: recover_def)
  then show ?thesis using recover_retry assms by metis
qed

theorem retry_window_witness:
  "\<exists>r' x. recover sample_recovery 0 (Some (sample_run RunReady)) (Inference True None ''reset'')
      = Inr (True, Some (SaveRun r' ''run.retrying'')) \<and> retry (recovery r') = Some x \<and> retry_at x \<le> seconds 32"
  using retry_window[OF sample_retry[of sample_recovery 0]] sample_retry[of sample_recovery 0] by auto


text \<open>A history of one failure, and its extension by a checkpoint that keeps the lease.\<close>

lemma sample_failed:
  fixes E :: "(sample, unit, 'e) recovery_env"
  assumes "tried E (scheduled 1 (0 + seconds 2) default_recovery) tr rc'"
  shows "tried E default_recovery (Failed (Inference True None ''reset'') # tr) rc'"
proof -
  let ?r = "(sample_run RunReady)\<lparr>recovery := scheduled 1 (0 + seconds 2) default_recovery, run_error := Some ''reset''\<rparr>"
  have w: "worker_snapshot ''run.retrying'' ?r = Inr (recovery ?r, run_error ?r)"
    by (simp add: worker_snapshot_def retrying_event_def retains_lease_def scheduled_def default_recovery_def)
  show ?thesis by (rule tried_failed[OF _ sample_retry _ w]) (use assms in \<open>simp_all add: same_retries_def\<close>)
qed


text \<open>
  Between saves only: a step that saves a checkpoint in every attempt, as a step with a source that is
  refreshed each time does, starts the count again each time, so that any number of failures of that
  one step is recovered into a retry.
\<close>

theorem checkpoints_renew_retries:
  "\<exists>tr rc. tried sample_recovery default_recovery tr rc \<and> length (filter (\<lambda>e. e = Failed (Inference True None ''reset'')) tr) = n
     \<and> list_all (\<lambda>e. case e of Failed f \<Rightarrow> counted_failure f | Saved event \<Rightarrow> retains_lease event) tr"
proof (induction n)
  case 0
  then show ?case by (intro exI[of _ "[]"]) (auto intro: tried_none)
next
  case (Suc n)
  then obtain tr rc where tr: "tried sample_recovery default_recovery tr rc"
      "length (filter (\<lambda>e. e = Failed (Inference True None ''reset'')) tr) = n"
      "list_all (\<lambda>e. case e of Failed f \<Rightarrow> counted_failure f | Saved event \<Rightarrow> retains_lease event) tr" by blast
  let ?r = "(sample_run RunReady)\<lparr>recovery := scheduled 1 (0 + seconds 2) default_recovery\<rparr>"
  have "worker_snapshot ''run.sources_observed'' ?r = Inr (default_recovery, None)"
    by (simp add: worker_snapshot_def retrying_event_def retains_lease_def scheduled_def default_recovery_def)
  from tried_saved[OF _ _ this tr(1)]
  have "tried sample_recovery (scheduled 1 (0 + seconds 2) default_recovery) (Saved ''run.sources_observed'' # tr) rc"
    by (simp add: same_retries_def retrying_event_def)
  from sample_failed[OF this] show ?case using tr(2,3)
    by (intro exI[of _ "Failed (Inference True None ''reset'') # Saved ''run.sources_observed'' # tr"])
      (auto simp: counted_failure_def retains_lease_def)
qed

text \<open>
  Recovery writes nothing of a Run but its state, its recovery state, its error and
  the cached Source observation, and it turns a valid state into a valid one, so the save that ends
  it is never refused.
\<close>

theorem recovery_scope:
  assumes "recover E now (Some r) failure = Inr (counted, Some w)" "state_validate (state r) = Inr ()"
  shows "same_run r (written w) \<and> is_ok (worker_snapshot event (written w))"
proof -
  have "same_run r (written w) \<and> state_validate (state (written w)) = Inr ()"
    using assms(1)
  proof (cases rule: recover_cases)
    case stepped
    then show ?thesis using recover_step_same[OF stepped(1)] assms(2) by simp
  qed (simp_all add: assms(2) recover_semantic_same recover_decider_same)
  then show ?thesis by (simp add: worker_snapshot_def Let_def)
qed

theorem recovery_scope_witness:
  "\<exists>w. recover sample_recovery 0 (Some (sample_run RunReady)) (Inference True None ''reset'') = Inr (True, Some w)
     \<and> control (written w) = Active \<and> is_ok (worker_snapshot ''run.retrying'' (written w))"
  using recovery_scope[OF sample_retry[of sample_recovery 0], of "''run.retrying''"] sample_retry[of sample_recovery 0]
  by (simp add: written_def)

text \<open>
  A cancelled Run is not executed again: whatever a step of it fails with, short of
  a typed pause or a deferral, its failure is delivered, as a cancellation unless a delivery is
  already under way, and no person is asked to connect anything.
\<close>

theorem cancelled_delivers:
  assumes "control r = ControlCancelled"
    and "case failure of Inference _ _ _ \<Rightarrow> True | EOther _ \<Rightarrow> True | ToolRetry _ _ _ \<Rightarrow> True | _ \<Rightarrow> False"
  shows "\<exists>r' target at message. recover E now (Some r) failure = Inr (False, Some (SaveRun r' ''run.failure_pending''))
    \<and> state r' = RunWaiting (FailureDelivery target at message)
    \<and> (if failure_delivery (state r) then \<exists>at' m'. state r = RunWaiting (FailureDelivery target at' m')
       else target = TargetCancelled)"
proof (cases "failure_delivery (state r)")
  case True
  then obtain target at' m' where "state r = RunWaiting (FailureDelivery target at' m')"
    by (cases "state r" rule: failure_delivery.cases) auto
  then show ?thesis using assms
    by (cases failure) (auto simp: recover_def recover_step_def Let_def redeliver_def)
next
  case False
  then show ?thesis using assms
    by (cases failure) (auto simp: recover_def recover_step_def Let_def fail_run_def)
qed

theorem cancelled_delivers_witness:
  "\<exists>r'. recover sample_recovery 0 (Some ((sample_run RunReady)\<lparr>control := ControlCancelled\<rparr>)) (EOther ''x'')
     = Inr (False, Some (SaveRun r' ''run.failure_pending''))"
  using cancelled_delivers[of "(sample_run RunReady)\<lparr>control := ControlCancelled\<rparr>" "EOther ''x''" sample_recovery 0]
  by auto

text \<open>
  Pausing is fenced by the worker's lease and never overrides a cancellation: it
  succeeds exactly for the worker that holds an unexpired lease, ends that lease, keeps a cancelled
  Run cancelled and the reason of a Run that was already paused, and pauses every other Run.
\<close>

theorem pause_fenced:
  "case pause_row now worker reason noted r of
     Inl e \<Rightarrow> lease_owner r \<noteq> Some worker \<or> (\<forall>t. lease_until r = Some t \<longrightarrow> t \<le> now)
   | Inr r' \<Rightarrow> lease_owner r = Some worker \<and> (\<exists>t. lease_until r = Some t \<and> now < t)
       \<and> lease_owner r' = None \<and> lease_until r' = None \<and> state r' = state r
       \<and> (control r' = ControlCancelled \<longleftrightarrow> control r = ControlCancelled) \<and> control r' \<noteq> Active
       \<and> (control r = Active \<longrightarrow> run_error r' = Some reason \<and> recovery r' = noted (recovery r))
       \<and> (control r = Paused \<and> run_error r \<noteq> Some ''identity status unavailable'' \<longrightarrow> run_error r' = run_error r)"
  by (cases "control r") (auto simp: pause_row_def split: option.splits)

theorem pause_fenced_witness:
  "\<exists>r'. pause_row 0 5 ''stop'' id ((sample_run RunReady)\<lparr>lease_owner := Some 5, lease_until := Some 9\<rparr>) = Inr r'
     \<and> control r' \<noteq> Active \<and> run_error r' = Some ''stop''"
proof -
  let ?r = "(sample_run RunReady)\<lparr>lease_owner := Some 5, lease_until := Some 9\<rparr>"
  have "is_ok (pause_row 0 5 ''stop'' id ?r)" by (simp add: pause_row_def is_ok_def)
  then show ?thesis using pause_fenced[where now = 0 and worker = 5 and reason = "''stop''" and noted = id and r = ?r]
    by (auto simp: is_ok_iff)
qed

end
