(* ===== verification/Worker_Leases.thy ===== *)
theory Worker_Leases
  imports Run_Rows Recovery Failures
begin

text \<open>
  The tables of execution and the writes a worker makes on the Run it leases
  (server/src/apps/execution/models/run\_progress.rs; \<open>save_run\<close>, \<open>pause_for_execution_reason\<close> and
  \<open>persist_tool_input_in\<close> of server/src/apps/execution/repositories/store.rs).

  Every operation is one database transaction, whose clock (\<open>CURRENT_TIMESTAMP\<close>) is an argument: the
  clocks of two transactions need not be in the order of their commits. A worker is named by the token
  of its lease. Of a save, the writes to other tables (the accepted sources, the Context Journal, the
  inference attempts and the cascade to Subnodes) are not part of the model.
\<close>

section \<open>Tables\<close>

record exec_event =
  ev_run :: uuid
  ev_kind :: string

record core_run =
  cr_run :: uuid
  cr_area :: uuid
  cr_generation :: int
  cr_sequence :: int
  cr_initialized :: bool

record usage_row =
  us_run :: uuid
  us_lease_token :: uuid
  us_outcome :: string

record activation_row =
  ac_generation :: int
  ac_id :: uuid
  ac_run :: uuid
  ac_run_revision :: int
  ac_reason :: string
  ac_state :: string
  ac_due_at :: "datetime option"
  ac_publication_epoch :: int
  ac_publish_token :: "uuid option"
  ac_publish_until :: "datetime option"
  ac_published_at :: "datetime option"
  ac_lease_token :: "uuid option"
  ac_disposition :: "string option"

record 'v invocation =
  iv_key :: string
  iv_run :: uuid
  iv_tool :: string
  iv_input :: 'v
  iv_status :: string
  iv_result :: "'v option"
  iv_replay_safe :: bool
  iv_uncertain_reason :: "string option"
  iv_delivery_failures :: int
  iv_delivery_pending :: bool

text \<open>
  \<open>compactions\<close> are the Compaction Attempts with their outcome; \<open>capability_approvals\<close> the states and
  expiries of \<open>core_records\<close>; \<open>generation_seq\<close> is the sequence that numbers activations; \<open>quarantine\<close> the digests of refused payloads with the reason.
\<close>

record ('v, 'p, 'c) exec_store =
  run_rows :: "('p, 'c) raw_run list"
  run_inputs :: "(uuid \<times> int) list"
  answered_requests :: "uuid list"
  capability_approvals :: "(uuid \<times> string \<times> datetime option) list"
  task_dependencies :: "(uuid \<times> uuid) list"
  task_status_rows :: "(uuid \<times> task_status) list"
  core_runs :: "core_run list"
  core_areas :: "(uuid \<times> string) list"
  usage_rows :: "usage_row list"
  compactions :: "(uuid \<times> string option) list"
  activations :: "activation_row list"
  generation_seq :: int
  quarantine :: "(string \<times> string) list"
  invocations :: "'v invocation list"
  exec_events :: "exec_event list"

definition emit :: "uuid \<Rightarrow> string \<Rightarrow> ('v, 'p, 'c) exec_store \<Rightarrow> ('v, 'p, 'c) exec_store" where
  "emit i kind st = st\<lparr>exec_events := exec_events st @ [\<lparr> ev_run = i, ev_kind = kind \<rparr>]\<rparr>"

text \<open>An \<open>UPDATE\<close>: the rows it leaves, and how many it matched.\<close>

definition update_where :: "('r \<Rightarrow> bool) \<Rightarrow> ('r \<Rightarrow> 'r) \<Rightarrow> 'r list \<Rightarrow> 'r list" where
  "update_where P f rows = map (\<lambda>r. if P r then f r else r) rows"

definition affected :: "('r \<Rightarrow> bool) \<Rightarrow> 'r list \<Rightarrow> nat" where
  "affected P rows = length (filter P rows)"

section \<open>The fence of a worker\<close>

definition leased :: "datetime \<Rightarrow> ('p, 'c) raw_run \<Rightarrow> bool" where
  "leased now m \<longleftrightarrow> (case md_lease_until m of None \<Rightarrow> False | Some t \<Rightarrow> now < t)"

definition worker_lease :: "datetime \<Rightarrow> uuid \<Rightarrow> uuid \<Rightarrow> ('p, 'c) raw_run \<Rightarrow> bool" where
  "worker_lease now i worker m \<longleftrightarrow> md_id m = i \<and> md_lease_owner m = Some worker \<and> leased now m"

definition hold_worker :: "datetime \<Rightarrow> uuid \<Rightarrow> uuid \<Rightarrow> ('v, 'p, 'c) exec_store \<Rightarrow> bool" where
  "hold_worker now i worker st = list_ex (worker_lease now i worker) (run_rows st)"

definition newer_than :: "uuid \<Rightarrow> int \<Rightarrow> ('v, 'p, 'c) exec_store \<Rightarrow> bool" where
  "newer_than i seq st = list_ex (\<lambda>(run, s). run = i \<and> seq < s) (run_inputs st)"

definition ensure_response_current ::
  "datetime \<Rightarrow> uuid \<Rightarrow> uuid \<Rightarrow> int \<Rightarrow> ('v, 'p, 'c) exec_store \<Rightarrow> failure + unit" where
  "ensure_response_current now i worker seq st =
     and_then (refuse_if (\<not> hold_worker now i worker st) (FConflict ''worker lease lost before response effect'')) (\<lambda>_.
     refuse_if (newer_than i seq st) StaleInference)"

definition lease_deadline :: "datetime \<Rightarrow> int \<Rightarrow> datetime" where
  "lease_deadline now secs = now + seconds secs"

text \<open>\<open>admits\<close> is the condition on other tables: the Run's Node is live and no deletion closed the Run.\<close>

definition renew ::
  "(('p, 'c) raw_run \<Rightarrow> bool) \<Rightarrow> datetime \<Rightarrow> uuid \<Rightarrow> uuid \<Rightarrow> int \<Rightarrow> ('v, 'p, 'c) exec_store
     \<Rightarrow> bool \<times> ('v, 'p, 'c) exec_store" where
  "renew admits now i worker secs st =
     (let P = (\<lambda>m. worker_lease now i worker m \<and> admits m)
      in (affected P (run_rows st) = 1,
          st\<lparr>run_rows := update_where P (\<lambda>m. m\<lparr>md_lease_until := Some (lease_deadline now secs)\<rparr>) (run_rows st)\<rparr>))"

definition charge_lease_recovery ::
  "('v, 'x, 'p, 'd, 'c) state_codec \<Rightarrow> datetime \<Rightarrow> uuid \<Rightarrow> uuid \<Rightarrow> u32 \<Rightarrow> ('v, 'p, 'c) exec_store
     \<Rightarrow> bool \<times> ('v, 'p, 'c) exec_store" where
  "charge_lease_recovery C now i worker n st =
     (let P = worker_lease now i worker
      in (affected P (run_rows st) = 1,
          st\<lparr>run_rows := update_where P (\<lambda>m. m\<lparr>raw_pending := set_lease_recoveries C n (raw_pending m)\<rparr>) (run_rows st)\<rparr>))"

definition release_worker ::
  "datetime \<Rightarrow> uuid \<Rightarrow> uuid \<Rightarrow> ('v, 'p, 'c) exec_store \<Rightarrow> ('v, 'p, 'c) exec_store" where
  "release_worker now i worker st =
     st\<lparr>run_rows := update_where (\<lambda>m. md_id m = i \<and> md_lease_owner m = Some worker)
         (\<lambda>m. m\<lparr>md_lease_owner := None, md_lease_until := None, md_updated_at := now\<rparr>) (run_rows st)\<rparr>"

text \<open>
  The charge of an Isolated Step (server/src/apps/execution/repositories/worker.rs) and the gate of
  crates/aidash-harness/src/execution.rs: a step of a Run whose lease was recovered charges one more.
\<close>

definition charge_isolated_step ::
  "('v, 'x, 'p, 'd, 'c) state_codec \<Rightarrow> datetime \<Rightarrow> uuid \<Rightarrow> ('v, 'x) run \<Rightarrow> ('v, 'p, 'c) exec_store
     \<Rightarrow> (failure + ('v, 'x) run) \<times> ('v, 'p, 'c) exec_store" where
  "charge_isolated_step C now token r st =
     (let charged = saturating_add (lease_recoveries (recovery r)) 1;
          (held, st1) = charge_lease_recovery C now (run_id r) token charged st
      in if \<not> held then (Inl (FConflict ''worker lease lost''), st1)
         else (Inr (r\<lparr>recovery := (recovery r)\<lparr>lease_recoveries := charged\<rparr>\<rparr>), st1))"

definition begin_step ::
  "('v, 'x, 'p, 'd, 'c) state_codec \<Rightarrow> datetime \<Rightarrow> uuid \<Rightarrow> ('v, 'x) run \<Rightarrow> ('v, 'p, 'c) exec_store
     \<Rightarrow> (failure + ('v, 'x) run) \<times> ('v, 'p, 'c) exec_store" where
  "begin_step C now token r st =
     (if 0 < lease_recoveries (recovery r) then charge_isolated_step C now token r st else (Inr r, st))"

section \<open>Saving and pausing\<close>

text \<open>
  \<open>protect\<close> is the projection that Research protects in the same transaction, and \<open>summary_of\<close> the
  execution summary of a context.
\<close>

record ('v, 'x, 's) save_env =
  protect :: "uuid \<Rightarrow> ('v, 'x) exec_context \<Rightarrow> failure + ('v, 'x) exec_context"
  summary_of :: "('v, 'x) exec_context \<Rightarrow> 's"

definition saved_row ::
  "('v, 'x, 'p, 'd, 'c) state_codec \<Rightarrow> datetime \<Rightarrow> string \<Rightarrow> ('v, 'x) run \<Rightarrow> ('v, 'x) exec_context
     \<Rightarrow> 'p \<Rightarrow> string option \<Rightarrow> ('p, 'c) raw_run \<Rightarrow> ('p, 'c) raw_run" where
  "saved_row C now kind r safe pending err m =
     m\<lparr>md_phase := state_phase (state r), raw_context := write_context C safe, raw_pending := pending,
       md_step := run_step r, md_error := err, md_revision := md_revision m + 1,
       md_observed_input_seq := observed_input_seq r, md_updated_at := now,
       md_lease_owner := (if retains_lease kind then md_lease_owner m else None),
       md_lease_until := (if retains_lease kind then md_lease_until m else None)\<rparr>"

definition save_run ::
  "('v, 'x, 'p, 'd, 'c) state_codec \<Rightarrow> ('v, 'x, 's) save_env \<Rightarrow> datetime \<Rightarrow> uuid \<Rightarrow> string \<Rightarrow> ('v, 'x) run
     \<Rightarrow> ('v, 'p, 'c) exec_store \<Rightarrow> failure + ('v, 'p, 'c) exec_store" where
  "save_run C S now worker kind r st =
     and_then (domain (worker_snapshot kind r)) (\<lambda>(rec, err).
     and_then (domain (encode C (state r) rec)) (\<lambda>pending.
     and_then (if kind = ''model.completed''
               then and_then (refuse_if (\<not> list_ex (\<lambda>m. md_id m = run_id r) (run_rows st)) (NotFound ''database row'')) (\<lambda>_.
                    refuse_if (newer_than (run_id r) (run_included_input_seq r) st) StaleInference)
               else Inr ()) (\<lambda>_.
     and_then (protect S (run_id r) (run_context r)) (\<lambda>safe.
     and_then (refuse_if (kind = ''context.compacted'' \<and> summary_of S safe \<noteq> summary_of S (run_context r))
       (FConflict ''Research changed during summary adoption; retry the projection'')) (\<lambda>_.
     let P = (\<lambda>m. worker_lease now (run_id r) worker m \<and> (kind \<noteq> ''model.completed'' \<or> md_control m \<noteq> ControlCancelled))
     in and_then (refuse_if (affected P (run_rows st) = 0) (FConflict ''worker lease lost'')) (\<lambda>_.
        Inr (emit (run_id r) kind
          (st\<lparr>run_rows := update_where P (saved_row C now kind r safe pending err) (run_rows st)\<rparr>))))))))"

text \<open>The write of a pause; \<open>noted\<close> records the typed reason in the recovery state of the envelope.\<close>

definition pause_for_execution ::
  "datetime \<Rightarrow> uuid \<Rightarrow> uuid \<Rightarrow> string \<Rightarrow> string \<Rightarrow> ('p \<Rightarrow> 'p) \<Rightarrow> ('v, 'p, 'c) exec_store
     \<Rightarrow> failure + ('v, 'p, 'c) exec_store" where
  "pause_for_execution now i worker why kind noted st =
     (let P = worker_lease now i worker
      in and_then (refuse_if (affected P (run_rows st) = 0) (FConflict ''worker lease lost'')) (\<lambda>_.
         Inr (emit i kind (st\<lparr>run_rows := update_where P (\<lambda>m.
           m\<lparr>raw_pending := (if md_control m = Active then noted (raw_pending m) else raw_pending m),
             md_control := (if md_control m = ControlCancelled then ControlCancelled else Paused),
             md_error := (if md_control m = Paused \<and> md_error m \<noteq> Some ''identity status unavailable''
                          then md_error m else Some why),
             md_revision := md_revision m + 1, md_updated_at := now,
             md_lease_owner := None, md_lease_until := None\<rparr>) (run_rows st)\<rparr>))))"

definition persist_tool_input ::
  "('v, 'x, 'p, 'd, 'c) state_codec \<Rightarrow> datetime \<Rightarrow> uuid \<Rightarrow> ('v, 'x) run \<Rightarrow> ('v, 'p, 'c) exec_store
     \<Rightarrow> failure + ('v, 'p, 'c) exec_store" where
  "persist_tool_input C now worker r st =
     and_then (domain (stored_pending C r)) (\<lambda>pending.
     let P = (\<lambda>m. worker_lease now (run_id r) worker m \<and> \<not> phase_is_terminal (md_phase m))
     in and_then (refuse_if (affected P (run_rows st) \<noteq> 1)
          (FConflict ''worker lease lost before persisting tool input'')) (\<lambda>_.
        Inr (st\<lparr>run_rows := update_where P (\<lambda>m.
          m\<lparr>md_phase := state_phase (state r), raw_pending := pending, md_revision := md_revision m + 1,
            md_updated_at := now\<rparr>) (run_rows st)\<rparr>)))"

end
