(* ===== verification/Activation.thy ===== *)
theory Activation
  imports Worker_Leases "HOL-Library.Product_Lexorder"
begin

text \<open>
  How Runs reach workers (crates/aidash-application/src/activation.rs over
  server/src/apps/execution/activation/repositories and store/run\_state.rs): when a Run is due, the
  scan that recovers lost work, the claim of a notified Run with its obligation, the publication of
  obligations, and the delivery of failures.

  Each operation is one transaction with its clock \<open>now\<close>; \<open>locked\<close> names the rows that another
  transaction has locked, which \<open>SKIP LOCKED\<close> passes over. A lease token and the identifiers of new
  rows (\<open>Uuid::new_v4\<close>) are arguments. Metrics and the \<open>observe\<close> gauge are left out.
\<close>

section \<open>Which Runs a worker may select\<close>

definition RECONCILE_BATCH_SIZE :: nat where "RECONCILE_BATCH_SIZE = 128"
definition CAPABILITY_RETRY_SECONDS :: int where "CAPABILITY_RETRY_SECONDS = 5"

definition unmet_capabilities ::
  "('v, 'x, 'p, 'd, 'c) state_codec \<Rightarrow> persisted_capability list \<Rightarrow> ('p, 'c) raw_run \<Rightarrow> string list" where
  "unmet_capabilities C supported m =
     (case from_pending C (raw_pending m) of Inl _ \<Rightarrow> [] | Inr requires \<Rightarrow> unmet supported requires)"

definition capability_gap ::
  "('v, 'x, 'p, 'd, 'c) state_codec \<Rightarrow> persisted_capability list \<Rightarrow> ('p, 'c) raw_run \<Rightarrow> string list" where
  "capability_gap C supported m =
     (if md_control m = ControlCancelled then []
      else let lacking = unmet_capabilities C supported m
           in if lacking \<noteq> [] then lacking
              else case raw_decode C m of Inl (UnsupportedState why) \<Rightarrow> [why] | _ \<Rightarrow> [])"

definition row_phase :: "uuid \<Rightarrow> ('v, 'p, 'c) exec_store \<Rightarrow> run_phase option" where
  "row_phase i st = map_option md_phase (List.find (\<lambda>m. md_id m = i) (run_rows st))"

text \<open>An earlier Run of the same Area and generation has not ended.\<close>

definition queued_behind :: "uuid \<Rightarrow> ('v, 'p, 'c) exec_store \<Rightarrow> bool" where
  "queued_behind i st =
     list_ex (\<lambda>mine. cr_run mine = i \<and> list_ex (\<lambda>earlier.
         cr_area earlier = cr_area mine \<and> cr_generation earlier = cr_generation mine
         \<and> cr_sequence earlier < cr_sequence mine
         \<and> (case row_phase (cr_run earlier) st of None \<Rightarrow> False | Some ph \<Rightarrow> \<not> phase_is_terminal ph)) (core_runs st))
       (core_runs st)"

definition area_unready :: "uuid \<Rightarrow> ('v, 'p, 'c) exec_store \<Rightarrow> bool" where
  "area_unready i st =
     list_ex (\<lambda>q. cr_run q = i \<and> \<not> cr_initialized q
         \<and> list_ex (\<lambda>(area, status). area = cr_area q \<and> status \<noteq> ''active'') (core_areas st)) (core_runs st)"

definition run_unblocked :: "('p, 'c) raw_run \<Rightarrow> ('v, 'p, 'c) exec_store \<Rightarrow> bool" where
  "run_unblocked m st \<longleftrightarrow>
     md_control m = ControlCancelled \<or> \<not> queued_behind (md_id m) st \<and> \<not> area_unready (md_id m) st"

definition requirements_covered ::
  "('v, 'x, 'p, 'd, 'c) state_codec \<Rightarrow> persisted_capability list \<Rightarrow> ('p, 'c) raw_run \<Rightarrow> bool" where
  "requirements_covered C supported m =
     (case requires_at C (raw_pending m) of
        Some (Some names) \<Rightarrow> list_all (\<lambda>n. n \<in> set (map capability_name supported)) names
      | _ \<Rightarrow> True)"

definition selectable_by ::
  "('v, 'x, 'p, 'd, 'c) state_codec \<Rightarrow> persisted_capability list \<Rightarrow> ('p, 'c) raw_run \<Rightarrow> bool" where
  "selectable_by C supported m \<longleftrightarrow> md_control m = ControlCancelled \<or> requirements_covered C supported m"

definition I64_LIMIT :: int where "I64_LIMIT = 2 ^ 63 - 1"

definition leasable :: "datetime \<Rightarrow> ('v, 'p, 'c) exec_store \<Rightarrow> ('p, 'c) raw_run \<Rightarrow> bool" where
  "leasable now st m \<longleftrightarrow>
     \<not> phase_is_terminal (md_phase m) \<and> md_control m \<noteq> Paused \<and> md_revision m < I64_LIMIT - 2
     \<and> \<not> leased now m \<and> run_unblocked m st"

type_synonym recovery_cursor = "(datetime \<times> uuid) option"

definition position :: "('p, 'c) raw_run \<Rightarrow> datetime \<times> uuid" where
  "position m = (md_updated_at m, md_id m)"

definition after_cursor :: "recovery_cursor \<Rightarrow> ('p, 'c) raw_run \<Rightarrow> bool" where
  "after_cursor scanned m = (case scanned of None \<Rightarrow> True | Some at \<Rightarrow> at < position m)"

definition candidates ::
  "('v, 'x, 'p, 'd, 'c) state_codec \<Rightarrow> persisted_capability list \<Rightarrow> (uuid \<Rightarrow> bool) \<Rightarrow> datetime \<Rightarrow> uuid option
     \<Rightarrow> recovery_cursor \<Rightarrow> ('v, 'p, 'c) exec_store \<Rightarrow> ('p, 'c) raw_run list" where
  "candidates C supported locked now target scanned st =
     take 128 (sort_key position (filter (\<lambda>m. leasable now st m \<and> selectable_by C supported m \<and> \<not> locked (md_id m)
         \<and> (target = None \<or> target = Some (md_id m)) \<and> after_cursor scanned m) (run_rows st)))"

section \<open>When a Run is due\<close>

definition unblocked :: "uuid \<Rightarrow> ('v, 'p, 'c) exec_store \<Rightarrow> bool" where
  "unblocked i st = list_ex (\<lambda>m. md_id m = i \<and> run_unblocked m st) (run_rows st)"

definition human_answered :: "uuid \<Rightarrow> ('v, 'p, 'c) exec_store \<Rightarrow> bool" where
  "human_answered i st \<longleftrightarrow> i \<in> set (answered_requests st)"

definition dependency_statuses :: "uuid \<Rightarrow> ('v, 'p, 'c) exec_store \<Rightarrow> task_status list" where
  "dependency_statuses task st =
     concat (map (\<lambda>(t, d). if t = task then map snd (filter (\<lambda>(i, _). i = d) (task_status_rows st)) else [])
       (task_dependencies st))"

definition dependencies_ready :: "uuid \<Rightarrow> ('v, 'p, 'c) exec_store \<Rightarrow> bool" where
  "dependencies_ready task st \<longleftrightarrow>
     \<not> list_ex (\<lambda>s. s \<noteq> TCompleted) (dependency_statuses task st)
     \<or> list_ex (\<lambda>s. s \<in> {TFailed, TCancelled, TAbandoned}) (dependency_statuses task st)"

definition review_candidate_input ::
  "('v, 'x, 'p, 'd, 'c) state_codec \<Rightarrow> ('p, 'c) raw_run \<Rightarrow> 'v waiting_state \<Rightarrow> uuid \<Rightarrow> int option" where
  "review_candidate_input C m wait i =
     (if \<not> context_reviews C (raw_context m) i then None
      else Some (case wait of Human _ _ (ResumeToolCall s) \<Rightarrow> included_input_seq s | _ \<Rightarrow> md_observed_input_seq m))"

definition md_is_local :: "string \<Rightarrow> ('p, 'c) raw_run \<Rightarrow> bool" where
  "md_is_local deployment m = is_home (md_home_node m) deployment (node_name_str (md_node m))"

definition waiting_due ::
  "('v, 'x, 'p, 'd, 'c) state_codec \<Rightarrow> string \<Rightarrow> ('p, 'c) raw_run \<Rightarrow> datetime \<Rightarrow> 'v waiting_state
     \<Rightarrow> ('v, 'p, 'c) exec_store \<Rightarrow> datetime option" where
  "waiting_due C node m now wait st =
     (case waiting_request_id wait of
        Some i \<Rightarrow>
          if context_remote C (raw_context m) then Some (md_updated_at m + seconds 1)
          else if human_answered i st then Some now
          else (case review_candidate_input C m wait i of
                  Some included \<Rightarrow> if newer_than (md_id m) included st then Some now else waiting_deadline wait
                | None \<Rightarrow> waiting_deadline wait)
      | None \<Rightarrow>
          (case wait of
             Approval (CapabilityApproval approval) _ \<Rightarrow>
               (case map_of (capability_approvals st) approval of
                  Some (status, expires_at) \<Rightarrow> if status = ''pending'' then expires_at else Some now
                | None \<Rightarrow> Some now)
           | Dependencies wake_at \<Rightarrow>
               if md_is_local node m \<and> dependencies_ready (md_task_id m) st then Some now else waiting_deadline wait
           | _ \<Rightarrow> waiting_deadline wait))"

definition due ::
  "('v, 'x, 'p, 'd, 'c) state_codec \<Rightarrow> string \<Rightarrow> ('p, 'c) raw_run \<Rightarrow> datetime \<Rightarrow> ('v, 'p, 'c) exec_store
     \<Rightarrow> datetime option" where
  "due C node m now st =
     (if phase_is_terminal (md_phase m) \<or> md_control m = Paused then None
      else if leased now m then md_lease_until m
      else if md_control m = ControlCancelled then Some now
      else if \<not> unblocked (md_id m) st then None
      else case decode C (md_phase m) (raw_pending m) of
             Inl _ \<Rightarrow> Some now
           | Inr (s, rec) \<Rightarrow>
               let at = (case retry rec of Some r \<Rightarrow> if now < retry_at r then Some (retry_at r) else None | None \<Rightarrow> None);
                   d = (case s of RunWaiting wait \<Rightarrow> waiting_due C node m now wait st | _ \<Rightarrow> Some now);
                   d' = (if \<not> is_ok (raw_decode C m) \<and> \<not> failure_delivery s then Some now else d)
               in map_option (\<lambda>d. case at of None \<Rightarrow> d | Some r \<Rightarrow> max d r) d')"

section \<open>The lease\<close>

definition abandon_superseded :: "uuid \<Rightarrow> uuid \<Rightarrow> ('v, 'p, 'c) exec_store \<Rightarrow> ('v, 'p, 'c) exec_store" where
  "abandon_superseded i token st =
     st\<lparr>usage_rows := update_where (\<lambda>u. us_run u = i \<and> us_outcome u = ''dispatched'' \<and> us_lease_token u \<noteq> token)
         (\<lambda>u. u\<lparr>us_outcome := ''unknown''\<rparr>) (usage_rows st)\<rparr>"

definition abandon_open :: "uuid \<Rightarrow> ('v, 'p, 'c) exec_store \<Rightarrow> ('v, 'p, 'c) exec_store" where
  "abandon_open i st =
     st\<lparr>compactions := update_where (\<lambda>(run, outcome). run = i \<and> outcome = None)
         (\<lambda>(run, _). (run, Some ''abandoned'')) (compactions st)\<rparr>"

definition claimed_row :: "datetime \<Rightarrow> uuid \<Rightarrow> int \<Rightarrow> ('p, 'c) raw_run \<Rightarrow> ('p, 'c) raw_run" where
  "claimed_row now token secs m =
     m\<lparr>md_lease_owner := Some token, md_lease_until := Some (lease_deadline now secs),
       md_revision := md_revision m + 1, md_ledger_worker_ready := True\<rparr>"

definition lease_claim ::
  "('v, 'x, 'p, 'd, 'c) state_codec \<Rightarrow> datetime \<Rightarrow> uuid \<Rightarrow> int \<Rightarrow> ('v, 'x) run \<Rightarrow> ('v, 'p, 'c) exec_store
     \<Rightarrow> failure + ('v, 'x) run option \<times> ('v, 'p, 'c) exec_store" where
  "lease_claim C now token secs r st =
     and_then (domain (stored_pending C r)) (\<lambda>p.
     let P = (\<lambda>m. md_id m = run_id r \<and> md_revision m = revision r);
         f = (\<lambda>m. (claimed_row now token secs m)\<lparr>raw_pending := p\<rparr>)
     in case List.find P (run_rows st) of
          None \<Rightarrow> Inr (None, st)
        | Some m \<Rightarrow>
            let st1 = abandon_superseded (run_id r) token (st\<lparr>run_rows := update_where P f (run_rows st)\<rparr>);
                st2 = (if 0 < lease_recoveries (recovery r)
                       then abandon_open (run_id r) (emit (run_id r) ''run.lease_recovery_claimed'' st1) else st1)
            in and_then (domain (raw_decode C (f m))) (\<lambda>claimed. Inr (Some claimed, st2)))"

definition repair_lease ::
  "datetime \<Rightarrow> uuid \<Rightarrow> int \<Rightarrow> ('p, 'c) raw_run \<Rightarrow> ('v, 'p, 'c) exec_store
     \<Rightarrow> ('p, 'c) raw_run option \<times> ('v, 'p, 'c) exec_store" where
  "repair_lease now token secs r st =
     (let P = (\<lambda>m. md_id m = md_id r \<and> md_revision m = md_revision r \<and> \<not> phase_is_terminal (md_phase m)
                   \<and> md_control m \<noteq> Paused \<and> \<not> leased now m)
      in case List.find P (run_rows st) of
           None \<Rightarrow> (None, st)
         | Some m \<Rightarrow> (Some (claimed_row now token secs m),
             abandon_superseded (md_id r) token
               (st\<lparr>run_rows := update_where P (claimed_row now token secs) (run_rows st)\<rparr>)))"

definition deliver_failure ::
  "('v, 'x, 'p, 'd, 'c) state_codec \<Rightarrow> datetime \<Rightarrow> uuid \<Rightarrow> ('p, 'c) raw_run \<Rightarrow> 'v run_state \<Rightarrow> string option
     \<Rightarrow> ('v, 'p, 'c) exec_store \<Rightarrow> failure + ('v, 'p, 'c) exec_store" where
  "deliver_failure C now token owned s err st =
     and_then (domain (encode C s default_recovery)) (\<lambda>p.
     Inr (st\<lparr>run_rows := update_where (\<lambda>m. md_revision m = md_revision owned \<and> worker_lease now (md_id owned) token m)
       (\<lambda>m. m\<lparr>md_phase := PWaiting, raw_pending := p, md_error := err, md_revision := md_revision m + 1,
              md_updated_at := now, md_lease_owner := None, md_lease_until := None\<rparr>) (run_rows st)\<rparr>))"

text \<open>The handler takes a repair lease before it writes; \<open>kind\<close> is the event it records, if any.\<close>

definition repair ::
  "('v, 'x, 'p, 'd, 'c) state_codec \<Rightarrow> datetime \<Rightarrow> uuid \<Rightarrow> int \<Rightarrow> ('p, 'c) raw_run \<Rightarrow> failure_target \<Rightarrow> string option
     \<Rightarrow> string option \<Rightarrow> ('v, 'p, 'c) exec_store \<Rightarrow> failure + ('v, 'p, 'c) exec_store" where
  "repair C now token secs m target err kind st =
     (case repair_lease now token secs m st of
        (None, st1) \<Rightarrow> Inr st1
      | (Some owned, st1) \<Rightarrow>
          and_then (deliver_failure C now token owned (RunWaiting (FailureDelivery target now None)) err st1) (\<lambda>st2.
          Inr (case kind of None \<Rightarrow> st2 | Some k \<Rightarrow> emit (md_id owned) k st2)))"

definition crash_loop_reason :: string where
  "crash_loop_reason =
     ''The worker process stopped '' @ decimal (unat LEASE_RECOVERY_LIMIT)
     @ '' times in a row while running this step, so Aidash stopped retrying it.''"

text \<open>The candidates that the scan passes over: unreadable here, not due, or waiting for a failure delivery.\<close>

definition passes_over ::
  "('v, 'x, 'p, 'd, 'c) state_codec \<Rightarrow> persisted_capability list \<Rightarrow> string \<Rightarrow> datetime \<Rightarrow> ('p, 'c) raw_run
     \<Rightarrow> ('v, 'p, 'c) exec_store \<Rightarrow> bool" where
  "passes_over C supported node now m st \<longleftrightarrow>
     (unmet_capabilities C supported m \<noteq> [] \<and> md_control m \<noteq> ControlCancelled)
     \<or> (case due C node m now st of None \<Rightarrow> True | Some d \<Rightarrow> now < d)
     \<or> (case decode C (md_phase m) (raw_pending m) of Inr (s, _) \<Rightarrow> failure_delivery s | Inl _ \<Rightarrow> False)"

definition loadable ::
  "('v, 'x, 'p, 'd, 'c) state_codec \<Rightarrow> persisted_capability list \<Rightarrow> ('p, 'c) raw_run \<Rightarrow> ('v, 'x) run result" where
  "loadable C supported m =
     (let lacking = unmet_capabilities C supported m
      in if lacking = [] then raw_decode C m else Inl (UnsupportedState (join_names lacking)))"

text \<open>One candidate of the scan: the claimed Run, if this worker now leases it.\<close>

definition lease_row ::
  "('v, 'x, 'p, 'd, 'c) state_codec \<Rightarrow> persisted_capability list \<Rightarrow> string \<Rightarrow> datetime \<Rightarrow> uuid \<Rightarrow> int
     \<Rightarrow> ('p, 'c) raw_run \<Rightarrow> ('v, 'p, 'c) exec_store \<Rightarrow> failure + ('v, 'x) run option \<times> ('v, 'p, 'c) exec_store" where
  "lease_row C supported node now token secs m st =
     (let cancelled = (md_control m = ControlCancelled)
      in if passes_over C supported node now m st then Inr (None, st)
         else case loadable C supported m of
                Inl (UnsupportedState why) \<Rightarrow>
                  if \<not> cancelled then Inr (None, st)
                  else and_then (repair C now token secs m TargetCancelled None None st) (\<lambda>st1. Inr (None, st1))
              | Inl e \<Rightarrow>
                  and_then (repair C now token secs m (if cancelled then TargetCancelled else TargetFailed)
                    (Some (error_text e)) (Some ''run.invalid_state'') st) (\<lambda>st1. Inr (None, st1))
              | Inr r \<Rightarrow>
                  if md_lease_owner m = None then lease_claim C now token secs r st
                  else if \<not> cancelled \<and> LEASE_RECOVERY_LIMIT < lease_recoveries (recovery r)
                  then and_then (repair C now token secs m TargetFailed (Some crash_loop_reason)
                         (Some ''run.crash_loop'') st) (\<lambda>st1. Inr (None, st1))
                  else lease_claim C now token secs
                         (r\<lparr>recovery := (recovery r)\<lparr>lease_recoveries := max (lease_recoveries (recovery r)) 1\<rparr>\<rparr>) st)"

fun lease_loop ::
  "('v, 'x, 'p, 'd, 'c) state_codec \<Rightarrow> persisted_capability list \<Rightarrow> string \<Rightarrow> datetime \<Rightarrow> uuid \<Rightarrow> int \<Rightarrow> bool
     \<Rightarrow> ('p, 'c) raw_run list \<Rightarrow> recovery_cursor \<Rightarrow> ('v, 'p, 'c) exec_store
     \<Rightarrow> failure + ('v, 'x) run option \<times> recovery_cursor \<times> ('v, 'p, 'c) exec_store" where
  "lease_loop C supported node now token secs full [] scanned st = Inr (None, if full then scanned else None, st)"
| "lease_loop C supported node now token secs full (m # ms) scanned st =
     and_then (lease_row C supported node now token secs m st) (\<lambda>(claimed, st1).
     case claimed of
       Some r \<Rightarrow> Inr (Some r, Some (position m), st1)
     | None \<Rightarrow> lease_loop C supported node now token secs full ms (Some (position m)) st1)"

definition lease ::
  "('v, 'x, 'p, 'd, 'c) state_codec \<Rightarrow> persisted_capability list \<Rightarrow> string \<Rightarrow> (uuid \<Rightarrow> bool) \<Rightarrow> datetime \<Rightarrow> uuid
     \<Rightarrow> int \<Rightarrow> uuid option \<Rightarrow> recovery_cursor \<Rightarrow> ('v, 'p, 'c) exec_store
     \<Rightarrow> failure + ('v, 'x) run option \<times> recovery_cursor \<times> ('v, 'p, 'c) exec_store" where
  "lease C supported node locked now token secs target scanned st =
     (let rows = candidates C supported locked now target scanned st
      in if rows = [] then Inr (None, None, st)
         else lease_loop C supported node now token secs (length rows = 128 \<and> target = None) rows scanned st)"

end
