(* ===== verification/Obligations.thy ===== *)
theory Obligations
  imports Activation
begin

text \<open>
  The obligations that notify workers (crates/aidash-domain/src/activation.rs, the second half of
  crates/aidash-application/src/activation.rs and
  server/src/apps/execution/activation/repositories/durable.rs and repositories.rs), and the claim and
  the end of a failure delivery (server/src/apps/execution/repositories/store/run\_state.rs).

  An obligation is a row of \<open>activations\<close>. The JSON of an envelope, the digest of a payload and the
  broker are parameters. The obligation that a trigger of the database inserts when a Run changes is
  not modelled; \<open>reconcile\<close> inserts the missing ones.
\<close>

section \<open>Envelopes\<close>

record envelope =
  en_version :: u32
  en_node :: string
  en_run :: uuid
  en_activation :: uuid
  en_generation :: int

datatype quarantine_reason = Malformed | UnsupportedVersion | WrongScope | InvalidReference

fun quarantine_reason_str :: "quarantine_reason \<Rightarrow> string" where
  "quarantine_reason_str Malformed = ''malformed''"
| "quarantine_reason_str UnsupportedVersion = ''unsupported_version''"
| "quarantine_reason_str WrongScope = ''wrong_scope''"
| "quarantine_reason_str InvalidReference = ''invalid_reference''"

definition envelope_decode :: "('b \<Rightarrow> envelope option) \<Rightarrow> string \<Rightarrow> 'b \<Rightarrow> quarantine_reason + envelope" where
  "envelope_decode parse node payload =
     (case parse payload of
        None \<Rightarrow> Inl Malformed
      | Some e \<Rightarrow>
          if en_version e \<noteq> 1 then Inl UnsupportedVersion
          else if en_node e \<noteq> node \<or> en_generation e \<le> 0 then Inl WrongScope
          else Inr e)"

definition obligation_envelope :: "string \<Rightarrow> activation_row \<Rightarrow> envelope" where
  "obligation_envelope node a =
     \<lparr> en_version = 1, en_node = node, en_run = ac_run a, en_activation = ac_id a, en_generation = ac_generation a \<rparr>"

definition obligation_matches :: "envelope \<Rightarrow> activation_row \<Rightarrow> bool" where
  "obligation_matches e a \<longleftrightarrow> ac_run a = en_run e \<and> ac_generation a = en_generation e"

definition recorded :: "activation_row \<Rightarrow> bool" where
  "recorded a \<longleftrightarrow> ac_state a \<in> set [''settled'', ''claimed'', ''deferred'']"

section \<open>The rows of obligations\<close>

definition update_activation ::
  "uuid \<Rightarrow> (activation_row \<Rightarrow> activation_row) \<Rightarrow> ('v, 'p, 'c) exec_store \<Rightarrow> ('v, 'p, 'c) exec_store" where
  "update_activation i f st = st\<lparr>activations := update_where (\<lambda>a. ac_id a = i) f (activations st)\<rparr>"

definition newer_transition :: "activation_row \<Rightarrow> ('p, 'c) raw_run \<Rightarrow> ('v, 'p, 'c) exec_store \<Rightarrow> bool" where
  "newer_transition a m st =
     list_ex (\<lambda>b. ac_run b = md_id m \<and> ac_generation a < ac_generation b \<and> md_revision m \<le> ac_run_revision b)
       (activations st)"

definition settle :: "uuid \<Rightarrow> string \<Rightarrow> ('v, 'p, 'c) exec_store \<Rightarrow> ('v, 'p, 'c) exec_store" where
  "settle i why = update_activation i (\<lambda>a. a\<lparr>ac_state := ''settled'', ac_due_at := None, ac_disposition := Some why\<rparr>)"

definition record_claim ::
  "datetime \<Rightarrow> uuid \<Rightarrow> ('v, 'x) run \<Rightarrow> uuid \<Rightarrow> int \<Rightarrow> string \<Rightarrow> ('v, 'p, 'c) exec_store \<Rightarrow> ('v, 'p, 'c) exec_store" where
  "record_claim now i r token secs source =
     update_activation i (\<lambda>a.
       a\<lparr>ac_state := ''claimed'', ac_lease_token := Some token, ac_due_at := Some (lease_deadline now secs),
         ac_disposition := Some ''lease_committed'',
         ac_run_revision := (if source = ''notification'' then revision r else ac_run_revision a)\<rparr>)"

definition defer_obligation :: "uuid \<Rightarrow> datetime option \<Rightarrow> ('v, 'p, 'c) exec_store \<Rightarrow> ('v, 'p, 'c) exec_store" where
  "defer_obligation i at =
     update_activation i (\<lambda>a.
       a\<lparr>ac_state := ''deferred'', ac_due_at := at, ac_disposition := Some ''owner_deadline_or_unblock'',
         ac_publication_epoch := ac_publication_epoch a + 1, ac_published_at := None,
         ac_publish_until := None, ac_publish_token := None\<rparr>)"

definition insert_activation ::
  "datetime \<Rightarrow> uuid \<Rightarrow> string \<Rightarrow> ('p, 'c) raw_run \<Rightarrow> ('v, 'p, 'c) exec_store \<Rightarrow> ('v, 'p, 'c) exec_store" where
  "insert_activation now i why m st =
     st\<lparr>generation_seq := generation_seq st + 1,
        activations := activations st @
          [\<lparr> ac_generation = generation_seq st + 1, ac_id = i, ac_run = md_id m, ac_run_revision = md_revision m,
             ac_reason = why, ac_state = ''pending'', ac_due_at = Some now, ac_publication_epoch = 0,
             ac_publish_token = None, ac_publish_until = None, ac_published_at = None, ac_lease_token = None,
             ac_disposition = None \<rparr>]\<rparr>"

definition find_row :: "uuid \<Rightarrow> ('v, 'p, 'c) exec_store \<Rightarrow> ('p, 'c) raw_run option" where
  "find_row i st = List.find (\<lambda>m. md_id m = i) (run_rows st)"

section \<open>Claims\<close>

datatype ('v, 'x) handoff = Claimed "('v, 'x) run" uuid | Recorded | InvalidHandoff

definition claim ::
  "('v, 'x, 'p, 'd, 'c) state_codec \<Rightarrow> persisted_capability list \<Rightarrow> string \<Rightarrow> (uuid \<Rightarrow> bool) \<Rightarrow> datetime \<Rightarrow> uuid
     \<Rightarrow> int \<Rightarrow> envelope \<Rightarrow> ('v, 'p, 'c) exec_store \<Rightarrow> failure + ('v, 'x) handoff \<times> ('v, 'p, 'c) exec_store" where
  "claim C supported node locked now token secs e st =
     (if locked (en_run e) then Inl TransactionPending
      else case List.find (\<lambda>a. ac_id a = en_activation e) (activations st) of
             None \<Rightarrow> Inr (InvalidHandoff, st)
           | Some a \<Rightarrow>
               if \<not> obligation_matches e a then Inr (InvalidHandoff, st)
               else if recorded a then Inr (Recorded, st)
               else case find_row (en_run e) st of
                      None \<Rightarrow> Inr (Recorded, settle (ac_id a) ''run_removed'' st)
                    | Some m \<Rightarrow>
                        if phase_is_terminal (md_phase m) then Inr (Recorded, settle (ac_id a) ''terminal'' st)
                        else if ac_run_revision a < md_revision m \<and> newer_transition a m st
                        then Inr (Recorded, settle (ac_id a) ''newer_transition'' st)
                        else and_then (lease C supported node (\<lambda>_. False) now token secs (Some (md_id m)) None st) (\<lambda>(claimed, _, st1).
                             case claimed of
                               Some r \<Rightarrow> Inr (Claimed r token, record_claim now (ac_id a) r token secs ''notification'' st1)
                             | None \<Rightarrow>
                                 (case find_row (md_id m) st1 of
                                    None \<Rightarrow> Inl (NotFound ''database row'')
                                  | Some refreshed \<Rightarrow>
                                      Inr (Recorded, defer_obligation (ac_id a)
                                        (if capability_gap C supported refreshed \<noteq> []
                                         then Some (now + seconds CAPABILITY_RETRY_SECONDS)
                                         else due C node refreshed now st1) st1))))"

definition recover_lease ::
  "('v, 'x, 'p, 'd, 'c) state_codec \<Rightarrow> persisted_capability list \<Rightarrow> string \<Rightarrow> (uuid \<Rightarrow> bool) \<Rightarrow> datetime \<Rightarrow> uuid
     \<Rightarrow> uuid \<Rightarrow> int \<Rightarrow> recovery_cursor \<Rightarrow> ('v, 'p, 'c) exec_store
     \<Rightarrow> failure + ('v, 'x) run option \<times> recovery_cursor \<times> ('v, 'p, 'c) exec_store" where
  "recover_lease C supported node locked now token i secs scanned st =
     and_then (lease C supported node locked now token secs None scanned st) (\<lambda>(claimed, scanned', st1).
     case claimed of
       None \<Rightarrow> Inr (None, scanned', st1)
     | Some r \<Rightarrow>
         (case find_row (run_id r) st1 of
            None \<Rightarrow> Inl (NotFound ''activation Run'')
          | Some m \<Rightarrow>
              Inr (Some r, scanned', record_claim now i r token secs ''recovery'' (insert_activation now i ''handoff'' m st1))))"

definition quarantine_payload ::
  "('b \<Rightarrow> string) \<Rightarrow> 'b \<Rightarrow> quarantine_reason \<Rightarrow> ('v, 'p, 'c) exec_store \<Rightarrow> ('v, 'p, 'c) exec_store" where
  "quarantine_payload digest payload why st =
     (if digest payload \<in> fst ` set (quarantine st) then st
      else st\<lparr>quarantine := quarantine st @ [(digest payload, quarantine_reason_str why)]\<rparr>)"

text \<open>What becomes of a delivered message besides the handoff.\<close>

datatype delivery = Discarded | Acknowledged | Deferred

definition receive ::
  "('v, 'x, 'p, 'd, 'c) state_codec \<Rightarrow> persisted_capability list \<Rightarrow> string \<Rightarrow> (uuid \<Rightarrow> bool) \<Rightarrow> ('b \<Rightarrow> envelope option)
     \<Rightarrow> ('b \<Rightarrow> string) \<Rightarrow> datetime \<Rightarrow> uuid \<Rightarrow> int \<Rightarrow> 'b \<Rightarrow> ('v, 'p, 'c) exec_store
     \<Rightarrow> delivery \<times> (failure + ('v, 'x) run option) \<times> ('v, 'p, 'c) exec_store" where
  "receive C supported node locked parse digest now token secs payload st =
     (case envelope_decode parse node payload of
        Inl why \<Rightarrow> (Discarded, Inr None, quarantine_payload digest payload why st)
      | Inr e \<Rightarrow>
          (case claim C supported node locked now token secs e st of
             Inl f \<Rightarrow> (Deferred, Inl f, st)
           | Inr (InvalidHandoff, st1) \<Rightarrow> (Discarded, Inr None, quarantine_payload digest payload InvalidReference st1)
           | Inr (Recorded, st1) \<Rightarrow> (Acknowledged, Inr None, st1)
           | Inr (Claimed r _, st1) \<Rightarrow> (Acknowledged, Inr (Some r), st1)))"

section \<open>Publication\<close>

definition publishable :: "datetime \<Rightarrow> string list \<Rightarrow> activation_row \<Rightarrow> bool" where
  "publishable now states a \<longleftrightarrow>
     ac_state a \<noteq> ''settled'' \<and> ac_state a \<in> set states
     \<and> (case ac_due_at a of None \<Rightarrow> False | Some t \<Rightarrow> t \<le> now)
     \<and> (case ac_publish_until a of None \<Rightarrow> True | Some t \<Rightarrow> t \<le> now)"

definition due_batch :: "datetime \<Rightarrow> string list \<Rightarrow> ('v, 'p, 'c) exec_store \<Rightarrow> int list" where
  "due_batch now states st =
     map ac_generation (take 64 (sort_key (\<lambda>a. (the (ac_due_at a), ac_generation a))
       (filter (publishable now states) (activations st))))"

text \<open>The Run that still names the token of the obligation's lease, if any.\<close>

definition owner_row :: "activation_row \<Rightarrow> ('v, 'p, 'c) exec_store \<Rightarrow> ('p, 'c) raw_run option" where
  "owner_row a st =
     List.find (\<lambda>m. md_id m = ac_run a \<and> ac_lease_token a \<noteq> None \<and> md_lease_owner m = ac_lease_token a) (run_rows st)"

text \<open>\<open>GREATEST\<close> ignores a missing deadline.\<close>

definition recheck_claimed :: "datetime \<Rightarrow> ('v, 'p, 'c) exec_store \<Rightarrow> activation_row \<Rightarrow> activation_row" where
  "recheck_claimed now st a =
     a\<lparr>ac_state := (case owner_row a st of
                      None \<Rightarrow> ''settled''
                    | Some m \<Rightarrow> if leased now m then ''claimed'' else ''pending''),
       ac_due_at := map_option (\<lambda>m. case md_lease_until m of None \<Rightarrow> now | Some t \<Rightarrow> max now t) (owner_row a st),
       ac_publication_epoch := ac_publication_epoch a + 1, ac_published_at := None\<rparr>"

definition publish_batch ::
  "datetime \<Rightarrow> datetime \<Rightarrow> uuid \<Rightarrow> ('v, 'p, 'c) exec_store \<Rightarrow> activation_row list \<times> ('v, 'p, 'c) exec_store" where
  "publish_batch now later token st =
     (let lapsed = due_batch now [''claimed''] st;
          st1 = st\<lparr>activations := update_where (\<lambda>a. ac_generation a \<in> set lapsed) (recheck_claimed now st) (activations st)\<rparr>;
          ready = due_batch later [''pending'', ''deferred''] st1;
          f = (\<lambda>a. a\<lparr>ac_state := ''pending'',
                     ac_publication_epoch := ac_publication_epoch a + (if ac_published_at a = None then 0 else 1),
                     ac_published_at := None, ac_publish_token := Some token,
                     ac_publish_until := Some (lease_deadline later 5)\<rparr>)
      in (map f (filter (\<lambda>a. ac_generation a \<in> set ready) (activations st1)),
          st1\<lparr>activations := update_where (\<lambda>a. ac_generation a \<in> set ready) f (activations st1)\<rparr>))"

definition published ::
  "datetime \<Rightarrow> activation_row \<Rightarrow> uuid \<Rightarrow> ('v, 'p, 'c) exec_store \<Rightarrow> ('v, 'p, 'c) exec_store" where
  "published now row token st =
     st\<lparr>activations := update_where (\<lambda>a. ac_id a = ac_id row \<and> ac_state a = ''pending''
           \<and> ac_publication_epoch a = ac_publication_epoch row \<and> ac_publish_token a = Some token)
         (\<lambda>a. a\<lparr>ac_published_at := Some now, ac_due_at := Some (lease_deadline now 5), ac_publish_until := None\<rparr>)
         (activations st)\<rparr>"

definition unobliged :: "('v, 'p, 'c) exec_store \<Rightarrow> ('p, 'c) raw_run list" where
  "unobliged st =
     take RECONCILE_BATCH_SIZE (sort_key md_updated_at
       (filter (\<lambda>m. \<not> phase_is_terminal (md_phase m) \<and> \<not> list_ex (\<lambda>a. ac_run a = md_id m) (activations st)) (run_rows st)))"

definition reconcile ::
  "datetime \<Rightarrow> (uuid \<Rightarrow> uuid) \<Rightarrow> ('v, 'p, 'c) exec_store \<Rightarrow> nat \<times> ('v, 'p, 'c) exec_store" where
  "reconcile now new_id st =
     (length (unobliged st), fold (\<lambda>m. insert_activation now (new_id (md_id m)) ''reconcile'' m) (unobliged st) st)"

section \<open>Failure delivery\<close>

text \<open>The condition of the query on the stored JSON: the wait of the row is a failure delivery.\<close>

definition delivery_candidates ::
  "('p \<Rightarrow> bool) \<Rightarrow> (uuid \<Rightarrow> bool) \<Rightarrow> datetime \<Rightarrow> recovery_cursor \<Rightarrow> ('v, 'p, 'c) exec_store \<Rightarrow> ('p, 'c) raw_run list" where
  "delivery_candidates delivers locked now scanned st =
     take 128 (sort_key position (filter (\<lambda>m. md_phase m = PWaiting \<and> md_control m \<noteq> Paused
         \<and> md_revision m < I64_LIMIT - 2 \<and> delivers (raw_pending m) \<and> \<not> leased now m \<and> \<not> locked (md_id m)
         \<and> after_cursor scanned m) (run_rows st)))"

fun claim_delivery_loop ::
  "('v, 'x, 'p, 'd, 'c) state_codec \<Rightarrow> datetime \<Rightarrow> uuid \<Rightarrow> int \<Rightarrow> bool \<Rightarrow> ('p, 'c) raw_run list \<Rightarrow> recovery_cursor
     \<Rightarrow> ('v, 'p, 'c) exec_store
     \<Rightarrow> (('p, 'c) raw_run \<times> failure_target) option \<times> recovery_cursor \<times> ('v, 'p, 'c) exec_store" where
  "claim_delivery_loop C now worker secs full [] scanned st = (None, if full then scanned else None, st)"
| "claim_delivery_loop C now worker secs full (m # ms) scanned st =
     (case decode C (md_phase m) (raw_pending m) of
        Inr (RunWaiting (FailureDelivery target wake_at _), _) \<Rightarrow>
          if now < wake_at \<and> md_control m \<noteq> ControlCancelled
          then claim_delivery_loop C now worker secs full ms (Some (position m)) st
          else
            let P = (\<lambda>r. md_id r = md_id m \<and> md_revision r = md_revision m)
            in (case List.find P (run_rows st) of
                  Some r \<Rightarrow> (Some (claimed_row now worker secs r, target), Some (position m),
                             st\<lparr>run_rows := update_where P (claimed_row now worker secs) (run_rows st)\<rparr>)
                | None \<Rightarrow> claim_delivery_loop C now worker secs full ms (Some (position m)) st)
      | _ \<Rightarrow> claim_delivery_loop C now worker secs full ms (Some (position m)) st)"

definition claim_failure_delivery ::
  "('v, 'x, 'p, 'd, 'c) state_codec \<Rightarrow> ('p \<Rightarrow> bool) \<Rightarrow> (uuid \<Rightarrow> bool) \<Rightarrow> datetime \<Rightarrow> uuid \<Rightarrow> int \<Rightarrow> recovery_cursor
     \<Rightarrow> ('v, 'p, 'c) exec_store
     \<Rightarrow> (('p, 'c) raw_run \<times> failure_target) option \<times> recovery_cursor \<times> ('v, 'p, 'c) exec_store" where
  "claim_failure_delivery C delivers locked now worker secs scanned st =
     (let rows = delivery_candidates delivers locked now scanned st
      in claim_delivery_loop C now worker secs (length rows = 128) rows scanned st)"

fun delivered_state :: "task_status \<Rightarrow> failure + 'v run_state \<times> string" where
  "delivered_state TCompleted = Inr (RunCompleted, ''run.completed'')"
| "delivered_state TFailed = Inr (RunFailed, ''run.failed'')"
| "delivered_state TCancelled = Inr (RunCancelled, ''run.cancelled'')"
| "delivered_state TAbandoned = Inr (RunCancelled, ''run.cancelled'')"
| "delivered_state _ = Inl (FInvalid ''terminal delivery returned an executable task'')"

text \<open>
  \<open>result\<close> is the status of the delivered Task or the text of the error, already cut to 512
  characters; \<open>clock\<close> is the worker's own clock.
\<close>

definition finish_failure_delivery ::
  "('v, 'x, 'p, 'd, 'c) state_codec \<Rightarrow> datetime \<Rightarrow> datetime \<Rightarrow> ('p, 'c) raw_run \<Rightarrow> failure_target \<Rightarrow> uuid
     \<Rightarrow> string + task_status \<Rightarrow> ('v, 'p, 'c) exec_store \<Rightarrow> failure + ('v, 'p, 'c) exec_store" where
  "finish_failure_delivery C clock now owned target worker result st =
     and_then (case result of
                 Inr status \<Rightarrow> delivered_state status
               | Inl err \<Rightarrow> Inr (RunWaiting (FailureDelivery target (clock + seconds 5) (Some err)), ''run.failure_pending'')) (\<lambda>(s, kind).
     and_then (domain (encode C s default_recovery)) (\<lambda>p.
     let P = (\<lambda>m. md_revision m = md_revision owned \<and> worker_lease now (md_id owned) worker m \<and> md_phase m = PWaiting)
     in and_then (refuse_if (affected P (run_rows st) \<noteq> 1) (FConflict ''failure delivery lease or revision lost'')) (\<lambda>_.
        Inr (emit (md_id owned) kind (st\<lparr>run_rows := update_where P (\<lambda>m.
          m\<lparr>md_phase := state_phase s, raw_pending := p, md_revision := md_revision m + 1, md_updated_at := now,
            md_lease_owner := None, md_lease_until := None\<rparr>) (run_rows st)\<rparr>)))))"

end
