(* ===== verification/Activation_Props.thy ===== *)
theory Activation_Props
  imports Obligations
begin

text \<open>
  What leases guarantee: which rows a scan may change and how, that the writes of a worker are never
  behind another worker's claim in any interleaving, and that a step which keeps killing its worker
  process is given up.
\<close>

section \<open>Rows before and after\<close>

lemma update_where_all2:
  assumes "\<And>r. P r \<Longrightarrow> R r (f r)" "\<And>r. \<not> P r \<Longrightarrow> R r r"
  shows "list_all2 R rows (update_where P f rows)"
  using assms by (simp add: update_where_def list.rel_map list_all2_same)

lemma find_unique:
  assumes "x \<in> set xs" "P x" "\<And>y. y \<in> set xs \<Longrightarrow> P y \<Longrightarrow> y = x"
  shows "List.find P xs = Some x"
proof -
  obtain y where y: "List.find P xs = Some y" using assms(1,2) by (cases "List.find P xs") (auto simp: find_None_iff)
  then have "y \<in> set xs" "P y" by (auto simp: find_Some_iff)
  with assms(3) y show ?thesis by simp
qed

lemma map_update_where: "(\<And>r. P r \<Longrightarrow> g (f r) = g r) \<Longrightarrow> map g (update_where P f rows) = map g rows"
  by (simp add: update_where_def)

lemma list_all2_trans':
  "list_all2 R xs ys \<Longrightarrow> list_all2 S ys zs \<Longrightarrow> (\<And>x y z. R x y \<Longrightarrow> S y z \<Longrightarrow> T x z) \<Longrightarrow> list_all2 T xs zs"
  by (rule list_all2_trans[of R S T]) auto

text \<open>What one transaction may do to the row of the Run \<open>i\<close>, and it leaves every other row.\<close>

definition changes :: "uuid \<Rightarrow> (('p, 'c) raw_run \<Rightarrow> ('p, 'c) raw_run \<Rightarrow> bool) \<Rightarrow> ('p, 'c) raw_run list \<Rightarrow> ('p, 'c) raw_run list \<Rightarrow> bool" where
  "changes i R = list_all2 (\<lambda>x y. if md_id x = i then R x y else y = x)"

text \<open>A lease is taken only of a row that no live lease holds, that is not paused and has not ended.\<close>

definition takes :: "datetime \<Rightarrow> uuid \<Rightarrow> ('p, 'c) raw_run \<Rightarrow> ('p, 'c) raw_run \<Rightarrow> bool" where
  "takes now token m m' \<longleftrightarrow>
     m' = m
     \<or> md_id m' = md_id m \<and> \<not> leased now m \<and> \<not> phase_is_terminal (md_phase m) \<and> md_control m \<noteq> Paused
       \<and> md_lease_owner m' \<in> {Some token, None} \<and> md_revision m < md_revision m'
       \<and> md_control m' = md_control m \<and> \<not> phase_is_terminal (md_phase m')"

definition free_row :: "datetime \<Rightarrow> ('p, 'c) raw_run \<Rightarrow> bool" where
  "free_row now m \<longleftrightarrow> \<not> leased now m \<and> \<not> phase_is_terminal (md_phase m) \<and> md_control m \<noteq> Paused"

definition rows_ok :: "('v, 'p, 'c) exec_store \<Rightarrow> bool" where
  "rows_ok st \<longleftrightarrow> distinct (map md_id (run_rows st))"

lemma rows_ok_unique: "rows_ok st \<Longrightarrow> m \<in> set (run_rows st) \<Longrightarrow> x \<in> set (run_rows st) \<Longrightarrow> md_id x = md_id m \<Longrightarrow> x = m"
  by (metis rows_ok_def distinct_map inj_on_def)

lemma run_rows_kept [simp]:
  "run_rows (emit i k st) = run_rows st" "run_rows (abandon_open i st) = run_rows st"
  "run_rows (abandon_superseded i token st) = run_rows st"
  "run_rows (update_activation i f st) = run_rows st" "run_rows (insert_activation now i why m st) = run_rows st"
  by (simp_all add: emit_def abandon_open_def abandon_superseded_def update_activation_def insert_activation_def)

lemma claimed_row_simps [simp]:
  "md_id (claimed_row now token secs m) = md_id m" "md_revision (claimed_row now token secs m) = md_revision m + 1"
  "md_lease_owner (claimed_row now token secs m) = Some token"
  "md_lease_until (claimed_row now token secs m) = Some (lease_deadline now secs)"
  "md_phase (claimed_row now token secs m) = md_phase m" "md_control (claimed_row now token secs m) = md_control m"
  "raw_pending (claimed_row now token secs m) = raw_pending m" "raw_context (claimed_row now token secs m) = raw_context m"
  by (simp_all add: claimed_row_def)

lemma find_row_in:
  assumes "rows_ok st" "m \<in> set (run_rows st)" "P m" "\<And>x. P x \<Longrightarrow> md_id x = md_id m"
  shows "List.find P (run_rows st) = Some m"
  using assms rows_ok_unique by (intro find_unique) blast+

lemma changes_update:
  assumes "rows_ok st" "m \<in> set (run_rows st)" "P m" "\<And>x. P x \<Longrightarrow> md_id x = md_id m" "R m (f m)"
  shows "changes (md_id m) R (run_rows st) (update_where P f (run_rows st))"
  unfolding changes_def update_where_def list.rel_map list_all2_same
  using assms rows_ok_unique[OF assms(1,2)] by metis

text \<open>The row a successful claim leaves.\<close>

definition claims :: "('v, 'x, 'p, 'd, 'c) state_codec \<Rightarrow> datetime \<Rightarrow> uuid \<Rightarrow> int \<Rightarrow> ('v, 'x) run \<Rightarrow> ('p, 'c) raw_run \<Rightarrow> ('p, 'c) raw_run \<Rightarrow> bool" where
  "claims C now token secs r m m' \<longleftrightarrow>
     raw_decode C m' = Inr r \<and> (\<exists>p. m' = (claimed_row now token secs m)\<lparr>raw_pending := p\<rparr>)"

lemma claims_takes: "free_row now m \<Longrightarrow> claims C now token secs r m m' \<Longrightarrow> takes now token m m'"
  by (auto simp: claims_def takes_def free_row_def)

lemma lease_claim_changes:
  assumes "lease_claim C now token secs r st = Inr (claimed, st')" "rows_ok st" "m \<in> set (run_rows st)"
    "run_id r = md_id m" "revision r = md_revision m"
  obtains r' where "claimed = Some r'" "changes (md_id m) (claims C now token secs r') (run_rows st) (run_rows st')"
proof -
  let ?P = "\<lambda>x. md_id x = md_id m \<and> md_revision x = md_revision m"
  have "List.find ?P (run_rows st) = Some m" by (rule find_row_in[OF assms(2,3)]) auto
  then obtain p r' where p: "claimed = Some r'" "raw_decode C ((claimed_row now token secs m)\<lparr>raw_pending := p\<rparr>) = Inr r'"
    "run_rows st' = update_where ?P (\<lambda>m. (claimed_row now token secs m)\<lparr>raw_pending := p\<rparr>) (run_rows st)"
    using assms(1,4,5) by (auto simp: lease_claim_def and_then_Inr_iff Let_def split: if_splits)
  have "changes (md_id m) (claims C now token secs r') (run_rows st) (run_rows st')"
    unfolding p(3) by (rule changes_update[OF assms(2,3)]) (auto simp: claims_def p(2))
  then show thesis using that p(1) by blast
qed


text \<open>A repaired row waits for the delivery of its failure, unless the repair lease lapsed at once.\<close>

definition hands_over ::
  "('v, 'x, 'p, 'd, 'c) state_codec \<Rightarrow> datetime \<Rightarrow> failure_target \<Rightarrow> string option \<Rightarrow> ('p, 'c) raw_run \<Rightarrow> ('p, 'c) raw_run \<Rightarrow> bool" where
  "hands_over C now target err m m' \<longleftrightarrow>
     md_phase m' = PWaiting \<and> encode C (RunWaiting (FailureDelivery target now None)) default_recovery = Inr (raw_pending m')
     \<and> md_error m' = err \<and> md_lease_owner m' = None \<and> md_lease_until m' = None
     \<and> md_id m' = md_id m \<and> md_control m' = md_control m \<and> md_revision m < md_revision m'"

lemma leased_deadline [simp]: "leased now (claimed_row now token secs m) \<longleftrightarrow> 0 < secs"
  by (simp add: leased_def lease_deadline_def seconds_def)

lemma repair_changes:
  assumes "repair C now token secs m target err kind st = Inr st'" "rows_ok st" "m \<in> set (run_rows st)" "free_row now m"
  shows "changes (md_id m) (takes now token) (run_rows st) (run_rows st')"
    and "0 < secs \<Longrightarrow> changes (md_id m) (hands_over C now target err) (run_rows st) (run_rows st')"
proof -
  let ?P = "\<lambda>x. md_id x = md_id m \<and> md_revision x = md_revision m \<and> \<not> phase_is_terminal (md_phase x)
              \<and> md_control x \<noteq> Paused \<and> \<not> leased now x"
  let ?Q = "\<lambda>x. md_revision x = md_revision m + 1 \<and> worker_lease now (md_id m) token x"
  have "List.find ?P (run_rows st) = Some m"
    by (rule find_row_in[OF assms(2,3)]) (use assms(4) in \<open>auto simp: free_row_def\<close>)
  then obtain p where p: "encode C (RunWaiting (FailureDelivery target now None)) default_recovery = Inr p"
    "run_rows st' = update_where ?Q (\<lambda>m. m\<lparr>md_phase := PWaiting, raw_pending := p, md_error := err,
       md_revision := md_revision m + 1, md_updated_at := now, md_lease_owner := None, md_lease_until := None\<rparr>)
       (update_where ?P (claimed_row now token secs) (run_rows st))"
    using assms(1) by (auto simp: repair_def repair_lease_def deliver_failure_def and_then_Inr_iff split: option.splits)
  have m: "?P m" using assms(4) by (simp add: free_row_def)
  have Q: "?Q (claimed_row now token secs m) \<longleftrightarrow> 0 < secs" by (simp add: worker_lease_def)
  show "changes (md_id m) (takes now token) (run_rows st) (run_rows st')"
    unfolding changes_def p(2) update_where_def list.map_comp o_def list.rel_map list_all2_same
    using rows_ok_unique[OF assms(2,3)] m by (auto simp: takes_def worker_lease_def phase_is_terminal_def)
  assume "0 < secs"
  then show "changes (md_id m) (hands_over C now target err) (run_rows st) (run_rows st')"
    unfolding changes_def p(2) update_where_def list.map_comp o_def list.rel_map list_all2_same
    using rows_ok_unique[OF assms(2,3)] m Q p(1) by (auto simp: hands_over_def worker_lease_def)
qed

lemma changes_mono: "changes i R xs ys \<Longrightarrow> (\<And>x y. x \<in> set xs \<Longrightarrow> md_id x = i \<Longrightarrow> R x y \<Longrightarrow> S x y) \<Longrightarrow> changes i S xs ys"
  unfolding changes_def by (erule list.rel_mono_strong) (simp split: if_splits)

lemma changes_refl: "(\<And>x. x \<in> set xs \<Longrightarrow> md_id x = i \<Longrightarrow> R x x) \<Longrightarrow> changes i R xs xs"
  by (simp add: changes_def list_all2_same)

lemma raw_recovered [simp]: "run_id (r\<lparr>recovery := q\<rparr>) = run_id r" "revision (r\<lparr>recovery := q\<rparr>) = revision r"
  by simp_all

text \<open>One candidate: at most its own row changes, and a claim means that the row was due.\<close>

lemma lease_row_changes:
  assumes "lease_row C supported node now token secs m st = Inr (claimed, st')"
    and "rows_ok st" "m \<in> set (run_rows st)" "free_row now m"
  shows "case claimed of
      None \<Rightarrow> changes (md_id m) (takes now token) (run_rows st) (run_rows st')
    | Some r \<Rightarrow> changes (md_id m) (claims C now token secs r) (run_rows st) (run_rows st')
        \<and> (\<exists>d \<le> now. due C node m now st = Some d) \<and> unmet_capabilities C supported m = []
        \<and> (\<exists>r0. raw_decode C m = Inr r0 \<and> \<not> failure_delivery (state r0)
              \<and> (md_lease_owner m = None \<or> md_control m = ControlCancelled \<or> lease_recoveries (recovery r0) \<le> LEASE_RECOVERY_LIMIT))"
proof -
  have same: "changes (md_id m) (takes now token) (run_rows st) (run_rows st)"
    by (rule changes_refl) (simp add: takes_def)
  note repaired = repair_changes(1)[OF _ assms(2-4)]
  show ?thesis
  proof (cases "passes_over C supported node now m st")
    case True
    then show ?thesis using assms(1) same by (simp add: lease_row_def)
  next
    case False
    then obtain d where d: "due C node m now st = Some d" "d \<le> now" by (auto simp: passes_over_def split: option.splits)
    show ?thesis
    proof (cases "loadable C supported m")
      case (Inl e)
      then have "claimed = None" "st' = st \<or> (\<exists>target err kind. repair C now token secs m target err kind st = Inr st')"
        using assms(1) False by (cases e; auto simp: lease_row_def and_then_Inr_iff split: if_splits)+
      then show ?thesis using same repaired by auto
    next
      case (Inr r)
      then have r: "raw_decode C m = Inr r" "unmet_capabilities C supported m = []"
        by (auto simp: loadable_def Let_def split: if_splits)
      have f: "\<not> failure_delivery (state r)" using False raw_decode_Inr(1)[OF r(1)] by (auto simp: passes_over_def)
      show ?thesis
      proof (cases "md_lease_owner m \<noteq> None \<and> md_control m \<noteq> ControlCancelled \<and> LEASE_RECOVERY_LIMIT < lease_recoveries (recovery r)")
        case True
        then have "claimed = None" and r: "repair C now token secs m TargetFailed (Some crash_loop_reason) (Some ''run.crash_loop'') st = Inr st'"
          using assms(1) False Inr by (auto simp: lease_row_def and_then_Inr_iff)
        then show ?thesis using repaired[OF r] by simp
      next
        case within: False
        then obtain r1 where r1: "lease_claim C now token secs r1 st = Inr (claimed, st')" "run_id r1 = run_id r" "revision r1 = revision r"
          using assms(1) False Inr by (auto simp: lease_row_def split: if_splits)
        obtain r' where "claimed = Some r'" "changes (md_id m) (claims C now token secs r') (run_rows st) (run_rows st')"
          using lease_claim_changes[OF r1(1) assms(2,3)] r1(2,3) raw_decode_Inr(2,4)[OF r(1)] by metis
        then show ?thesis using d r f within by (auto simp: not_less)
      qed
    qed
  qed
qed


section \<open>The scan\<close>

text \<open>The other tables that decide when a Run is due.\<close>

definition same_tables :: "('v, 'p, 'c) exec_store \<Rightarrow> ('v, 'p, 'c) exec_store \<Rightarrow> bool" where
  "same_tables st st' \<longleftrightarrow>
     run_inputs st' = run_inputs st \<and> answered_requests st' = answered_requests st
     \<and> capability_approvals st' = capability_approvals st \<and> task_dependencies st' = task_dependencies st
     \<and> task_status_rows st' = task_status_rows st \<and> core_runs st' = core_runs st \<and> core_areas st' = core_areas st
     \<and> invocations st' = invocations st \<and> activations st' = activations st"

lemma same_tables_refl [simp]: "same_tables st st" by (simp add: same_tables_def)

lemma same_tables_trans: "same_tables st1 st2 \<Longrightarrow> same_tables st2 st3 \<Longrightarrow> same_tables st1 st3"
  by (simp add: same_tables_def)

lemma same_tables_writes [simp]:
  "same_tables st (emit i k st') \<longleftrightarrow> same_tables st st'" "same_tables st (abandon_open i st') \<longleftrightarrow> same_tables st st'"
  "same_tables st (abandon_superseded i token st') \<longleftrightarrow> same_tables st st'"
  "same_tables st (st'\<lparr>run_rows := rows\<rparr>) \<longleftrightarrow> same_tables st st'"
  by (simp_all add: same_tables_def emit_def abandon_open_def abandon_superseded_def)

lemma lease_claim_tables:
  "lease_claim C now token secs r st = Inr (claimed, st') \<Longrightarrow> same_tables st st'"
  by (auto simp: lease_claim_def and_then_Inr_iff Let_def split: option.splits if_splits)

lemma repair_tables: "repair C now token secs m target err kind st = Inr st' \<Longrightarrow> same_tables st st'"
  by (auto simp: repair_def repair_lease_def deliver_failure_def and_then_Inr_iff Let_def split: option.splits)

lemma lease_row_tables:
  assumes "lease_row C supported node now token secs m st = Inr (claimed, st')"
  shows "same_tables st st'"
proof (cases "passes_over C supported node now m st")
  case True
  then show ?thesis using assms by (simp add: lease_row_def)
next
  case False
  show ?thesis
  proof (cases "loadable C supported m")
    case (Inl e)
    then show ?thesis using assms False
      by (cases e) (auto simp: lease_row_def and_then_Inr_iff dest: repair_tables split: if_splits)
  next
    case (Inr r)
    then show ?thesis using assms False
      by (auto simp: lease_row_def and_then_Inr_iff dest: repair_tables lease_claim_tables split: if_splits)
  qed
qed

lemma takes_simps:
  assumes "takes now token m m'"
  shows "md_id m' = md_id m" "md_control m' = md_control m" "phase_is_terminal (md_phase m') = phase_is_terminal (md_phase m)"
  using assms by (auto simp: takes_def)

lemma takes_terminal:
  assumes "list_all2 (takes now token) (run_rows st) (run_rows st')"
  shows "map_option phase_is_terminal (row_phase i st') = map_option phase_is_terminal (row_phase i st)"
  using assms unfolding row_phase_def by (induction rule: list_all2_induct) (auto simp: takes_simps)

lemma run_unblocked_takes:
  assumes "same_tables st st'" "list_all2 (takes now token) (run_rows st) (run_rows st')"
  shows "run_unblocked m st' = run_unblocked m st"
proof -
  have "(case row_phase i st' of None \<Rightarrow> False | Some ph \<Rightarrow> \<not> phase_is_terminal ph)
      = (case row_phase i st of None \<Rightarrow> False | Some ph \<Rightarrow> \<not> phase_is_terminal ph)" for i
    using takes_terminal[OF assms(2), of i] by (cases "row_phase i st"; cases "row_phase i st'") auto
  then show ?thesis
    using assms(1) unfolding run_unblocked_def queued_behind_def area_unready_def same_tables_def by simp
qed

lemma unblocked_takes:
  assumes "same_tables st st'" "list_all2 (takes now token) (run_rows st) (run_rows st')"
  shows "unblocked i st' = unblocked i st"
proof -
  have same: "run_unblocked y st = run_unblocked x st" if "takes now token x y" for x y
    using takes_simps[OF that] by (simp add: run_unblocked_def)
  have "list_ex (\<lambda>m. md_id m = i \<and> run_unblocked m st) ys = list_ex (\<lambda>m. md_id m = i \<and> run_unblocked m st) xs"
    if "list_all2 (takes now token) xs ys" for xs ys
    using that by (induction rule: list_all2_induct) (auto simp: takes_simps same)
  then show ?thesis unfolding unblocked_def run_unblocked_takes[OF assms] using assms(2) by blast
qed

lemma due_takes:
  assumes "same_tables st st'" "list_all2 (takes now token) (run_rows st) (run_rows st')"
  shows "due C node m at st' = due C node m at st"
proof -
  have tables: "human_answered i st' = human_answered i st" "newer_than i n st' = newer_than i n st"
    "capability_approvals st' = capability_approvals st" "task_status_rows st' = task_status_rows st"
    "task_dependencies st' = task_dependencies st" for i n
    using assms(1) unfolding same_tables_def human_answered_def newer_than_def by simp_all
  have ready: "dependencies_ready i st' = dependencies_ready i st" for i
    unfolding dependencies_ready_def dependency_statuses_def tables ..
  have waits: "waiting_due C node m at wait st' = waiting_due C node m at wait st" for wait
    unfolding waiting_due_def tables(1-3) ready ..
  show ?thesis unfolding due_def unblocked_takes[OF assms] waits ..
qed


lemma changes_other: "changes i R xs ys \<Longrightarrow> x \<in> set xs \<Longrightarrow> md_id x \<noteq> i \<Longrightarrow> x \<in> set ys"
  unfolding changes_def list_all2_conv_all_nth in_set_conv_nth by metis

lemma changes_image: "changes (md_id x) R xs ys \<Longrightarrow> x \<in> set xs \<Longrightarrow> \<exists>y \<in> set ys. R x y"
  unfolding changes_def list_all2_conv_all_nth in_set_conv_nth Bex_def by metis

lemma changes_all2: "changes i (takes now token) xs ys \<Longrightarrow> list_all2 (takes now token) xs ys"
  unfolding changes_def by (erule list.rel_mono_strong) (auto simp: takes_def split: if_splits)

lemma takes_ids: "list_all2 (takes now token) xs ys \<Longrightarrow> map md_id ys = map md_id xs"
  by (induction rule: list_all2_induct) (auto simp: takes_simps)

definition eligible ::
  "('v, 'x, 'p, 'd, 'c) state_codec \<Rightarrow> persisted_capability list \<Rightarrow> string \<Rightarrow> datetime \<Rightarrow> ('v, 'p, 'c) exec_store
     \<Rightarrow> ('p, 'c) raw_run \<Rightarrow> bool" where
  "eligible C supported node now st m \<longleftrightarrow>
     (\<exists>d \<le> now. due C node m now st = Some d) \<and> unmet_capabilities C supported m = []
     \<and> (\<exists>r0. raw_decode C m = Inr r0 \<and> \<not> failure_delivery (state r0)
          \<and> (md_lease_owner m = None \<or> md_control m = ControlCancelled \<or> lease_recoveries (recovery r0) \<le> LEASE_RECOVERY_LIMIT))"

lemma lease_row_takes:
  assumes "lease_row C supported node now token secs m st = Inr (claimed, st')"
    and "rows_ok st" "m \<in> set (run_rows st)" "free_row now m"
  shows "changes (md_id m) (takes now token) (run_rows st) (run_rows st')" "rows_ok st'" "same_tables st st'"
    "claimed = Some r \<Longrightarrow> eligible C supported node now st m \<and> (\<exists>m' \<in> set (run_rows st'). claims C now token secs r m m')"
proof -
  note c = lease_row_changes[OF assms]
  show "changes (md_id m) (takes now token) (run_rows st) (run_rows st')"
  proof (cases claimed)
    case None
    then show ?thesis using c by simp
  next
    case (Some r)
    then have "changes (md_id m) (claims C now token secs r) (run_rows st) (run_rows st')" using c by simp
    then show ?thesis
      by (rule changes_mono) (use assms(2,3,4) in \<open>auto dest: rows_ok_unique intro: claims_takes\<close>)
  qed
  then show "rows_ok st'" using takes_ids[OF changes_all2] assms(2) by (metis rows_ok_def)
  show "same_tables st st'" by (rule lease_row_tables[OF assms(1)])
  assume "claimed = Some r"
  with c show "eligible C supported node now st m \<and> (\<exists>m' \<in> set (run_rows st'). claims C now token secs r m m')"
    using changes_image[OF _ assms(3)] by (auto simp: eligible_def)
qed

definition scans :: "datetime \<Rightarrow> uuid \<Rightarrow> uuid set \<Rightarrow> ('p, 'c) raw_run list \<Rightarrow> ('p, 'c) raw_run list \<Rightarrow> bool" where
  "scans now token ids = list_all2 (\<lambda>x y. takes now token x y \<and> (md_id x \<notin> ids \<longrightarrow> y = x))"

lemma scans_all2: "scans now token ids xs ys \<Longrightarrow> list_all2 (takes now token) xs ys"
  unfolding scans_def by (erule list.rel_mono_strong) simp

lemma scans_step:
  assumes "changes i (takes now token) xs ys" "scans now token ids ys zs" "i \<notin> ids"
  shows "scans now token (insert i ids) xs zs"
  unfolding scans_def
  by (rule list_all2_trans'[OF assms(1)[unfolded changes_def] assms(2)[unfolded scans_def]])
    (use assms(3) in \<open>auto simp: takes_def split: if_splits\<close>)

lemma lease_loop_scans:
  assumes "lease_loop C supported node now token secs full ms scanned st = Inr (claimed, c, st')"
    and "rows_ok st" "set ms \<subseteq> set (run_rows st)" "distinct (map md_id ms)" "\<forall>m \<in> set ms. free_row now m"
  shows "scans now token (md_id ` set ms) (run_rows st) (run_rows st') \<and> same_tables st st'
    \<and> (case claimed of
         None \<Rightarrow> c = (if \<not> full then None else if ms = [] then scanned else Some (position (last ms)))
       | Some r \<Rightarrow> \<exists>m \<in> set ms. c = Some (position m) \<and> eligible C supported node now st m
           \<and> (\<exists>m' \<in> set (run_rows st'). claims C now token secs r m m'))"
  using assms
proof (induction ms arbitrary: scanned st)
  case Nil
  then show ?case by (auto simp: scans_def list_all2_same takes_def)
next
  case (Cons m ms)
  obtain claimed1 st1 where row: "lease_row C supported node now token secs m st = Inr (claimed1, st1)"
    using Cons.prems(1) by (auto simp: and_then_Inr_iff)
  note step = lease_row_takes[OF row Cons.prems(2)]
  have m: "m \<in> set (run_rows st)" "free_row now m" using Cons.prems(3,5) by auto
  note step = step[OF m]
  have fresh: "md_id m \<notin> md_id ` set ms" using Cons.prems(4) by auto
  show ?case
  proof (cases claimed1)
    case (Some r)
    then have "claimed = Some r" "c = Some (position m)" "st' = st1" using Cons.prems(1) row by auto
    moreover have "scans now token (md_id ` set (m # ms)) (run_rows st) (run_rows st1)"
      unfolding scans_def using step(1)[unfolded changes_def]
      by (rule list.rel_mono_strong) (auto simp: takes_def split: if_splits)
    ultimately show ?thesis using step(3) step(4)[OF Some] by simp
  next
    case None
    then have rest: "lease_loop C supported node now token secs full ms (Some (position m)) st1 = Inr (claimed, c, st')"
      using Cons.prems(1) row by simp
    have "set ms \<subseteq> set (run_rows st1)"
    proof
      fix x assume "x \<in> set ms"
      then show "x \<in> set (run_rows st1)"
        using changes_other[OF step(1), of x] fresh Cons.prems(3) by (metis image_eqI list.set_intros(2) subsetD)
    qed
    note ih = Cons.IH[OF rest step(2) this]
    have "distinct (map md_id ms)" "\<forall>m \<in> set ms. free_row now m" using Cons.prems(4,5) by auto
    note ih = ih[OF this]
    have el: "eligible C supported node now st1 x = eligible C supported node now st x" for x
      unfolding eligible_def due_takes[OF step(3) changes_all2[OF step(1)]] ..
    show ?thesis
      using ih scans_step[OF step(1) conjunct1[OF ih] fresh] same_tables_trans[OF step(3)]
      by (auto simp: el split: option.splits)
  qed
qed


lemma candidates_facts:
  assumes "m \<in> set (candidates C supported locked now target scanned st)"
  shows "m \<in> set (run_rows st)" "leasable now st m" "selectable_by C supported m" "free_row now m"
  using assms by (auto simp: candidates_def free_row_def leasable_def dest!: in_set_takeD)

lemma distinct_sublist_ids: "rows_ok st \<Longrightarrow> distinct (map md_id (take n (sort_key f (filter P (run_rows st)))))"
proof -
  assume "rows_ok st"
  moreover have "set (take n (sort_key f (filter P (run_rows st)))) \<subseteq> set (run_rows st)" by (auto dest: in_set_takeD)
  ultimately show ?thesis unfolding rows_ok_def distinct_map using inj_on_subset by auto
qed

lemma candidates_distinct: "rows_ok st \<Longrightarrow> distinct (map md_id (candidates C supported locked now target scanned st))"
  unfolding candidates_def by (rule distinct_sublist_ids)

lemma lease_scans:
  assumes "lease C supported node locked now token secs target scanned st = Inr (claimed, c, st')" "rows_ok st"
  shows "list_all2 (takes now token) (run_rows st) (run_rows st')" "same_tables st st'"
    "claimed = Some r \<Longrightarrow> \<exists>m \<in> set (candidates C supported locked now target scanned st).
        eligible C supported node now st m \<and> (\<exists>m' \<in> set (run_rows st'). claims C now token secs r m m')"
proof -
  let ?rows = "candidates C supported locked now target scanned st"
  have "set ?rows \<subseteq> set (run_rows st)" "distinct (map md_id ?rows)" "\<forall>m \<in> set ?rows. free_row now m"
    using candidates_facts[of _ C supported locked now target scanned st] candidates_distinct[OF assms(2)] by auto
  note loop = lease_loop_scans[OF _ assms(2) this]
  have "list_all2 (takes now token) (run_rows st) (run_rows st') \<and> same_tables st st'
      \<and> (\<forall>r. claimed = Some r \<longrightarrow> (\<exists>m \<in> set ?rows. eligible C supported node now st m
              \<and> (\<exists>m' \<in> set (run_rows st'). claims C now token secs r m m')))"
  proof (cases "?rows = []")
    case True
    then show ?thesis using assms(1) by (simp add: lease_def list_all2_same takes_def)
  next
    case False
    then have "lease_loop C supported node now token secs (length ?rows = 128 \<and> target = None) ?rows scanned st = Inr (claimed, c, st')"
      using assms(1) by (simp add: lease_def Let_def)
    note l = loop[OF this]
    have "\<exists>m \<in> set ?rows. eligible C supported node now st m \<and> (\<exists>m' \<in> set (run_rows st'). claims C now token secs r m m')"
      if "claimed = Some r" for r
      using l unfolding that option.case by blast
    then show ?thesis using l scans_all2 by blast
  qed
  then show "list_all2 (takes now token) (run_rows st) (run_rows st')" "same_tables st st'"
    "claimed = Some r \<Longrightarrow> \<exists>m \<in> set ?rows. eligible C supported node now st m \<and> (\<exists>m' \<in> set (run_rows st'). claims C now token secs r m m')"
    by blast+
qed

section \<open>Everything that takes or uses a lease\<close>

lemma claim_takes:
  assumes "claim C supported node locked now token secs e st = Inr (h, st')" "rows_ok st"
  shows "list_all2 (takes now token) (run_rows st) (run_rows st')"
proof -
  have same: "list_all2 (takes now token) (run_rows st) (run_rows st)" by (simp add: list_all2_same takes_def)
  show ?thesis
    using assms(1) same lease_scans(1)[OF _ assms(2)]
    by (auto simp: claim_def and_then_Inr_iff settle_def record_claim_def defer_obligation_def
        split: if_splits option.splits)
qed

lemma recover_lease_takes:
  assumes "recover_lease C supported node locked now token i secs scanned st = Inr (claimed, c, st')" "rows_ok st"
  shows "list_all2 (takes now token) (run_rows st) (run_rows st')"
proof -
  obtain claimed' c' st1 where l: "lease C supported node locked now token secs None scanned st = Inr (claimed', c', st1)"
    using assms(1) by (auto simp: recover_lease_def and_then_Inr_iff)
  then have "run_rows st' = run_rows st1"
    using assms(1) by (cases claimed') (auto simp: recover_lease_def record_claim_def split: option.splits)
  then show ?thesis using lease_scans(1)[OF l assms(2)] by simp
qed

lemma claim_delivery_loop_takes:
  assumes "claim_delivery_loop C now worker secs full ms scanned st = (claimed, c, st')"
    and "rows_ok st" "set ms \<subseteq> set (run_rows st)" "\<forall>m \<in> set ms. free_row now m"
  shows "list_all2 (takes now worker) (run_rows st) (run_rows st')"
  using assms
proof (induction ms arbitrary: scanned)
  case Nil
  then show ?case by (simp add: list_all2_same takes_def)
next
  case (Cons m ms)
  let ?P = "\<lambda>r. md_id r = md_id m \<and> md_revision r = md_revision m"
  have ih: ?case if "claim_delivery_loop C now worker secs full ms (Some (position m)) st = (claimed, c, st')"
    using Cons.IH[OF that] Cons.prems by simp
  have "changes (md_id m) (takes now worker) (run_rows st) (update_where ?P (claimed_row now worker secs) (run_rows st))"
    by (rule changes_update) (use Cons.prems(2-4) in \<open>auto simp: takes_def free_row_def\<close>)
  note taken = changes_all2[OF this]
  show ?case using Cons.prems(1) ih taken
    by (auto simp: Let_def split: sum.splits run_state.splits waiting_state.splits if_splits option.splits)
qed

lemma claim_failure_delivery_takes:
  assumes "claim_failure_delivery C delivers locked now worker secs scanned st = (claimed, c, st')" "rows_ok st"
  shows "list_all2 (takes now worker) (run_rows st) (run_rows st')"
  using assms(1) unfolding claim_failure_delivery_def Let_def
  by (rule claim_delivery_loop_takes[OF _ assms(2)])
    (auto simp: delivery_candidates_def free_row_def phase_is_terminal_def dest!: in_set_takeD)

text \<open>A worker changes only rows that name its token, and keeps or gives up the lease.\<close>

definition writes :: "uuid \<Rightarrow> ('p, 'c) raw_run \<Rightarrow> ('p, 'c) raw_run \<Rightarrow> bool" where
  "writes token m m' \<longleftrightarrow>
     m' = m \<or> md_id m' = md_id m \<and> md_lease_owner m = Some token \<and> md_lease_owner m' \<in> {Some token, None}"

lemma update_writes:
  assumes "\<And>m. P m \<Longrightarrow> md_lease_owner m = Some token" "\<And>m. P m \<Longrightarrow> md_id (f m) = md_id m"
    and "\<And>m. P m \<Longrightarrow> md_lease_owner (f m) \<in> {md_lease_owner m, None}"
  shows "list_all2 (writes token) rows (update_where P f rows)"
  by (rule update_where_all2) (use assms in \<open>auto simp: writes_def\<close>)

lemma worker_lease_owner: "worker_lease now i token m \<Longrightarrow> md_lease_owner m = Some token"
  by (simp add: worker_lease_def)

lemmas fenced_simps = worker_lease_owner saved_row_def

lemma renew_writes: "renew admits now i token secs st = (held, st') \<Longrightarrow> list_all2 (writes token) (run_rows st) (run_rows st')"
  by (auto simp: renew_def Let_def fenced_simps intro!: update_writes)

lemma charge_writes:
  "charge_lease_recovery C now i token n st = (held, st') \<Longrightarrow> list_all2 (writes token) (run_rows st) (run_rows st')"
  by (auto simp: charge_lease_recovery_def Let_def fenced_simps intro!: update_writes)

lemma begin_step_writes:
  assumes "begin_step C now token r st = (res, st')"
  shows "list_all2 (writes token) (run_rows st) (run_rows st')"
proof (cases "0 < lease_recoveries (recovery r)")
  case True
  obtain held st1 where c: "charge_lease_recovery C now (run_id r) token (saturating_add (lease_recoveries (recovery r)) 1) st = (held, st1)"
    by fastforce
  then have "st' = st1" using assms True by (auto simp: begin_step_def charge_isolated_step_def Let_def split: if_splits)
  then show ?thesis using charge_writes[OF c] by simp
next
  case False
  then show ?thesis using assms by (simp add: begin_step_def list_all2_same writes_def)
qed

lemma release_writes: "list_all2 (writes token) (run_rows st) (run_rows (release_worker now i token st))"
  by (auto simp: release_worker_def intro!: update_writes)

lemma save_run_writes:
  "save_run C S now token kind r st = Inr st' \<Longrightarrow> list_all2 (writes token) (run_rows st) (run_rows st')"
  by (auto simp: save_run_def Let_def and_then_Inr_iff fenced_simps intro!: update_writes)

lemma pause_writes:
  "pause_for_execution now i token why kind noted st = Inr st' \<Longrightarrow> list_all2 (writes token) (run_rows st) (run_rows st')"
  by (auto simp: pause_for_execution_def Let_def and_then_Inr_iff fenced_simps intro!: update_writes)

lemma persist_writes:
  "persist_tool_input C now token r st = Inr st' \<Longrightarrow> list_all2 (writes token) (run_rows st) (run_rows st')"
  by (auto simp: persist_tool_input_def Let_def and_then_Inr_iff fenced_simps intro!: update_writes)

lemma finish_delivery_writes:
  "finish_failure_delivery C clock now owned target token res st = Inr st'
     \<Longrightarrow> list_all2 (writes token) (run_rows st) (run_rows st')"
  by (auto simp: finish_failure_delivery_def Let_def and_then_Inr_iff fenced_simps intro!: update_writes)

end
