(* ===== verification/Invocations.thy ===== *)
theory Invocations
  imports Worker_Leases Json
begin

text \<open>
  The journal of tool invocations (\<open>invocation_start\<close> to \<open>finish_invocation\<close> of
  server/src/apps/execution/repositories/store.rs, server/src/apps/execution/models/
  invocation\_records.rs) and the dispatch that relies on it (\<open>tool_delivery_result\<close> and the sequential
  path of crates/aidash-harness/src/agent.rs). An invocation is admitted under an idempotency key
  before its tool is called; what the journal says afterwards decides whether the tool may be called
  again, its stored result is used, or a person must reconcile an effect that may have happened.

  Two maintenance transactions of server/src/apps/execution/models/research.rs rewrite rows of the
  journal later: the revocation of a Run's evidence and the expiry of a Provider's results put tombstones
  in the place of stored research results, and the revocation redacts what the calls disclosed.

  The JSON of error results and of tombstones is a parameter, and so are the tables of research attempts,
  snapshots and revocations that select the rows to redact. The audit columns (the Tenant Secret and the
  Connection a call carried) are not modelled, nor are the acceptance of a sampling attempt and the data
  of logged events.
\<close>

section \<open>The journal\<close>

definition find_invocation :: "string \<Rightarrow> ('v, 'p, 'c) exec_store \<Rightarrow> 'v invocation option" where
  "find_invocation key st = List.find (\<lambda>v. iv_key v = key) (invocations st)"

definition update_invocation ::
  "('v invocation \<Rightarrow> bool) \<Rightarrow> ('v invocation \<Rightarrow> 'v invocation) \<Rightarrow> ('v, 'p, 'c) exec_store \<Rightarrow> ('v, 'p, 'c) exec_store" where
  "update_invocation P f st = st\<lparr>invocations := update_where P f (invocations st)\<rparr>"

definition new_invocation :: "string \<Rightarrow> uuid \<Rightarrow> string \<Rightarrow> 'v \<Rightarrow> bool \<Rightarrow> 'v invocation" where
  "new_invocation key run tool input replay_safe =
     \<lparr> iv_key = key, iv_run = run, iv_tool = tool, iv_input = input, iv_status = ''STARTED'', iv_result = None,
       iv_replay_safe = replay_safe, iv_uncertain_reason = None, iv_delivery_failures = 0, iv_delivery_pending = False \<rparr>"

text \<open>The row under the key, inserted when there is none (\<open>ON CONFLICT DO NOTHING\<close>), and whether it is new.\<close>

definition admit_invocation ::
  "string \<Rightarrow> uuid \<Rightarrow> string \<Rightarrow> 'v \<Rightarrow> bool \<Rightarrow> ('v, 'p, 'c) exec_store \<Rightarrow> bool \<times> 'v invocation \<times> ('v, 'p, 'c) exec_store" where
  "admit_invocation key run tool input replay_safe st =
     (case find_invocation key st of
        Some v \<Rightarrow> (False, v, st)
      | None \<Rightarrow>
          let v = new_invocation key run tool input replay_safe in (True, v, st\<lparr>invocations := invocations st @ [v]\<rparr>))"

definition start_invocation_in ::
  "('v, 'x) run \<Rightarrow> string \<Rightarrow> string \<Rightarrow> 'v \<Rightarrow> bool \<Rightarrow> ('v, 'p, 'c) exec_store
     \<Rightarrow> failure + 'v invocation \<times> ('v, 'p, 'c) exec_store" where
  "start_invocation_in r key tool input replay_safe st =
     (let (created, v, st1) = admit_invocation key (run_id r) tool input replay_safe st
      in and_then (refuse_if (iv_input v \<noteq> input \<or> iv_tool v \<noteq> tool \<or> iv_run v \<noteq> run_id r)
           (FConflict ''tool idempotency key reused with different input'')) (\<lambda>_.
         Inr (if created then (v, emit (run_id r) ''tool.started'' st1)
              else if iv_status v = ''STARTED'' \<and> (iv_delivery_pending v \<or> iv_replay_safe v)
              then (v, update_invocation (\<lambda>u. iv_key u = key)
                         (\<lambda>u. u\<lparr>iv_delivery_pending := False, iv_uncertain_reason := None\<rparr>) st1)
              else if iv_status v \<noteq> ''COMPLETED'' \<and> \<not> iv_replay_safe v
              then (v\<lparr>iv_status := ''UNCERTAIN''\<rparr>,
                    update_invocation (\<lambda>u. iv_key u = key) (\<lambda>u. u\<lparr>iv_status := ''UNCERTAIN''\<rparr>) st1)
              else (v, st1))))"

definition tool_checkpoint :: "('v, 'x) run \<Rightarrow> 'v call_checkpoint option" where
  "tool_checkpoint r = (case state_tool (state r) of Inl _ \<Rightarrow> None | Inr s \<Rightarrow> ts_mcp s)"

text \<open>An acknowledged MCP input continues an admitted call.\<close>

definition continues_call :: "string \<Rightarrow> string \<Rightarrow> ('v, 'x) run \<Rightarrow> bool" where
  "continues_call tool key r \<longleftrightarrow>
     tool \<in> set [''mcp.round'', ''mcp.sampling'']
     \<and> (case tool_checkpoint r of
          None \<Rightarrow> False
        | Some c \<Rightarrow> ck_input c \<noteq> None \<and> strip_prefix (ck_key c @ '':mcp:'') key \<noteq> None)"

definition admitted_send :: "string \<Rightarrow> string \<Rightarrow> 'v \<Rightarrow> ('v, 'x) run \<Rightarrow> ('v, 'p, 'c) exec_store \<Rightarrow> bool" where
  "admitted_send tool key input r st \<longleftrightarrow>
     tool = ''mcp.round''
     \<and> (case tool_checkpoint r of
          None \<Rightarrow> False
        | Some c \<Rightarrow> (case ck_sent c of None \<Rightarrow> False | Some s \<Rightarrow> sr_key s = key \<and> sr_input s = input))
     \<and> list_ex (\<lambda>v. iv_key v = key \<and> iv_run v = run_id r \<and> iv_tool v = tool \<and> iv_input v = input) (invocations st)"

definition invocation_start ::
  "('v, 'x, 'p, 'd, 'c) state_codec \<Rightarrow> datetime \<Rightarrow> uuid \<Rightarrow> ('v, 'x) run \<Rightarrow> string \<Rightarrow> string \<Rightarrow> 'v \<Rightarrow> bool
     \<Rightarrow> ('v, 'p, 'c) exec_store \<Rightarrow> failure + 'v invocation \<times> ('v, 'p, 'c) exec_store" where
  "invocation_start C now worker r key tool input replay_safe st =
     and_then (if \<not> continues_call tool key r \<and> \<not> admitted_send tool key input r st
               then ensure_response_current now (run_id r) worker (run_included_input_seq r) st else Inr ()) (\<lambda>_.
     and_then (persist_tool_input C now worker r st) (\<lambda>st1.
     start_invocation_in r key tool input replay_safe st1))"

text \<open>The calls of a Tool Batch are admitted together; each is a key, a tool and its input.\<close>

fun start_each ::
  "('v, 'x) run \<Rightarrow> (string \<times> string \<times> 'v) list \<Rightarrow> ('v, 'p, 'c) exec_store
     \<Rightarrow> failure + 'v invocation list \<times> ('v, 'p, 'c) exec_store" where
  "start_each r [] st = Inr ([], st)"
| "start_each r ((key, tool, input) # calls) st =
     and_then (start_invocation_in r key tool input True st) (\<lambda>(v, st1).
     and_then (start_each r calls st1) (\<lambda>(vs, st2). Inr (v # vs, st2)))"

definition invocation_start_batch ::
  "('v, 'x, 'p, 'd, 'c) state_codec \<Rightarrow> datetime \<Rightarrow> uuid \<Rightarrow> ('v, 'x) run \<Rightarrow> (string \<times> string \<times> 'v) list
     \<Rightarrow> ('v, 'p, 'c) exec_store \<Rightarrow> failure + 'v invocation list \<times> ('v, 'p, 'c) exec_store" where
  "invocation_start_batch C now worker r calls st =
     and_then (ensure_response_current now (run_id r) worker (run_included_input_seq r) st) (\<lambda>_.
     and_then (persist_tool_input C now worker r st) (\<lambda>st1. start_each r calls st1))"

definition started :: "uuid \<Rightarrow> string \<Rightarrow> 'v invocation \<Rightarrow> bool" where
  "started run key v \<longleftrightarrow> iv_run v = run \<and> iv_key v = key \<and> iv_status v = ''STARTED''"

definition connection_refused ::
  "('v, 'x, 'p, 'd, 'c) state_codec \<Rightarrow> datetime \<Rightarrow> uuid \<Rightarrow> ('v, 'x) run \<Rightarrow> string \<Rightarrow> ('v, 'p, 'c) exec_store
     \<Rightarrow> failure + ('v, 'p, 'c) exec_store" where
  "connection_refused C now worker r key st =
     and_then (persist_tool_input C now worker r st) (\<lambda>st1.
     Inr (st1\<lparr>invocations := filter (\<lambda>v. \<not> started (run_id r) key v) (invocations st1)\<rparr>))"

definition completes :: "uuid \<Rightarrow> string \<Rightarrow> 'v invocation \<Rightarrow> bool" where
  "completes run key v \<longleftrightarrow> iv_key v = key \<and> iv_run v = run \<and> iv_status v \<noteq> ''COMPLETED''"

definition complete_invocation ::
  "uuid \<Rightarrow> string \<Rightarrow> 'v \<Rightarrow> ('v, 'p, 'c) exec_store \<Rightarrow> bool \<times> ('v, 'p, 'c) exec_store" where
  "complete_invocation run key result st =
     (affected (completes run key) (invocations st) = 1,
      update_invocation (completes run key)
        (\<lambda>v. v\<lparr>iv_status := ''COMPLETED'', iv_result := Some result, iv_delivery_pending := False\<rparr>) st)"

text \<open>Completing a row records the event in the same transaction.\<close>

definition complete_and_record ::
  "uuid \<Rightarrow> string \<Rightarrow> 'v \<Rightarrow> ('v, 'p, 'c) exec_store \<Rightarrow> ('v, 'p, 'c) exec_store" where
  "complete_and_record run key result st =
     (let (completed, st1) = complete_invocation run key result st
      in if completed then emit run ''tool.completed'' st1 else st1)"

definition invocation_not_delivered ::
  "datetime \<Rightarrow> uuid \<Rightarrow> ('v, 'x) run \<Rightarrow> string \<Rightarrow> 'v \<Rightarrow> ('v, 'p, 'c) exec_store
     \<Rightarrow> failure + nat \<times> ('v, 'p, 'c) exec_store" where
  "invocation_not_delivered now worker r key failure_value st =
     and_then (refuse_if (\<not> hold_worker now (run_id r) worker st)
       (FConflict ''worker lease lost while recording tool delivery'')) (\<lambda>_.
     case List.find (started (run_id r) key) (invocations st) of
       None \<Rightarrow> Inl (NotFound ''database row'')
     | Some v \<Rightarrow>
         let count = iv_delivery_failures v + 1;
             st1 = update_invocation (started (run_id r) key)
                     (\<lambda>u. u\<lparr>iv_delivery_failures := iv_delivery_failures u + 1, iv_delivery_pending := True\<rparr>) st
         in and_then (refuse_if (count < 0) (FConflict ''invalid tool delivery count'')) (\<lambda>_.
            Inr (nat count,
              if unat OUTAGE_RETRIES < nat count then complete_and_record (run_id r) key failure_value st1 else st1)))"

definition invocation_answer_lost ::
  "datetime \<Rightarrow> uuid \<Rightarrow> ('v, 'x) run \<Rightarrow> string \<Rightarrow> ('v, 'p, 'c) exec_store \<Rightarrow> failure + ('v, 'p, 'c) exec_store" where
  "invocation_answer_lost now worker r key st =
     and_then (refuse_if (\<not> hold_worker now (run_id r) worker st)
       (FConflict ''worker lease lost while recording lost tool answer'')) (\<lambda>_.
     and_then (refuse_if (affected (started (run_id r) key) (invocations st) \<noteq> 1)
       (FConflict ''tool invocation is not started'')) (\<lambda>_.
     Inr (update_invocation (started (run_id r) key)
       (\<lambda>v. v\<lparr>iv_uncertain_reason := Some ''answer_lost'', iv_delivery_pending := False\<rparr>) st)))"

text \<open>\<open>expired\<close> is the tombstone of a research result whose account terms ended.\<close>

definition finish_invocation ::
  "(uuid \<Rightarrow> string \<Rightarrow> 'v \<Rightarrow> 'v option) \<Rightarrow> datetime \<Rightarrow> uuid \<Rightarrow> ('v, 'x) run \<Rightarrow> string \<Rightarrow> 'v \<Rightarrow> ('v, 'p, 'c) exec_store
     \<Rightarrow> failure + 'v \<times> ('v, 'p, 'c) exec_store" where
  "finish_invocation expired now worker r key result st =
     and_then (refuse_if (\<not> hold_worker now (run_id r) worker st)
       (FConflict ''worker lease lost while recording tool result'')) (\<lambda>_.
     let result' = (case expired (run_id r) key result of None \<Rightarrow> result | Some tombstone \<Rightarrow> tombstone)
     in Inr (result', complete_and_record (run_id r) key result' st))"

text \<open>The wait for a reconciliation: the row of the Run that \<open>reconciliation_request\<close> writes.\<close>

definition reconciliation_wait ::
  "('v, 'x, 'p, 'd, 'c) state_codec \<Rightarrow> datetime \<Rightarrow> uuid \<Rightarrow> uuid \<Rightarrow> string \<Rightarrow> ('v, 'x) run \<Rightarrow> ('v, 'p, 'c) exec_store
     \<Rightarrow> failure + ('v, 'x) run \<times> ('v, 'p, 'c) exec_store" where
  "reconciliation_wait C now worker request key r st =
     and_then (domain (state_tool (state r))) (\<lambda>tool.
     let r' = r\<lparr>state := RunWaiting (Reconciliation request key tool)\<rparr>; P = worker_lease now (run_id r) worker
     in and_then (domain (stored_pending C r')) (\<lambda>pending.
        and_then (refuse_if (affected P (run_rows st) \<noteq> 1) (FConflict ''worker lease lost'')) (\<lambda>_.
        Inr (r', st\<lparr>run_rows := update_where P (\<lambda>m. m\<lparr>raw_pending := pending, md_phase := PWaiting\<rparr>) (run_rows st)\<rparr>))))"

section \<open>Redaction of research results\<close>

datatype research_operation = OpSearch | OpFetch | OpFind | OpView

definition operation_ALL :: "research_operation list" where
  "operation_ALL = [OpSearch, OpFetch, OpFind, OpView]"

fun research_operation_str :: "research_operation \<Rightarrow> string" where
  "research_operation_str OpSearch = ''search''"
| "research_operation_str OpFetch = ''fetch''"
| "research_operation_str OpFind = ''find''"
| "research_operation_str OpView = ''view''"

definition RESULT_CONTRACT :: string where "RESULT_CONTRACT = ''aidash.research/1''"

text \<open>The JSON values of the tombstones, and the operations on JSON values.\<close>

record 'v research_json =
  rj_json :: "'v json_ops"
  revoked_result :: "research_operation \<Rightarrow> 'v"
  expired_result :: "research_operation \<Rightarrow> 'v"
  revoked_arguments :: 'v

text \<open>\<open>json ->> key\<close>, and the test that a result is one of an operation: its contract marker and operation.\<close>

definition json_text :: "'v research_json \<Rightarrow> 'v \<Rightarrow> string \<Rightarrow> string option" where
  "json_text R result key = as_str (rj_json R) (json_field (rj_json R) result key)"

definition research_result :: "'v research_json \<Rightarrow> research_operation \<Rightarrow> 'v \<Rightarrow> bool" where
  "research_result R op result \<longleftrightarrow>
     json_text R result ''contract'' = Some RESULT_CONTRACT \<and> json_text R result ''operation'' = Some (research_operation_str op)"

definition stored_research :: "'v research_json \<Rightarrow> research_operation \<Rightarrow> 'v invocation \<Rightarrow> bool" where
  "stored_research R op v \<longleftrightarrow> (case iv_result v of None \<Rightarrow> False | Some result \<Rightarrow> research_result R op result)"

text \<open>
  The revocation redacts the rows of one Run, or with none those of every revoked Run, operation by
  operation; then the inputs of the calls without a result that a research attempt, a Run and a key,
  names. It returns the number of rows it changed as a \<open>u32\<close>.
\<close>

definition revoked_scope :: "uuid option \<Rightarrow> uuid list \<Rightarrow> 'v invocation \<Rightarrow> bool" where
  "revoked_scope run revoked v \<longleftrightarrow> (case run of Some i \<Rightarrow> iv_run v = i | None \<Rightarrow> iv_run v \<in> set revoked)"

definition revocable :: "'v research_json \<Rightarrow> uuid option \<Rightarrow> uuid list \<Rightarrow> research_operation \<Rightarrow> 'v invocation \<Rightarrow> bool" where
  "revocable R run revoked op v \<longleftrightarrow>
     stored_research R op v
     \<and> (iv_result v \<noteq> Some (revoked_result R op) \<or> iv_input v \<noteq> revoked_arguments R)
     \<and> revoked_scope run revoked v"

definition attempted :: "'v research_json \<Rightarrow> uuid option \<Rightarrow> uuid list \<Rightarrow> (uuid \<times> string) list \<Rightarrow> 'v invocation \<Rightarrow> bool" where
  "attempted R run revoked tries v \<longleftrightarrow>
     iv_result v = None \<and> iv_input v \<noteq> revoked_arguments R \<and> (iv_run v, iv_key v) \<in> set tries
     \<and> revoked_scope run revoked v"

definition revoke_invocations ::
  "'v research_json \<Rightarrow> uuid option \<Rightarrow> uuid list \<Rightarrow> (uuid \<times> string) list \<Rightarrow> ('v, 'p, 'c) exec_store
     \<Rightarrow> nat \<times> ('v, 'p, 'c) exec_store" where
  "revoke_invocations R run revoked tries st =
     (let (removed, st1) =
            fold (\<lambda>op (n, s).
              (n + affected (revocable R run revoked op) (invocations s),
               update_invocation (revocable R run revoked op)
                 (\<lambda>v. v\<lparr>iv_result := Some (revoked_result R op), iv_input := revoked_arguments R\<rparr>) s))
              operation_ALL (0, st)
      in (min (removed + affected (attempted R run revoked tries) (invocations st1)) (2 ^ 32 - 1),
          update_invocation (attempted R run revoked tries) (\<lambda>v. v\<lparr>iv_input := revoked_arguments R\<rparr>) st1))"

definition produced_by :: "string \<Rightarrow> string option \<Rightarrow> string list \<Rightarrow> string list \<Rightarrow> bool" where
  "produced_by key document keys documents \<longleftrightarrow>
     key \<in> set keys \<or> (case document of None \<Rightarrow> False | Some d \<Rightarrow> d \<in> set documents)"

definition keys_of :: "(string \<times> research_operation) list \<Rightarrow> research_operation \<Rightarrow> string list" where
  "keys_of keys op = map fst (filter (\<lambda>(_, of_op). of_op = op) keys)"

definition expirable ::
  "'v research_json \<Rightarrow> uuid \<Rightarrow> string list \<Rightarrow> string list \<Rightarrow> research_operation \<Rightarrow> 'v invocation \<Rightarrow> bool" where
  "expirable R run keys documents op v \<longleftrightarrow>
     iv_run v = run \<and> stored_research R op v
     \<and> (case iv_result v of
          None \<Rightarrow> False
        | Some result \<Rightarrow>
            produced_by (iv_key v) (json_text R (json_field (rj_json R) result ''data'') ''document_id'') keys documents)"

text \<open>
  The expiry of the attempts of one Run, as far as it writes the journal; a snapshot is its Run, the key
  of the attempt that read it and its id. A revoked Run keeps its tombstones.
\<close>

definition expire_invocations ::
  "'v research_json \<Rightarrow> uuid \<Rightarrow> uuid list \<Rightarrow> (string \<times> research_operation) list \<Rightarrow> (uuid \<times> string option \<times> string) list
     \<Rightarrow> ('v, 'p, 'c) exec_store \<Rightarrow> ('v, 'p, 'c) exec_store" where
  "expire_invocations R run revoked keys snapshots st =
     (if run \<in> set revoked then st
      else
        let reads = keys_of keys OpFetch;
            documents = map (\<lambda>(_, _, d). d) (filter (\<lambda>(i, key, _). i = run \<and> key \<in> Some ` set reads) snapshots)
        in fold (\<lambda>op. update_invocation (expirable R run (map fst keys) documents op)
                   (\<lambda>v. v\<lparr>iv_result := Some (expired_result R op)\<rparr>)) operation_ALL st)"

section \<open>Dispatch\<close>

text \<open>What the sequential path does with an admitted invocation.\<close>

datatype 'v dispatch = UseResult 'v | Reconcile "string option" | Invoke | NoResult

definition dispatch_of :: "'v invocation \<Rightarrow> 'v dispatch" where
  "dispatch_of v =
     (if iv_status v = ''UNCERTAIN'' then Reconcile (iv_uncertain_reason v)
      else if iv_status v = ''COMPLETED''
      then (case iv_result v of None \<Rightarrow> NoResult | Some result \<Rightarrow> UseResult result)
      else Invoke)"

text \<open>What a tool's call returns, and what \<open>tool_delivery_result\<close> makes of it.\<close>

datatype 'v tool_result =
    Answer 'v
  | RejectedCall string
  | ToolNotDelivered string
  | AnswerLost string
  | OtherToolFailure failure

datatype tool_failure = ToolRetry string nat | ToolExternal string | ToolFailure failure

record 'v tool_json =
  error_value :: "string \<Rightarrow> 'v"
  not_delivered_value :: "string \<Rightarrow> 'v"

definition tool_delivery_result ::
  "'v tool_json \<Rightarrow> datetime \<Rightarrow> uuid \<Rightarrow> ('v, 'x) run \<Rightarrow> string \<Rightarrow> 'v tool_result \<Rightarrow> ('v, 'p, 'c) exec_store
     \<Rightarrow> (tool_failure + 'v) \<times> ('v, 'p, 'c) exec_store" where
  "tool_delivery_result J now worker r key result st =
     (case result of
        Answer value \<Rightarrow> (Inr value, st)
      | RejectedCall message \<Rightarrow> (Inr (error_value J message), st)
      | ToolNotDelivered message \<Rightarrow>
          (case invocation_not_delivered now worker r key (not_delivered_value J message) st of
             Inl f \<Rightarrow> (Inl (ToolFailure f), st)
           | Inr (count, st1) \<Rightarrow>
               if unat OUTAGE_RETRIES < count then (Inr (not_delivered_value J message), st1)
               else (Inl (ToolRetry message count), st1))
      | AnswerLost message \<Rightarrow>
          (case invocation_answer_lost now worker r key st of
             Inl f \<Rightarrow> (Inl (ToolFailure f), st)
           | Inr st1 \<Rightarrow> (Inl (ToolExternal message), st1))
      | OtherToolFailure f \<Rightarrow> (Inl (ToolFailure f), st))"

end
