(* ===== verification/Execution.thy ===== *)
theory Execution
  imports Activation_Props Invocations
begin

text \<open>
  The execution of Runs as one system: scans and notifications that claim Runs, the writes of workers,
  the journal of tool invocations, the calls in flight, and everybody else who writes to the tables,
  in all interleavings and with arbitrary transaction clocks. A worker may stop at any point, and a
  call it sent may still take effect at any later time.
\<close>

section \<open>The system\<close>

datatype lease_act = Took uuid | Wrote uuid

text \<open>
  A call of a tool that was sent: it may still take effect, has taken effect, or the transport proved
  that it never will.
\<close>

datatype call_phase = InFlight | Executed | Undelivered

text \<open>
  \<open>lease_log\<close> records, Run by Run, the tokens that took its lease and those that wrote its row;
  \<open>sent_calls\<close> the calls of tools by token and key; \<open>effects\<close> the keys of the calls that took effect.
\<close>

record ('v, 'p, 'c) exec_world =
  ex_store :: "('v, 'p, 'c) exec_store"
  lease_log :: "(uuid \<times> lease_act) list"
  sent_calls :: "(uuid \<times> string \<times> call_phase) list"
  effects :: "string list"

definition changed_ids :: "('p, 'c) raw_run list \<Rightarrow> ('p, 'c) raw_run list \<Rightarrow> uuid list" where
  "changed_ids rows rows' = map (\<lambda>(x, _). md_id x) (filter (\<lambda>(x, y). y \<noteq> x) (zip rows rows'))"

text \<open>The transactions that take a lease with a token.\<close>

inductive taking ::
  "('v, 'x, 'p, 'd, 'c) state_codec \<Rightarrow> uuid \<Rightarrow> ('v, 'p, 'c) exec_store \<Rightarrow> ('v, 'p, 'c) exec_store \<Rightarrow> bool" for C token st where
  take_lease: "lease C supported node locked now token secs target scanned st = Inr (claimed, c, st') \<Longrightarrow> taking C token st st'"
| take_claim: "claim C supported node locked now token secs e st = Inr (h, st') \<Longrightarrow> taking C token st st'"
| take_recovery: "recover_lease C supported node locked now token i secs scanned st = Inr (claimed, c, st') \<Longrightarrow> taking C token st st'"
| take_delivery: "claim_failure_delivery C delivers locked now token secs scanned st = (d, c, st') \<Longrightarrow> taking C token st st'"

text \<open>The transactions of the worker that holds a token, apart from those of its tool calls.\<close>

inductive writing ::
  "('v, 'x, 'p, 'd, 'c) state_codec \<Rightarrow> ('v, 'x, 's) save_env \<Rightarrow> (string \<Rightarrow> bool) \<Rightarrow> uuid
     \<Rightarrow> ('v, 'p, 'c) exec_store \<Rightarrow> ('v, 'p, 'c) exec_store \<Rightarrow> bool" for C S safe token st where
  write_renew: "renew admits now i token secs st = (held, st') \<Longrightarrow> writing C S safe token st st'"
| write_begin: "begin_step C now token r st = (res, st') \<Longrightarrow> writing C S safe token st st'"
| write_release: "writing C S safe token st (release_worker now i token st)"
| write_save: "save_run C S now token kind r st = Inr st' \<Longrightarrow> writing C S safe token st st'"
| write_pause: "pause_for_execution now i token why kind noted st = Inr st' \<Longrightarrow> writing C S safe token st st'"
| write_delivered: "finish_failure_delivery C clock now owned target token res st = Inr st' \<Longrightarrow> writing C S safe token st st'"
| write_wait: "reconciliation_wait C now token request key r st = Inr (r', st') \<Longrightarrow> writing C S safe token st st'"
| write_lost: "invocation_answer_lost now token (r :: ('v, 'x) run) key st = Inr st' \<Longrightarrow> writing C S safe token st st'"
| write_finish: "finish_invocation expired now token (r :: ('v, 'x) run) key result st = Inr (v, st') \<Longrightarrow> writing C S safe token st st'"
| write_start: "invocation_start C now token r key tool input (safe key) st = Inr (v, st') \<Longrightarrow> dispatch_of v \<noteq> Invoke
    \<Longrightarrow> writing C S safe token st st'"
| write_batch: "invocation_start_batch C now token r calls st = Inr (vs, st')
    \<Longrightarrow> list_all (\<lambda>(key, _, _). safe key) calls \<Longrightarrow> writing C S safe token st st'"

text \<open>The maintenance of research results: revocations, their sweeps, and expired account terms.\<close>

inductive redacting ::
  "'v research_json \<Rightarrow> ('v, 'p, 'c) exec_store \<Rightarrow> ('v, 'p, 'c) exec_store \<Rightarrow> bool" for R st where
  redact_revoked: "revoke_invocations R run revoked tries st = (removed, st') \<Longrightarrow> redacting R st st'"
| redact_expired: "redacting R st (expire_invocations R run revoked keys snapshots st)"

text \<open>
  Everybody else: control decisions, inputs, new and removed Runs, obligations. They leave the rows of
  the journal and the leases of Runs alone, and a new Run is not leased. Workers and the maintenance of
  research results are the only writers of the journal in the sources; the removal of a whole Tenant or
  Node, with its Runs and their journal, is not modelled.
\<close>

definition elsewhere :: "('v, 'p, 'c) exec_store \<Rightarrow> ('v, 'p, 'c) exec_store \<Rightarrow> bool" where
  "elsewhere st st' \<longleftrightarrow>
     distinct (map md_id (run_rows st')) \<and> invocations st' = invocations st
     \<and> (\<forall>m' \<in> set (run_rows st'). md_lease_owner m' = None
          \<or> (\<exists>m \<in> set (run_rows st). md_id m = md_id m' \<and> md_lease_owner m = md_lease_owner m' \<and> md_lease_until m = md_lease_until m'))"

definition log_of :: "(uuid \<Rightarrow> lease_act) \<Rightarrow> uuid \<Rightarrow> ('v, 'p, 'c) exec_store \<Rightarrow> ('v, 'p, 'c) exec_store \<Rightarrow> (uuid \<times> lease_act) list" where
  "log_of act token st st' = map (\<lambda>i. (i, act token)) (changed_ids (run_rows st) (run_rows st'))"

inductive exec_step ::
  "('v, 'x, 'p, 'd, 'c) state_codec \<Rightarrow> ('v, 'x, 's) save_env \<Rightarrow> 'v research_json \<Rightarrow> (string \<Rightarrow> bool)
     \<Rightarrow> ('v, 'p, 'c) exec_world \<Rightarrow> ('v, 'p, 'c) exec_world \<Rightarrow> bool" for C S R safe w where
  step_take: "taking C token (ex_store w) st'
    \<Longrightarrow> exec_step C S R safe w (w\<lparr>ex_store := st', lease_log := lease_log w @ log_of Took token (ex_store w) st'\<rparr>)"
| step_write: "writing C S safe token (ex_store w) st'
    \<Longrightarrow> exec_step C S R safe w (w\<lparr>ex_store := st', lease_log := lease_log w @ log_of Wrote token (ex_store w) st'\<rparr>)"
| step_redact: "redacting R (ex_store w) st' \<Longrightarrow> exec_step C S R safe w (w\<lparr>ex_store := st'\<rparr>)"
| step_else: "elsewhere (ex_store w) st' \<Longrightarrow> exec_step C S R safe w (w\<lparr>ex_store := st'\<rparr>)"
| step_dispatch: "invocation_start C now token r key tool input (safe key) (ex_store w) = Inr (v, st') \<Longrightarrow> dispatch_of v = Invoke
    \<Longrightarrow> exec_step C S R safe w (w\<lparr>ex_store := st', lease_log := lease_log w @ log_of Wrote token (ex_store w) st',
                                sent_calls := (token, key, InFlight) # sent_calls w\<rparr>)"
| step_execute: "(token, key, InFlight) \<in> set (sent_calls w)
    \<Longrightarrow> exec_step C S R safe w (w\<lparr>sent_calls := (token, key, Executed) # remove1 (token, key, InFlight) (sent_calls w),
                                effects := key # effects w\<rparr>)"
| step_undelivered: "(token, key, InFlight) \<in> set (sent_calls w)
    \<Longrightarrow> exec_step C S R safe w (w\<lparr>sent_calls := (token, key, Undelivered) # remove1 (token, key, InFlight) (sent_calls w)\<rparr>)"
| step_not_delivered: "(token, key, Undelivered) \<in> set (sent_calls w)
    \<Longrightarrow> invocation_not_delivered now token (r :: ('v, 'x) run) key failure_value (ex_store w) = Inr (count, st')
    \<Longrightarrow> exec_step C S R safe w (w\<lparr>ex_store := st', sent_calls := remove1 (token, key, Undelivered) (sent_calls w)\<rparr>)"
| step_refused: "(token, key, Undelivered) \<in> set (sent_calls w)
    \<Longrightarrow> connection_refused C now token r key (ex_store w) = Inr st'
    \<Longrightarrow> exec_step C S R safe w (w\<lparr>ex_store := st', lease_log := lease_log w @ log_of Wrote token (ex_store w) st',
                                sent_calls := remove1 (token, key, Undelivered) (sent_calls w)\<rparr>)"

definition exec_init :: "('v, 'p, 'c) exec_world \<Rightarrow> bool" where
  "exec_init w \<longleftrightarrow>
     distinct (map md_id (run_rows (ex_store w))) \<and> list_all (\<lambda>m. md_lease_owner m = None) (run_rows (ex_store w))
     \<and> invocations (ex_store w) = [] \<and> lease_log w = [] \<and> sent_calls w = [] \<and> effects w = []"

section \<open>Leases\<close>

text \<open>The token that last took the lease of a Run.\<close>

fun last_took :: "uuid \<Rightarrow> (uuid \<times> lease_act) list \<Rightarrow> uuid option" where
  "last_took i [] = None"
| "last_took i ((j, act) # log) =
     (case last_took i log of
        Some t \<Rightarrow> Some t
      | None \<Rightarrow> (case act of Took t \<Rightarrow> if j = i then Some t else None | Wrote _ \<Rightarrow> None))"

definition fenced :: "(uuid \<times> lease_act) list \<Rightarrow> bool" where
  "fenced log \<longleftrightarrow> (\<forall>xs i t ys. log = xs @ (i, Wrote t) # ys \<longrightarrow> last_took i xs = Some t)"

definition lease_inv :: "('v, 'p, 'c) exec_world \<Rightarrow> bool" where
  "lease_inv w \<longleftrightarrow>
     rows_ok (ex_store w)
     \<and> (\<forall>m \<in> set (run_rows (ex_store w)). \<forall>t. md_lease_owner m = Some t \<longrightarrow> last_took (md_id m) (lease_log w) = Some t)
     \<and> fenced (lease_log w)"

lemma last_took_append: "last_took i (xs @ ys) = (case last_took i ys of None \<Rightarrow> last_took i xs | Some t \<Rightarrow> Some t)"
  by (induction xs) (auto split: option.splits lease_act.splits prod.splits)

lemma last_took_all:
  "last_took i (map (\<lambda>j. (j, Took t)) is) = (if i \<in> set is then Some t else None)"
  "last_took i (map (\<lambda>j. (j, Wrote t)) is) = None"
  by (induction "is") auto

lemma fenced_Nil [simp]: "fenced []" by (simp add: fenced_def)

lemma fenced_snoc: "fenced (log @ [x]) \<longleftrightarrow> fenced log \<and> (case x of (i, Wrote t) \<Rightarrow> last_took i log = Some t | _ \<Rightarrow> True)"
proof -
  have "log @ [x] = xs @ y # ys \<longleftrightarrow> (ys = [] \<and> xs = log \<and> y = x) \<or> (\<exists>zs. ys = zs @ [x] \<and> log = xs @ y # zs)" for xs y ys
    by (cases ys rule: rev_cases) auto
  then show ?thesis unfolding fenced_def by (auto split: prod.splits lease_act.splits)
qed

lemma fenced_took: "fenced log \<Longrightarrow> fenced (log @ map (\<lambda>i. (i, Took t)) is)"
  by (induction "is" rule: rev_induct) (auto simp: fenced_snoc simp flip: append_assoc)

lemma fenced_wrote:
  "fenced log \<Longrightarrow> \<forall>i \<in> set is. last_took i log = Some t \<Longrightarrow> fenced (log @ map (\<lambda>i. (i, Wrote t)) is)"
proof (induction "is" rule: rev_induct)
  case (snoc i "is")
  then have "last_took i (log @ map (\<lambda>i. (i, Wrote t)) is) = Some t" by (simp add: last_took_append last_took_all)
  then show ?case using snoc by (auto simp: fenced_snoc simp flip: append_assoc)
qed simp

lemma changed_ids_nth:
  assumes "list_all2 R rows rows'" "m' \<in> set rows'" "distinct (map md_id rows)"
  obtains m where "m \<in> set rows" "R m m'" "md_id m \<in> set (changed_ids rows rows') \<longleftrightarrow> m' \<noteq> m"
proof -
  obtain k where k: "k < length rows'" "m' = rows' ! k" using assms(2) by (auto simp: in_set_conv_nth)
  have len: "length rows = length rows'" using assms(1) by (rule list_all2_lengthD)
  have "md_id (rows ! k) \<in> set (changed_ids rows rows') \<longleftrightarrow> (\<exists>j < length rows. md_id (rows ! j) = md_id (rows ! k) \<and> rows' ! j \<noteq> rows ! j)"
    unfolding changed_ids_def by (auto simp: in_set_zip len image_iff) (metis fst_conv snd_conv)+
  also have "\<dots> \<longleftrightarrow> m' \<noteq> rows ! k"
    using assms(3) k len by (auto simp: distinct_conv_nth)
  finally show thesis using that[of "rows ! k"] k len assms(1) by (auto simp: list_all2_conv_all_nth)
qed

lemma changed_ids_in:
  assumes "list_all2 R rows rows'" "i \<in> set (changed_ids rows rows')"
  obtains m m' where "m \<in> set rows" "md_id m = i" "R m m'" "m' \<noteq> m"
proof -
  obtain m m' where p: "(m, m') \<in> set (zip rows rows')" "m' \<noteq> m" "md_id m = i"
    using assms(2) by (auto simp: changed_ids_def)
  then have "R m m'" "m \<in> set rows" using assms(1) by (auto simp: list_all2_iff dest: set_zip_leftD)
  then show thesis using that p(2,3) by blast
qed

lemma taking_takes:
  assumes "taking C token st st'" "rows_ok st"
  shows "\<exists>now. list_all2 (takes now token) (run_rows st) (run_rows st')"
  using assms(1)
proof cases
  case take_lease
  then show ?thesis using lease_scans(1)[OF _ assms(2)] by blast
next
  case take_claim
  then show ?thesis using claim_takes[OF _ assms(2)] by blast
next
  case take_recovery
  then show ?thesis using recover_lease_takes[OF _ assms(2)] by blast
next
  case take_delivery
  then show ?thesis using claim_failure_delivery_takes[OF _ assms(2)] by blast
qed

lemma reconciliation_writes:
  "reconciliation_wait C now token request key r st = Inr (r', st') \<Longrightarrow> list_all2 (writes token) (run_rows st) (run_rows st')"
  by (auto simp: reconciliation_wait_def Let_def and_then_Inr_iff fenced_simps intro!: update_writes)

lemma run_rows_journal [simp]:
  "run_rows (update_invocation P f st) = run_rows st" "run_rows (complete_and_record run key result st) = run_rows st"
  by (simp_all add: update_invocation_def complete_and_record_def complete_invocation_def)

lemma start_invocation_rows: "start_invocation_in r key tool input b st = Inr (v, st') \<Longrightarrow> run_rows st' = run_rows st"
  by (auto simp: start_invocation_in_def admit_invocation_def Let_def and_then_Inr_iff split: option.splits if_splits)

lemma start_each_rows: "start_each r calls st = Inr (vs, st') \<Longrightarrow> run_rows st' = run_rows st"
  by (induction r calls st arbitrary: vs rule: start_each.induct) (auto simp: and_then_Inr_iff dest: start_invocation_rows)

lemma invocation_start_writes:
  "invocation_start C now token r key tool input b st = Inr (v, st') \<Longrightarrow> list_all2 (writes token) (run_rows st) (run_rows st')"
  by (auto simp: invocation_start_def and_then_Inr_iff dest!: start_invocation_rows persist_writes)

lemma start_batch_writes:
  "invocation_start_batch C now token r calls st = Inr (vs, st') \<Longrightarrow> list_all2 (writes token) (run_rows st) (run_rows st')"
  by (auto simp: invocation_start_batch_def and_then_Inr_iff dest!: start_each_rows persist_writes)

lemma connection_refused_writes:
  "connection_refused C now token r key st = Inr st' \<Longrightarrow> list_all2 (writes token) (run_rows st) (run_rows st')"
  by (auto simp: connection_refused_def and_then_Inr_iff dest!: persist_writes)

lemma writes_refl: "list_all2 (writes token) rows rows"
  by (simp add: list_all2_same writes_def)

lemma answer_lost_rows: "invocation_answer_lost now token r key st = Inr st' \<Longrightarrow> run_rows st' = run_rows st"
  by (auto simp: invocation_answer_lost_def and_then_Inr_iff)

lemma finish_invocation_rows: "finish_invocation expired now token r key result st = Inr (v, st') \<Longrightarrow> run_rows st' = run_rows st"
  by (auto simp: finish_invocation_def and_then_Inr_iff Let_def)

lemma not_delivered_rows: "invocation_not_delivered now token r key fv st = Inr (n, st') \<Longrightarrow> run_rows st' = run_rows st"
  by (auto simp: invocation_not_delivered_def and_then_Inr_iff Let_def split: option.splits if_splits)

lemma writing_writes:
  assumes "writing C S safe token st st'"
  shows "list_all2 (writes token) (run_rows st) (run_rows st')"
  using assms
proof cases
  case write_renew
  then show ?thesis by (rule renew_writes)
next
  case write_begin
  then show ?thesis by (rule begin_step_writes)
next
  case write_release
  then show ?thesis using release_writes by simp
next
  case write_save
  then show ?thesis by (rule save_run_writes)
next
  case write_pause
  then show ?thesis by (rule pause_writes)
next
  case write_delivered
  then show ?thesis by (rule finish_delivery_writes)
next
  case write_wait
  then show ?thesis by (rule reconciliation_writes)
next
  case write_lost
  then show ?thesis using answer_lost_rows writes_refl by metis
next
  case write_finish
  then show ?thesis using finish_invocation_rows writes_refl by metis
next
  case (write_start now r key tool input v)
  show ?thesis by (rule invocation_start_writes[OF write_start(1)])
next
  case (write_batch now r calls vs)
  show ?thesis by (rule start_batch_writes[OF write_batch(1)])
qed


text \<open>
  A redaction is a sequence of updates, each of which puts tombstones in the place of the research results
  of one operation, or redacts the input of calls without a result.
\<close>

definition redaction :: "'v research_json \<Rightarrow> 'v invocation \<Rightarrow> 'v invocation \<Rightarrow> bool" where
  "redaction R v v' \<longleftrightarrow>
     (\<exists>op. stored_research R op v
        \<and> (v' = v\<lparr>iv_result := Some (revoked_result R op), iv_input := revoked_arguments R\<rparr>
           \<or> v' = v\<lparr>iv_result := Some (expired_result R op)\<rparr>))
     \<or> iv_result v = None \<and> v' = v\<lparr>iv_input := revoked_arguments R\<rparr>"

inductive redact_update :: "'v research_json \<Rightarrow> ('v, 'p, 'c) exec_store \<Rightarrow> ('v, 'p, 'c) exec_store \<Rightarrow> bool" for R st where
  redact_rows: "(\<And>v. P v \<Longrightarrow> redaction R v (f v)) \<Longrightarrow> redact_update R st (update_invocation P f st)"

lemma fold_steps:
  assumes "\<And>x s. T (g s) (g (f x s))"
  shows "T\<^sup>*\<^sup>* (g s) (g (fold f xs s))"
  by (induction xs arbitrary: s) (auto intro: converse_rtranclp_into_rtranclp assms)

lemma redacting_updates: "redacting R st st' \<Longrightarrow> (redact_update R)\<^sup>*\<^sup>* st st'"
proof (induction rule: redacting.induct)
  case (redact_revoked run revoked tries removed st')
  let ?f = "\<lambda>op (n, s). (n + affected (revocable R run revoked op) (invocations s),
    update_invocation (revocable R run revoked op)
      (\<lambda>v. v\<lparr>iv_result := Some (revoked_result R op), iv_input := revoked_arguments R\<rparr>) s)"
  have "redact_update R (snd x) (snd (?f op x))" for op x
    by (cases x) (auto simp: redaction_def revocable_def intro!: redact_rows)
  from fold_steps[of "redact_update R" snd ?f, OF this, of "(0, st)" operation_ALL]
  have "(redact_update R)\<^sup>*\<^sup>* st (snd (fold ?f operation_ALL (0, st)))" by simp
  moreover have "redact_update R s (update_invocation (attempted R run revoked tries) (\<lambda>v. v\<lparr>iv_input := revoked_arguments R\<rparr>) s)" for s :: "('a, 'b, 'c) exec_store"
    by (rule redact_rows) (simp add: redaction_def attempted_def)
  ultimately show ?case using redact_revoked
    by (auto simp: revoke_invocations_def Let_def split: prod.splits intro: rtranclp.rtrancl_into_rtrancl)
next
  case (redact_expired run revoked keys snapshots)
  have "redact_update R s (update_invocation (expirable R run ks ds op) (\<lambda>v. v\<lparr>iv_result := Some (expired_result R op)\<rparr>) s)"
    for op ks ds and s :: "('a, 'b, 'c) exec_store"
    by (rule redact_rows) (auto simp: redaction_def expirable_def)
  then have "(redact_update R)\<^sup>*\<^sup>* s (fold (\<lambda>op. update_invocation (expirable R run ks ds op)
      (\<lambda>v. v\<lparr>iv_result := Some (expired_result R op)\<rparr>)) ops s)" for ks ds ops and s :: "('a, 'b, 'c) exec_store"
    by (rule fold_steps[of "redact_update R" id, unfolded id_apply])
  then show ?case by (simp add: expire_invocations_def Let_def)
qed

lemma redact_update_rows: "redact_update R st st' \<Longrightarrow> run_rows st' = run_rows st"
  by (erule redact_update.cases) simp

lemma redacting_rows: "redacting R st st' \<Longrightarrow> run_rows st' = run_rows st"
  by (drule redacting_updates, induction rule: rtranclp_induct) (auto dest: redact_update_rows)

lemma rows_ok_ids: "map md_id (run_rows st') = map md_id (run_rows st) \<Longrightarrow> rows_ok st \<Longrightarrow> rows_ok st'"
  by (simp add: rows_ok_def)

lemma writes_ids: "list_all2 (writes token) xs ys \<Longrightarrow> map md_id ys = map md_id xs"
  by (induction rule: list_all2_induct) (auto simp: writes_def)

lemma lease_inv_take:
  assumes "lease_inv w" "list_all2 (takes now token) (run_rows (ex_store w)) (run_rows st')"
  shows "lease_inv (w\<lparr>ex_store := st', lease_log := lease_log w @ log_of Took token (ex_store w) st'\<rparr>)"
proof -
  let ?log = "lease_log w @ log_of Took token (ex_store w) st'"
  have ids: "distinct (map md_id (run_rows (ex_store w)))" using assms(1) by (simp add: lease_inv_def rows_ok_def)
  have "last_took (md_id m') ?log = Some t" if m': "m' \<in> set (run_rows st')" and t: "md_lease_owner m' = Some t" for m' t
  proof -
    obtain m where m: "m \<in> set (run_rows (ex_store w))" "takes now token m m'"
        "md_id m \<in> set (changed_ids (run_rows (ex_store w)) (run_rows st')) \<longleftrightarrow> m' \<noteq> m"
      by (rule changed_ids_nth[OF assms(2) m' ids])
    show ?thesis
    proof (cases "md_id m \<in> set (changed_ids (run_rows (ex_store w)) (run_rows st'))")
      case True
      then show ?thesis using m t
        by (auto simp: last_took_append log_of_def last_took_all takes_def)
    next
      case False
      then show ?thesis using m t assms(1)
        by (auto simp: last_took_append log_of_def last_took_all lease_inv_def)
    qed
  qed
  moreover have "rows_ok st'" using assms takes_ids[OF assms(2)] rows_ok_ids by (auto simp: lease_inv_def)
  moreover have "fenced ?log" using assms(1) by (simp add: lease_inv_def log_of_def fenced_took)
  ultimately show ?thesis by (simp add: lease_inv_def)
qed

lemma lease_inv_write:
  assumes "lease_inv w" "list_all2 (writes token) (run_rows (ex_store w)) (run_rows st')"
  shows "lease_inv (w\<lparr>ex_store := st', lease_log := lease_log w @ log_of Wrote token (ex_store w) st'\<rparr>)"
proof -
  let ?log = "lease_log w @ log_of Wrote token (ex_store w) st'"
  have ids: "distinct (map md_id (run_rows (ex_store w)))" using assms(1) by (simp add: lease_inv_def rows_ok_def)
  have keep: "last_took i ?log = last_took i (lease_log w)" for i
    by (simp add: last_took_append log_of_def last_took_all)
  have "last_took (md_id m') ?log = Some t" if m': "m' \<in> set (run_rows st')" and t: "md_lease_owner m' = Some t" for m' t
  proof -
    obtain m where m: "m \<in> set (run_rows (ex_store w))" "writes token m m'" by (rule changed_ids_nth[OF assms(2) m' ids])
    then have "md_id m' = md_id m" "md_lease_owner m = Some t" using t by (auto simp: writes_def)
    then show ?thesis using m(1) assms(1) by (simp add: keep lease_inv_def)
  qed
  moreover have "\<forall>i \<in> set (changed_ids (run_rows (ex_store w)) (run_rows st')). last_took i (lease_log w) = Some token"
  proof
    fix i assume "i \<in> set (changed_ids (run_rows (ex_store w)) (run_rows st'))"
    then obtain m m' where "m \<in> set (run_rows (ex_store w))" "md_id m = i" "writes token m m'" "m' \<noteq> m"
      by (rule changed_ids_in[OF assms(2)])
    then show "last_took i (lease_log w) = Some token" using assms(1) by (auto simp: writes_def lease_inv_def)
  qed
  then have "fenced ?log" using assms(1) by (simp add: lease_inv_def log_of_def fenced_wrote)
  moreover have "rows_ok st'" using assms writes_ids[OF assms(2)] rows_ok_ids by (auto simp: lease_inv_def)
  ultimately show ?thesis by (simp add: lease_inv_def)
qed

lemma lease_inv_else:
  assumes "lease_inv w" "elsewhere (ex_store w) st'"
  shows "lease_inv (w\<lparr>ex_store := st'\<rparr>)"
proof -
  have "last_took (md_id m') (lease_log w) = Some t" if "m' \<in> set (run_rows st')" "md_lease_owner m' = Some t" for m' t
    using assms that by (fastforce simp: elsewhere_def lease_inv_def)
  then show ?thesis using assms by (auto simp: elsewhere_def lease_inv_def rows_ok_def)
qed

lemma lease_inv_same:
  "lease_inv w \<Longrightarrow> run_rows (ex_store w') = run_rows (ex_store w) \<Longrightarrow> lease_log w' = lease_log w \<Longrightarrow> lease_inv w'"
  by (simp add: lease_inv_def rows_ok_def)

lemma lease_inv_step: "lease_inv w \<Longrightarrow> exec_step C S R safe w w' \<Longrightarrow> lease_inv w'"
proof (erule exec_step.cases, goal_cases taken written redacted elsewhere dispatch execute undelivered not_delivered refusal)
  case (taken token st')
  then show ?case using taking_takes lease_inv_take by (metis lease_inv_def)
next
  case (written token st')
  then show ?case using writing_writes lease_inv_write by metis
next
  case (redacted st')
  show ?case using redacted(1) unfolding redacted(2) by (rule lease_inv_same) (simp_all add: redacting_rows[OF redacted(3)])
next
  case elsewhere
  then show ?case using lease_inv_else by simp
next
  case (dispatch now token r key tool input v st')
  have "lease_inv (w\<lparr>ex_store := st', lease_log := lease_log w @ log_of Wrote token (ex_store w) st'\<rparr>)"
    using dispatch(1) invocation_start_writes[OF dispatch(3)] by (rule lease_inv_write)
  then show ?case unfolding dispatch(2) by (rule lease_inv_same) simp_all
next
  case execute
  then show ?case by (auto elim: lease_inv_same)
next
  case undelivered
  then show ?case by (auto elim: lease_inv_same)
next
  case (not_delivered token key now r failure_value count st')
  show ?case using not_delivered(1) unfolding not_delivered(2)
    by (rule lease_inv_same) (simp_all add: not_delivered_rows[OF not_delivered(4)])
next
  case (refusal token key now r st')
  have "lease_inv (w\<lparr>ex_store := st', lease_log := lease_log w @ log_of Wrote token (ex_store w) st'\<rparr>)"
    using refusal(1) connection_refused_writes[OF refusal(4)] by (rule lease_inv_write)
  then show ?case unfolding refusal(2) by (rule lease_inv_same) simp_all
qed

lemma lease_inv_init: "exec_init w \<Longrightarrow> lease_inv w"
  by (auto simp: exec_init_def lease_inv_def rows_ok_def list_all_iff)

interpretation fencing: invariant_system exec_init "exec_step C S R safe" lease_inv for C S R safe
  by unfold_locales (auto intro: lease_inv_init lease_inv_step)


section \<open>The journal\<close>

definition calls_for :: "string \<Rightarrow> ('v, 'p, 'c) exec_world \<Rightarrow> call_phase list" where
  "calls_for key w = map (\<lambda>(_, _, p). p) (filter (\<lambda>(_, k, _). k = key) (sent_calls w))"

text \<open>A row that would let a call that is not safe to repeat be sent.\<close>

definition resendable :: "'v invocation option \<Rightarrow> bool" where
  "resendable row \<longleftrightarrow>
     (case row of None \<Rightarrow> True | Some v \<Rightarrow> iv_replay_safe v \<or> iv_status v = ''STARTED'' \<and> iv_delivery_pending v)"

definition journal_ok :: "(string \<Rightarrow> bool) \<Rightarrow> ('v, 'p, 'c) exec_store \<Rightarrow> bool" where
  "journal_ok safe st \<longleftrightarrow>
     distinct (map iv_key (invocations st)) \<and> list_all (\<lambda>v. iv_replay_safe v \<longrightarrow> safe (iv_key v)) (invocations st)"

definition journal_inv :: "(string \<Rightarrow> bool) \<Rightarrow> ('v, 'p, 'c) exec_world \<Rightarrow> bool" where
  "journal_inv safe w \<longleftrightarrow>
     journal_ok safe (ex_store w)
     \<and> (\<forall>k. \<not> safe k \<longrightarrow>
          length (calls_for k w) \<le> 1
          \<and> (calls_for k w \<noteq> [] \<longrightarrow> \<not> resendable (find_invocation k (ex_store w)))
          \<and> count_list (effects w) k = count_list (calls_for k w) Executed)"

text \<open>
  What every journal operation may do to the row of another key, or of a key it does not send: a row
  that could not be sent again stays, and cannot be sent again.
\<close>

definition keeps_unsent :: "string \<Rightarrow> ('v, 'p, 'c) exec_store \<Rightarrow> ('v, 'p, 'c) exec_store \<Rightarrow> bool" where
  "keeps_unsent k st st' \<longleftrightarrow> (\<not> resendable (find_invocation k st) \<longrightarrow> \<not> resendable (find_invocation k st'))"

lemma find_update_where:
  assumes "\<And>v. P v \<Longrightarrow> iv_key (f v) = iv_key v"
  shows "List.find (\<lambda>v. iv_key v = k) (update_where P f vs)
    = map_option (\<lambda>v. if P v then f v else v) (List.find (\<lambda>v. iv_key v = k) vs)"
  using assms by (induction vs) (auto simp: update_where_def)

lemma find_update_invocation:
  "(\<And>v. P v \<Longrightarrow> iv_key (f v) = iv_key v) \<Longrightarrow>
     find_invocation k (update_invocation P f st) = map_option (\<lambda>v. if P v then f v else v) (find_invocation k st)"
  by (simp add: find_invocation_def update_invocation_def find_update_where)

lemma journal_ok_update:
  assumes "\<And>v. P v \<Longrightarrow> iv_key (f v) = iv_key v" "\<And>v. P v \<Longrightarrow> iv_replay_safe (f v) = iv_replay_safe v" "journal_ok safe st"
  shows "journal_ok safe (update_invocation P f st)"
proof -
  have keys: "map iv_key (update_where P f vs) = map iv_key vs" for vs using assms(1) by (simp add: update_where_def)
  have "list_all (\<lambda>v. iv_replay_safe v \<longrightarrow> safe (iv_key v)) (update_where P f (invocations st))"
    using assms by (auto simp: journal_ok_def list_all_iff update_where_def)
  then show ?thesis using assms(3) by (simp add: journal_ok_def update_invocation_def keys)
qed

lemma find_invocation_Some: "find_invocation k st = Some v \<Longrightarrow> v \<in> set (invocations st) \<and> iv_key v = k"
  by (auto simp: find_invocation_def find_Some_iff)

lemma find_invocation_None: "find_invocation k st = None \<longleftrightarrow> k \<notin> iv_key ` set (invocations st)"
  by (auto simp: find_invocation_def find_None_iff)

lemma find_emit [simp]: "find_invocation k (emit i kind st) = find_invocation k st" "journal_ok safe (emit i kind st) = journal_ok safe st"
  by (simp_all add: find_invocation_def journal_ok_def emit_def)

text \<open>The journal after a call's admission.\<close>

lemma start_invocation_journal:
  assumes "start_invocation_in r key tool input b st = Inr (v, st')" "journal_ok safe st" "b \<longrightarrow> safe key"
  shows "journal_ok safe st'" "k \<noteq> key \<Longrightarrow> find_invocation k st' = find_invocation k st"
    "dispatch_of v = Invoke \<Longrightarrow> \<not> b \<Longrightarrow> \<not> safe key \<Longrightarrow> resendable (find_invocation key st)"
    "\<not> safe key \<Longrightarrow> dispatch_of v = Invoke \<or> keeps_unsent key st st'"
    "\<not> safe key \<Longrightarrow> dispatch_of v = Invoke \<Longrightarrow> \<not> resendable (find_invocation key st')"
proof -
  have new: "journal_ok safe (st\<lparr>invocations := invocations st @ [u]\<rparr>)"
    if "find_invocation key st = None" "iv_key u = key" "iv_replay_safe u = b" for u
    using that assms(2,3) by (auto simp: journal_ok_def find_invocation_None)
  have app: "find_invocation j (st\<lparr>invocations := invocations st @ [u]\<rparr>) =
      (case find_invocation j st of Some x \<Rightarrow> Some x | None \<Rightarrow> if iv_key u = j then Some u else None)" for j u
  proof -
    have "List.find P (xs @ [u]) = (case List.find P xs of Some x \<Rightarrow> Some x | None \<Rightarrow> if P u then Some u else None)" for P :: "_ \<Rightarrow> bool" and xs
      by (induction xs) auto
    then show ?thesis by (simp add: find_invocation_def)
  qed
  note defs = start_invocation_in_def admit_invocation_def Let_def and_then_Inr_iff new_invocation_def
  show "journal_ok safe st'"
    using assms(1,2) new by (auto simp: defs split: option.splits if_splits intro!: journal_ok_update)
  show "k \<noteq> key \<Longrightarrow> find_invocation k st' = find_invocation k st"
    using assms(1)
    by (auto simp: defs app find_update_invocation split: option.splits if_splits dest!: find_invocation_Some
        intro!: option.map_ident_strong)
  have unsafe: "\<not> iv_replay_safe u" if "find_invocation key st = Some u" "\<not> safe key" for u
    using that assms(2) by (auto simp: journal_ok_def list_all_iff dest!: find_invocation_Some)
  show "dispatch_of v = Invoke \<Longrightarrow> \<not> b \<Longrightarrow> \<not> safe key \<Longrightarrow> resendable (find_invocation key st)"
    using assms(1) unsafe by (auto simp: defs resendable_def dispatch_of_def split: option.splits if_splits)
  show "\<not> safe key \<Longrightarrow> dispatch_of v = Invoke \<or> keeps_unsent key st st'"
    using assms(1) unsafe
    by (auto simp: defs resendable_def dispatch_of_def keeps_unsent_def find_update_invocation split: option.splits if_splits)
  show "\<not> safe key \<Longrightarrow> dispatch_of v = Invoke \<Longrightarrow> \<not> resendable (find_invocation key st')"
    using assms(1,3) unsafe
    by (auto simp: defs resendable_def dispatch_of_def app find_update_invocation split: option.splits if_splits
        dest: find_invocation_Some)
qed


text \<open>The journal after the other operations.\<close>

lemma same_journal:
  "invocations st' = invocations st \<Longrightarrow> find_invocation k st' = find_invocation k st"
  "invocations st' = invocations st \<Longrightarrow> journal_ok safe st' = journal_ok safe st"
  by (simp_all add: find_invocation_def journal_ok_def)

lemma find_complete:
  "find_invocation k (complete_and_record run key result st) =
     map_option (\<lambda>v. if completes run key v
       then v\<lparr>iv_status := ''COMPLETED'', iv_result := Some result, iv_delivery_pending := False\<rparr> else v) (find_invocation k st)"
  by (simp add: complete_and_record_def complete_invocation_def find_update_invocation)

lemma complete_journal:
  assumes "journal_ok safe st"
  shows "journal_ok safe (complete_and_record run key result st)" "keeps_unsent k st (complete_and_record run key result st)"
proof -
  show "journal_ok safe (complete_and_record run key result st)"
  proof -
    have "journal_ok safe (update_invocation (completes run key)
        (\<lambda>v. v\<lparr>iv_status := ''COMPLETED'', iv_result := Some result, iv_delivery_pending := False\<rparr>) st)"
      by (rule journal_ok_update) (use assms in simp_all)
    then show ?thesis by (simp add: complete_and_record_def complete_invocation_def)
  qed
  show "keeps_unsent k st (complete_and_record run key result st)"
    by (cases "find_invocation k st") (simp_all add: keeps_unsent_def resendable_def find_complete)
qed

lemma persist_journal: "persist_tool_input C now token r st = Inr st' \<Longrightarrow> invocations st' = invocations st"
  by (auto simp: persist_tool_input_def Let_def and_then_Inr_iff)

definition keeps_journal :: "(string \<Rightarrow> bool) \<Rightarrow> ('v, 'p, 'c) exec_store \<Rightarrow> ('v, 'p, 'c) exec_store \<Rightarrow> bool" where
  "keeps_journal safe st st' \<longleftrightarrow> journal_ok safe st' \<and> (\<forall>k. \<not> safe k \<longrightarrow> keeps_unsent k st st')"

lemma keeps_journal_same: "invocations st' = invocations st \<Longrightarrow> journal_ok safe st \<Longrightarrow> keeps_journal safe st st'"
  unfolding keeps_journal_def keeps_unsent_def using same_journal[of st' st] by simp

lemma keeps_journal_trans: "keeps_journal safe st st1 \<Longrightarrow> keeps_journal safe st1 st2 \<Longrightarrow> keeps_journal safe st st2"
  by (auto simp: keeps_journal_def keeps_unsent_def)

lemma start_each_journal:
  "start_each r calls st = Inr (vs, st') \<Longrightarrow> journal_ok safe st \<Longrightarrow> list_all (\<lambda>(key, _, _). safe key) calls
     \<Longrightarrow> keeps_journal safe st st'"
proof (induction r calls st arbitrary: vs rule: start_each.induct)
  case (1 r st)
  then show ?case by (simp add: keeps_journal_same)
next
  case (2 r key tool input calls st)
  obtain v st1 vs' where s: "start_invocation_in r key tool input True st = Inr (v, st1)" "start_each r calls st1 = Inr (vs', st')"
    using "2.prems"(1) by (auto simp: and_then_Inr_iff)
  have safe: "safe key" using "2.prems"(3) by simp
  have ok: "journal_ok safe st1" using start_invocation_journal(1)[OF s(1) "2.prems"(2)] safe by simp
  moreover have "keeps_unsent k st st1" if "\<not> safe k" for k
    using start_invocation_journal(2)[OF s(1) "2.prems"(2), of k] that safe by (cases "k = key") (auto simp: keeps_unsent_def)
  ultimately have "keeps_journal safe st st1" by (simp add: keeps_journal_def)
  moreover have "keeps_journal safe st1 st'" using "2.IH" s ok "2.prems"(3) by simp
  ultimately show ?case by (rule keeps_journal_trans)
qed

lemma start_keeps_journal:
  assumes "start_invocation_in r key tool input (safe key) st = Inr (v, st')" "journal_ok safe st" "dispatch_of v \<noteq> Invoke"
  shows "keeps_journal safe st st'"
proof -
  have "keeps_unsent k st st'" if "\<not> safe k" for k
    using start_invocation_journal(2,4)[OF assms(1,2)] assms(3) that by (cases "k = key") (auto simp: keeps_unsent_def)
  then show ?thesis using start_invocation_journal(1)[OF assms(1,2)] by (simp add: keeps_journal_def)
qed

lemma journal_untouched:
  "renew admits now i token secs st = (held, st') \<Longrightarrow> invocations st' = invocations st"
  "begin_step C now token r st = (res, st') \<Longrightarrow> invocations st' = invocations st"
  "invocations (release_worker now i token st) = invocations st"
  "save_run C S now token kind r st = Inr st' \<Longrightarrow> invocations st' = invocations st"
  "pause_for_execution now i token why kind noted st = Inr st' \<Longrightarrow> invocations st' = invocations st"
  "finish_failure_delivery C clock now owned target token outcome st = Inr st' \<Longrightarrow> invocations st' = invocations st"
  "reconciliation_wait C now token request key r st = Inr (r', st') \<Longrightarrow> invocations st' = invocations st"
proof -
  show "begin_step C now token r st = (res, st') \<Longrightarrow> invocations st' = invocations st"
    by (auto simp: begin_step_def charge_isolated_step_def charge_lease_recovery_def Let_def split: if_splits)
qed (auto simp: renew_def release_worker_def save_run_def pause_for_execution_def finish_failure_delivery_def
      reconciliation_wait_def Let_def and_then_Inr_iff emit_def)

lemma claim_delivery_loop_journal:
  "claim_delivery_loop C now worker secs full ms scanned st = (claimed, c, st') \<Longrightarrow> invocations st' = invocations st"
proof (induction ms arbitrary: scanned)
  case (Cons m ms)
  then show ?case
    by (auto simp: Let_def split: sum.splits run_state.splits waiting_state.splits if_splits option.splits)
qed simp

lemma activation_journal [simp]:
  "invocations (update_activation i f st) = invocations st" "invocations (insert_activation now i why m st) = invocations st"
  by (simp_all add: update_activation_def insert_activation_def)

lemma lease_journal:
  "lease C supported node locked now token secs target scanned st = Inr (claimed, c, st') \<Longrightarrow> rows_ok st
     \<Longrightarrow> invocations st' = invocations st"
  by (drule (1) lease_scans(2)) (simp add: same_tables_def)

lemma taking_journal:
  assumes "taking C token st st'" "rows_ok st"
  shows "invocations st' = invocations st"
  using assms(1)
proof cases
  case take_lease
  then show ?thesis by (rule lease_journal[OF _ assms(2)])
next
  case take_claim
  then show ?thesis using lease_journal[OF _ assms(2), of C]
    by (auto simp: claim_def and_then_Inr_iff settle_def record_claim_def defer_obligation_def split: if_splits option.splits)
next
  case (take_recovery supported node locked now i secs scanned claimed c)
  then obtain claimed' c' st1 where l: "lease C supported node locked now token secs None scanned st = Inr (claimed', c', st1)"
    by (auto simp: recover_lease_def and_then_Inr_iff)
  then have "invocations st' = invocations st1"
    using take_recovery by (cases claimed') (auto simp: recover_lease_def record_claim_def split: option.splits)
  then show ?thesis using lease_journal[OF l assms(2)] by simp
next
  case take_delivery
  then show ?thesis unfolding claim_failure_delivery_def Let_def by (rule claim_delivery_loop_journal)
qed

lemma writing_journal:
  assumes "writing C S safe token st st'" "journal_ok safe st"
  shows "keeps_journal safe st st'"
  using assms(1)
proof cases
  case (write_lost now r key)
  have "keeps_journal safe st (update_invocation (started (run_id r) key)
      (\<lambda>v. v\<lparr>iv_uncertain_reason := Some ''answer_lost'', iv_delivery_pending := False\<rparr>) st)" (is "keeps_journal _ _ ?st")
  proof -
    have "journal_ok safe ?st" by (rule journal_ok_update) (use assms(2) in simp_all)
    moreover have "keeps_unsent k st ?st" for k
      by (cases "find_invocation k st") (simp_all add: keeps_unsent_def resendable_def find_update_invocation)
    ultimately show ?thesis by (simp add: keeps_journal_def)
  qed
  then show ?thesis using write_lost by (auto simp: invocation_answer_lost_def and_then_Inr_iff)
next
  case (write_finish expired now r key result v)
  then show ?thesis using complete_journal[OF assms(2)]
    by (auto simp: finish_invocation_def and_then_Inr_iff Let_def keeps_journal_def)
next
  case (write_start now r key tool input v)
  then obtain st1 where s: "persist_tool_input C now token r st = Inr st1" "start_invocation_in r key tool input (safe key) st1 = Inr (v, st')"
    by (auto simp: invocation_start_def and_then_Inr_iff)
  note p = keeps_journal_same[OF persist_journal[OF s(1)] assms(2)]
  then have "journal_ok safe st1" by (simp add: keeps_journal_def)
  then show ?thesis using keeps_journal_trans[OF p] start_keeps_journal[of r key tool input safe st1 v st'] s(2) write_start(2) by blast
next
  case (write_batch now r calls vs)
  then obtain st1 where s: "persist_tool_input C now token r st = Inr st1" "start_each r calls st1 = Inr (vs, st')"
    by (auto simp: invocation_start_batch_def and_then_Inr_iff)
  note p = keeps_journal_same[OF persist_journal[OF s(1)] assms(2)]
  then have "journal_ok safe st1" by (simp add: keeps_journal_def)
  then show ?thesis using keeps_journal_trans[OF p] start_each_journal[OF s(2) _ write_batch(2)] by blast
qed (use assms(2) in \<open>auto intro!: keeps_journal_same dest: journal_untouched(1,2,4-) simp: journal_untouched(3)\<close>)

text \<open>A redaction changes neither the key nor the progress of a row.\<close>

lemma redaction_frame:
  "redaction R v v' \<Longrightarrow> iv_key v' = iv_key v \<and> iv_run v' = iv_run v \<and> iv_tool v' = iv_tool v \<and> iv_status v' = iv_status v
     \<and> iv_replay_safe v' = iv_replay_safe v \<and> iv_delivery_pending v' = iv_delivery_pending v"
  by (auto simp: redaction_def)

lemma redact_update_journal:
  assumes "redact_update R st st'" "journal_ok safe st"
  shows "keeps_journal safe st st'"
  using assms(1)
proof cases
  case (redact_rows P f)
  have keep: "P v \<Longrightarrow> iv_key (f v) = iv_key v \<and> iv_status (f v) = iv_status v \<and> iv_replay_safe (f v) = iv_replay_safe v
      \<and> iv_delivery_pending (f v) = iv_delivery_pending v" for v
    using redact_rows(2) redaction_frame by blast
  have "journal_ok safe st'" unfolding redact_rows(1) by (rule journal_ok_update) (use assms(2) keep in simp_all)
  moreover have "keeps_unsent k st st'" for k
    using keep by (cases "find_invocation k st") (simp_all add: redact_rows(1) keeps_unsent_def resendable_def find_update_invocation)
  ultimately show ?thesis by (simp add: keeps_journal_def)
qed

lemma redacting_journal:
  assumes "redacting R st st'" "journal_ok safe st"
  shows "keeps_journal safe st st'"
  using redacting_updates[OF assms(1)]
proof (induction rule: rtranclp_induct)
  case base
  show ?case using assms(2) by (simp add: keeps_journal_same)
next
  case (step st1 st2)
  then have "journal_ok safe st1" by (simp add: keeps_journal_def)
  then show ?case using step redact_update_journal keeps_journal_trans by blast
qed

text \<open>The invariant step by step.\<close>

lemma journal_inv_store:
  assumes "journal_inv safe w" "keeps_journal safe (ex_store w) st'"
  shows "journal_inv safe (w\<lparr>ex_store := st', lease_log := log\<rparr>)" "journal_inv safe (w\<lparr>ex_store := st'\<rparr>)"
  using assms by (auto simp: journal_inv_def keeps_journal_def keeps_unsent_def calls_for_def)

lemma calls_for_simps:
  "calls_for k (w\<lparr>ex_store := st\<rparr>) = calls_for k w" "calls_for k (w\<lparr>lease_log := log\<rparr>) = calls_for k w"
  "calls_for k (w\<lparr>effects := es\<rparr>) = calls_for k w"
  "calls_for k (w\<lparr>sent_calls := (t, key, p) # cs\<rparr>) = (if key = k then p # calls_for k (w\<lparr>sent_calls := cs\<rparr>) else calls_for k (w\<lparr>sent_calls := cs\<rparr>))"
  by (simp_all add: calls_for_def)

lemma calls_for_remove:
  assumes "(t, key, p) \<in> set (sent_calls w)"
  shows "k \<noteq> key \<Longrightarrow> calls_for k (w\<lparr>sent_calls := remove1 (t, key, p) (sent_calls w)\<rparr>) = calls_for k w"
    "calls_for key w = [q] \<Longrightarrow> q = p" "length (calls_for key w) \<le> 1 \<Longrightarrow> calls_for key (w\<lparr>sent_calls := remove1 (t, key, p) (sent_calls w)\<rparr>) = []"
    "calls_for key w \<noteq> []"
proof -
  have mem: "p \<in> set (calls_for key w)" using assms by (force simp: calls_for_def)
  then show "calls_for key w = [q] \<Longrightarrow> q = p" "calls_for key w \<noteq> []" by auto
  show "k \<noteq> key \<Longrightarrow> calls_for k (w\<lparr>sent_calls := remove1 (t, key, p) (sent_calls w)\<rparr>) = calls_for k w"
    by (simp add: calls_for_def filter_remove1 remove1_idem)
  have "length (calls_for key (w\<lparr>sent_calls := remove1 (t, key, p) (sent_calls w)\<rparr>)) = length (calls_for key w) - 1"
    using assms by (simp add: calls_for_def filter_remove1 length_remove1)
  then show "length (calls_for key w) \<le> 1 \<Longrightarrow> calls_for key (w\<lparr>sent_calls := remove1 (t, key, p) (sent_calls w)\<rparr>) = []"
    by simp
qed

lemma single_call:
  assumes "journal_inv safe w" "(t, key, p) \<in> set (sent_calls w)" "\<not> safe key"
  shows "calls_for key w = [p]" "calls_for key (w\<lparr>sent_calls := remove1 (t, key, p) (sent_calls w)\<rparr>) = []"
proof -
  have "length (calls_for key w) \<le> 1" using assms(1,3) by (simp add: journal_inv_def)
  then show "calls_for key (w\<lparr>sent_calls := remove1 (t, key, p) (sent_calls w)\<rparr>) = []"
    by (rule calls_for_remove(3)[OF assms(2)])
  have "length (calls_for key w) = 1" using \<open>length (calls_for key w) \<le> 1\<close> calls_for_remove(4)[OF assms(2)]
    by (cases "calls_for key w") auto
  then show "calls_for key w = [p]" using calls_for_remove(2)[OF assms(2)] by (auto simp: length_Suc_conv)
qed

lemma journal_inv_log [simp]: "journal_inv safe (w\<lparr>lease_log := log\<rparr>) = journal_inv safe w"
  by (simp add: journal_inv_def calls_for_simps)

lemma journal_inv_dispatch:
  assumes "journal_inv safe w" "invocation_start C now token r key tool input (safe key) (ex_store w) = Inr (v, st')" "dispatch_of v = Invoke"
  shows "journal_inv safe (w\<lparr>ex_store := st', sent_calls := (token, key, InFlight) # sent_calls w\<rparr>)"
proof -
  obtain st1 where s: "persist_tool_input C now token r (ex_store w) = Inr st1" "start_invocation_in r key tool input (safe key) st1 = Inr (v, st')"
    using assms(2) by (auto simp: invocation_start_def and_then_Inr_iff)
  note same = same_journal[OF persist_journal[OF s(1)]]
  have ok: "journal_ok safe st1" using assms(1) by (simp add: journal_inv_def same)
  note j = start_invocation_journal[OF s(2) ok]
  have "length (calls_for k w') \<le> 1 \<and> (calls_for k w' \<noteq> [] \<longrightarrow> \<not> resendable (find_invocation k st'))
      \<and> count_list (effects w) k = count_list (calls_for k w') Executed"
    if k: "\<not> safe k" and w': "w' = w\<lparr>ex_store := st', sent_calls := (token, key, InFlight) # sent_calls w\<rparr>" for k w'
  proof (cases "k = key")
    case True
    then have "calls_for k w = []" using j(3)[OF _ assms(3)] k assms(1) by (auto simp: journal_inv_def same)
    moreover have "\<not> resendable (find_invocation k st')" using j(5)[OF _ _ assms(3)] k True by simp
    ultimately show ?thesis using assms(1) k True by (simp add: w' calls_for_simps journal_inv_def)
  next
    case False
    then have "calls_for k w' = calls_for k w" by (simp add: w' calls_for_def)
    moreover have "find_invocation k st' = find_invocation k (ex_store w)" using j(2) False by (simp add: same)
    ultimately show ?thesis using assms(1) k by (simp add: journal_inv_def)
  qed
  then show ?thesis using j(1) by (simp add: journal_inv_def)
qed

lemma journal_inv_phase:
  assumes "journal_inv safe w" "(token, key, InFlight) \<in> set (sent_calls w)"
  shows "journal_inv safe (w\<lparr>sent_calls := (token, key, Executed) # remove1 (token, key, InFlight) (sent_calls w), effects := key # effects w\<rparr>)"
    "journal_inv safe (w\<lparr>sent_calls := (token, key, Undelivered) # remove1 (token, key, InFlight) (sent_calls w)\<rparr>)"
proof -
  have c: "calls_for k (w\<lparr>sent_calls := (token, key, p) # remove1 (token, key, InFlight) (sent_calls w)\<rparr>)
      = (if k = key then [p] else calls_for k w)" if "\<not> safe k" for k p
    using single_call(2)[OF assms] calls_for_remove(1)[OF assms(2)] that by (cases "k = key") (simp_all add: calls_for_simps)
  have one: "calls_for key w = [InFlight]" if "\<not> safe key" using single_call(1)[OF assms] that .
  have "count_list (effects w) key = 0" if "\<not> safe key" using assms(1) one that by (simp add: journal_inv_def)
  moreover have "\<not> resendable (find_invocation key (ex_store w))" if "\<not> safe key" using assms(1) one that by (simp add: journal_inv_def)
  ultimately show "journal_inv safe (w\<lparr>sent_calls := (token, key, Executed) # remove1 (token, key, InFlight) (sent_calls w), effects := key # effects w\<rparr>)"
    "journal_inv safe (w\<lparr>sent_calls := (token, key, Undelivered) # remove1 (token, key, InFlight) (sent_calls w)\<rparr>)"
    using assms(1) by (auto simp: journal_inv_def c calls_for_simps(1-3))
qed

lemma journal_inv_withdrawn:
  assumes "journal_inv safe w" "(token, key, Undelivered) \<in> set (sent_calls w)" "journal_ok safe st'"
    and "\<And>k. k \<noteq> key \<Longrightarrow> keeps_unsent k (ex_store w) st'"
  shows "journal_inv safe (w\<lparr>ex_store := st', sent_calls := remove1 (token, key, Undelivered) (sent_calls w)\<rparr>)"
proof -
  have c: "calls_for k (w\<lparr>ex_store := st', sent_calls := remove1 (token, key, Undelivered) (sent_calls w)\<rparr>)
      = (if k = key then [] else calls_for k w)" if "\<not> safe k" for k
    using single_call(2)[OF assms(1,2)] calls_for_remove(1)[OF assms(2)] that
    by (cases "k = key") (simp_all add: calls_for_def)
  have one: "calls_for key w = [Undelivered]" if "\<not> safe key" using single_call(1)[OF assms(1,2)] that .
  have "count_list (effects w) key = 0" if "\<not> safe key" using assms(1) one that by (simp add: journal_inv_def)
  then show ?thesis using assms(1,3,4) by (auto simp: journal_inv_def c keeps_unsent_def)
qed

lemma not_delivered_journal:
  assumes "invocation_not_delivered now token r key failure_value st = Inr (count, st')" "journal_ok safe st"
  shows "journal_ok safe st'" "k \<noteq> key \<Longrightarrow> keeps_unsent k st st'"
proof -
  let ?st = "update_invocation (started (run_id r) key)
    (\<lambda>u. u\<lparr>iv_delivery_failures := iv_delivery_failures u + 1, iv_delivery_pending := True\<rparr>) st"
  have ok: "journal_ok safe ?st" by (rule journal_ok_update) (use assms(2) in simp_all)
  have st': "st' = ?st \<or> st' = complete_and_record (run_id r) key failure_value ?st"
    using assms(1) by (auto simp: invocation_not_delivered_def and_then_Inr_iff Let_def split: option.splits if_splits)
  then show "journal_ok safe st'" using ok complete_journal(1)[OF ok] by auto
  assume k: "k \<noteq> key"
  then have same: "find_invocation k ?st = find_invocation k st"
    by (cases "find_invocation k st") (auto simp: find_update_invocation started_def dest: find_invocation_Some)
  have "keeps_unsent k ?st (complete_and_record (run_id r) key failure_value ?st)" by (rule complete_journal(2)[OF ok])
  then show "keeps_unsent k st st'" using st' same by (auto simp: keeps_unsent_def)
qed

lemma find_unstarted:
  "k \<noteq> key \<Longrightarrow> List.find (\<lambda>v. iv_key v = k) (filter (\<lambda>v. \<not> started run key v) vs) = List.find (\<lambda>v. iv_key v = k) vs"
  by (induction vs) (auto simp: started_def)

lemma connection_refused_journal:
  assumes "connection_refused C now token r key st = Inr st'" "journal_ok safe st"
  shows "journal_ok safe st'" "k \<noteq> key \<Longrightarrow> keeps_unsent k st st'"
proof -
  have st': "invocations st' = filter (\<lambda>v. \<not> started (run_id r) key v) (invocations st)"
    using assms(1) by (auto simp: connection_refused_def and_then_Inr_iff dest: persist_journal)
  then show "journal_ok safe st'" using assms(2) by (auto simp: journal_ok_def list_all_iff distinct_map_filter)
  show "k \<noteq> key \<Longrightarrow> keeps_unsent k st st'" by (simp add: keeps_unsent_def find_invocation_def st' find_unstarted)
qed

lemma journal_inv_step: "journal_inv safe w \<Longrightarrow> lease_inv w \<Longrightarrow> exec_step C S R safe w w' \<Longrightarrow> journal_inv safe w'"
proof (erule exec_step.cases, goal_cases taken written redacted elsewhere dispatch execute undelivered not_delivered refusal)
  case (taken token st')
  then have "keeps_journal safe (ex_store w) st'"
    using taking_journal[of C token "ex_store w" st'] by (auto simp: journal_inv_def lease_inv_def intro: keeps_journal_same)
  then show ?case using journal_inv_store(1)[OF taken(1)] taken(3) by simp
next
  case (written token st')
  then have "keeps_journal safe (ex_store w) st'" using writing_journal by (auto simp: journal_inv_def)
  then show ?case using journal_inv_store(1)[OF written(1)] written(3) by simp
next
  case (redacted st')
  then have "keeps_journal safe (ex_store w) st'" using redacting_journal by (auto simp: journal_inv_def)
  then show ?case using journal_inv_store(2)[OF redacted(1)] redacted(3) by simp
next
  case (elsewhere st')
  then have "keeps_journal safe (ex_store w) st'" by (auto simp: journal_inv_def elsewhere_def intro: keeps_journal_same)
  then show ?case using journal_inv_store(2)[OF elsewhere(1)] elsewhere(3) by simp
next
  case (dispatch now token r key tool input v st')
  then show ?case using journal_inv_dispatch[OF dispatch(1) dispatch(4,5)]
    by (simp add: journal_inv_def calls_for_def)
next
  case execute
  then show ?case using journal_inv_phase(1) by simp
next
  case undelivered
  then show ?case using journal_inv_phase(2) by simp
next
  case (not_delivered token key now r failure_value count st')
  then have "journal_ok safe (ex_store w)" by (simp add: journal_inv_def)
  then show ?case unfolding not_delivered(3)
    by (intro journal_inv_withdrawn not_delivered_journal[OF not_delivered(5)] not_delivered(1,4))
next
  case (refusal token key now r st')
  then have "journal_ok safe (ex_store w)" by (simp add: journal_inv_def)
  then have "journal_inv safe (w\<lparr>ex_store := st', sent_calls := remove1 (token, key, Undelivered) (sent_calls w)\<rparr>)"
    by (intro journal_inv_withdrawn connection_refused_journal[OF refusal(5)] refusal(1,4))
  then show ?case by (simp add: refusal(3) journal_inv_def calls_for_def)
qed

lemma journal_inv_init: "exec_init w \<Longrightarrow> journal_inv safe w"
  by (simp add: exec_init_def journal_inv_def journal_ok_def calls_for_def)

interpretation journal: invariant_system exec_init "exec_step C S R safe" "\<lambda>w. journal_inv safe w \<and> lease_inv w" for C S R safe
  by unfold_locales (auto intro: journal_inv_init lease_inv_init journal_inv_step lease_inv_step)

section \<open>Properties\<close>

text \<open>
  Property C4. In every interleaving of scans, notifications, worker transactions and other writers,
  a worker writes the row of a Run only while its own claim is the last one that took the Run's lease:
  a worker whose lease was taken over writes nothing any more.
\<close>

theorem workers_fenced:
  assumes "reaches exec_init (exec_step C S R safe) w" "lease_log w = xs @ (i, Wrote t) # ys"
  shows "last_took i xs = Some t"
  using fencing.reachable_inv[OF assms(1)] assms(2) unfolding lease_inv_def fenced_def by blast

text \<open>
  Property C3. However workers stop, are replaced, lose answers or run behind: a tool call that is
  not safe to repeat takes effect at most once under its idempotency key, and while a call sent under
  the key may take effect or has taken effect, the journal lets nobody send it again.
\<close>

theorem effect_at_most_once:
  assumes "reaches exec_init (exec_step C S R safe) w" "\<not> safe key"
  shows "count_list (effects w) key \<le> 1
    \<and> (calls_for key w \<noteq> [] \<and> invocation_start C now token r key tool input (safe key) (ex_store w) = Inr (v, st')
         \<longrightarrow> dispatch_of v \<noteq> Invoke)"
proof -
  have inv: "journal_inv safe w" using journal.reachable_inv[OF assms(1)] by simp
  then have "length (calls_for key w) \<le> 1" "count_list (effects w) key = count_list (calls_for key w) Executed"
    using assms(2) by (auto simp: journal_inv_def)
  then have one: "count_list (effects w) key \<le> 1" using count_le_length[of "calls_for key w" Executed] by simp
  have "dispatch_of v \<noteq> Invoke" if "calls_for key w \<noteq> []" "invocation_start C now token r key tool input (safe key) (ex_store w) = Inr (v, st')"
  proof
    assume "dispatch_of v = Invoke"
    then have "journal_inv safe (w\<lparr>ex_store := st', sent_calls := (token, key, InFlight) # sent_calls w\<rparr>)"
      by (rule journal_inv_dispatch[OF inv that(2)])
    then have "length (InFlight # calls_for key w) \<le> 1" using assms(2) unfolding journal_inv_def calls_for_def by force
    then show False using that(1) by simp
  qed
  then show ?thesis using one by blast
qed

section \<open>A short execution\<close>

definition sample_pending :: "(sample, sample run_state) pending_state" where
  "sample_pending = \<lparr> ps_version = 1, ps_data = RunReady, ps_recovery = default_recovery, ps_requires = [] \<rparr>"

definition sample_row :: "(sample, unit) run \<Rightarrow> ((sample, sample run_state) pending_state, (sample, unit) exec_context) raw_run" where
  "sample_row r = row_of plain_codec sample_pending r"

definition sample_exec :: "(sample, unit) run list \<Rightarrow> (sample, (sample, sample run_state) pending_state, (sample, unit) exec_context) exec_store" where
  "sample_exec rs =
     \<lparr> run_rows = map sample_row rs, run_inputs = [], answered_requests = [], capability_approvals = [], task_dependencies = [],
       task_status_rows = [], core_runs = [], core_areas = [], usage_rows = [], compactions = [], activations = [],
       generation_seq = 0, quarantine = [], invocations = [], exec_events = [] \<rparr>"

definition sample_claimed :: "(sample, unit) run" where
  "sample_claimed = (sample_run RunReady)\<lparr>lease_owner := Some 7, lease_until := Some (lease_deadline 0 30), revision := 8\<rparr>"

lemma sample_stored: "state r = RunReady \<Longrightarrow> recovery r = default_recovery \<Longrightarrow> stored_pending plain_codec r = Inr sample_pending"
  by (simp add: stored_pending_def encode_def sample_pending_def plain_codec_def requirements_of_def set_extend_def
      recovery_capabilities_def default_recovery_def degraded_is_empty_def no_degradation_def)

lemma sample_decode: "state r = RunReady \<Longrightarrow> recovery r = default_recovery \<Longrightarrow> raw_decode plain_codec (sample_row r) = Inr r"
  unfolding sample_row_def by (rule raw_decode_row) (simp_all add: sample_stored)

lemma sample_row_simps [simp]:
  "md_id (sample_row r) = run_id r" "md_revision (sample_row r) = revision r" "md_phase (sample_row r) = state_phase (state r)"
  "md_control (sample_row r) = control r" "md_lease_owner (sample_row r) = lease_owner r" "md_lease_until (sample_row r) = lease_until r"
  "md_updated_at (sample_row r) = updated_at r" "raw_pending (sample_row r) = sample_pending"
  by (simp_all add: sample_row_def row_of_def metadata_def run_metadata.defs)

lemma sample_exec_simps [simp]:
  "run_rows (sample_exec rs) = map sample_row rs" "core_runs (sample_exec rs) = []" "usage_rows (sample_exec rs) = []"
  "invocations (sample_exec rs) = []" "run_inputs (sample_exec rs) = []"
  by (simp_all add: sample_exec_def)

lemma sample_claimed_row: "(claimed_row 0 7 30 (sample_row (sample_run RunReady)))\<lparr>raw_pending := sample_pending\<rparr> = sample_row sample_claimed"
  by (simp add: claimed_row_def sample_row_def row_of_def metadata_def run_metadata.defs sample_claimed_def sample_run_def)

lemma sample_lease:
  "lease plain_codec [] ''n'' (\<lambda>_. False) 0 7 30 None None (sample_exec [sample_run RunReady])
     = Inr (Some sample_claimed, Some (0, 1), sample_exec [sample_claimed])"
proof -
  let ?r = "sample_run RunReady" and ?st = "sample_exec [sample_run RunReady]"
  have r: "run_id ?r = 1" "revision ?r = 7" "lease_owner ?r = None" "lease_until ?r = None" "updated_at ?r = 0"
    by (simp_all add: sample_run_def)
  have free: "run_unblocked (sample_row ?r) ?st"
    by (simp add: run_unblocked_def queued_behind_def area_unready_def)
  have c: "candidates plain_codec [] (\<lambda>_. False) 0 None None ?st = [sample_row ?r]"
    by (simp add: candidates_def leasable_def free leased_def r phase_is_terminal_def I64_LIMIT_def selectable_by_def
        requirements_covered_def after_cursor_def sample_pending_def plain_codec_def)
  have dec: "raw_decode plain_codec (sample_row ?r) = Inr ?r" by (rule sample_decode) simp_all
  note dec1 = raw_decode_Inr(1)[OF dec]
  have unmet: "unmet_capabilities plain_codec [] (sample_row ?r) = []"
    by (simp add: unmet_capabilities_def from_pending_def sample_pending_def plain_codec_def unmet_def)
  have due: "due plain_codec ''n'' (sample_row ?r) 0 ?st = Some 0"
    using dec1 by (simp add: due_def leased_def r phase_is_terminal_def unblocked_def free dec is_ok_iff default_recovery_def)
  have "\<not> passes_over plain_codec [] ''n'' 0 (sample_row ?r) ?st"
    using dec1 by (simp add: passes_over_def unmet due)
  moreover have "lease_claim plain_codec 0 7 30 ?r ?st = Inr (Some sample_claimed, sample_exec [sample_claimed])"
  proof -
    have c: "raw_decode plain_codec (sample_row sample_claimed) = Inr sample_claimed"
      by (rule sample_decode) (simp_all add: sample_claimed_def)
    show ?thesis
      by (simp add: lease_claim_def sample_stored r update_where_def sample_claimed_row abandon_superseded_def domain_def c)
        (simp add: sample_exec_def default_recovery_def)
  qed
  ultimately have "lease_row plain_codec [] ''n'' 0 7 30 (sample_row ?r) ?st = Inr (Some sample_claimed, sample_exec [sample_claimed])"
    by (simp add: lease_row_def loadable_def unmet dec r)
  then show ?thesis by (simp add: lease_def c position_def r)
qed

definition sample_called :: "sample invocation" where
  "sample_called = new_invocation ''k'' 1 ''post'' SNull False"

definition sample_sent :: "(sample, unit) run" where
  "sample_sent = sample_claimed\<lparr>revision := 9, updated_at := 5\<rparr>"

lemma sample_row_neq: "sample_row sample_claimed \<noteq> sample_row (sample_run RunReady)" "sample_row sample_sent \<noteq> sample_row sample_claimed"
proof -
  have "revision (sample_run RunReady) = 7" "revision sample_claimed = 8" "revision sample_sent = 9"
    by (simp_all add: sample_run_def sample_claimed_def sample_sent_def)
  then show "sample_row sample_claimed \<noteq> sample_row (sample_run RunReady)" "sample_row sample_sent \<noteq> sample_row sample_claimed"
    by (auto dest: arg_cong[of _ _ md_revision])
qed

lemma sample_start:
  "invocation_start plain_codec 5 7 sample_claimed ''k'' ''post'' SNull False (sample_exec [sample_claimed])
     = Inr (sample_called, emit 1 ''tool.started'' ((sample_exec [sample_sent])\<lparr>invocations := [sample_called]\<rparr>))"
proof -
  have lease: "worker_lease 5 1 7 (sample_row sample_claimed)"
    by (simp add: worker_lease_def leased_def sample_claimed_def sample_run_def lease_deadline_def seconds_def)
  have r: "run_id sample_claimed = 1" "state sample_claimed = RunReady" "recovery sample_claimed = default_recovery"
    by (simp_all add: sample_claimed_def) (simp add: sample_run_def)
  have row: "(sample_row sample_claimed)\<lparr>md_phase := PReady, raw_pending := sample_pending, md_revision := md_revision (sample_row sample_claimed) + 1,
      md_updated_at := 5\<rparr> = sample_row sample_sent"
    by (simp add: sample_sent_def sample_row_def row_of_def metadata_def run_metadata.defs sample_claimed_def sample_run_def)
  have p: "persist_tool_input plain_codec 5 7 sample_claimed (sample_exec [sample_claimed]) = Inr (sample_exec [sample_sent])"
    using row lease
    by (simp add: persist_tool_input_def sample_stored r affected_def update_where_def phase_is_terminal_def domain_def)
      (simp add: sample_exec_def)
  have current: "ensure_response_current 5 1 7 seq (sample_exec [sample_claimed]) = Inr ()" for seq
    using lease by (simp add: ensure_response_current_def hold_worker_def newer_than_def)
  have "start_invocation_in sample_claimed ''k'' ''post'' SNull False (sample_exec [sample_sent])
      = Inr (sample_called, emit 1 ''tool.started'' ((sample_exec [sample_sent])\<lparr>invocations := [sample_called]\<rparr>))"
    by (simp add: start_invocation_in_def admit_invocation_def find_invocation_def r sample_called_def new_invocation_def Let_def)
  then show ?thesis by (simp add: invocation_start_def p current r)
qed

text \<open>The Run is leased, the call is sent, and it takes effect.\<close>

definition sample_world :: "(sample, unit) run list \<Rightarrow> (sample, (sample, sample run_state) pending_state, (sample, unit) exec_context) exec_world" where
  "sample_world rs = \<lparr> ex_store = sample_exec rs, lease_log = [], sent_calls = [], effects = [] \<rparr>"

definition sample_done :: "(sample, (sample, sample run_state) pending_state, (sample, unit) exec_context) exec_world" where
  "sample_done =
     \<lparr> ex_store = emit 1 ''tool.started'' ((sample_exec [sample_sent])\<lparr>invocations := [sample_called]\<rparr>),
       lease_log = [(1, Took 7), (1, Wrote 7)], sent_calls = [(7, ''k'', Executed)], effects = [''k''] \<rparr>"

lemma sample_reaches: "reaches exec_init (exec_step plain_codec S R (\<lambda>_. False)) sample_done"
proof -
  let ?step = "exec_step plain_codec S R (\<lambda>_. False)"
  let ?w1 = "(sample_world [sample_claimed])\<lparr>lease_log := [(1, Took 7)]\<rparr>"
  let ?w2 = "sample_done\<lparr>sent_calls := [(7, ''k'', InFlight)], effects := []\<rparr>"
  have "exec_init (sample_world [sample_run RunReady])" by (simp add: exec_init_def sample_world_def) (simp add: sample_run_def)
  moreover have "?step (sample_world [sample_run RunReady]) ?w1"
  proof -
    let ?w = "sample_world [sample_run RunReady]"
    have "taking plain_codec 7 (ex_store ?w) (sample_exec [sample_claimed])"
      using sample_lease by (auto simp: sample_world_def intro: take_lease)
    note step_take[OF this, of S R "\<lambda>_. False"]
    moreover have "log_of Took 7 (ex_store ?w) (sample_exec [sample_claimed]) = [(1, Took 7)]"
      by (simp add: log_of_def changed_ids_def sample_world_def sample_row_neq) (simp add: sample_run_def)
    ultimately show ?thesis by (simp add: sample_world_def)
  qed
  moreover have "?step ?w1 ?w2"
  proof -
    let ?st = "emit 1 ''tool.started'' ((sample_exec [sample_sent])\<lparr>invocations := [sample_called]\<rparr>)"
    have "invocation_start plain_codec 5 7 sample_claimed ''k'' ''post'' SNull False (ex_store ?w1) = Inr (sample_called, ?st)"
      using sample_start by (simp add: sample_world_def)
    moreover have "dispatch_of sample_called = Invoke" by (simp add: dispatch_of_def sample_called_def new_invocation_def)
    ultimately have "?step ?w1 (?w1\<lparr>ex_store := ?st, lease_log := lease_log ?w1 @ log_of Wrote 7 (ex_store ?w1) ?st,
        sent_calls := (7, ''k'', InFlight) # sent_calls ?w1\<rparr>)"
      by (rule step_dispatch)
    moreover have "log_of Wrote 7 (ex_store ?w1) ?st = [(1, Wrote 7)]"
      by (simp add: log_of_def changed_ids_def sample_world_def sample_row_neq emit_def) (simp add: sample_claimed_def sample_run_def)
    ultimately show ?thesis by (simp add: sample_world_def sample_done_def)
  qed
  moreover have "?step ?w2 sample_done"
    using step_execute[of 7 "''k''" ?w2 plain_codec S R "\<lambda>_. False"] by (simp add: sample_done_def)
  ultimately show ?thesis by (meson reaches.intros)
qed

theorem workers_fenced_witness: "last_took 1 [(1, Took 7)] = Some 7"
  using workers_fenced[OF sample_reaches, of "[(1, Took 7)]" 1 7 "[]"] by (simp add: sample_done_def)

theorem effect_at_most_once_witness: "count_list (effects sample_done) ''k'' \<le> 1"
  using effect_at_most_once[OF sample_reaches, of "''k''"] by simp

end
