(* ===== verification/Journal_Props.thy ===== *)
theory Journal_Props
  imports Execution
begin

text \<open>
  What the journal answers is final: whatever workers and the rest of the system do, an invocation that
  is completed stays completed, its result is at most redacted to a tombstone when it is a research result,
  and every later admission under its key is answered from the row.
\<close>

section \<open>Completed rows\<close>

definition completed_row :: "string \<Rightarrow> 'v invocation \<Rightarrow> ('v, 'p, 'c) exec_store \<Rightarrow> bool" where
  "completed_row k v st \<longleftrightarrow> find_invocation k st = Some v \<and> iv_status v = ''COMPLETED''"

lemma completed_update:
  assumes "completed_row k v st" "\<And>u. P u \<Longrightarrow> iv_key (f u) = iv_key u" "\<not> P v \<or> f v = v"
  shows "completed_row k v (update_invocation P f st)"
  using assms by (auto simp: completed_row_def find_update_invocation)

lemma completed_same: "invocations st' = invocations st \<Longrightarrow> completed_row k v st' = completed_row k v st"
  by (simp add: completed_row_def find_invocation_def)

lemma completed_emit [simp]: "completed_row k v (emit i kind st) = completed_row k v st"
  by (simp add: completed_row_def)

lemma completed_complete: "completed_row k v st \<Longrightarrow> completed_row k v (complete_and_record run key result st)"
  by (auto simp: completed_row_def find_complete completes_def)

text \<open>An admission under the key of a completed row returns the row and changes nothing in the journal.\<close>

lemma completed_start:
  assumes "completed_row k v st" "start_invocation_in r key tool input b st = Inr (u, st')"
  shows "completed_row k v st'" "key = k \<Longrightarrow> u = v"
proof -
  have find_app: "find_invocation k (st\<lparr>invocations := invocations st @ [x]\<rparr>) = Some v" for x
  proof -
    have "List.find P (xs @ [x]) = Some y" if "List.find P xs = Some y" for P xs and y :: "'a invocation"
      using that by (induction xs) (auto split: if_splits)
    then show ?thesis using assms(1) by (simp add: completed_row_def find_invocation_def)
  qed
  have v: "find_invocation k st = Some v" "iv_status v = ''COMPLETED''" using assms(1) by (auto simp: completed_row_def)
  note defs = start_invocation_in_def admit_invocation_def Let_def and_then_Inr_iff
  show "key = k \<Longrightarrow> u = v" using assms(2) v by (auto simp: defs)
  show "completed_row k v st'"
  proof (cases "key = k")
    case True
    then show ?thesis using assms v by (auto simp: defs)
  next
    case False
    then have k: "iv_key v \<noteq> key" using find_invocation_Some[OF v(1)] by simp
    show ?thesis
      using assms(2) v k find_app by (auto simp: defs completed_row_def find_update_invocation split: option.splits if_splits)
  qed
qed

lemma completed_start_each:
  "start_each r calls st = Inr (vs, st') \<Longrightarrow> completed_row k v st \<Longrightarrow> completed_row k v st'"
  by (induction r calls st arbitrary: vs rule: start_each.induct) (auto simp: and_then_Inr_iff dest: completed_start(1))

lemma completed_invocation_start:
  assumes "invocation_start C now token r key tool input b st = Inr (u, st')" "completed_row k v st"
  shows "completed_row k v st'" "key = k \<Longrightarrow> u = v"
proof -
  obtain st1 where s: "persist_tool_input C now token r st = Inr st1" "start_invocation_in r key tool input b st1 = Inr (u, st')"
    using assms(1) by (auto simp: invocation_start_def and_then_Inr_iff)
  have "completed_row k v st1" using completed_same[OF persist_journal[OF s(1)]] assms(2) by simp
  note c = completed_start[OF this s(2)]
  show "completed_row k v st'" by (rule c(1))
  show "key = k \<Longrightarrow> u = v" by (rule c(2))
qed

lemma completed_writing:
  assumes "writing C S safe token st st'" "completed_row k v st"
  shows "completed_row k v st'"
  using assms(1)
proof cases
  case (write_lost now r key)
  have "\<not> started (run_id r) key v" using assms(2) by (simp add: started_def completed_row_def)
  then have "completed_row k v (update_invocation (started (run_id r) key)
      (\<lambda>v. v\<lparr>iv_uncertain_reason := Some ''answer_lost'', iv_delivery_pending := False\<rparr>) st)"
    using completed_update[OF assms(2)] by simp
  then show ?thesis using write_lost by (auto simp: invocation_answer_lost_def and_then_Inr_iff)
next
  case (write_finish expired now r key result u)
  then show ?thesis using completed_complete[OF assms(2)] by (auto simp: finish_invocation_def and_then_Inr_iff Let_def)
next
  case (write_start now r key tool input u)
  show ?thesis by (rule completed_invocation_start(1)[OF write_start(1) assms(2)])
next
  case (write_batch now r calls vs)
  then obtain st1 where s: "persist_tool_input C now token r st = Inr st1" "start_each r calls st1 = Inr (vs, st')"
    by (auto simp: invocation_start_batch_def and_then_Inr_iff)
  then show ?thesis using completed_start_each[OF s(2)] completed_same[OF persist_journal[OF s(1)]] assms(2) by simp
qed (use assms(2) in \<open>auto dest!: journal_untouched(1,2,4-) simp: journal_untouched(3) completed_row_def find_invocation_def\<close>)

lemma completed_not_delivered:
  assumes "invocation_not_delivered now token r key failure_value st = Inr (count, st')" "completed_row k v st"
  shows "completed_row k v st'"
proof -
  let ?st = "update_invocation (started (run_id r) key)
    (\<lambda>u. u\<lparr>iv_delivery_failures := iv_delivery_failures u + 1, iv_delivery_pending := True\<rparr>) st"
  have "completed_row k v ?st"
    by (rule completed_update[OF assms(2)]) (use assms(2) in \<open>simp_all add: started_def completed_row_def\<close>)
  moreover have "st' = ?st \<or> st' = complete_and_record (run_id r) key failure_value ?st"
    using assms(1) by (auto simp: invocation_not_delivered_def and_then_Inr_iff Let_def split: option.splits if_splits)
  ultimately show ?thesis using completed_complete by auto
qed

lemma find_kept: "List.find P xs = Some y \<Longrightarrow> Q y \<Longrightarrow> List.find P (filter Q xs) = Some y"
  by (induction xs) (auto split: if_splits)

lemma completed_refused:
  assumes "connection_refused C now token r key st = Inr st'" "completed_row k v st"
  shows "completed_row k v st'"
proof -
  have "invocations st' = filter (\<lambda>v. \<not> started (run_id r) key v) (invocations st)"
    using assms(1) by (auto simp: connection_refused_def and_then_Inr_iff dest: persist_journal)
  then show ?thesis using assms(2) by (auto simp: completed_row_def find_invocation_def started_def intro!: find_kept)
qed

section \<open>Redacted rows\<close>

text \<open>
  The tombstones are research results of their operation, as the shared envelope of failures makes them:
  they name the contract and the operation.
\<close>

definition research_laws :: "'v research_json \<Rightarrow> bool" where
  "research_laws R \<longleftrightarrow> (\<forall>op. research_result R op (revoked_result R op) \<and> research_result R op (expired_result R op))"

text \<open>
  All that redactions may do to a row: a research result becomes a tombstone of its operation, and the
  input of a research call or of a call without a result becomes the placeholder.
\<close>

definition redacted :: "'v research_json \<Rightarrow> 'v invocation \<Rightarrow> 'v invocation \<Rightarrow> bool" where
  "redacted R v v' \<longleftrightarrow>
     v' = v\<lparr>iv_result := iv_result v', iv_input := iv_input v'\<rparr>
     \<and> (iv_result v' = iv_result v
        \<or> (\<exists>op. stored_research R op v \<and> iv_result v' \<in> {Some (revoked_result R op), Some (expired_result R op)}))
     \<and> (iv_input v' = iv_input v
        \<or> iv_input v' = revoked_arguments R \<and> (iv_result v = None \<or> (\<exists>op. stored_research R op v)))"

lemma operation_unique: "stored_research R op v \<Longrightarrow> stored_research R op' v \<Longrightarrow> op' = op"
  by (cases op; cases op') (auto simp: stored_research_def research_result_def split: option.splits)

lemma tombstone_research:
  assumes "research_laws R" "iv_result v \<in> {Some (revoked_result R op), Some (expired_result R op)}"
  shows "stored_research R op v"
  using assms by (auto simp: research_laws_def stored_research_def)

lemma redacted_refl [simp]: "redacted R v v"
  by (simp add: redacted_def)

lemma redacted_frame:
  assumes "redacted R v v'"
  shows "iv_key v' = iv_key v" "iv_run v' = iv_run v" "iv_tool v' = iv_tool v" "iv_status v' = iv_status v"
    "iv_replay_safe v' = iv_replay_safe v" "iv_uncertain_reason v' = iv_uncertain_reason v"
    "iv_delivery_failures v' = iv_delivery_failures v" "iv_delivery_pending v' = iv_delivery_pending v"
proof -
  have v': "v' = v\<lparr>iv_result := iv_result v', iv_input := iv_input v'\<rparr>" using assms by (simp add: redacted_def)
  show "iv_key v' = iv_key v" "iv_run v' = iv_run v" "iv_tool v' = iv_tool v" "iv_status v' = iv_status v"
    "iv_replay_safe v' = iv_replay_safe v" "iv_uncertain_reason v' = iv_uncertain_reason v"
    "iv_delivery_failures v' = iv_delivery_failures v" "iv_delivery_pending v' = iv_delivery_pending v"
    by (subst v', simp)+
qed

lemma redaction_redacted: "redaction R v v' \<Longrightarrow> redacted R v v'"
  by (auto simp: redaction_def redacted_def)

lemma redacted_research:
  "research_laws R \<Longrightarrow> redacted R v v' \<Longrightarrow> stored_research R op v' \<Longrightarrow> stored_research R op v"
  using tombstone_research[of R v'] operation_unique[of R _ v' op]
  unfolding redacted_def by (metis stored_research_def)

lemma redacted_trans:
  assumes "research_laws R" "redacted R v v1" "redacted R v1 v2"
  shows "redacted R v v2"
proof -
  have r: "stored_research R op v1 \<Longrightarrow> stored_research R op v" for op by (rule redacted_research[OF assms(1,2)])
  have "iv_key v2 = iv_key v" "iv_run v2 = iv_run v" "iv_tool v2 = iv_tool v" "iv_status v2 = iv_status v"
    "iv_replay_safe v2 = iv_replay_safe v" "iv_uncertain_reason v2 = iv_uncertain_reason v"
    "iv_delivery_failures v2 = iv_delivery_failures v" "iv_delivery_pending v2 = iv_delivery_pending v"
    using redacted_frame[OF assms(2)] redacted_frame[OF assms(3)] by simp_all
  then have "v2 = v\<lparr>iv_result := iv_result v2, iv_input := iv_input v2\<rparr>" by simp
  moreover have "iv_result v2 = iv_result v
      \<or> (\<exists>op. stored_research R op v \<and> iv_result v2 \<in> {Some (revoked_result R op), Some (expired_result R op)})"
    using assms(2,3) r unfolding redacted_def by metis
  moreover have "iv_input v2 = iv_input v
      \<or> iv_input v2 = revoked_arguments R \<and> (iv_result v = None \<or> (\<exists>op. stored_research R op v))"
    using assms(2,3) r unfolding redacted_def by metis
  ultimately show ?thesis unfolding redacted_def by blast
qed

lemma completed_redact_update:
  assumes "redact_update R st st'" "completed_row k v st"
  shows "\<exists>v'. completed_row k v' st' \<and> redacted R v v'"
  using assms(1)
proof cases
  case (redact_rows P f)
  have keep: "P u \<Longrightarrow> iv_key (f u) = iv_key u \<and> iv_status (f u) = iv_status u" for u
    using redact_rows(2) redaction_frame by blast
  have "completed_row k (if P v then f v else v) st'"
    using assms(2) keep by (simp add: redact_rows(1) completed_row_def find_update_invocation)
  moreover have "redacted R v (if P v then f v else v)" using redact_rows(2) redaction_redacted by auto
  ultimately show ?thesis by blast
qed

lemma completed_redacting:
  assumes "research_laws R" "redacting R st st'" "completed_row k v st"
  shows "\<exists>v'. completed_row k v' st' \<and> redacted R v v'"
  using redacting_updates[OF assms(2)]
proof (induction rule: rtranclp_induct)
  case base
  show ?case using assms(3) redacted_refl by blast
next
  case (step st1 st2)
  then show ?case using completed_redact_update redacted_trans[OF assms(1)] by blast
qed

lemma completed_step:
  assumes "research_laws R" "exec_step C S R safe w w'" "lease_inv w" "completed_row k v (ex_store w)"
  shows "\<exists>v'. completed_row k v' (ex_store w') \<and> redacted R v v'"
proof -
  have "completed_row k v (ex_store w') \<or> redacting R (ex_store w) (ex_store w')"
    using assms(2)
  proof cases
    case (step_take token st')
    then have "invocations st' = invocations (ex_store w)"
      using taking_journal[of C token "ex_store w" st'] assms(3) by (simp add: lease_inv_def)
    then show ?thesis using assms(4) step_take(1) completed_same[of st' "ex_store w"] by simp
  next
    case (step_write token st')
    then show ?thesis using completed_writing[OF step_write(2) assms(4)] by simp
  next
    case (step_redact st')
    then show ?thesis by simp
  next
    case (step_else st')
    then have "invocations st' = invocations (ex_store w)" by (simp add: elsewhere_def)
    then show ?thesis using assms(4) step_else(1) completed_same[of st' "ex_store w"] by simp
  next
    case (step_dispatch now token r key tool input u st')
    then show ?thesis using completed_invocation_start(1)[OF step_dispatch(2) assms(4)] by simp
  next
    case (step_not_delivered token key now r failure_value count st')
    then show ?thesis using completed_not_delivered[OF step_not_delivered(3) assms(4)] by simp
  next
    case (step_refused token key now r st')
    then show ?thesis using completed_refused[OF step_refused(3) assms(4)] by simp
  qed (use assms(4) in simp_all)
  then show ?thesis using completed_redacting[OF assms(1)] assms(4) redacted_refl by blast
qed

lemma completed_steps:
  assumes "research_laws R" "(exec_step C S R safe)\<^sup>*\<^sup>* w w'" "lease_inv w" "completed_row k v (ex_store w)"
  shows "\<exists>v'. completed_row k v' (ex_store w') \<and> redacted R v v'"
proof -
  have "lease_inv w' \<and> (\<exists>v'. completed_row k v' (ex_store w') \<and> redacted R v v')"
    using assms(2)
  proof (induction rule: rtranclp_induct)
    case base
    show ?case using assms(3,4) redacted_refl by blast
  next
    case (step w1 w2)
    then show ?case using completed_step[OF assms(1)] redacted_trans[OF assms(1)] lease_inv_step by meson
  qed
  then show ?thesis by blast
qed

section \<open>Properties\<close>

text \<open>
  Property C11. A completed invocation stays completed, however the system goes on, and is answered from
  its row: nothing but a redaction changes the row, a redaction changes only a research result, to the
  tombstone of its operation, and the input of the call, so that any other result stays as it was stored;
  and an admission under the key that succeeds returns the row and does not call the tool again.
\<close>

theorem completed_never_repeated:
  assumes "research_laws R" "reaches exec_init (exec_step C S R safe) w" "(exec_step C S R safe)\<^sup>*\<^sup>* w w'"
    and "find_invocation key (ex_store w) = Some v" "iv_status v = ''COMPLETED''"
  shows "\<exists>v'. find_invocation key (ex_store w') = Some v' \<and> iv_status v' = ''COMPLETED'' \<and> redacted R v v'
    \<and> (iv_result v \<noteq> None \<and> (\<forall>op. \<not> stored_research R op v) \<longrightarrow> v' = v)
    \<and> (\<forall>now token r tool input safe_hint u st'. invocation_start C now token r key tool input safe_hint (ex_store w') = Inr (u, st')
         \<longrightarrow> u = v' \<and> dispatch_of u \<noteq> Invoke)"
proof -
  have "completed_row key v (ex_store w)" using assms(4,5) by (simp add: completed_row_def)
  then obtain v' where c: "completed_row key v' (ex_store w')" and red: "redacted R v v'"
    using completed_steps[OF assms(1,3)] fencing.reachable_inv[OF assms(2)] by blast
  have row: "find_invocation key (ex_store w') = Some v'" "iv_status v' = ''COMPLETED''" using c by (simp_all add: completed_row_def)
  have "dispatch_of v' \<noteq> Invoke" using row(2) by (simp add: dispatch_of_def split: option.splits)
  moreover have "v' = v" if "iv_result v \<noteq> None" "\<forall>op. \<not> stored_research R op v" using red that by (auto simp: redacted_def)
  moreover have "u = v'" if "invocation_start C now token r key tool input hint (ex_store w') = Inr (u, st')"
    for now token r tool input hint u st'
    using completed_invocation_start(2)[OF that c] by simp
  ultimately show ?thesis using row red by blast
qed

section \<open>A revoked search\<close>

definition sample_tombstone :: "string \<Rightarrow> research_operation \<Rightarrow> sample" where
  "sample_tombstone code op =
     SObject [(''contract'', SText RESULT_CONTRACT), (''operation'', SText (research_operation_str op)), (''error'', SText code)]"

definition sample_research :: "sample research_json" where
  "sample_research =
     \<lparr> rj_json = sample_json, revoked_result = sample_tombstone ''evidence_revoked'', expired_result = sample_tombstone ''result_expired'',
       revoked_arguments = SObject [(''revoked'', SNull)] \<rparr>"

definition sample_found :: sample where
  "sample_found =
     SObject [(''contract'', SText RESULT_CONTRACT), (''operation'', SText ''search''), (''data'', SList [SText ''a page''])]"

lemma sample_research_laws: "research_laws sample_research"
  by (simp add: research_laws_def research_result_def json_text_def sample_research_def sample_json_def sample_tombstone_def sample_field_def)

definition sample_finished :: "(sample, (sample, sample run_state) pending_state, (sample, unit) exec_context) exec_world" where
  "sample_finished = sample_done\<lparr>ex_store := complete_and_record 1 ''k'' sample_found (ex_store sample_done)\<rparr>"

definition sample_revoked :: "(sample, (sample, sample run_state) pending_state, (sample, unit) exec_context) exec_world" where
  "sample_revoked = sample_finished\<lparr>ex_store := snd (revoke_invocations sample_research (Some 1) [] [] (ex_store sample_finished))\<rparr>"

lemma sample_finish: "exec_step plain_codec S R (\<lambda>_. False) sample_done sample_finished"
proof -
  let ?st = "ex_store sample_done"
  have "run_id sample_claimed = 1" by (simp add: sample_claimed_def sample_run_def)
  moreover have "hold_worker 6 1 7 ?st"
    by (simp add: hold_worker_def sample_done_def worker_lease_def leased_def sample_sent_def sample_claimed_def sample_run_def
        lease_deadline_def seconds_def)
  ultimately have "finish_invocation (\<lambda>_ _ _. None) 6 7 sample_claimed ''k'' sample_found ?st
      = Inr (sample_found, complete_and_record 1 ''k'' sample_found ?st)"
    by (simp add: finish_invocation_def)
  then have "writing plain_codec S (\<lambda>_. False) 7 ?st (complete_and_record 1 ''k'' sample_found ?st)" by (rule write_finish)
  note step_write[OF this, of R]
  moreover have "log_of Wrote 7 ?st (complete_and_record 1 ''k'' sample_found ?st) = []"
    by (simp add: log_of_def changed_ids_def zip_same_conv_map)
  ultimately show ?thesis by (simp add: sample_finished_def)
qed

lemma sample_revoke: "exec_step plain_codec S sample_research (\<lambda>_. False) sample_finished sample_revoked"
  unfolding sample_revoked_def by (rule step_redact) (auto intro: redact_revoked prod.collapse[symmetric])

lemma sample_searched:
  "find_invocation ''k'' (ex_store sample_finished)
     = Some (sample_called\<lparr>iv_status := ''COMPLETED'', iv_result := Some sample_found, iv_delivery_pending := False\<rparr>)"
proof -
  have "find_invocation ''k'' (ex_store sample_done) = Some sample_called"
    by (simp add: sample_done_def) (simp add: find_invocation_def sample_called_def new_invocation_def)
  then show ?thesis by (simp add: sample_finished_def find_complete completes_def) (simp add: sample_called_def new_invocation_def)
qed

lemma sample_tombstone_field:
  "sample_field (sample_tombstone code op) ''contract'' = SText RESULT_CONTRACT"
  "sample_field (sample_tombstone code op) ''operation'' = SText (research_operation_str op)"
  "sample_field sample_found ''contract'' = SText RESULT_CONTRACT" "sample_field sample_found ''operation'' = SText ''search''"
  "sample_found \<noteq> sample_tombstone code op"
  by (simp_all add: sample_field_def sample_tombstone_def sample_found_def)

lemma sample_tombstoned:
  "find_invocation ''k'' (ex_store sample_revoked) = Some v' \<Longrightarrow> iv_result v' = Some (sample_tombstone ''evidence_revoked'' OpSearch)"
proof -
  have json: "as_str (rj_json sample_research) (SText t) = Some t" "json_field (rj_json sample_research) = sample_field"
    "revoked_result sample_research = sample_tombstone ''evidence_revoked''" for t
    by (simp_all add: sample_research_def sample_json_def)
  note checks = revocable_def revoked_scope_def stored_research_def research_result_def json_text_def json sample_tombstone_field
  let ?R = sample_research
  let ?v = "sample_called\<lparr>iv_status := ''COMPLETED'', iv_result := Some sample_found, iv_delivery_pending := False\<rparr>"
  let ?v1 = "?v\<lparr>iv_result := Some (sample_tombstone ''evidence_revoked'' OpSearch), iv_input := revoked_arguments ?R\<rparr>"
  have "iv_run sample_called = 1" by (simp add: sample_called_def new_invocation_def)
  then have first: "revocable ?R (Some 1) [] OpSearch ?v" by (simp add: checks)
  have rest: "\<not> revocable ?R (Some 1) [] op ?v1" for op by (cases op) (simp_all add: checks)
  have "\<not> attempted ?R (Some 1) [] [] ?v1" by (simp add: attempted_def)
  then show "find_invocation ''k'' (ex_store sample_revoked) = Some v' \<Longrightarrow> iv_result v' = Some (sample_tombstone ''evidence_revoked'' OpSearch)"
    using first rest
    by (auto simp: sample_revoked_def revoke_invocations_def operation_ALL_def find_update_invocation sample_searched json(3))
qed

theorem completed_never_repeated_witness:
  "\<exists>v'. find_invocation ''k'' (ex_store sample_revoked) = Some v' \<and> iv_status v' = ''COMPLETED''
     \<and> iv_result v' = Some (sample_tombstone ''evidence_revoked'' OpSearch)
     \<and> redacted sample_research (sample_called\<lparr>iv_status := ''COMPLETED'', iv_result := Some sample_found, iv_delivery_pending := False\<rparr>) v'"
proof -
  have reached: "reaches exec_init (exec_step plain_codec S sample_research (\<lambda>_. False)) sample_finished" for S :: "(sample, unit, unit) save_env"
    using sample_reaches sample_finish by (rule reaches_step)
  have steps: "(exec_step plain_codec S sample_research (\<lambda>_. False))\<^sup>*\<^sup>* sample_finished sample_revoked" for S :: "(sample, unit, unit) save_env"
    using sample_revoke by (rule r_into_rtranclp)
  show ?thesis
    using completed_never_repeated[OF sample_research_laws reached steps sample_searched] sample_tombstoned by auto
qed

end
