(* ===== verification/Lease_Props.thy ===== *)
theory Lease_Props
  imports Execution
begin

text \<open>
  What a scan promises: it claims only Runs that are due, it passes over none that it could claim, and
  a step that keeps stopping its worker process is given up after three recoveries.
\<close>

section \<open>Claims\<close>

text \<open>
  Property C15. When a scan or a notification claims a Run, the Run had not ended, was not paused, held
  by no live lease and by no other transaction, blocked by nothing, due, within the worker's
  capabilities and readable; its row now names the token, a deadline and a new revision. Rows that are
  leased, paused or ended stay as they are.
\<close>

theorem lease_claims_due:
  assumes "lease C supported node locked now token secs target scanned st = Inr (Some r, c, st')" "rows_ok st"
  shows "\<exists>m \<in> set (run_rows st). leasable now st m \<and> selectable_by C supported m \<and> \<not> locked (md_id m)
      \<and> target \<in> {None, Some (md_id m)} \<and> after_cursor scanned m
      \<and> (\<exists>d \<le> now. due C node m now st = Some d) \<and> unmet_capabilities C supported m = [] \<and> is_ok (raw_decode C m)
      \<and> (\<exists>m' \<in> set (run_rows st'). raw_decode C m' = Inr r \<and> md_id m' = md_id m \<and> md_lease_owner m' = Some token
           \<and> md_lease_until m' = Some (now + seconds secs) \<and> md_revision m' = md_revision m + 1)
    \<and> {x \<in> set (run_rows st). leased now x \<or> phase_is_terminal (md_phase x) \<or> md_control x = Paused} \<subseteq> set (run_rows st')"
proof -
  obtain m m' where m: "m \<in> set (candidates C supported locked now target scanned st)"
    "eligible C supported node now st m" "m' \<in> set (run_rows st')" "claims C now token secs r m m'"
    using lease_scans(3)[OF assms refl] by blast
  have "x \<in> set (run_rows st')" if x: "x \<in> set (run_rows st)" "\<not> free_row now x" for x
  proof -
    obtain k where k: "k < length (run_rows st)" "x = run_rows st ! k" using x(1) by (metis in_set_conv_nth)
    then have "takes now token x (run_rows st' ! k)" "k < length (run_rows st')"
      using lease_scans(1)[OF assms] by (auto simp: list_all2_conv_all_nth)
    then show ?thesis using x(2) by (auto simp: takes_def free_row_def)
  qed
  then have "{x \<in> set (run_rows st). leased now x \<or> phase_is_terminal (md_phase x) \<or> md_control x = Paused} \<subseteq> set (run_rows st')"
    by (auto simp: free_row_def)
  moreover have "\<exists>m' \<in> set (run_rows st'). raw_decode C m' = Inr r \<and> md_id m' = md_id m \<and> md_lease_owner m' = Some token
           \<and> md_lease_until m' = Some (now + seconds secs) \<and> md_revision m' = md_revision m + 1"
    using m(3,4) by (intro bexI[of _ m']) (auto simp: claims_def lease_deadline_def)
  moreover have "m \<in> set (run_rows st)" "leasable now st m" "selectable_by C supported m" "\<not> locked (md_id m)"
      "target \<in> {None, Some (md_id m)}" "after_cursor scanned m"
    using m(1) by (auto simp: candidates_def dest!: in_set_takeD)
  ultimately show ?thesis using m(2) unfolding eligible_def is_ok_iff by blast
qed

theorem lease_claims_due_witness:
  "\<exists>m \<in> set (run_rows (sample_exec [sample_run RunReady])). leasable 0 (sample_exec [sample_run RunReady]) m"
proof -
  have "rows_ok (sample_exec [sample_run RunReady])" by (simp add: rows_ok_def)
  then show ?thesis using lease_claims_due[OF sample_lease] by blast
qed

section \<open>Completeness of the scan\<close>

lemma lease_row_claims:
  assumes "lease_row C supported node now token secs m st = Inr (claimed, st')" "eligible C supported node now st m"
    and "rows_ok st" "m \<in> set (run_rows st)"
  shows "claimed \<noteq> None"
proof -
  obtain r d where r: "due C node m now st = Some d" "d \<le> now" "unmet_capabilities C supported m = []" "raw_decode C m = Inr r"
    "\<not> failure_delivery (state r)"
    "md_lease_owner m = None \<or> md_control m = ControlCancelled \<or> lease_recoveries (recovery r) \<le> LEASE_RECOVERY_LIMIT"
    using assms(2) by (auto simp: eligible_def)
  have "\<not> passes_over C supported node now m st"
    using r raw_decode_Inr(1)[OF r(4)] by (auto simp: passes_over_def)
  then obtain r1 where r1: "lease_claim C now token secs r1 st = Inr (claimed, st')" "run_id r1 = run_id r" "revision r1 = revision r"
    using assms(1) r(3,4,6) by (auto simp: lease_row_def loadable_def split: if_splits)
  show ?thesis using lease_claim_changes[OF r1(1) assms(3,4)] r1(2,3) raw_decode_Inr(2,4)[OF r(4)] by (metis option.discI)
qed

lemma lease_loop_complete:
  assumes "lease_loop C supported node now token secs full ms scanned st = Inr (None, c, st')"
    and "rows_ok st" "set ms \<subseteq> set (run_rows st)" "distinct (map md_id ms)" "\<forall>m \<in> set ms. free_row now m"
  shows "\<forall>m \<in> set ms. \<not> eligible C supported node now st m"
  using assms
proof (induction ms arbitrary: scanned st)
  case (Cons m ms)
  have m: "m \<in> set (run_rows st)" "free_row now m" and fresh: "md_id m \<notin> md_id ` set ms" using Cons.prems(3-5) by auto
  obtain st1 where row: "lease_row C supported node now token secs m st = Inr (None, st1)"
      "lease_loop C supported node now token secs full ms (Some (position m)) st1 = Inr (None, c, st')"
    using Cons.prems(1) by (auto simp: and_then_Inr_iff split: option.splits)
  note step = lease_row_takes[OF row(1) Cons.prems(2) m]
  have "set ms \<subseteq> set (run_rows st1)"
  proof
    fix x assume "x \<in> set ms"
    then show "x \<in> set (run_rows st1)"
      using changes_other[OF step(1), of x] fresh Cons.prems(3) by (metis image_eqI list.set_intros(2) subsetD)
  qed
  then have "\<forall>x \<in> set ms. \<not> eligible C supported node now st1 x"
    using Cons.IH[OF row(2) step(2)] Cons.prems(4,5) by simp
  moreover have "eligible C supported node now st1 x = eligible C supported node now st x" for x
    unfolding eligible_def due_takes[OF step(3) changes_all2[OF step(1)]] ..
  moreover have "\<not> eligible C supported node now st m" using lease_row_claims[OF row(1) _ Cons.prems(2) m(1)] by blast
  ultimately show ?case by simp
qed simp

lemma sorted_page:
  assumes "sorted (map f xs)" "distinct (map f xs)" "x \<in> set xs" "x \<notin> set (take n xs)" "take n xs \<noteq> []"
  shows "length (take n xs) = n" "f (last (take n xs)) < (f x :: 'k::linorder)"
proof -
  obtain k where k: "k < length xs" "x = xs ! k" using assms(3) by (auto simp: in_set_conv_nth)
  have n: "n \<le> k" using assms(4) k by (metis in_set_conv_nth length_take min_less_iff_conj not_le nth_take)
  then show "length (take n xs) = n" using k by simp
  have "0 < n" using assms(5) by auto
  then have "take n xs \<noteq> []" "length (take n xs) = n" "n - 1 < n" using n k by auto
  then have l: "last (take n xs) = xs ! (n - 1)" "n - 1 < k" using n by (metis last_conv_nth nth_take, simp)
  then have "f (xs ! (n - 1)) \<le> f (xs ! k)" "f (xs ! (n - 1)) \<noteq> f (xs ! k)"
    using assms(1,2) k by (auto simp: sorted_iff_nth_mono distinct_conv_nth)
  then show "f (last (take n xs)) < f x" using l k by simp
qed

lemma scan_leaves_behind:
  assumes "lease C supported node locked now token secs None scanned st = Inr (None, c, st')" "rows_ok st"
    and "m \<in> set (run_rows st)" "leasable now st m" "selectable_by C supported m" "\<not> locked (md_id m)" "after_cursor scanned m"
    and "eligible C supported node now st m"
  shows "\<exists>at. c = Some at \<and> at < position m \<and> (\<forall>p. scanned = Some p \<longrightarrow> p < at)"
proof -
  let ?P = "\<lambda>m. leasable now st m \<and> selectable_by C supported m \<and> \<not> locked (md_id m) \<and> after_cursor scanned m"
  let ?all = "sort_key position (filter ?P (run_rows st))"
  let ?page = "candidates C supported locked now None scanned st"
  have page: "?page = take 128 ?all" by (simp add: candidates_def)
  have m: "m \<in> set ?all" using assms(3-7) by simp
  have page_rows: "set ?page \<subseteq> set (run_rows st)" "distinct (map md_id ?page)" "\<forall>m \<in> set ?page. free_row now m"
    using candidates_facts[of _ C supported locked now None scanned st] candidates_distinct[OF assms(2)] by auto
  have ne: "?page \<noteq> []"
  proof -
    have "?all \<noteq> []" using m by (metis empty_iff list.set(1))
    then show ?thesis unfolding page by (simp add: take_eq_Nil)
  qed
  then have loop: "lease_loop C supported node now token secs (length ?page = 128) ?page scanned st = Inr (None, c, st')"
    using assms(1) by (simp add: lease_def Let_def)
  have "m \<notin> set ?page" using lease_loop_complete[OF loop assms(2) page_rows] assms(8) by blast
  moreover have "distinct (map position ?all)"
  proof -
    have "inj_on md_id (set (run_rows st))" "distinct (run_rows st)" using assms(2) by (auto simp: rows_ok_def distinct_map)
    then have "inj_on position (set ?all)" by (auto simp: inj_on_def position_def)
    then show ?thesis using \<open>distinct (run_rows st)\<close> by (simp add: distinct_map)
  qed
  ultimately have s: "length ?page = 128" "position (last ?page) < position m"
    using sorted_page[OF sorted_sort_key _ m, of "128"] ne unfolding page by blast+
  have c: "c = Some (position (last ?page))"
    using lease_loop_scans[OF loop assms(2) page_rows] s(1) ne by simp
  have "after_cursor scanned (last ?page)" using last_in_set[OF ne] unfolding page by (auto dest!: in_set_takeD)
  then have "\<forall>p. scanned = Some p \<longrightarrow> p < position (last ?page)" by (auto simp: after_cursor_def)
  then show ?thesis using c s(2) by blast
qed

text \<open>
  Property C16. A scan that claims nothing has passed over no Run it could have claimed: every Run
  behind the given cursor that is leasable, selectable, free, due and readable lies behind the cursor
  the scan returns, which has moved on.
\<close>

theorem scan_skips_nothing:
  assumes "lease C supported node locked now token secs None scanned st = Inr (None, c, st')" "rows_ok st"
  shows "\<forall>m \<in> set (run_rows st).
      leasable now st m \<and> selectable_by C supported m \<and> \<not> locked (md_id m) \<and> after_cursor scanned m \<and> eligible C supported node now st m
      \<longrightarrow> (\<exists>at. c = Some at \<and> at < position m \<and> (\<forall>p. scanned = Some p \<longrightarrow> p < at))"
  using scan_leaves_behind[OF assms] by blast

theorem scan_skips_nothing_witness:
  "lease plain_codec [] ''n'' (\<lambda>_. False) 5 8 30 None None (sample_exec [sample_claimed]) = Inr (None, None, sample_exec [sample_claimed])
   \<and> \<not> (leasable 5 (sample_exec [sample_claimed]) (sample_row sample_claimed)
        \<and> selectable_by plain_codec [] (sample_row sample_claimed)
        \<and> eligible plain_codec [] ''n'' 5 (sample_exec [sample_claimed]) (sample_row sample_claimed))"
proof -
  let ?st = "sample_exec [sample_claimed]"
  have "leased 5 (sample_row sample_claimed)"
    by (simp add: leased_def sample_claimed_def lease_deadline_def seconds_def)
  then have l: "lease plain_codec [] ''n'' (\<lambda>_. False) 5 8 30 None None ?st = Inr (None, None, ?st)"
    by (simp add: lease_def candidates_def leasable_def)
  moreover have "rows_ok ?st" by (simp add: rows_ok_def)
  ultimately show ?thesis using scan_skips_nothing[OF l] by (simp add: after_cursor_def)
qed

section \<open>Crash loops\<close>

lemma lease_claim_row:
  assumes "lease_claim C now token secs (r0\<lparr>recovery := q\<rparr>) st = Inr (Some r, st')" "raw_decode C m = Inr r0"
    and "state_codec_laws C" "rows_ok st" "m \<in> set (run_rows st)"
  obtains p where "encode C (state r) (recovery r) = Inr p" "recovery r = q" "run_id r = md_id m"
    "(claimed_row now token secs m)\<lparr>raw_pending := p\<rparr> \<in> set (run_rows st')"
    "raw_decode C ((claimed_row now token secs m)\<lparr>raw_pending := p\<rparr>) = Inr r" "rows_ok st'"
proof -
  let ?P = "\<lambda>x. md_id x = md_id m \<and> md_revision x = md_revision m"
  have "List.find ?P (run_rows st) = Some m" by (rule find_row_in[OF assms(4,5)]) auto
  then obtain p where p: "encode C (state r0) q = Inr p" "raw_decode C ((claimed_row now token secs m)\<lparr>raw_pending := p\<rparr>) = Inr r"
    "run_rows st' = update_where ?P (\<lambda>m. (claimed_row now token secs m)\<lparr>raw_pending := p\<rparr>) (run_rows st)"
    using assms(1) raw_decode_Inr(2,4)[OF assms(2)]
    by (auto simp: lease_claim_def stored_pending_def and_then_Inr_iff Let_def split: if_splits)
  have "state_phase (state r0) = md_phase m" using decode_sound(1)[OF assms(3)] raw_decode_Inr(1)[OF assms(2)] by blast
  then have "decode C (md_phase m) p = Inr (state r0, q)" using decode_encode[OF assms(3) p(1)] by simp
  then have r: "state r = state r0" "recovery r = q" "run_id r = md_id m"
    using raw_decode_Inr(1,2)[OF p(2)] by simp_all
  have "(claimed_row now token secs m)\<lparr>raw_pending := p\<rparr> \<in> set (run_rows st')"
    using assms(5) unfolding p(3) update_where_def by (auto simp: image_iff intro!: bexI[of _ m])
  moreover have "rows_ok st'" using assms(4) unfolding rows_ok_def p(3) by (subst map_update_where) simp_all
  ultimately show thesis using that p r by auto
qed

text \<open>The stored count of lease recoveries of a Run's readable row.\<close>

definition recoveries_of :: "('v, 'x, 'p, 'd, 'c) state_codec \<Rightarrow> uuid \<Rightarrow> ('v, 'p, 'c) exec_store \<Rightarrow> nat \<Rightarrow> bool" where
  "recoveries_of C i st n \<longleftrightarrow>
     (\<exists>m \<in> set (run_rows st). md_id m = i \<and> (\<exists>r. raw_decode C m = Inr r \<and> unat (lease_recoveries (recovery r)) = n))"

lemma recoveries_of_unique:
  "rows_ok st \<Longrightarrow> recoveries_of C i st n \<Longrightarrow> m \<in> set (run_rows st) \<Longrightarrow> md_id m = i \<Longrightarrow> raw_decode C m = Inr r
     \<Longrightarrow> unat (lease_recoveries (recovery r)) = n"
  unfolding recoveries_of_def using rows_ok_unique by fastforce

text \<open>Anything that happens to the Run while no step of it is completed: its count is not lowered.\<close>

definition unfinished :: "('v, 'x, 'p, 'd, 'c) state_codec \<Rightarrow> uuid \<Rightarrow> ('v, 'p, 'c) exec_store \<Rightarrow> ('v, 'p, 'c) exec_store \<Rightarrow> bool" where
  "unfinished C i st st' \<longleftrightarrow> rows_ok st' \<and> (\<forall>n. recoveries_of C i st n \<longrightarrow> (\<exists>n' \<ge> n. recoveries_of C i st' n'))"

text \<open>
  \<open>n\<close> times in a row a lease that its worker abandoned is recovered, and the step is begun again and
  not completed.
\<close>

inductive crashes ::
  "('v, 'x, 'p, 'd, 'c) state_codec \<Rightarrow> persisted_capability list \<Rightarrow> string \<Rightarrow> uuid \<Rightarrow> nat \<Rightarrow> ('v, 'p, 'c) exec_store
     \<Rightarrow> ('v, 'p, 'c) exec_store \<Rightarrow> bool" for C supported node i where
  no_crash: "rows_ok st \<Longrightarrow> crashes C supported node i 0 st st"
| one_more: "crashes C supported node i n st st1 \<Longrightarrow> unfinished C i st1 st2
    \<Longrightarrow> m \<in> set (run_rows st2) \<Longrightarrow> md_id m = i \<Longrightarrow> md_lease_owner m \<noteq> None \<Longrightarrow> md_control m \<noteq> ControlCancelled
    \<Longrightarrow> lease_row C supported node now token secs m st2 = Inr (Some r, st3)
    \<Longrightarrow> begin_step C now' token r st3 = (Inr r', st4) \<Longrightarrow> crashes C supported node i (Suc n) st st4"

lemma recovered_claim:
  assumes "lease_row C supported node now token secs m st = Inr (Some r, st')" "md_lease_owner m \<noteq> None" "md_control m \<noteq> ControlCancelled"
  obtains r0 where "raw_decode C m = Inr r0" "lease_recoveries (recovery r0) \<le> LEASE_RECOVERY_LIMIT"
    "lease_claim C now token secs (r0\<lparr>recovery := (recovery r0)\<lparr>lease_recoveries := max (lease_recoveries (recovery r0)) 1\<rparr>\<rparr>) st
       = Inr (Some r, st')"
proof -
  have p: "\<not> passes_over C supported node now m st" using assms(1) by (auto simp: lease_row_def)
  then have "unmet_capabilities C supported m = []" using assms(3) by (auto simp: passes_over_def)
  then show thesis using assms p that
    by (cases "raw_decode C m"; cases "projl (raw_decode C m)")
      (auto simp: lease_row_def loadable_def and_then_Inr_iff not_less split: if_splits)
qed

lemma begun_charges:
  assumes "begin_step C now token r st = (Inr r', st')" "0 < lease_recoveries (recovery r)" "encode C (state r) (recovery r) = Inr p"
    and "m \<in> set (run_rows st)" "raw_pending m = p" "raw_decode C m = Inr r" "state_codec_laws C" "rows_ok st"
  shows "recoveries_of C (run_id r) st' (unat (saturating_add (lease_recoveries (recovery r)) 1))" "rows_ok st'"
proof -
  let ?n = "saturating_add (lease_recoveries (recovery r)) 1" and ?P = "worker_lease now (run_id r) token"
  let ?f = "\<lambda>m. m\<lparr>raw_pending := set_lease_recoveries C ?n (raw_pending m)\<rparr>"
  have st': "run_rows st' = update_where ?P ?f (run_rows st)" "affected ?P (run_rows st) = 1"
    using assms(1,2) by (auto simp: begin_step_def charge_isolated_step_def charge_lease_recovery_def Let_def split: if_splits)
  obtain x where x: "x \<in> set (run_rows st)" "?P x"
    using st'(2) unfolding affected_def by (metis filter_empty_conv length_0_conv zero_neq_one)
  have "md_id x = md_id m" using x(2) raw_decode_Inr(2)[OF assms(6)] by (simp add: worker_lease_def)
  then have "x = m" using rows_ok_unique[OF assms(8,4) x(1)] by simp
  then have "?f m \<in> set (run_rows st')" using x st'(1) by (auto simp: update_where_def image_iff intro!: bexI[of _ m])
  moreover have "raw_decode C (?f m) = Inr (r\<lparr>recovery := (recovery r)\<lparr>lease_recoveries := ?n\<rparr>\<rparr>)"
  proof -
    have "md_phase m = state_phase (state r)" using decode_sound(1)[OF assms(7)] raw_decode_Inr(1)[OF assms(6)] by metis
    then have "decode C (md_phase m) (set_lease_recoveries C ?n (raw_pending m)) = Inr (state r, (recovery r)\<lparr>lease_recoveries := ?n\<rparr>)"
      using decode_charged(1)[OF assms(7,3)] assms(5) by simp
    then show ?thesis using assms(6) by (auto simp: raw_decode_def and_then_Inr_iff split: option.splits)
  qed
  ultimately show "recoveries_of C (run_id r) st' (unat ?n)"
    using raw_decode_Inr(2)[OF assms(6)] unfolding recoveries_of_def by (intro bexI[of _ "?f m"]) auto
  show "rows_ok st'" using assms(8) unfolding rows_ok_def st'(1) by (subst map_update_where) simp_all
qed

lemma crashes_counted:
  assumes "crashes C supported node i n st st'" "state_codec_laws C"
  shows "rows_ok st' \<and> (0 < n \<longrightarrow> (\<exists>k \<ge> n + 1. k \<le> 4 \<and> recoveries_of C i st' k))"
  using assms(1)
proof induction
  case (one_more n st st1 st2 m now token secs r st3 now' r' st4)
  have ok: "rows_ok st2" using one_more.hyps(2) by (simp add: unfinished_def)
  obtain r0 where r0: "raw_decode C m = Inr r0" "lease_recoveries (recovery r0) \<le> LEASE_RECOVERY_LIMIT"
    "lease_claim C now token secs (r0\<lparr>recovery := (recovery r0)\<lparr>lease_recoveries := max (lease_recoveries (recovery r0)) 1\<rparr>\<rparr>) st2
       = Inr (Some r, st3)"
    by (rule recovered_claim[OF one_more.hyps(7,5,6)])
  obtain p where p: "encode C (state r) (recovery r) = Inr p" "recovery r = (recovery r0)\<lparr>lease_recoveries := max (lease_recoveries (recovery r0)) 1\<rparr>"
    "run_id r = md_id m" "(claimed_row now token secs m)\<lparr>raw_pending := p\<rparr> \<in> set (run_rows st3)"
    "raw_decode C ((claimed_row now token secs m)\<lparr>raw_pending := p\<rparr>) = Inr r" "rows_ok st3"
    by (rule lease_claim_row[OF r0(3,1) assms(2) ok one_more.hyps(3)])
  let ?c = "lease_recoveries (recovery r0)"
  have pos: "0 < lease_recoveries (recovery r)" by (simp add: p(2) less_max_iff_disj)
  have b: "recoveries_of C i st4 (unat (saturating_add (max ?c 1) 1))" "rows_ok st4"
    using begun_charges[OF one_more.hyps(8) pos p(1,4) _ p(5) assms(2) p(6)] p(2,3) one_more.hyps(4) by simp_all
  have lim: "unat ?c \<le> 3" using r0(2) by (simp add: word_le_nat_alt LEASE_RECOVERY_LIMIT_def)
  have val: "unat (saturating_add (max ?c 1) 1) = max (unat ?c) 1 + 1"
    using lim by (simp add: unat_saturating_add max_def word_le_nat_alt)
  have "n + 1 \<le> unat ?c" if pos: "0 < n"
  proof -
    obtain k where k: "n + 1 \<le> k" "recoveries_of C i st1 k" using one_more.IH pos by blast
    then obtain k' where "k \<le> k'" "recoveries_of C i st2 k'" using one_more.hyps(2) by (auto simp: unfinished_def)
    then show ?thesis using recoveries_of_unique[OF ok _ one_more.hyps(3,4) r0(1)] k(1) by fastforce
  qed
  then have "Suc n + 1 \<le> max (unat ?c) 1 + 1" by (cases n) auto
  then show ?case using b lim unfolding val by (intro conjI impI exI[of _ "max (unat ?c) 1 + 1"]) auto
qed simp

lemma crash_loop_repair:
  assumes "lease_row C supported node now token secs m st = Inr (claimed, st')" "\<not> passes_over C supported node now m st"
    and "raw_decode C m = Inr r" "LEASE_RECOVERY_LIMIT < lease_recoveries (recovery r)" "md_lease_owner m \<noteq> None" "md_control m \<noteq> ControlCancelled"
    and "rows_ok st" "m \<in> set (run_rows st)" "free_row now m" "0 < secs"
  shows "claimed = None \<and> (\<exists>m' \<in> set (run_rows st'). hands_over C now TargetFailed (Some crash_loop_reason) m m')"
proof -
  have "unmet_capabilities C supported m = []" using assms(2,6) by (auto simp: passes_over_def)
  then have "claimed = None" "repair C now token secs m TargetFailed (Some crash_loop_reason) (Some ''run.crash_loop'') st = Inr st'"
    using assms(1-6) by (auto simp: lease_row_def loadable_def and_then_Inr_iff)
  then show ?thesis using changes_image[OF repair_changes(2)[OF _ assms(7-10)] assms(8)] by blast
qed

text \<open>
  Property C14. An abandoned lease is recovered and its step begun again at most three times in a row.
  The scan that finds the Run abandoned once more does not start it: it hands the Run over to the
  delivery of its failure, with the reason.
\<close>

theorem crash_loop_bounded:
  assumes "crashes C supported node i n st st1" "state_codec_laws C"
  shows "n \<le> 3
    \<and> (n = 3 \<and> unfinished C i st1 st2 \<and> m \<in> set (run_rows st2) \<and> md_id m = i \<and> is_ok (raw_decode C m) \<and> free_row now m
         \<and> md_lease_owner m \<noteq> None \<and> md_control m \<noteq> ControlCancelled \<and> \<not> passes_over C supported node now m st2
         \<and> 0 < secs \<and> lease_row C supported node now token secs m st2 = Inr (claimed, st3)
       \<longrightarrow> claimed = None \<and> (\<exists>m' \<in> set (run_rows st3). hands_over C now TargetFailed (Some crash_loop_reason) m m'))"
proof -
  note c = crashes_counted[OF assms]
  then have "n \<le> 3" by (cases n) auto
  moreover have "LEASE_RECOVERY_LIMIT < lease_recoveries (recovery r)"
    if n: "n = 3" "unfinished C i st1 st2" "m \<in> set (run_rows st2)" "md_id m = i" and r: "raw_decode C m = Inr r" for r
  proof -
    obtain k where k: "n + 1 \<le> k" "recoveries_of C i st1 k" using c n(1) by auto
    then obtain k' where k': "k \<le> k'" "recoveries_of C i st2 k'" using n(2) by (auto simp: unfinished_def)
    have "rows_ok st2" using n(2) by (simp add: unfinished_def)
    then have "unat (lease_recoveries (recovery r)) = k'" using recoveries_of_unique[OF _ k'(2) n(3,4) r] by simp
    then show ?thesis using k k' n(1) by (simp add: LEASE_RECOVERY_LIMIT_def word_less_nat_alt)
  qed
  ultimately show ?thesis using crash_loop_repair[of C supported node now token secs m st2 claimed st3]
    by (auto simp: is_ok_iff unfinished_def)
qed

lemma sample_crash: "\<exists>st'. crashes plain_codec [] ''n'' 1 1 (sample_exec [sample_claimed]) st'"
proof -
  let ?st = "sample_exec [sample_claimed]" and ?m = "sample_row sample_claimed" and ?now = "seconds 60"
  let ?r = "sample_claimed\<lparr>recovery := default_recovery\<lparr>lease_recoveries := 1\<rparr>\<rparr>"
  have r: "run_id sample_claimed = 1" "state sample_claimed = RunReady" "recovery sample_claimed = default_recovery"
      "lease_until sample_claimed = Some (lease_deadline 0 30)" "lease_owner sample_claimed = Some 7" "control sample_claimed = Active"
    by (simp_all add: sample_claimed_def) (simp add: sample_run_def)
  have dec: "raw_decode plain_codec ?m = Inr sample_claimed" by (rule sample_decode) (simp_all add: r)
  note dec1 = raw_decode_Inr(1)[OF dec]
  have free: "run_unblocked ?m ?st" by (simp add: run_unblocked_def queued_behind_def area_unready_def)
  have lapsed: "\<not> leased ?now ?m" by (simp add: leased_def r lease_deadline_def seconds_def)
  have unmet: "unmet_capabilities plain_codec [] ?m = []"
    by (simp add: unmet_capabilities_def from_pending_def sample_pending_def plain_codec_def unmet_def)
  have "due plain_codec ''n'' ?m ?now ?st = Some ?now"
    using dec1 lapsed by (simp add: due_def phase_is_terminal_def unblocked_def free dec is_ok_iff default_recovery_def r)
  then have p: "\<not> passes_over plain_codec [] ''n'' ?now ?m ?st" using dec1 by (simp add: passes_over_def unmet r)
  have stored: "stored_pending plain_codec ?r = Inr (sample_pending\<lparr>ps_recovery := default_recovery\<lparr>lease_recoveries := 1\<rparr>\<rparr>)"
    by (simp add: stored_pending_def encode_def sample_pending_def plain_codec_def requirements_of_def set_extend_def r
      recovery_capabilities_def default_recovery_def degraded_is_empty_def no_degradation_def)
  let ?p = "sample_pending\<lparr>ps_recovery := default_recovery\<lparr>lease_recoveries := 1\<rparr>\<rparr>"
  let ?r9 = "?r\<lparr>lease_owner := Some 8, lease_until := Some (lease_deadline ?now 30), revision := revision sample_claimed + 1\<rparr>"
  have row: "(claimed_row ?now 8 30 ?m)\<lparr>raw_pending := ?p\<rparr> = row_of plain_codec ?p ?r9"
    by (simp add: claimed_row_def sample_row_def row_of_def metadata_def run_metadata.defs sample_claimed_def sample_run_def)
  have "stored_pending plain_codec ?r9 = Inr ?p" using stored by (simp add: stored_pending_def)
  then have dec9: "raw_decode plain_codec (row_of plain_codec ?p ?r9) = Inr ?r9" by (rule raw_decode_row[OF plain_codec_laws])
  obtain st3 where st3: "lease_claim plain_codec ?now 8 30 ?r ?st = Inr (Some ?r9, st3)" "run_rows st3 = [row_of plain_codec ?p ?r9]"
    using dec9 by (simp add: lease_claim_def stored domain_def update_where_def row r)
  have l: "lease_row plain_codec [] ''n'' ?now 8 30 ?m ?st = Inr (Some ?r9, st3)"
    using p st3(1) by (simp add: lease_row_def loadable_def unmet dec r default_recovery_def LEASE_RECOVERY_LIMIT_def)
  have "worker_lease (seconds 61) (run_id ?r9) 8 (row_of plain_codec ?p ?r9)"
    by (simp add: worker_lease_def leased_def row_of_def metadata_def run_metadata.defs lease_deadline_def seconds_def)
  then obtain r' st4 where b: "begin_step plain_codec (seconds 61) 8 ?r9 st3 = (Inr r', st4)"
    using st3(2) by (simp add: begin_step_def charge_isolated_step_def charge_lease_recovery_def affected_def Let_def)
  have "crashes plain_codec [] ''n'' 1 (Suc 0) ?st st4"
    by (rule one_more[OF no_crash _ _ _ _ _ l b]) (auto simp: unfinished_def rows_ok_def r)
  then show ?thesis by auto
qed

theorem crash_loop_bounded_witness: "\<exists>n st1. 0 < n \<and> crashes plain_codec [] ''n'' 1 n (sample_exec [sample_claimed]) st1 \<and> n \<le> 3"
  using sample_crash crash_loop_bounded[OF _ plain_codec_laws] by (metis zero_less_one)

end
