(* ===== verification/Transactions.thy ===== *)
theory Transactions
  imports Json Nodes Failures
begin

text \<open>
  Atomic transactions across Nodes, the domain rules (crates/aidash-domain/src/transactions.rs and
  transactions/*.rs): immutable manifests and their validation, the monotonic decisions of a
  coordinator, and the ordering of participant votes. Serialization, hashing and the text of UUIDs
  are third-party code and form the parameter \<open>codec\<close>.
\<close>

section \<open>Manifests\<close>

datatype isolation = Serializable

record 'v artifact_input =
  a_kind :: string
  a_name :: string
  a_content :: 'v

definition artifact_validate :: "'v json_ops \<Rightarrow> 'v artifact_input \<Rightarrow> unit result" where
  "artifact_validate J a =
     and_then (nonempty (a_name a) ''artifact name'') (\<lambda>_.
     and_then (refuse_if (a_kind a \<notin> {''text'', ''json'', ''file_reference'', ''code'', ''structured_result''})
       (Invalid ''unsupported artifact kind'')) (\<lambda>_.
     refuse_if (a_kind a \<in> {''text'', ''code'', ''file_reference''} \<and> \<not> is_string J (a_content a))
       (Invalid ''artifact content must be a string'')))"

datatype 'v mutation =
    WorkspaceState uuid int 'v
  | CompleteTask uuid int "'v artifact_input"
  | FinishRun uuid uuid int

record 'v participant =
  node_id :: string
  mutations :: "'v mutation list"

record 'v manifest =
  m_id :: uuid
  coordinator :: string
  isolation_level :: isolation
  deadline :: datetime
  participants :: "'v participant list"

text \<open>
  What \<open>serde_json\<close>, \<open>sha2\<close> and \<open>uuid\<close> do for a manifest: its JSON value and back, its bytes
  (which may fail), the hexadecimal SHA-256 of bytes, and the text of a UUID. The sources rely on
  a manifest coming back from its own value.
\<close>

record 'v codec =
  to_value :: "'v manifest \<Rightarrow> 'v"
  from_value :: "'v \<Rightarrow> 'v manifest option"
  to_vec :: "'v manifest \<Rightarrow> string option"
  sha256_hex :: "string \<Rightarrow> string"
  uuid_text :: "uuid \<Rightarrow> string"

definition codec_laws :: "'v codec \<Rightarrow> bool" where
  "codec_laws C \<longleftrightarrow> (\<forall>m. from_value C (to_value C m) = Some m)"

lemma to_value_inj: "codec_laws C \<Longrightarrow> to_value C m = to_value C m' \<Longrightarrow> m = m'"
  unfolding codec_laws_def by (metis option.inject)

text \<open>The loop that keeps the Node named of each Deployment.\<close>

definition check_host ::
  "string \<Rightarrow> (string, string) btree_map \<Rightarrow> failure + (string, string) btree_map" where
  "check_host node hosts =
     (case map_of hosts (deployment_of node) of
        Some other \<Rightarrow>
          if other \<noteq> node
          then Inl (DomainFailure (Invalid ''a transaction names at most one Node of each Deployment''))
          else Inr (map_insert (deployment_of node) node hosts)
      | None \<Rightarrow> Inr (map_insert (deployment_of node) node hosts))"

fun mutation_key :: "'v json_ops \<Rightarrow> 'v codec \<Rightarrow> 'v mutation \<Rightarrow> failure + string" where
  "mutation_key J C (WorkspaceState workspace_id expected_revision state) =
     (if expected_revision < 0 \<or> \<not> is_object J state
      then Inl (DomainFailure (Invalid ''workspace mutation requires a revision and object state''))
      else Inr (''workspace:'' @ uuid_text C workspace_id))"
| "mutation_key J C (CompleteTask task_id expected_revision artifact) =
     (if expected_revision < 0
      then Inl (DomainFailure (Invalid ''task revision must be nonnegative''))
      else and_then (domain (artifact_validate J artifact)) (\<lambda>_. Inr (''task:'' @ uuid_text C task_id)))"
| "mutation_key J C (FinishRun run_id task_id expected_revision) =
     (if expected_revision < 0
      then Inl (DomainFailure (Invalid ''run revision must be nonnegative''))
      else Inr (''run:'' @ uuid_text C run_id))"

definition check_mutation ::
  "'v json_ops \<Rightarrow> 'v codec \<Rightarrow> 'v mutation \<Rightarrow> string btree_set \<Rightarrow> failure + string btree_set" where
  "check_mutation J C mut keys =
     and_then (mutation_key J C mut) (\<lambda>key.
       if key \<in> set keys
       then Inl (DomainFailure (Invalid ''a resource can be mutated only once per manifest''))
       else Inr (set_insert key keys))"

text \<open>One pass of the loop over the participants; the accumulator is the previous Node and the count.\<close>

definition check_participant ::
  "'v json_ops \<Rightarrow> 'v codec \<Rightarrow> 'v participant \<Rightarrow> string option \<times> nat \<Rightarrow> failure + string option \<times> nat" where
  "check_participant J C p = (\<lambda>(previous, count).
     and_then (domain (NodeAddress_parse (node_id p))) (\<lambda>_.
     if (case previous of None \<Rightarrow> False | Some q \<Rightarrow> node_id p \<le> q) \<or> length (mutations p) > 64
     then Inl (DomainFailure (Invalid ''participants must be unique, sorted by node ID, with at most 64 mutations each''))
     else and_then (fold_each (check_mutation J C) (mutations p) []) (\<lambda>_.
            Inr (Some (node_id p), count + length (mutations p)))))"

definition manifest_validate :: "'v json_ops \<Rightarrow> 'v codec \<Rightarrow> 'v manifest \<Rightarrow> failure + unit" where
  "manifest_validate J C m =
     and_then (domain (NodeAddress_parse (coordinator m))) (\<lambda>_.
     if m_id m = 0 \<or> participants m = [] \<or> length (participants m) > 16
     then Inl (DomainFailure (Invalid ''transaction requires an ID and 1..16 participants''))
     else and_then (fold_each check_host (coordinator m # map node_id (participants m)) []) (\<lambda>_.
     and_then (fold_each (check_participant J C) (participants m) (None, 0)) (\<lambda>(_, count).
     let refused = Inl (DomainFailure (Invalid
           ''transaction needs mutations, its coordinator as a participant, and a manifest within 512 KiB''))
     in if count = 0 \<or> \<not> list_ex (\<lambda>p. node_id p = coordinator m) (participants m) then refused
        else case to_vec C m of
               None \<Rightarrow> Inl JsonFailure
             | Some bytes \<Rightarrow> if length bytes > 524288 then refused else Inr ())))"

definition manifest_digest :: "'v codec \<Rightarrow> 'v manifest \<Rightarrow> failure + string" where
  "manifest_digest C m =
     (case to_vec C m of None \<Rightarrow> Inl JsonFailure | Some bytes \<Rightarrow> Inr (sha256_hex C bytes))"

definition manifest_local :: "'v manifest \<Rightarrow> string \<Rightarrow> 'v participant option" where
  "manifest_local m address = find (\<lambda>p. node_id p = address) (participants m)"

section \<open>Coordinator decisions\<close>

datatype coordinator_decision = Commit | Abort

record coordinator_state =
  decided :: "coordinator_decision option"
  visible :: bool
  complete :: bool

datatype coordinator_transition = Decide coordinator_decision | Publish | Complete

fun transition_phase :: "coordinator_transition \<Rightarrow> string" where
  "transition_phase (Decide Commit) = ''COMMIT''"
| "transition_phase (Decide Abort) = ''ABORT''"
| "transition_phase Publish = ''VISIBLE''"
| "transition_phase Complete = ''COMPLETE''"

text \<open>\<open>apply\<close> mutates the state it is given; the flag says whether anything changed.\<close>

fun transition_apply ::
  "coordinator_transition \<Rightarrow> coordinator_state \<Rightarrow> (bool \<times> coordinator_state) result" where
  "transition_apply (Decide d) s =
     (if decided s \<noteq> None then Inr (False, s) else Inr (True, s\<lparr>decided := Some d\<rparr>))"
| "transition_apply Publish s =
     (if decided s \<noteq> Some Commit
      then Inl (Conflict ''only a committed transaction can become visible'')
      else if visible s then Inr (False, s)
      else Inr (True, s\<lparr>visible := True\<rparr>))"
| "transition_apply Complete s =
     (if decided s = Some Abort \<or> (decided s = Some Commit \<and> visible s)
      then if complete s then Inr (False, s) else Inr (True, s\<lparr>complete := True\<rparr>)
      else Inl (Conflict ''transaction must have a finalized decision''))"

section \<open>Votes and acknowledgements\<close>

record vote =
  v_node :: string
  v_phase :: string

record 'v status =
  st_id :: uuid
  st_digest :: string
  st_manifest :: 'v
  st_decision :: "string option"
  st_visible :: bool
  st_complete :: bool
  st_last_error :: "string option"

record 'v local_status =
  ls_id :: uuid
  ls_coordinator :: string
  ls_digest :: string
  ls_manifest :: 'v
  ls_phase :: string

datatype participant_phase = Reserved | Prepared | Applied | Committed | Aborted

fun phase_str :: "participant_phase \<Rightarrow> string" where
  "phase_str Reserved = ''RESERVED''"
| "phase_str Prepared = ''PREPARED''"
| "phase_str Applied = ''APPLIED''"
| "phase_str Committed = ''COMMITTED''"
| "phase_str Aborted = ''ABORTED''"

text \<open>
  \<open>participant_matches\<close> and \<open>decision_matches\<close> compare with \<open>json!(manifest)\<close>; the digest is
  computed by the caller.
\<close>

definition participant_matches :: "'v codec \<Rightarrow> 'v manifest \<Rightarrow> string \<Rightarrow> 'v local_status \<Rightarrow> bool" where
  "participant_matches C m digest existing \<longleftrightarrow>
     ls_coordinator existing = coordinator m \<and> ls_digest existing = digest
     \<and> ls_manifest existing = to_value C m"

definition abortable :: "'v local_status \<Rightarrow> bool" where
  "abortable existing \<longleftrightarrow> ls_phase existing \<notin> {''APPLIED'', ''COMMITTED''}"

definition commit_ready :: "'v local_status \<Rightarrow> bool" where
  "commit_ready existing \<longleftrightarrow> ls_phase existing \<in> {''PREPARED'', ''APPLIED''}"

datatype participant_operation = Reserve | Prepare | Finish_op

fun operation_str :: "participant_operation \<Rightarrow> string" where
  "operation_str Reserve = ''reserve''"
| "operation_str Prepare = ''prepare''"
| "operation_str Finish_op = ''finish''"

fun expected_phase :: "participant_operation \<Rightarrow> 'v status \<Rightarrow> string" where
  "expected_phase Reserve s = ''RESERVED''"
| "expected_phase Prepare s = ''PREPARED''"
| "expected_phase Finish_op s =
     (if st_decision s = Some ''ABORT'' then ''ABORTED''
      else if st_visible s then ''COMMITTED''
      else ''APPLIED'')"

definition next_participant ::
  "'v status \<Rightarrow> vote list \<Rightarrow> (vote \<times> participant_operation) option" where
  "next_participant s votes =
     (if st_decision s = None then
        (case find (\<lambda>v. v_phase v = ''PENDING'') votes of
           Some v \<Rightarrow> Some (v, Reserve)
         | None \<Rightarrow> map_option (\<lambda>v. (v, Prepare)) (find (\<lambda>v. v_phase v = ''RESERVED'') votes))
      else if st_decision s = Some ''ABORT'' then
        map_option (\<lambda>v. (v, Finish_op)) (find (\<lambda>v. v_phase v \<noteq> ''ABORTED'') votes)
      else if \<not> st_visible s then
        map_option (\<lambda>v. (v, Finish_op)) (find (\<lambda>v. v_phase v \<notin> {''APPLIED'', ''COMMITTED''}) votes)
      else map_option (\<lambda>v. (v, Finish_op)) (find (\<lambda>v. v_phase v \<noteq> ''COMMITTED'') votes))"

definition validate_acknowledgement ::
  "'v manifest \<Rightarrow> 'v status \<Rightarrow> participant_operation \<Rightarrow> 'v local_status \<Rightarrow> unit result" where
  "validate_acknowledgement m s op response =
     (if ls_id response \<noteq> m_id m \<or> ls_coordinator response \<noteq> coordinator m
         \<or> ls_digest response \<noteq> st_digest s \<or> ls_manifest response \<noteq> st_manifest s
      then Inl (Conflict ''participant acknowledged another manifest'')
      else if ls_phase response \<noteq> expected_phase op s
      then Inl (Conflict ''participant returned an unexpected phase'')
      else Inr ())"

definition decision_matches :: "'v codec \<Rightarrow> 'v manifest \<Rightarrow> string \<Rightarrow> 'v status \<Rightarrow> bool" where
  "decision_matches C m digest proof_status \<longleftrightarrow>
     st_id proof_status = m_id m \<and> st_digest proof_status = digest
     \<and> st_manifest proof_status = to_value C m
     \<and> (case st_decision proof_status of None \<Rightarrow> True | Some d \<Rightarrow> d \<in> {''COMMIT'', ''ABORT''})
     \<and> (\<not> st_visible proof_status \<or> st_decision proof_status = Some ''COMMIT'')"

definition next_transition ::
  "'v status \<Rightarrow> vote list \<Rightarrow> (coordinator_transition \<times> string) result" where
  "next_transition s votes =
     (if st_decision s = None then
        if \<not> list_all (\<lambda>v. v_phase v = ''PREPARED'') votes
        then Inl (Conflict ''commit requires every prepared vote'')
        else Inr (Decide Commit, [])
      else if st_decision s = Some ''COMMIT'' \<and> \<not> st_visible s
      then Inr (Publish, ''every participant durably applied commit'')
      else Inr (Complete, ''every participant finalized''))"

section \<open>Transaction authority\<close>

record origin =
  o_credential_id :: uuid
  o_tenant :: string
  o_subject :: string

record target =
  t_kind :: string
  t_id :: uuid
  t_task_id :: "uuid option"

record preflight =
  pf_id :: uuid
  pf_coordinator :: string
  pf_digest :: string
  pf_origin :: origin
  pf_recipients :: "string list"
  pf_targets :: "target list"

definition preflight_permits :: "preflight \<Rightarrow> string \<Rightarrow> string \<Rightarrow> bool" where
  "preflight_permits pf caller node \<longleftrightarrow>
     caller = pf_coordinator pf \<and> length (pf_targets pf) \<le> 64 \<and> pf_recipients pf \<noteq> []
     \<and> length (pf_recipients pf) \<le> 16 \<and> list_ex (\<lambda>r. r = node) (pf_recipients pf)
     \<and> length (pf_digest pf) = 64"

definition chain_compatible :: "string list \<Rightarrow> string list \<Rightarrow> bool" where
  "chain_compatible previous current \<longleftrightarrow> length previous \<le> 1 \<or> previous = current"

section \<open>What validation establishes\<close>

definition mutations_ok :: "'v json_ops \<Rightarrow> 'v codec \<Rightarrow> 'v mutation list \<Rightarrow> bool" where
  "mutations_ok J C muts \<longleftrightarrow>
     (\<forall>mut\<in>set muts. is_ok (mutation_key J C mut)) \<and> distinct (map (mutation_key J C) muts)"

text \<open>
  A well-formed manifest: it has an identifier, 1 to 16 participants in strictly ascending order of
  their Node addresses, at most one Node of each Deployment, its coordinator among them, at most 64
  mutations of distinct resources each and at least one in all, and fits in 512 KiB.
\<close>

definition manifest_ok :: "'v json_ops \<Rightarrow> 'v codec \<Rightarrow> 'v manifest \<Rightarrow> bool" where
  "manifest_ok J C m \<longleftrightarrow>
     m_id m \<noteq> 0 \<and> participants m \<noteq> [] \<and> length (participants m) \<le> 16
     \<and> coordinator m \<in> node_id ` set (participants m)
     \<and> sorted_wrt (<) (map node_id (participants m))
     \<and> inj_on deployment_of (node_id ` set (participants m))
     \<and> (\<forall>p\<in>set (participants m). is_ok (NodeAddress_parse (node_id p))
          \<and> length (mutations p) \<le> 64 \<and> mutations_ok J C (mutations p))
     \<and> (\<exists>p\<in>set (participants m). mutations p \<noteq> [])
     \<and> (\<exists>bytes. to_vec C m = Some bytes \<and> length bytes \<le> 524288)"

lemma check_hosts:
  "(\<And>d n. map_of hosts d = Some n \<Longrightarrow> deployment_of n = d) \<Longrightarrow>
     is_ok (fold_each check_host nodes hosts) \<longleftrightarrow>
       inj_on deployment_of (set nodes)
       \<and> (\<forall>n\<in>set nodes. \<forall>n'. map_of hosts (deployment_of n) = Some n' \<longrightarrow> n' = n)"
proof (induction nodes arbitrary: hosts)
  case (Cons n nodes)
  let ?hosts = "map_insert (deployment_of n) n hosts"
  have step: "fold_each check_host (n # nodes) hosts =
      (if map_of hosts (deployment_of n) \<in> {None, Some n} then fold_each check_host nodes ?hosts
       else Inl (DomainFailure (Invalid ''a transaction names at most one Node of each Deployment'')))"
    by (auto simp: check_host_def split: option.splits)
  have "is_ok (fold_each check_host nodes ?hosts) \<longleftrightarrow> inj_on deployment_of (set nodes)
      \<and> (\<forall>n\<in>set nodes. \<forall>n'. map_of ?hosts (deployment_of n) = Some n' \<longrightarrow> n' = n)"
    using Cons.prems by (intro Cons.IH) (auto split: if_splits)
  then show ?case unfolding step by (auto simp: inj_on_def)
qed simp

lemma check_mutations:
  "is_ok (fold_each (check_mutation J C) muts keys) \<longleftrightarrow>
     mutations_ok J C muts \<and> (\<forall>mut\<in>set muts. \<forall>k\<in>set keys. mutation_key J C mut \<noteq> Inr k)"
proof (induction muts arbitrary: keys)
  case (Cons mut muts)
  show ?case
  proof (cases "mutation_key J C mut")
    case (Inr k)
    then have "fold_each (check_mutation J C) (mut # muts) keys =
        (if k \<in> set keys
         then Inl (DomainFailure (Invalid ''a resource can be mutated only once per manifest''))
         else fold_each (check_mutation J C) muts (set_insert k keys))"
      by (simp add: check_mutation_def)
    with Inr show ?thesis by (auto simp: Cons.IH mutations_ok_def image_iff)
  qed (simp add: check_mutation_def mutations_ok_def)
qed (simp add: mutations_ok_def)

lemma check_participants:
  "fold_each (check_participant J C) ps (previous, count) = Inr (previous', count') \<longleftrightarrow>
     (\<forall>p\<in>set ps. is_ok (NodeAddress_parse (node_id p)) \<and> length (mutations p) \<le> 64
        \<and> mutations_ok J C (mutations p))
     \<and> sorted_wrt (<) (map node_id ps)
     \<and> (\<forall>q. previous = Some q \<longrightarrow> (\<forall>p\<in>set ps. q < node_id p))
     \<and> previous' = (if ps = [] then previous else Some (node_id (last ps)))
     \<and> count' = count + sum_list (map (\<lambda>p. length (mutations p)) ps)"
proof (induction ps arbitrary: previous count)
  case (Cons p ps)
  let ?here = "is_ok (NodeAddress_parse (node_id p)) \<and> length (mutations p) \<le> 64
      \<and> mutations_ok J C (mutations p) \<and> (\<forall>q. previous = Some q \<longrightarrow> q < node_id p)"
  have "fold_each (check_participant J C) (p # ps) (previous, count) = Inr (previous', count') \<longleftrightarrow>
      ?here \<and> fold_each (check_participant J C) ps (Some (node_id p), count + length (mutations p))
        = Inr (previous', count')"
    using check_mutations[of J C "mutations p" "[]"]
    by (auto simp: check_participant_def and_then_Inr_iff is_ok_iff not_le split: option.splits if_splits)
  moreover have "q < node_id p'" if "q < node_id p" "\<forall>p'\<in>set ps. node_id p < node_id p'" "p' \<in> set ps" for q p'
    using that less_trans by blast
  ultimately show ?case unfolding Cons.IH by auto
qed auto

lemma mutations_total: "sum_list (map (\<lambda>p. length (mutations p)) ps) = 0 \<longleftrightarrow> (\<forall>p\<in>set ps. mutations p = [])"
  by (induction ps) auto

lemma manifest_validate_ok: "manifest_validate J C m = Inr () \<longleftrightarrow> manifest_ok J C m"
proof -
  let ?nodes = "map node_id (participants m)"
  have hosts: "(\<exists>hosts. fold_each check_host (coordinator m # ?nodes) [] = Inr hosts)
      \<longleftrightarrow> inj_on deployment_of (insert (coordinator m) (node_id ` set (participants m)))"
    using check_hosts[of "[]" "coordinator m # ?nodes"] by (simp add: is_ok_iff)
  have parts: "(\<exists>q count. fold_each (check_participant J C) (participants m) (None, 0) = Inr (q, count)
        \<and> P count) \<longleftrightarrow>
      (\<forall>p\<in>set (participants m). is_ok (NodeAddress_parse (node_id p)) \<and> length (mutations p) \<le> 64
        \<and> mutations_ok J C (mutations p)) \<and> sorted_wrt (<) ?nodes
      \<and> P (sum_list (map (\<lambda>p. length (mutations p)) (participants m)))" for P
    unfolding check_participants by auto
  have validate: "manifest_validate J C m = Inr () \<longleftrightarrow>
      is_ok (NodeAddress_parse (coordinator m)) \<and> m_id m \<noteq> 0 \<and> participants m \<noteq> []
      \<and> length (participants m) \<le> 16
      \<and> (\<exists>hosts. fold_each check_host (coordinator m # ?nodes) [] = Inr hosts)
      \<and> (\<exists>q count. fold_each (check_participant J C) (participants m) (None, 0) = Inr (q, count)
          \<and> count \<noteq> 0 \<and> list_ex (\<lambda>p. node_id p = coordinator m) (participants m)
          \<and> (\<exists>bytes. to_vec C m = Some bytes \<and> length bytes \<le> 524288))"
    by (auto simp: manifest_validate_def and_then_Inr_iff is_ok_iff Let_def not_le not_less
        split: option.splits)
  have member: "list_ex (\<lambda>p. node_id p = coordinator m) (participants m)
      \<longleftrightarrow> coordinator m \<in> node_id ` set (participants m)"
    by (force simp: list_ex_iff)
  show ?thesis
  proof (cases "coordinator m \<in> node_id ` set (participants m)")
    case True
    then have "(\<forall>p\<in>set (participants m). is_ok (NodeAddress_parse (node_id p)))
        \<Longrightarrow> is_ok (NodeAddress_parse (coordinator m))" by auto
    then show ?thesis
      unfolding validate hosts parts member mutations_total manifest_ok_def insert_absorb[OF True]
      by blast
  next
    case False
    then show ?thesis unfolding validate hosts parts member manifest_ok_def by simp
  qed
qed

section \<open>The coordinator decides once\<close>

definition coordinator_step :: "coordinator_state \<Rightarrow> coordinator_state \<Rightarrow> bool" where
  "coordinator_step s s' \<longleftrightarrow> (\<exists>change changed. transition_apply change s = Inr (changed, s'))"

definition coordinator_init :: "coordinator_state \<Rightarrow> bool" where
  "coordinator_init s \<longleftrightarrow> s = \<lparr> decided = None, visible = False, complete = False \<rparr>"

text \<open>Only a commit becomes visible, and only a visible commit or an abort completes.\<close>

definition coordinator_inv :: "coordinator_state \<Rightarrow> bool" where
  "coordinator_inv s \<longleftrightarrow>
     (visible s \<longrightarrow> decided s = Some Commit)
     \<and> (complete s \<longrightarrow> decided s = Some Abort \<or> (decided s = Some Commit \<and> visible s))"

lemma transition_apply_effect:
  assumes "transition_apply change s = Inr (changed, s')"
  shows "decided s \<noteq> None \<Longrightarrow> decided s' = decided s"
    and "visible s \<Longrightarrow> visible s'" and "complete s \<Longrightarrow> complete s'"
    and "\<not> changed \<Longrightarrow> s' = s"
    and "coordinator_inv s \<Longrightarrow> coordinator_inv s'"
  using assms by (cases change; auto simp: coordinator_inv_def split: if_splits)+

interpretation coordinating: invariant_system coordinator_init coordinator_step coordinator_inv
  by unfold_locales
    (auto simp: coordinator_init_def coordinator_step_def coordinator_inv_def[of "\<lparr>decided = None, visible = False, complete = False\<rparr>"]
      dest: transition_apply_effect(5))

text \<open>
  Coordinator states in the order of progress: a decision is never withdrawn or replaced, and
  visibility and completion never return.
\<close>

definition progressed :: "coordinator_state \<Rightarrow> coordinator_state \<Rightarrow> bool" where
  "progressed s s' \<longleftrightarrow>
     (decided s = None \<or> decided s' = decided s) \<and> (visible s \<longrightarrow> visible s') \<and> (complete s \<longrightarrow> complete s')"

lemma progressed_refl [simp]: "progressed s s"
  by (simp add: progressed_def)

lemma progressed_trans: "progressed s t \<Longrightarrow> progressed t u \<Longrightarrow> progressed s u"
  by (auto simp: progressed_def)

lemma coordinator_steps_progress: "coordinator_step\<^sup>*\<^sup>* s t \<Longrightarrow> progressed s t"
proof (induction rule: rtranclp_induct)
  case (step t u)
  then have "progressed t u"
    by (auto simp: coordinator_step_def progressed_def dest: transition_apply_effect)
  with step.IH show ?case by (rule progressed_trans)
qed simp

section \<open>Properties\<close>

text \<open>
  Property C35. Manifest validation accepts exactly the well-formed manifests.
\<close>

theorem manifest_validation: "manifest_validate J C m = Inr () \<longleftrightarrow> manifest_ok J C m"
  by (rule manifest_validate_ok)

text \<open>
  Property C34. From its initial state a coordinator reaches, by any sequence of transitions, only
  states in which nothing but a commit is visible and nothing undecided or invisible is complete;
  and from any state its decision is final and its progress is never undone.
\<close>

theorem coordinator_monotonic:
  assumes "reaches coordinator_init coordinator_step s" "coordinator_step\<^sup>*\<^sup>* s t"
  shows "coordinator_inv t \<and> progressed s t"
  using coordinating.steps_inv[OF coordinating.reachable_inv[OF assms(1)] assms(2)]
    coordinator_steps_progress[OF assms(2)] by blast

theorem coordinator_monotonic_witness:
  "let s = \<lparr> decided = Some Commit, visible = False, complete = False \<rparr>;
       t = \<lparr> decided = Some Commit, visible = True, complete = False \<rparr>
   in transition_apply (Decide Abort) t = Inr (False, t) \<and> coordinator_inv t \<and> progressed s t"
proof -
  let ?i = "\<lparr> decided = None, visible = False, complete = False \<rparr>"
  let ?s = "\<lparr> decided = Some Commit, visible = False, complete = False \<rparr>"
  let ?t = "\<lparr> decided = Some Commit, visible = True, complete = False \<rparr>"
  have "transition_apply (Decide Commit) ?i = Inr (True, ?s)" "transition_apply Publish ?s = Inr (True, ?t)"
    by simp_all
  then have "coordinator_step ?i ?s" "coordinator_step ?s ?t" unfolding coordinator_step_def by blast+
  moreover have "reaches coordinator_init coordinator_step ?i"
    by (rule reaches_init) (simp add: coordinator_init_def)
  ultimately have "reaches coordinator_init coordinator_step ?s" "coordinator_step\<^sup>*\<^sup>* ?s ?t"
    by (auto intro: reaches_step)
  from coordinator_monotonic[OF this] show ?thesis by simp
qed

end
