(* ===== verification/Atomic_Store.thy ===== *)
theory Atomic_Store
  imports Transactions
begin

text \<open>
  The durable records of atomic transactions in one Deployment
  (server/src/apps/federation/transactions/models and repositories): coordinator rows with their
  votes, participant rows, the visibility gate and the audit history. A database transaction is a
  function on the store that returns a failure, and then nothing is written, or the new store.
  Timestamps of rows and the sequence numbers of the history are not kept.
\<close>

section \<open>Records\<close>

record 'v atomic_coordinator =
  c_digest :: string
  c_manifest :: 'v
  c_decision :: "coordinator_decision option"
  c_visible :: bool
  c_complete :: bool
  c_last_error :: "string option"

record 'v atomic_participant =
  ap_id :: uuid
  ap_coordinator :: string
  ap_digest :: string
  ap_manifest :: 'v
  ap_phase :: participant_phase

record atomic_history =
  h_transaction :: uuid
  h_role :: string
  h_phase :: string
  h_detail :: string

text \<open>
  \<open>contents\<close> is everything else the Deployment stores: identities, Workspaces, Tasks and Runs.
\<close>

record ('v, 'd) store =
  coordinators :: "uuid \<rightharpoonup> 'v atomic_coordinator"
  votes_of :: "uuid \<Rightarrow> vote list"
  rows :: "uuid \<rightharpoonup> 'v atomic_participant"
  gate :: "uuid option"
  commit_epoch :: int
  history :: "atomic_history list"
  contents :: 'd

definition append_history ::
  "uuid \<Rightarrow> string \<Rightarrow> string \<Rightarrow> string \<Rightarrow> ('v, 'd) store \<Rightarrow> ('v, 'd) store" where
  "append_history i role phase detail st =
     st\<lparr>history := history st @ [\<lparr> h_transaction = i, h_role = role, h_phase = phase, h_detail = detail \<rparr>]\<rparr>"

text \<open>
  What the transaction code calls in other parts of the Deployment, over its contents: the check
  that a participant Node is live, the check that a target lives on a Node, the mutation workflow,
  the live authority for a new reservation, and for a submission the Tenant that holds a Node, the
  trust in another Node, and the record of who submitted.
\<close>

record ('v, 'd) env =
  json :: "'v json_ops"
  codec_of :: "'v codec"
  require_live :: "string \<Rightarrow> 'v manifest \<Rightarrow> 'd \<Rightarrow> failure + unit"
  require_target :: "string \<Rightarrow> string \<Rightarrow> uuid \<Rightarrow> 'd \<Rightarrow> failure + unit"
  mutate :: "string \<Rightarrow> 'v manifest \<Rightarrow> 'd \<Rightarrow> failure + 'd"
  admission :: "string \<Rightarrow> 'v manifest \<Rightarrow> 'd \<Rightarrow> failure + unit"
  node_tenant :: "string \<Rightarrow> 'd \<Rightarrow> failure + string option"
  match_origin :: "uuid \<Rightarrow> origin option \<Rightarrow> 'd \<Rightarrow> failure + unit"
  trusted :: "string \<Rightarrow> string \<Rightarrow> origin option \<Rightarrow> 'd \<Rightarrow> failure + bool"
  bind_origin :: "uuid \<Rightarrow> origin \<Rightarrow> 'd \<Rightarrow> failure + 'd"

section \<open>Coordinator records\<close>

definition row_state :: "'v atomic_coordinator \<Rightarrow> coordinator_state" where
  "row_state c = \<lparr> decided = c_decision c, visible = c_visible c, complete = c_complete c \<rparr>"

definition row_apply ::
  "coordinator_transition \<Rightarrow> 'v atomic_coordinator \<Rightarrow> failure + bool \<times> 'v atomic_coordinator" where
  "row_apply change c =
     and_then (domain (transition_apply change (row_state c))) (\<lambda>(changed, s).
       Inr (changed, c\<lparr>c_decision := decided s, c_visible := visible s, c_complete := complete s\<rparr>))"

fun is_decide :: "coordinator_transition \<Rightarrow> bool" where
  "is_decide (Decide d) = True"
| "is_decide Publish = False"
| "is_decide Complete = False"

definition transition_in ::
  "uuid \<Rightarrow> coordinator_transition \<Rightarrow> string \<Rightarrow> ('v, 'd) store \<Rightarrow> failure + bool \<times> ('v, 'd) store" where
  "transition_in i change detail st =
     (case coordinators st i of
        None \<Rightarrow> Inl (NotFound ''tx'')
      | Some c \<Rightarrow>
          and_then (row_apply change c) (\<lambda>(changed, c').
            if \<not> changed then Inr (False, st)
            else let c'' = c'\<lparr>c_last_error :=
                         (if detail \<noteq> [] \<and> is_decide change then Some detail else None)\<rparr>
                 in Inr (True, append_history i ''coordinator'' (transition_phase change) detail
                                 (st\<lparr>coordinators := (coordinators st)(i \<mapsto> c'')\<rparr>))))"

fun decision_text :: "coordinator_decision \<Rightarrow> string" where
  "decision_text Commit = ''COMMIT''"
| "decision_text Abort = ''ABORT''"

definition contract :: "uuid \<Rightarrow> 'v atomic_coordinator \<Rightarrow> 'v status" where
  "contract i c =
     \<lparr> st_id = i, st_digest = c_digest c, st_manifest = c_manifest c,
       st_decision = map_option decision_text (c_decision c), st_visible = c_visible c,
       st_complete = c_complete c, st_last_error = c_last_error c \<rparr>"

definition coordinator_status :: "uuid \<Rightarrow> ('v, 'd) store \<Rightarrow> failure + 'v status" where
  "coordinator_status i st =
     (case coordinators st i of
        None \<Rightarrow> Inl (NotFound ''transaction'')
      | Some c \<Rightarrow> Inr (contract i c))"

definition new_coordinator :: "'v codec \<Rightarrow> 'v manifest \<Rightarrow> string \<Rightarrow> 'v atomic_coordinator" where
  "new_coordinator C m digest =
     \<lparr> c_digest = digest, c_manifest = to_value C m, c_decision = None,
       c_visible = False, c_complete = False, c_last_error = None \<rparr>"

definition admit_in :: "'v codec \<Rightarrow> 'v manifest \<Rightarrow> ('v, 'd) store \<Rightarrow> failure + 'v status \<times> ('v, 'd) store" where
  "admit_in C m st =
     (case coordinators st (m_id m) of
        Some existing \<Rightarrow>
          and_then (manifest_digest C m) (\<lambda>digest.
            if c_digest existing \<noteq> digest \<or> c_manifest existing \<noteq> to_value C m
            then Inl (FConflict ''transaction ID already has another immutable manifest'')
            else Inr (contract (m_id m) existing, st))
      | None \<Rightarrow>
          and_then (manifest_digest C m) (\<lambda>digest.
            let c = new_coordinator C m digest;
                st' = st\<lparr> coordinators := (coordinators st)(m_id m \<mapsto> c),
                          votes_of := (votes_of st)(m_id m :=
                            map (\<lambda>p. \<lparr> v_node = node_id p, v_phase = ''PENDING'' \<rparr>) (participants m)) \<rparr>
            in Inr (contract (m_id m) c,
                    append_history (m_id m) ''coordinator'' ''PENDING'' ''immutable manifest admitted'' st')))"

definition record_error :: "uuid \<Rightarrow> string \<Rightarrow> ('v, 'd) store \<Rightarrow> failure + ('v, 'd) store" where
  "record_error i error st =
     (case coordinators st i of
        None \<Rightarrow> Inl (NotFound ''transaction'')
      | Some c \<Rightarrow> Inr (st\<lparr>coordinators := (coordinators st)(i \<mapsto> c\<lparr>c_last_error := Some error\<rparr>)\<rparr>))"

definition VOTE_PHASES :: "string list" where
  "VOTE_PHASES = [''PENDING'', ''RESERVED'', ''PREPARED'', ''APPLIED'', ''COMMITTED'', ''ABORTED'']"

definition acknowledge ::
  "uuid \<Rightarrow> string \<Rightarrow> string \<Rightarrow> ('v, 'd) store \<Rightarrow> failure + ('v, 'd) store" where
  "acknowledge i node phase st =
     (if phase \<notin> set VOTE_PHASES then Inl JsonFailure
      else case coordinators st i of
        None \<Rightarrow> Inl (NotFound ''transaction'')
      | Some c \<Rightarrow>
          (let matching = filter (\<lambda>v. v_node v = node) (votes_of st i)
           in if matching = [] then Inl (NotFound ''transaction participant'')
              else if length matching \<noteq> 1 then Inl (FConflict ''transaction participant changed'')
              else Inr (st\<lparr> votes_of := (votes_of st)(i :=
                              map (\<lambda>v. if v_node v = node then v\<lparr>v_phase := phase\<rparr> else v) (votes_of st i)),
                            coordinators := (coordinators st)(i \<mapsto> c\<lparr>c_last_error := None\<rparr>) \<rparr>)))"

section \<open>Participant records and the gate\<close>

definition row_status :: "'v atomic_participant \<Rightarrow> 'v local_status" where
  "row_status r =
     \<lparr> ls_id = ap_id r, ls_coordinator = ap_coordinator r, ls_digest = ap_digest r,
       ls_manifest = ap_manifest r, ls_phase = phase_str (ap_phase r) \<rparr>"

definition lock_row :: "uuid \<Rightarrow> ('v, 'd) store \<Rightarrow> 'v local_status option" where
  "lock_row i st = map_option row_status (rows st i)"

definition reserve_gate :: "uuid \<Rightarrow> ('v, 'd) store \<Rightarrow> ('v, 'd) store" where
  "reserve_gate i st = st\<lparr>gate := Some i\<rparr>"

definition release_gate :: "bool \<Rightarrow> ('v, 'd) store \<Rightarrow> ('v, 'd) store" where
  "release_gate committed st =
     st\<lparr>gate := None, commit_epoch := commit_epoch st + (if committed then 1 else 0)\<rparr>"

text \<open>The Node of the Deployment \<open>here\<close> that the manifest names.\<close>

definition local_node :: "string \<Rightarrow> 'v manifest \<Rightarrow> string" where
  "local_node here m =
     (case find (\<lambda>node. same_deployment node here) (map node_id (participants m)) of
        None \<Rightarrow> []
      | Some node \<Rightarrow> node)"

fun mutation_target :: "'v mutation \<Rightarrow> string \<times> uuid" where
  "mutation_target (WorkspaceState workspace_id _ _) = (''workspace'', workspace_id)"
| "mutation_target (CompleteTask task_id _ _) = (''task'', task_id)"
| "mutation_target (FinishRun run_id _ _) = (''run'', run_id)"

definition new_row :: "'v codec \<Rightarrow> 'v manifest \<Rightarrow> string \<Rightarrow> participant_phase \<Rightarrow> 'v atomic_participant" where
  "new_row C m digest phase =
     \<lparr> ap_id = m_id m, ap_coordinator = coordinator m, ap_digest = digest,
       ap_manifest = to_value C m, ap_phase = phase \<rparr>"

definition insert_row ::
  "('v, 'd) env \<Rightarrow> string \<Rightarrow> 'v manifest \<Rightarrow> participant_phase \<Rightarrow> ('v, 'd) store
     \<Rightarrow> failure + 'v local_status \<times> ('v, 'd) store" where
  "insert_row E here m phase st =
     and_then (if phase = Reserved then require_live E here m (contents st) else Inr ()) (\<lambda>_.
     case manifest_local m (local_node here m) of
       None \<Rightarrow> Inl Forbidden
     | Some p \<Rightarrow>
         and_then (for_each (\<lambda>mut. case mutation_target mut of (kind, i) \<Rightarrow>
             require_target E (local_node here m) kind i (contents st)) (mutations p)) (\<lambda>_.
         and_then (manifest_digest (codec_of E) m) (\<lambda>digest.
         if rows st (m_id m) \<noteq> None then Inl (OtherFailure ''duplicate key'')
         else let r = new_row (codec_of E) m digest phase
              in Inr (row_status r, st\<lparr>rows := (rows st)(m_id m \<mapsto> r)\<rparr>))))"

definition row_transition ::
  "uuid \<Rightarrow> participant_phase \<Rightarrow> ('v, 'd) store \<Rightarrow> failure + 'v local_status \<times> ('v, 'd) store" where
  "row_transition i phase st =
     (case rows st i of
        None \<Rightarrow> Inl (NotFound ''participant'')
      | Some r \<Rightarrow>
          let r' = r\<lparr>ap_phase := phase\<rparr>
          in Inr (row_status r',
                  append_history i ''participant'' (phase_str phase) ''durable participant transition''
                    (st\<lparr>rows := (rows st)(i \<mapsto> r')\<rparr>)))"

text \<open>
  A reader retains a shared lock on the gate; it is refused while a transaction holds it, and
  learns how many commits were released before.
\<close>

definition read_lease :: "('v, 'd) store \<Rightarrow> failure + int" where
  "read_lease st = (if gate st \<noteq> None then Inl TransactionPending else Inr (commit_epoch st))"

text \<open>A resumed lease is stale when a commit was released meanwhile.\<close>

definition lease_resume :: "int \<Rightarrow> ('v, 'd) store \<Rightarrow> failure + int" where
  "lease_resume epoch st =
     and_then (read_lease st) (\<lambda>now.
       if now \<noteq> epoch then Inl (OtherFailure ''stale inference'') else Inr now)"

lemma phase_str_inj [simp]: "phase_str p = phase_str q \<longleftrightarrow> p = q"
  by (cases p; cases q) simp_all

lemma row_status_simps [simp]:
  "ls_id (row_status r) = ap_id r" "ls_coordinator (row_status r) = ap_coordinator r"
  "ls_digest (row_status r) = ap_digest r" "ls_manifest (row_status r) = ap_manifest r"
  "ls_phase (row_status r) = phase_str (ap_phase r)"
  by (simp_all add: row_status_def)

lemma append_history_simps [simp]:
  "coordinators (append_history i role p d st) = coordinators st"
  "votes_of (append_history i role p d st) = votes_of st"
  "rows (append_history i role p d st) = rows st" "gate (append_history i role p d st) = gate st"
  "commit_epoch (append_history i role p d st) = commit_epoch st"
  "contents (append_history i role p d st) = contents st"
  by (simp_all add: append_history_def)

lemma gate_simps [simp]:
  "coordinators (reserve_gate i st) = coordinators st" "votes_of (reserve_gate i st) = votes_of st"
  "rows (reserve_gate i st) = rows st" "gate (reserve_gate i st) = Some i"
  "contents (reserve_gate i st) = contents st" "commit_epoch (reserve_gate i st) = commit_epoch st"
  "coordinators (release_gate b st) = coordinators st" "votes_of (release_gate b st) = votes_of st"
  "rows (release_gate b st) = rows st" "gate (release_gate b st) = None"
  "contents (release_gate b st) = contents st"
  by (simp_all add: reserve_gate_def release_gate_def)

end
