(* ===== verification/Wire.thy ===== *)
theory Wire
  imports Atomic_Store
begin

text \<open>
  A concrete instance of the parameters of the transaction model, for witnesses: values that can
  hold manifests, a codec that satisfies its law, an environment that accepts everything, and a
  manifest of two Deployments.
\<close>

datatype wire =
    WObject
  | WText string
  | WManifest uuid string int "(string \<times> wire_mutation list) list"
and wire_mutation =
    WWorkspace uuid int wire
  | WTask uuid int string string wire
  | WRun uuid uuid int

definition wire_json :: "wire json_ops" where
  "wire_json =
     \<lparr> is_object = (\<lambda>v. v = WObject), is_string = (\<lambda>v. case v of WText _ \<Rightarrow> True | _ \<Rightarrow> False),
       as_str = (\<lambda>v. case v of WText s \<Rightarrow> Some s | _ \<Rightarrow> None), as_array = (\<lambda>_. None),
       pointer = (\<lambda>_ _. None), json_field = (\<lambda>_ _. WObject), empty_object = WObject \<rparr>"

fun to_wire :: "wire mutation \<Rightarrow> wire_mutation" where
  "to_wire (WorkspaceState i n v) = WWorkspace i n v"
| "to_wire (CompleteTask i n a) = WTask i n (a_kind a) (a_name a) (a_content a)"
| "to_wire (FinishRun r t n) = WRun r t n"

fun from_wire :: "wire_mutation \<Rightarrow> wire mutation" where
  "from_wire (WWorkspace i n v) = WorkspaceState i n v"
| "from_wire (WTask i n k a c) = CompleteTask i n \<lparr> a_kind = k, a_name = a, a_content = c \<rparr>"
| "from_wire (WRun r t n) = FinishRun r t n"

definition wire_manifest :: "wire manifest \<Rightarrow> wire" where
  "wire_manifest m =
     WManifest (m_id m) (coordinator m) (deadline m)
       (map (\<lambda>p. (node_id p, map to_wire (mutations p))) (participants m))"

definition manifest_wire :: "wire \<Rightarrow> wire manifest option" where
  "manifest_wire v =
     (case v of
        WManifest i c t ps \<Rightarrow>
          Some \<lparr> m_id = i, coordinator = c, isolation_level = Serializable, deadline = t,
                 participants = map (\<lambda>(n, ms). \<lparr> node_id = n, mutations = map from_wire ms \<rparr>) ps \<rparr>
      | _ \<Rightarrow> None)"

definition wire_codec :: "wire codec" where
  "wire_codec =
     \<lparr> to_value = wire_manifest, from_value = manifest_wire,
       to_vec = (\<lambda>m. Some (take 64 (coordinator m))), sha256_hex = (\<lambda>s. s),
       uuid_text = (\<lambda>u. [char_of (unat u)]) \<rparr>"

lemma from_to_wire [simp]: "from_wire (to_wire mut) = mut"
  by (cases mut) simp_all

lemma wire_codec_laws [simp]: "codec_laws wire_codec"
proof -
  have rec: "(\<lambda>p :: wire participant. \<lparr> node_id = node_id p, mutations = mutations p \<rparr>) = id"
    by (rule ext) simp
  have "manifest_wire (wire_manifest m) = Some m" for m
    by (cases m, cases "isolation_level m")
      (simp add: manifest_wire_def wire_manifest_def comp_def rec)
  then show ?thesis by (simp add: codec_laws_def wire_codec_def)
qed

definition wire_env :: "(wire, nat) env" where
  "wire_env =
     \<lparr> json = wire_json, codec_of = wire_codec, require_live = (\<lambda>_ _ _. Inr ()),
       require_target = (\<lambda>_ _ _ _. Inr ()), mutate = (\<lambda>_ _ n. Inr (n + 1)),
       admission = (\<lambda>_ _ _. Inr ()), node_tenant = (\<lambda>_ _. Inr (Some ''acme'')),
       match_origin = (\<lambda>_ _ _. Inr ()), trusted = (\<lambda>_ _ _ _. Inr True), bind_origin = (\<lambda>_ _ n. Inr n) \<rparr>"

lemma wire_env_simps [simp]:
  "json wire_env = wire_json" "codec_of wire_env = wire_codec"
  "require_live wire_env a m n = Inr ()" "require_target wire_env a k i n = Inr ()"
  "mutate wire_env a m n = Inr (n + 1)" "admission wire_env a m n = Inr ()"
  "node_tenant wire_env a n = Inr (Some ''acme'')" "match_origin wire_env i og n = Inr ()"
  "trusted wire_env a a' og n = Inr True" "bind_origin wire_env i og' n = Inr n"
  by (simp_all add: wire_env_def)

section \<open>A manifest of two Deployments\<close>

definition demo_node :: "string \<Rightarrow> string" where
  "demo_node dep = SCHEME @ dep @ ''/'' @ assigned_name (replicate 16 0)"

definition demo_manifest :: "wire manifest" where
  "demo_manifest =
     \<lparr> m_id = 7, coordinator = demo_node ''acme'', isolation_level = Serializable,
       deadline = seconds 100,
       participants =
         [\<lparr> node_id = demo_node ''acme'', mutations = [WorkspaceState 1 0 WObject] \<rparr>,
          \<lparr> node_id = demo_node ''beta'', mutations = [FinishRun 2 3 4] \<rparr>] \<rparr>"

lemma demo_node_display:
  "demo_node dep = NodeAddress_display
     \<lparr> addr_deployment = DeploymentId (SCHEME @ dep), addr_node = NodeName (assigned_name (replicate 16 0)) \<rparr>"
  by (simp add: demo_node_def NodeAddress_display_def)

lemma demo_address_ok:
  assumes "deployment_ok (DeploymentId (SCHEME @ dep))"
  shows "node_address_ok \<lparr> addr_deployment = DeploymentId (SCHEME @ dep),
                           addr_node = NodeName (assigned_name (replicate 16 0)) \<rparr>"
  using assms by (simp add: node_address_ok_def node_name_ok_def assigned_name_parses)

lemma demo_deployments:
  "deployment_ok (DeploymentId (SCHEME @ ''acme''))" "deployment_ok (DeploymentId (SCHEME @ ''beta''))"
  by (simp_all add: deployment_ok_def DeploymentId_parse_iff is_ok_iff DEPLOYMENT_NAME_MAX_def text_eval)

lemma demo_node_ok [simp]:
  "is_ok (NodeAddress_parse (demo_node ''acme''))" "is_ok (NodeAddress_parse (demo_node ''beta''))"
  by (simp_all add: demo_node_display
      address_text.parse_complete[OF demo_address_ok[OF demo_deployments(1)]]
      address_text.parse_complete[OF demo_address_ok[OF demo_deployments(2)]])

lemma demo_deployment_of [simp]:
  "deployment_of (demo_node ''acme'') = ''aidash://acme''"
  "deployment_of (demo_node ''beta'') = ''aidash://beta''"
  by (simp_all add: demo_node_display deployment_of_display demo_address_ok demo_deployments)
    (simp_all add: SCHEME_def)

lemma demo_nodes_ordered [simp]: "demo_node ''acme'' < demo_node ''beta''" "demo_node ''acme'' \<noteq> demo_node ''beta''"
  "demo_node ''beta'' \<noteq> demo_node ''acme''"
  by (simp_all add: demo_node_def SCHEME_def less_char_def)

lemma demo_manifest_ok: "manifest_ok wire_json wire_codec demo_manifest"
  by (simp add: manifest_ok_def demo_manifest_def mutations_ok_def wire_json_def wire_codec_def)

end
