(* ===== verification/Participation.thy ===== *)
theory Participation
  imports Wire
begin

text \<open>
  The participant of an atomic transaction (crates/aidash-application/src/transactions/
  participation.rs over the scopes of server/.../repositories/participation.rs). Each handler is
  one serializable database transaction; its clock readings are arguments. The theory ends with
  the phase machine that every handler follows, whatever it is sent.
\<close>

section \<open>Handlers\<close>

definition sender ::
  "('v, 'd) env \<Rightarrow> string option \<Rightarrow> string \<Rightarrow> 'v manifest \<Rightarrow> failure + unit" where
  "sender E receiver caller m =
     and_then (manifest_validate (json E) (codec_of E) m) (\<lambda>_.
     and_then (refuse_if (manifest_local m (case receiver of None \<Rightarrow> caller | Some r \<Rightarrow> r) = None) Forbidden) (\<lambda>_.
       refuse_if (caller \<noteq> coordinator m) Forbidden))"

definition check_existing ::
  "('v, 'd) env \<Rightarrow> 'v local_status \<Rightarrow> 'v manifest \<Rightarrow> failure + unit" where
  "check_existing E existing m =
     and_then (manifest_digest (codec_of E) m) (\<lambda>digest.
       refuse_if (\<not> participant_matches (codec_of E) m digest existing)
         (FConflict ''transaction ID already has another immutable manifest''))"

definition lost_barrier :: failure where
  "lost_barrier = FConflict ''participant lost its visibility barrier''"

definition abort_reserved ::
  "'v manifest \<Rightarrow> ('v, 'd) store \<Rightarrow> failure + 'v local_status \<times> ('v, 'd) store" where
  "abort_reserved m st = row_transition (m_id m) Aborted (release_gate False st)"

text \<open>\<open>None\<close> when there is nothing to expire.\<close>

definition expire_reserved ::
  "datetime \<Rightarrow> 'v manifest \<Rightarrow> 'v local_status \<Rightarrow> ('v, 'd) store
     \<Rightarrow> failure + ('v local_status \<times> ('v, 'd) store) option" where
  "expire_reserved now m existing st =
     (if ls_phase existing \<noteq> ''RESERVED'' \<or> deadline m > now then Inr None
      else if gate st \<noteq> Some (m_id m) then Inl lost_barrier
      else and_then (abort_reserved m st) (\<lambda>x. Inr (Some x)))"

definition reserve_existing ::
  "('v, 'd) env \<Rightarrow> datetime \<Rightarrow> 'v manifest \<Rightarrow> 'v local_status \<Rightarrow> ('v, 'd) store
     \<Rightarrow> failure + 'v local_status \<times> ('v, 'd) store" where
  "reserve_existing E now m existing st =
     and_then (check_existing E existing m) (\<lambda>_.
     and_then (expire_reserved now m existing st) (\<lambda>expired.
       Inr (case expired of Some x \<Rightarrow> x | None \<Rightarrow> (existing, st))))"

definition reserve_in ::
  "('v, 'd) env \<Rightarrow> string \<Rightarrow> datetime \<Rightarrow> datetime \<Rightarrow> 'v manifest \<Rightarrow> ('v, 'd) store
     \<Rightarrow> failure + 'v local_status \<times> ('v, 'd) store" where
  "reserve_in E here now later m st =
     (case lock_row (m_id m) st of
        Some existing \<Rightarrow> reserve_existing E now m existing st
      | None \<Rightarrow>
          if \<not> (1 \<le> num_seconds (deadline m - now) \<and> num_seconds (deadline m - now) \<le> 3600)
          then Inl (FInvalid ''new participant deadline must be within the next hour'')
          else if gate st \<noteq> None then Inl TransactionPending
          else if deadline m \<le> later
          then Inl (FInvalid ''participant deadline passed while waiting for the visibility barrier'')
          else and_then (insert_row E here m Reserved st) (\<lambda>(row, st).
                 Inr (row, append_history (m_id m) ''participant'' ''RESERVED''
                             ''node visibility barrier persisted'' (reserve_gate (m_id m) st))))"

text \<open>
  The probe for an existing row and the reservation are two database transactions; \<open>reserve\<close> runs
  them one after the other, and the protocol also lets others run in between.
\<close>

definition reserve ::
  "('v, 'd) env \<Rightarrow> string \<Rightarrow> string option \<Rightarrow> datetime \<Rightarrow> datetime \<Rightarrow> string \<Rightarrow> 'v manifest \<Rightarrow> ('v, 'd) store
     \<Rightarrow> failure + 'v local_status \<times> ('v, 'd) store" where
  "reserve E here receiver now later caller m st =
     and_then (sender E receiver caller m) (\<lambda>_.
     case lock_row (m_id m) st of
       Some existing \<Rightarrow> reserve_existing E now m existing st
     | None \<Rightarrow>
         and_then (admission E caller m (contents st)) (\<lambda>_. reserve_in E here now later m st))"

definition prepare ::
  "('v, 'd) env \<Rightarrow> string \<Rightarrow> string option \<Rightarrow> datetime \<Rightarrow> string \<Rightarrow> 'v manifest \<Rightarrow> ('v, 'd) store
     \<Rightarrow> failure + 'v local_status \<times> ('v, 'd) store" where
  "prepare E here receiver now caller m st =
     and_then (sender E receiver caller m) (\<lambda>_.
     case lock_row (m_id m) st of
       None \<Rightarrow> Inl (FConflict ''participant was not reserved'')
     | Some existing \<Rightarrow>
         and_then (check_existing E existing m) (\<lambda>_.
         if ls_phase existing \<noteq> ''RESERVED'' then Inr (existing, st)
         else if gate st \<noteq> Some (m_id m) then Inl lost_barrier
         else if deadline m \<le> now then abort_reserved m st
         else and_then (require_live E here m (contents st)) (\<lambda>_.
              and_then (mutate E (local_node here m) m (contents st)) (\<lambda>_.
                row_transition (m_id m) Prepared st))))"

text \<open>\<open>Coordinator::decision\<close>: what the coordinator answered has to match the manifest.\<close>

definition check_decision ::
  "('v, 'd) env \<Rightarrow> 'v manifest \<Rightarrow> 'v status \<Rightarrow> failure + 'v status" where
  "check_decision E m answer =
     and_then (manifest_digest (codec_of E) m) (\<lambda>digest.
       if decision_matches (codec_of E) m digest answer then Inr answer
       else Inl (FConflict ''coordinator decision does not match participant manifest''))"

definition finish_abort ::
  "('v, 'd) env \<Rightarrow> string \<Rightarrow> 'v manifest \<Rightarrow> ('v, 'd) store \<Rightarrow> failure + 'v local_status \<times> ('v, 'd) store" where
  "finish_abort E here m st =
     (case lock_row (m_id m) st of
        Some existing \<Rightarrow>
          if \<not> abortable existing then Inl (FConflict ''commit cannot be aborted'')
          else if ls_phase existing = ''ABORTED'' then Inr (existing, st)
          else if gate st \<noteq> Some (m_id m) then Inl lost_barrier
          else row_transition (m_id m) Aborted (release_gate False st)
      | None \<Rightarrow>
          and_then (insert_row E here m Aborted st) (\<lambda>(_, st). row_transition (m_id m) Aborted st))"

definition apply_prepared ::
  "('v, 'd) env \<Rightarrow> string \<Rightarrow> 'v manifest \<Rightarrow> ('v, 'd) store \<Rightarrow> failure + ('v, 'd) store" where
  "apply_prepared E here m st =
     and_then (mutate E (local_node here m) m (contents st)) (\<lambda>d.
     and_then (row_transition (m_id m) Applied (st\<lparr>contents := d\<rparr>)) (\<lambda>(_, st). Inr st))"

definition finish_commit ::
  "('v, 'd) env \<Rightarrow> string \<Rightarrow> bool \<Rightarrow> 'v manifest \<Rightarrow> ('v, 'd) store
     \<Rightarrow> failure + 'v local_status \<times> ('v, 'd) store" where
  "finish_commit E here is_visible m st =
     (case lock_row (m_id m) st of
        None \<Rightarrow> Inl (FConflict ''commit requires a prepared participant'')
      | Some existing \<Rightarrow>
          if ls_phase existing = ''COMMITTED'' then Inr (existing, st)
          else if \<not> commit_ready existing
          then Inl (FConflict ''commit requires a prepared participant'')
          else if gate st \<noteq> Some (m_id m) then Inl lost_barrier
          else and_then (if ls_phase existing = ''PREPARED'' then apply_prepared E here m st else Inr st) (\<lambda>st.
                 if is_visible then row_transition (m_id m) Committed (release_gate True st)
                 else case lock_row (m_id m) st of
                        None \<Rightarrow> Inl (FConflict ''participant disappeared during commit'')
                      | Some row \<Rightarrow> Inr (row, st)))"

definition finish ::
  "('v, 'd) env \<Rightarrow> string \<Rightarrow> string option \<Rightarrow> string \<Rightarrow> 'v manifest \<Rightarrow> 'v status \<Rightarrow> ('v, 'd) store
     \<Rightarrow> failure + 'v local_status \<times> ('v, 'd) store" where
  "finish E here receiver caller m answer st =
     and_then (sender E receiver caller m) (\<lambda>_.
     and_then (check_decision E m answer) (\<lambda>answer.
     case st_decision answer of
       None \<Rightarrow> Inl TransactionPending
     | Some decision \<Rightarrow>
         and_then (case lock_row (m_id m) st of None \<Rightarrow> Inr () | Some existing \<Rightarrow> check_existing E existing m) (\<lambda>_.
           if decision = ''ABORT'' then finish_abort E here m st
           else finish_commit E here (st_visible answer) m st)))"

text \<open>
  One row of \<open>recover_once\<close> before it asks the coordinator: a reservation whose deadline passed is
  aborted.
\<close>

definition recover_reserved ::
  "('v, 'd) env \<Rightarrow> datetime \<Rightarrow> 'v manifest \<Rightarrow> ('v, 'd) store
     \<Rightarrow> failure + ('v local_status \<times> ('v, 'd) store) option" where
  "recover_reserved E now m st =
     (case lock_row (m_id m) st of
        None \<Rightarrow> Inr None
      | Some existing \<Rightarrow>
          and_then (check_existing E existing m) (\<lambda>_. expire_reserved now m existing st))"

section \<open>The phase machine\<close>

text \<open>
  How far a coordinator's answer lets a participant go: nothing is decided, the transaction is
  aborted, committed, or committed and visible.
\<close>

datatype verdict = Undecided | Aborting | Committing | Publishing

definition verdict_of :: "'v status \<Rightarrow> verdict" where
  "verdict_of s =
     (if st_decision s = Some ''ABORT'' then Aborting
      else if st_decision s = Some ''COMMIT'' then if st_visible s then Publishing else Committing
      else Undecided)"

inductive moves :: "verdict \<Rightarrow> participant_phase option \<Rightarrow> participant_phase \<Rightarrow> bool" where
  stay: "moves v (Some p) p"
| reserve_new: "moves v None Reserved"
| vote_yes: "moves v (Some Reserved) Prepared"
| expire: "moves v (Some Reserved) Aborted"
| tombstone: "moves Aborting None Aborted"
| roll_back: "moves Aborting (Some Prepared) Aborted"
| apply_commit: "v \<in> {Committing, Publishing} \<Longrightarrow> moves v (Some Prepared) Applied"
| publish_prepared: "moves Publishing (Some Prepared) Committed"
| publish_applied: "moves Publishing (Some Applied) Committed"

inductive_simps moves_from_simps: "moves v (Some p) q" "moves v None q"

text \<open>
  The effect of a handler on the store: it writes at most the row of its own transaction, keeping
  the row's identity, along the phase machine; it holds the gate exactly while its row is neither
  committed nor aborted; it changes the contents only by applying a prepared manifest; it advances
  the commit epoch only when it commits; and coordinator records are untouched.
\<close>

definition active :: "participant_phase \<Rightarrow> bool" where
  "active p \<longleftrightarrow> p \<in> {Reserved, Prepared, Applied}"

definition gate_ok :: "('v, 'd) store \<Rightarrow> bool" where
  "gate_ok st \<longleftrightarrow> (\<forall>i. gate st = Some i \<longleftrightarrow> (\<exists>r. rows st i = Some r \<and> active (ap_phase r)))"

definition names_manifest :: "'v codec \<Rightarrow> 'v manifest \<Rightarrow> 'v atomic_participant \<Rightarrow> bool" where
  "names_manifest C m r \<longleftrightarrow>
     ap_coordinator r = coordinator m \<and> manifest_digest C m = Inr (ap_digest r)
     \<and> ap_manifest r = to_value C m"

definition participant_effect ::
  "('v, 'd) env \<Rightarrow> verdict \<Rightarrow> 'v manifest \<Rightarrow> ('v, 'd) store \<Rightarrow> 'v local_status \<Rightarrow> ('v, 'd) store \<Rightarrow> bool" where
  "participant_effect E v m st row st' \<longleftrightarrow>
     (\<exists>r. rows st' = (rows st)(m_id m \<mapsto> r) \<and> row = row_status r
        \<and> (case rows st (m_id m) of None \<Rightarrow> ap_id r = m_id m | Some r0 \<Rightarrow> r = r0\<lparr>ap_phase := ap_phase r\<rparr>)
        \<and> names_manifest (codec_of E) m r
        \<and> moves v (map_option ap_phase (rows st (m_id m))) (ap_phase r)
        \<and> (gate_ok st \<longrightarrow> gate_ok st')
        \<and> (if rows st' (m_id m) \<noteq> rows st (m_id m) \<and> ap_phase r \<in> {Applied, Committed}
               \<and> map_option ap_phase (rows st (m_id m)) = Some Prepared
            then \<exists>node. mutate E node m (contents st) = Inr (contents st')
            else contents st' = contents st)
        \<and> commit_epoch st' = commit_epoch st
             + (if ap_phase r = Committed \<and> map_option ap_phase (rows st (m_id m)) \<noteq> Some Committed
                then 1 else 0))
     \<and> coordinators st' = coordinators st \<and> votes_of st' = votes_of st"

lemma check_existing_iff [simp]:
  "check_existing E (row_status r) m = Inr u \<longleftrightarrow> names_manifest (codec_of E) m r"
  by (auto simp: check_existing_def and_then_Inr_iff participant_matches_def names_manifest_def)

lemma names_manifest_phase [simp]:
  "names_manifest C m (r\<lparr>ap_phase := p\<rparr>) = names_manifest C m r"
  by (simp add: names_manifest_def)

lemma row_transition_Inr:
  "row_transition i p st = Inr (row, st') \<longleftrightarrow>
     (\<exists>r. rows st i = Some r \<and> row = row_status (r\<lparr>ap_phase := p\<rparr>)
        \<and> st' = append_history i ''participant'' (phase_str p) ''durable participant transition''
                   (st\<lparr>rows := (rows st)(i \<mapsto> r\<lparr>ap_phase := p\<rparr>)\<rparr>))"
  by (auto simp: row_transition_def Let_def split: option.splits)

lemma gate_ok_holding:
  assumes "gate_ok st" "gate st \<in> {None, Some i}" "rows st' = (rows st)(i \<mapsto> r)"
    "gate st' = (if active (ap_phase r) then Some i else None)"
  shows "gate_ok st'"
proof -
  have others: "\<not> active (ap_phase r0)" if "k \<noteq> i" "rows st k = Some r0" for k r0
  proof
    assume "active (ap_phase r0)"
    with that(2) assms(1) have "gate st = Some k" unfolding gate_ok_def by blast
    with assms(2) that(1) show False by simp
  qed
  show ?thesis unfolding gate_ok_def
  proof
    fix k
    show "gate st' = Some k \<longleftrightarrow> (\<exists>r. rows st' k = Some r \<and> active (ap_phase r))"
      using assms(3,4) others[of k] by (cases "k = i") auto
  qed
qed

lemma gate_ok_passive:
  assumes "gate_ok st" "rows st' = (rows st)(i \<mapsto> r)" "gate st' = gate st" "\<not> active (ap_phase r)"
    "\<And>r0. rows st i = Some r0 \<Longrightarrow> \<not> active (ap_phase r0)"
  shows "gate_ok st'"
  unfolding gate_ok_def
proof
  fix k
  show "gate st' = Some k \<longleftrightarrow> (\<exists>r. rows st' k = Some r \<and> active (ap_phase r))"
    using assms by (cases "k = i") (auto simp: gate_ok_def)
qed

lemma effect_unchanged:
  assumes "rows st (m_id m) = Some r" "names_manifest (codec_of E) m r"
  shows "participant_effect E v m st (row_status r) st"
proof -
  have "rows st = (rows st)(m_id m \<mapsto> r)" using assms(1) by (simp add: fun_upd_idem)
  with assms show ?thesis unfolding participant_effect_def
    by (intro conjI exI[of _ r]) (auto simp: moves_from_simps)
qed

text \<open>A move under the gate of the transaction itself.\<close>

lemma effect_held:
  assumes "rows st (m_id m) = Some r" "names_manifest (codec_of E) m r" "gate st = Some (m_id m)"
    and "moves v (Some (ap_phase r)) p" "ap_phase r \<noteq> p"
    and "rows st' = (rows st)(m_id m \<mapsto> r\<lparr>ap_phase := p\<rparr>)"
    and "gate st' = (if active p then Some (m_id m) else None)"
    and "if p \<in> {Applied, Committed} \<and> ap_phase r = Prepared
         then \<exists>node. mutate E node m (contents st) = Inr (contents st') else contents st' = contents st"
    and "commit_epoch st' = commit_epoch st + (if p = Committed then 1 else 0)"
    and "coordinators st' = coordinators st" "votes_of st' = votes_of st"
  shows "participant_effect E v m st (row_status (r\<lparr>ap_phase := p\<rparr>)) st'"
  unfolding participant_effect_def
proof (intro conjI exI[of _ "r\<lparr>ap_phase := p\<rparr>"])
  have "r\<lparr>ap_phase := p\<rparr> \<noteq> r" using assms(5) by (metis atomic_participant.select_convs(5) atomic_participant.surjective atomic_participant.update_convs(5))
  with assms(1,6,8) show "if rows st' (m_id m) \<noteq> rows st (m_id m) \<and> ap_phase (r\<lparr>ap_phase := p\<rparr>) \<in> {Applied, Committed}
      \<and> map_option ap_phase (rows st (m_id m)) = Some Prepared
    then \<exists>node. mutate E node m (contents st) = Inr (contents st') else contents st' = contents st"
    by auto
  show "gate_ok st \<longrightarrow> gate_ok st'"
    using gate_ok_holding[of st "m_id m" st' "r\<lparr>ap_phase := p\<rparr>"] assms(3,6,7) by auto
qed (use assms in auto)

lemma abort_reserved_effect:
  assumes "abort_reserved m st = Inr (row, st')" "rows st (m_id m) = Some r" "ap_phase r = Reserved"
    "names_manifest (codec_of E) m r" "gate st = Some (m_id m)"
  shows "participant_effect E v m st row st'"
  using assms effect_held[OF assms(2,4,5), of v Aborted st']
  by (auto simp: abort_reserved_def row_transition_Inr moves_from_simps active_def release_gate_def)

lemma reserve_existing_effect:
  assumes "reserve_existing E now m (row_status r) st = Inr (row, st')" "rows st (m_id m) = Some r"
  shows "participant_effect E v m st row st'"
proof -
  from assms(1) have names: "names_manifest (codec_of E) m r"
    by (auto simp: reserve_existing_def and_then_Inr_iff)
  from assms(1) consider (same) "row = row_status r" "st' = st"
    | (expired) "abort_reserved m st = Inr (row, st')" "phase_str (ap_phase r) = ''RESERVED''"
        "gate st = Some (m_id m)"
    by (auto simp: reserve_existing_def expire_reserved_def and_then_Inr_iff split: if_splits)
  then show ?thesis
  proof cases
    case same
    with effect_unchanged[OF assms(2) names] show ?thesis by simp
  next
    case expired
    from expired(2) have "ap_phase r = Reserved" by (cases "ap_phase r") simp_all
    from abort_reserved_effect[OF expired(1) assms(2) this names expired(3)] show ?thesis .
  qed
qed

lemma insert_row_Inr:
  "insert_row E here m p st = Inr (row, st') \<Longrightarrow>
     \<exists>r. rows st (m_id m) = None \<and> ap_id r = m_id m \<and> ap_phase r = p \<and> names_manifest (codec_of E) m r
       \<and> row = row_status r \<and> st' = st\<lparr>rows := (rows st)(m_id m \<mapsto> r)\<rparr>"
proof -
  assume "insert_row E here m p st = Inr (row, st')"
  then obtain digest where "manifest_digest (codec_of E) m = Inr digest" "rows st (m_id m) = None"
      "row = row_status (new_row (codec_of E) m digest p)"
      "st' = st\<lparr>rows := (rows st)(m_id m \<mapsto> new_row (codec_of E) m digest p)\<rparr>"
    by (auto simp: insert_row_def and_then_Inr_iff Let_def split: option.splits if_splits)
  then show ?thesis
    by (intro exI[of _ "new_row (codec_of E) m digest p"]) (simp add: new_row_def names_manifest_def)
qed

lemma reserve_in_effect:
  assumes "reserve_in E here now later m st = Inr (row, st')"
  shows "participant_effect E v m st row st'"
proof (cases "rows st (m_id m)")
  case None
  with assms obtain row' st1 where ins: "insert_row E here m Reserved st = Inr (row', st1)"
    and eq: "row = row'" "st' = append_history (m_id m) ''participant'' ''RESERVED''
        ''node visibility barrier persisted'' (reserve_gate (m_id m) st1)" and gate: "gate st = None"
    by (auto simp: reserve_in_def lock_row_def and_then_Inr_iff split: if_splits)
  from insert_row_Inr[OF ins] obtain r where r: "ap_id r = m_id m" "ap_phase r = Reserved"
      "names_manifest (codec_of E) m r" "row' = row_status r" "st1 = st\<lparr>rows := (rows st)(m_id m \<mapsto> r)\<rparr>"
    by blast
  have "gate_ok st \<Longrightarrow> gate_ok st'"
    using gate_ok_holding[of st "m_id m" st' r] gate eq r by (simp add: active_def)
  with None eq r show ?thesis unfolding participant_effect_def
    by (intro conjI exI[of _ r]) (auto simp: moves_from_simps)
next
  case (Some r)
  with assms reserve_existing_effect[OF _ Some] show ?thesis
    by (simp add: reserve_in_def lock_row_def)
qed

lemma reserve_effect:
  assumes "reserve E here receiver now later caller m st = Inr (row, st')"
  shows "participant_effect E v m st row st'"
proof (cases "rows st (m_id m)")
  case None
  with assms reserve_in_effect show ?thesis
    by (auto simp: reserve_def lock_row_def and_then_Inr_iff)
next
  case (Some r)
  with assms reserve_existing_effect[OF _ Some] show ?thesis
    by (auto simp: reserve_def lock_row_def and_then_Inr_iff)
qed

lemma phase_text [simp]:
  "phase_str p = ''RESERVED'' \<longleftrightarrow> p = Reserved" "phase_str p = ''PREPARED'' \<longleftrightarrow> p = Prepared"
  "phase_str p = ''APPLIED'' \<longleftrightarrow> p = Applied" "phase_str p = ''COMMITTED'' \<longleftrightarrow> p = Committed"
  "phase_str p = ''ABORTED'' \<longleftrightarrow> p = Aborted"
  by (cases p; simp)+

lemma prepare_effect:
  assumes "prepare E here receiver now caller m st = Inr (row, st')"
  shows "participant_effect E v m st row st'"
proof -
  from assms obtain r where r: "rows st (m_id m) = Some r" "names_manifest (codec_of E) m r"
    by (auto simp: prepare_def lock_row_def and_then_Inr_iff split: option.splits)
  consider (same) "row = row_status r" "st' = st"
    | (expired) "abort_reserved m st = Inr (row, st')" "ap_phase r = Reserved" "gate st = Some (m_id m)"
    | (voted) "row_transition (m_id m) Prepared st = Inr (row, st')" "ap_phase r = Reserved"
        "gate st = Some (m_id m)"
  proof (cases "ap_phase r = Reserved")
    case False
    with assms r(1) same show ?thesis by (simp add: prepare_def lock_row_def and_then_Inr_iff)
  next
    case True
    with assms r(1) expired voted show ?thesis
      by (cases "deadline m \<le> now")
        (auto simp: prepare_def lock_row_def and_then_Inr_iff simp del: phase_str.simps split: if_splits)
  qed
  then show ?thesis
  proof cases
    case same
    with effect_unchanged[OF r] show ?thesis by simp
  next
    case expired
    from abort_reserved_effect[OF expired(1) r(1) expired(2) r(2) expired(3)] show ?thesis .
  next
    case voted
    with r effect_held[OF r voted(3), of v Prepared st'] show ?thesis
      by (auto simp: row_transition_Inr moves_from_simps active_def)
  qed
qed

lemma finish_abort_effect:
  assumes "finish_abort E here m st = Inr (row, st')"
    and "\<And>r. rows st (m_id m) = Some r \<Longrightarrow> names_manifest (codec_of E) m r"
  shows "participant_effect E Aborting m st row st'"
proof (cases "rows st (m_id m)")
  case None
  with assms(1) obtain row' st1 where ins: "insert_row E here m Aborted st = Inr (row', st1)"
    and move: "row_transition (m_id m) Aborted st1 = Inr (row, st')"
    by (auto simp: finish_abort_def lock_row_def and_then_Inr_iff)
  from insert_row_Inr[OF ins] obtain r where r: "ap_id r = m_id m" "ap_phase r = Aborted"
      "names_manifest (codec_of E) m r" "st1 = st\<lparr>rows := (rows st)(m_id m \<mapsto> r)\<rparr>"
    by blast
  from move r have eq: "row = row_status r" "rows st' = (rows st)(m_id m \<mapsto> r)" "gate st' = gate st"
      "contents st' = contents st" "commit_epoch st' = commit_epoch st"
      "coordinators st' = coordinators st" "votes_of st' = votes_of st"
    by (auto simp: row_transition_Inr)
  have "gate_ok st \<Longrightarrow> gate_ok st'"
    using gate_ok_passive[of st st' "m_id m" r] None eq r(2) by (simp add: active_def)
  with None eq r show ?thesis unfolding participant_effect_def
    by (intro conjI exI[of _ r]) (auto simp: moves_from_simps)
next
  case (Some r)
  note names = assms(2)[OF Some]
  show ?thesis
  proof (cases "ap_phase r = Aborted")
    case True
    with assms(1) Some have "row = row_status r" "st' = st"
      by (auto simp: finish_abort_def lock_row_def abortable_def)
    with effect_unchanged[OF Some names] show ?thesis by simp
  next
    case False
    with assms(1) Some have run: "row_transition (m_id m) Aborted (release_gate False st) = Inr (row, st')"
      and gate: "gate st = Some (m_id m)" and p: "ap_phase r \<in> {Reserved, Prepared}"
      by (auto simp: finish_abort_def lock_row_def abortable_def split: if_splits)
         (cases "ap_phase r"; simp)
    from run p Some effect_held[OF Some names gate, of Aborting Aborted st'] show ?thesis
      by (auto simp: row_transition_Inr moves_from_simps active_def release_gate_def)
  qed
qed

lemma apply_prepared_Inr:
  "apply_prepared E here m st = Inr st' \<Longrightarrow>
     \<exists>r d. rows st (m_id m) = Some r \<and> mutate E (local_node here m) m (contents st) = Inr d
       \<and> st' = append_history (m_id m) ''participant'' ''APPLIED'' ''durable participant transition''
                  (st\<lparr>contents := d, rows := (rows st)(m_id m \<mapsto> r\<lparr>ap_phase := Applied\<rparr>)\<rparr>)"
  by (auto simp: apply_prepared_def and_then_Inr_iff row_transition_Inr)

lemma finish_commit_effect:
  assumes "finish_commit E here is_visible m st = Inr (row, st')"
    and "\<And>r. rows st (m_id m) = Some r \<Longrightarrow> names_manifest (codec_of E) m r"
  shows "participant_effect E (if is_visible then Publishing else Committing) m st row st'"
proof -
  from assms(1) obtain r where r: "rows st (m_id m) = Some r"
    by (auto simp: finish_commit_def lock_row_def split: option.splits)
  note names = assms(2)[OF r]
  show ?thesis
  proof (cases "ap_phase r = Committed")
    case True
    with assms(1) r have "row = row_status r" "st' = st" by (simp_all add: finish_commit_def lock_row_def)
    with effect_unchanged[OF r names] show ?thesis by simp
  next
    case False
    with assms(1) r obtain st1 where gate: "gate st = Some (m_id m)"
      and ready: "ap_phase r \<in> {Prepared, Applied}"
      and st1: "(if ap_phase r = Prepared then apply_prepared E here m st else Inr st) = Inr st1"
      and last: "(if is_visible then row_transition (m_id m) Committed (release_gate True st1)
          else case lock_row (m_id m) st1 of
                 None \<Rightarrow> Inl (FConflict ''participant disappeared during commit'')
               | Some row \<Rightarrow> Inr (row, st1)) = Inr (row, st')"
      by (auto simp: finish_commit_def lock_row_def commit_ready_def and_then_Inr_iff split: if_splits)
    have mid: "rows st1 = (rows st)(m_id m \<mapsto> r\<lparr>ap_phase := Applied\<rparr>)" "gate st1 = Some (m_id m)"
        "commit_epoch st1 = commit_epoch st" "coordinators st1 = coordinators st" "votes_of st1 = votes_of st"
        "if ap_phase r = Prepared then \<exists>node. mutate E node m (contents st) = Inr (contents st1)
         else contents st1 = contents st"
      using st1 ready r gate by (auto dest!: apply_prepared_Inr split: if_splits)
    show ?thesis
    proof (cases is_visible)
      case True
      with last mid(1) have "row = row_status (r\<lparr>ap_phase := Committed\<rparr>)"
          "rows st' = (rows st)(m_id m \<mapsto> r\<lparr>ap_phase := Committed\<rparr>)" "gate st' = None"
          "commit_epoch st' = commit_epoch st + 1" "contents st' = contents st1"
          "coordinators st' = coordinators st" "votes_of st' = votes_of st"
        using mid by (auto simp: row_transition_Inr release_gate_def)
      with effect_held[OF r names gate, of Publishing Committed st'] ready mid(6) True show ?thesis
        by (auto simp: moves_from_simps active_def)
    next
      case invisible: False
      with last mid(1) have eq: "row = row_status (r\<lparr>ap_phase := Applied\<rparr>)" "st' = st1"
        by (simp_all add: lock_row_def)
      show ?thesis
      proof (cases "ap_phase r = Prepared")
        case True
        with eq invisible mid effect_held[OF r names gate, of Committing Applied st1] show ?thesis
          by (simp add: moves_from_simps active_def)
      next
        case applied: False
        with ready st1 have "st1 = st" "ap_phase r = Applied" by auto
        then have "r\<lparr>ap_phase := Applied\<rparr> = r" by simp
        with eq effect_unchanged[OF r names] \<open>st1 = st\<close> show ?thesis by simp
      qed
    qed
  qed
qed

lemma finish_effect:
  assumes "finish E here receiver caller m answer st = Inr (row, st')"
  shows "participant_effect E (verdict_of answer) m st row st'"
    and "decision_matches (codec_of E) m (ls_digest row) answer"
proof -
  from assms obtain digest decision where answer: "decision_matches (codec_of E) m digest answer"
      "manifest_digest (codec_of E) m = Inr digest" "st_decision answer = Some decision"
    and names: "\<And>r. rows st (m_id m) = Some r \<Longrightarrow> names_manifest (codec_of E) m r"
    and run: "(if decision = ''ABORT'' then finish_abort E here m st
               else finish_commit E here (st_visible answer) m st) = Inr (row, st')"
    by (auto simp: finish_def check_decision_def and_then_Inr_iff lock_row_def split: option.splits if_splits)
  show effect: "participant_effect E (verdict_of answer) m st row st'"
  proof (cases "decision = ''ABORT''")
    case True
    with run have "finish_abort E here m st = Inr (row, st')" by simp
    from finish_abort_effect[OF this names] True answer(3) show ?thesis by (simp add: verdict_of_def)
  next
    case False
    with run have "finish_commit E here (st_visible answer) m st = Inr (row, st')" by simp
    from finish_commit_effect[OF this names] False answer(1,3) show ?thesis
      by (auto simp: verdict_of_def decision_matches_def)
  qed
  from effect answer(2) have "ls_digest row = digest"
    by (auto simp: participant_effect_def names_manifest_def)
  with answer(1) show "decision_matches (codec_of E) m (ls_digest row) answer" by simp
qed

lemma recover_reserved_effect:
  assumes "recover_reserved E now m st = Inr (Some (row, st'))"
  shows "participant_effect E v m st row st'"
proof -
  from assms obtain r where r: "rows st (m_id m) = Some r" "names_manifest (codec_of E) m r"
      "expire_reserved now m (row_status r) st = Inr (Some (row, st'))"
    by (auto simp: recover_reserved_def lock_row_def and_then_Inr_iff split: option.splits)
  from r(3) have "abort_reserved m st = Inr (row, st')" "ap_phase r = Reserved" "gate st = Some (m_id m)"
    by (auto simp: expire_reserved_def and_then_Inr_iff split: if_splits)
  from abort_reserved_effect[OF this(1) r(1) this(2) r(2) this(3)] show ?thesis .
qed

section \<open>A participant on its own\<close>

text \<open>
  Whatever a participant is sent, in whatever order, by whoever names itself coordinator, and
  whatever a coordinator answers.
\<close>

inductive participant_step :: "('v, 'd) env \<Rightarrow> ('v, 'd) store \<Rightarrow> ('v, 'd) store \<Rightarrow> bool" for E where
  on_reserve: "reserve E here receiver now later caller m st = Inr (row, st') \<Longrightarrow> participant_step E st st'"
| on_reserve_in: "reserve_in E here now later m st = Inr (row, st') \<Longrightarrow> participant_step E st st'"
| on_prepare: "prepare E here receiver now caller m st = Inr (row, st') \<Longrightarrow> participant_step E st st'"
| on_finish: "finish E here receiver caller m answer st = Inr (row, st') \<Longrightarrow> participant_step E st st'"
| on_recover: "recover_reserved E now m st = Inr (Some (row, st')) \<Longrightarrow> participant_step E st st'"

lemma participant_step_effect:
  "participant_step E st st' \<Longrightarrow> \<exists>v m row. participant_effect E v m st row st'"
  by (induction rule: participant_step.induct)
    (blast intro: reserve_effect reserve_in_effect prepare_effect finish_effect recover_reserved_effect)+

definition empty_store :: "'d \<Rightarrow> ('v, 'd) store" where
  "empty_store d =
     \<lparr> coordinators = Map.empty, votes_of = (\<lambda>_. []), rows = Map.empty, gate = None,
       commit_epoch = 0, history = [], contents = d \<rparr>"

definition store_init :: "('v, 'd) store \<Rightarrow> bool" where
  "store_init st \<longleftrightarrow> (\<exists>d. st = empty_store d)"

interpretation participating: invariant_system store_init "participant_step E" gate_ok
  for E :: "('v, 'd) env"
proof unfold_locales
  show "store_init st \<Longrightarrow> gate_ok st" for st :: "('v, 'd) store"
    by (auto simp: store_init_def gate_ok_def empty_store_def)
next
  fix st st' :: "('v, 'd) store" assume "gate_ok st" "participant_step E st st'"
  from participant_step_effect[OF this(2)] this(1) show "gate_ok st'"
    by (auto simp: participant_effect_def)
qed

text \<open>
  What happens to the contents after a reader's lease: as long as no commit was released, they are
  those the reader saw, or a transaction that applied its mutations still holds the gate.
\<close>

definition since_lease :: "'d \<Rightarrow> int \<Rightarrow> ('v, 'd) store \<Rightarrow> bool" where
  "since_lease d epoch st \<longleftrightarrow>
     gate_ok st \<and> epoch \<le> commit_epoch st
     \<and> (commit_epoch st = epoch \<longrightarrow>
          contents st = d \<or> (\<exists>i r. rows st i = Some r \<and> ap_phase r = Applied))"

lemma since_lease_effect:
  assumes "since_lease d epoch st" "participant_effect E v m st row st'"
  shows "since_lease d epoch st'"
proof -
  from assms(2) obtain r where r: "rows st' = (rows st)(m_id m \<mapsto> r)"
      "moves v (map_option ap_phase (rows st (m_id m))) (ap_phase r)" "gate_ok st \<longrightarrow> gate_ok st'"
    and contents: "if rows st' (m_id m) \<noteq> rows st (m_id m) \<and> ap_phase r \<in> {Applied, Committed}
          \<and> map_option ap_phase (rows st (m_id m)) = Some Prepared
        then \<exists>node. mutate E node m (contents st) = Inr (contents st') else contents st' = contents st"
    and epoch: "commit_epoch st' = commit_epoch st + (if ap_phase r = Committed
        \<and> map_option ap_phase (rows st (m_id m)) \<noteq> Some Committed then 1 else 0)"
    by (auto simp: participant_effect_def)
  have "contents st' = d \<or> (\<exists>i r. rows st' i = Some r \<and> ap_phase r = Applied)"
    if same: "commit_epoch st' = epoch"
  proof (cases "ap_phase r = Applied")
    case False
    with same epoch assms(1) have old: "commit_epoch st = epoch"
      and not_new: "ap_phase r = Committed \<Longrightarrow> map_option ap_phase (rows st (m_id m)) = Some Committed"
      by (auto simp: since_lease_def split: if_splits)
    from contents False not_new have "contents st' = contents st" by (auto split: if_splits)
    moreover have "rows st' i = Some r0" if "rows st i = Some r0" "ap_phase r0 = Applied" for i r0
      using that r(1,2) False not_new by (cases "i = m_id m") (auto simp: moves_from_simps)
    ultimately show ?thesis using assms(1) old by (auto simp: since_lease_def)
  qed (use r(1) in auto)
  with assms(1) r(3) epoch show ?thesis by (auto simp: since_lease_def)
qed

section \<open>Properties\<close>

text \<open>
  Property C33. A participant holds the visibility gate of its Deployment exactly while one of its
  transactions is reserved, prepared or applied. So a Deployment works on at most one transaction
  at a time, and a reader that obtains a lease finds every transaction committed or aborted.
\<close>

theorem gate_serializes:
  assumes "reaches store_init (participant_step E) st"
  shows "(gate st = Some i \<longleftrightarrow> (\<exists>r. rows st i = Some r \<and> ap_phase r \<in> {Reserved, Prepared, Applied}))
    \<and> (\<forall>epoch r. read_lease st = Inr epoch \<longrightarrow> rows st i = Some r \<longrightarrow> ap_phase r \<in> {Committed, Aborted})"
proof -
  have "gate_ok st" by (rule participating.reachable_inv[OF assms])
  then have gate: "gate st = Some i \<longleftrightarrow> (\<exists>r. rows st i = Some r \<and> active (ap_phase r))"
    by (simp add: gate_ok_def)
  have "ap_phase r \<in> {Committed, Aborted}" if "read_lease st = Inr epoch" "rows st i = Some r" for epoch r
    using that gate by (cases "ap_phase r") (auto simp: read_lease_def active_def split: if_splits)
  with gate show ?thesis by (auto simp: active_def)
qed

definition demo_run :: "(wire, nat) store \<Rightarrow> failure + wire local_status \<times> (wire, nat) store" where
  "demo_run st = reserve_in wire_env ''aidash://beta'' (seconds 10) (seconds 20) demo_manifest st"

lemma demo_digest: "manifest_digest wire_codec demo_manifest = Inr (take 64 (demo_node ''acme''))"
  by (simp add: manifest_digest_def wire_codec_def demo_manifest_def)

lemma demo_local:
  "manifest_local demo_manifest (local_node ''aidash://acme'' demo_manifest) = Some (participants demo_manifest ! 0)"
  "manifest_local demo_manifest (local_node ''aidash://beta'' demo_manifest) = Some (participants demo_manifest ! 1)"
proof -
  have here: "deployment_of ''aidash://acme'' = ''aidash://acme''" "deployment_of ''aidash://beta'' = ''aidash://beta''"
    by (simp_all add: deployment_of_def SCHEME_def strip_prefix_def find_char_def)
  show "manifest_local demo_manifest (local_node ''aidash://acme'' demo_manifest) = Some (participants demo_manifest ! 0)"
    "manifest_local demo_manifest (local_node ''aidash://beta'' demo_manifest) = Some (participants demo_manifest ! 1)"
    by (simp_all add: manifest_local_def local_node_def demo_manifest_def same_deployment_def here)
qed

definition demo_row :: "participant_phase \<Rightarrow> wire atomic_participant" where
  "demo_row p = new_row wire_codec demo_manifest (take 64 (demo_node ''acme'')) p"

lemma demo_row_simps [simp]:
  "ap_phase (demo_row p) = p" "(demo_row p)\<lparr>ap_phase := q\<rparr> = demo_row q" "ap_id (demo_row p) = 7"
  "names_manifest wire_codec demo_manifest (demo_row p)"
  by (simp_all add: demo_row_def new_row_def names_manifest_def demo_digest)
    (simp add: demo_manifest_def)

lemma demo_reserved:
  assumes "rows st 7 = None" "gate st = None"
  shows "\<exists>st'. demo_run st = Inr (row_status (demo_row Reserved), st')
    \<and> rows st' = (rows st)(7 \<mapsto> demo_row Reserved) \<and> gate st' = Some 7 \<and> contents st' = contents st
    \<and> commit_epoch st' = commit_epoch st"
proof -
  have i: "m_id demo_manifest = 7" "deadline demo_manifest = seconds 100" by (simp_all add: demo_manifest_def)
  have target: "for_each (\<lambda>mut. Inr ()) muts = Inr ()" for muts :: "wire mutation list"
    by (induction muts) auto
  show ?thesis using assms
    by (simp add: demo_run_def reserve_in_def lock_row_def i insert_row_def demo_local demo_digest
        demo_row_def num_seconds_def seconds_def target Let_def)
qed

theorem gate_serializes_witness:
  "\<exists>st. reaches store_init (participant_step wire_env) st \<and> gate st = Some 7
     \<and> (\<exists>r. rows st 7 = Some r \<and> ap_phase r \<in> {Reserved, Prepared, Applied})"
proof -
  obtain st where st: "demo_run (empty_store 0) = Inr (row_status (demo_row Reserved), st)" "gate st = Some 7"
    using demo_reserved[of "empty_store 0"] by (auto simp: empty_store_def)
  have "reaches store_init (participant_step wire_env) (empty_store 0)"
    by (rule reaches_init) (auto simp: store_init_def)
  from reaches_step[OF this on_reserve_in[OF st(1)[unfolded demo_run_def]]]
  have "reaches store_init (participant_step wire_env) st" .
  from gate_serializes[OF this, of 7] this st(2) show ?thesis by auto
qed

text \<open>
  A reader that suspends its lease and resumes it without being told that it is stale
  finds the contents it saw before: every transaction that changed them meanwhile has released a
  commit, which the resumption reports, or still holds the gate, which refuses it.
\<close>

theorem resumed_lease_unchanged:
  assumes "reaches store_init (participant_step E) st" "read_lease st = Inr epoch"
    and "(participant_step E)\<^sup>*\<^sup>* st st'" "lease_resume epoch st' = Inr epoch'"
  shows "contents st' = contents st"
proof -
  from assms(1,2) have "since_lease (contents st) epoch st"
    using participating.reachable_inv[OF assms(1)] by (auto simp: since_lease_def read_lease_def split: if_splits)
  with assms(3) have "since_lease (contents st) epoch st'"
  proof (induction rule: rtranclp_induct)
    case (step y z)
    from participant_step_effect[OF step.hyps(2)] obtain v m row where "participant_effect E v m y row z"
      by blast
    from since_lease_effect[OF step.IH[OF step.prems] this] show ?case .
  qed
  with assms(4) show ?thesis
    by (auto simp: since_lease_def lease_resume_def read_lease_def and_then_Inr_iff gate_ok_def active_def
        split: if_splits)
qed

theorem resumed_lease_unchanged_witness:
  "\<exists>st'. (participant_step wire_env)\<^sup>*\<^sup>* (empty_store 5) st' \<and> rows st' 7 = Some (demo_row Aborted)
     \<and> lease_resume 0 st' = Inr 0 \<and> contents st' = 5"
proof -
  let ?st0 = "empty_store 5 :: (wire, nat) store"
  obtain st1 where st1: "demo_run ?st0 = Inr (row_status (demo_row Reserved), st1)"
      "rows st1 = [7 \<mapsto> demo_row Reserved]" "gate st1 = Some 7" "commit_epoch st1 = 0"
    using demo_reserved[of ?st0] by (auto simp: empty_store_def)
  have i: "m_id demo_manifest = 7" "deadline demo_manifest = seconds 100" by (simp_all add: demo_manifest_def)
  have check: "check_existing wire_env (row_status (demo_row Reserved)) demo_manifest = Inr ()" by simp
  from st1 obtain st2 where st2:
      "recover_reserved wire_env (seconds 200) demo_manifest st1 = Inr (Some (row_status (demo_row Aborted), st2))"
      "rows st2 = [7 \<mapsto> demo_row Aborted]" "gate st2 = None" "commit_epoch st2 = 0"
    by (simp add: recover_reserved_def lock_row_def i expire_reserved_def abort_reserved_def row_transition_def
        release_gate_def seconds_def check Let_def)
  have path: "(participant_step wire_env)\<^sup>*\<^sup>* ?st0 st2"
    using on_reserve_in[OF st1(1)[unfolded demo_run_def]] on_recover[OF st2(1)]
    by (meson converse_rtranclp_into_rtranclp rtranclp.rtrancl_refl)
  have start: "reaches store_init (participant_step wire_env) ?st0"
    by (rule reaches_init) (auto simp: store_init_def)
  have lease: "read_lease ?st0 = Inr 0" by (simp add: read_lease_def empty_store_def)
  have resume: "lease_resume 0 st2 = Inr 0" using st2(3,4) by (simp add: lease_resume_def read_lease_def)
  from resumed_lease_unchanged[OF start lease path resume] path st2(2) resume show ?thesis
    by (auto simp: empty_store_def)
qed

end
