(* ===== verification/Coordination.thy ===== *)
theory Coordination
  imports Participation
begin

text \<open>
  The coordinator of an atomic transaction (crates/aidash-application/src/transactions/admission.rs
  and coordination.rs over the coordinator records): submission of a manifest, abort, and one step
  of the recoverable workflow. \<open>advance_locked\<close> reads the status, then the votes, then asks a
  participant or changes the decision; the reads, the question and the write are separate, so the
  model gives the plan made from what was read and each write on its own.
\<close>

section \<open>Submission\<close>

definition admit_new ::
  "('v, 'd) env \<Rightarrow> datetime \<Rightarrow> origin option \<Rightarrow> 'v manifest \<Rightarrow> ('v, 'd) store
     \<Rightarrow> failure + 'v status \<times> ('v, 'd) store" where
  "admit_new E now og m st =
     (if \<not> (1 \<le> num_seconds (deadline m - now) \<and> num_seconds (deadline m - now) \<le> 3600)
      then Inl (FInvalid ''new transaction deadline must be within the next hour'')
      else
        and_then (for_each (\<lambda>p.
            if node_id p \<noteq> coordinator m
            then and_then (trusted E (coordinator m) (node_id p) og (contents st)) (\<lambda>ok.
                   refuse_if (\<not> ok) Forbidden)
            else Inr ()) (participants m)) (\<lambda>_.
        and_then (admit_in (codec_of E) m st) (\<lambda>(stored, st).
        and_then (case og of None \<Rightarrow> Inr (contents st) | Some og' \<Rightarrow> bind_origin E (m_id m) og' (contents st)) (\<lambda>d.
        and_then (match_origin E (m_id m) og d) (\<lambda>_.
          Inr (stored, st\<lparr>contents := d\<rparr>))))))"

definition submit_in ::
  "('v, 'd) env \<Rightarrow> string \<Rightarrow> datetime \<Rightarrow> origin option \<Rightarrow> 'v manifest \<Rightarrow> ('v, 'd) store
     \<Rightarrow> failure + 'v status \<times> ('v, 'd) store" where
  "submit_in E here now og m st =
     and_then (manifest_validate (json E) (codec_of E) m) (\<lambda>_.
     if deployment_of (coordinator m) \<noteq> deployment_of here
     then Inl (FInvalid ''submit to the named coordinator'')
     else
       and_then (node_tenant E (coordinator m) (contents st)) (\<lambda>holder.
       and_then (case holder of
           None \<Rightarrow> Inl (FInvalid ''submit to the named coordinator'')
         | Some h \<Rightarrow> (case og of None \<Rightarrow> Inr () | Some og' \<Rightarrow> refuse_if (h \<noteq> o_tenant og') Forbidden)) (\<lambda>_.
       case coordinator_status (m_id m) st of
         Inr existing \<Rightarrow>
           and_then (match_origin E (m_id m) og (contents st)) (\<lambda>_.
           and_then (manifest_digest (codec_of E) m) (\<lambda>digest.
             if st_digest existing \<noteq> digest \<or> st_manifest existing \<noteq> to_value (codec_of E) m
             then Inl (FConflict ''transaction ID already has another immutable manifest'')
             else Inr (existing, st)))
       | Inl (NotFound _) \<Rightarrow> admit_new E now og m st
       | Inl e \<Rightarrow> Inl e)))"

section \<open>The workflow\<close>

definition coordinator_abort :: "uuid \<Rightarrow> ('v, 'd) store \<Rightarrow> failure + 'v status \<times> ('v, 'd) store" where
  "coordinator_abort i st =
     and_then (transition_in i (Decide Abort) ''Deployment Administrator requested abort'' st) (\<lambda>(_, st).
     and_then (coordinator_status i st) (\<lambda>existing.
       if st_decision existing = Some ''COMMIT'' then Inl (FConflict ''commit is irrevocable'')
       else Inr (existing, st)))"

datatype plan = Finished | Expire | Ask vote participant_operation | Move coordinator_transition string

definition advance_plan :: "'v codec \<Rightarrow> datetime \<Rightarrow> 'v status \<Rightarrow> vote list \<Rightarrow> failure + plan" where
  "advance_plan C now s votes =
     (if st_complete s then Inr Finished
      else case from_value C (st_manifest s) of
        None \<Rightarrow> Inl JsonFailure
      | Some m \<Rightarrow>
          if st_decision s = None \<and> deadline m \<le> now then Inr Expire
          else case next_participant s votes of
                 Some (v, op) \<Rightarrow> Inr (Ask v op)
               | None \<Rightarrow> and_then (domain (next_transition s votes)) (\<lambda>(change, detail). Inr (Move change detail)))"

definition advance_expired :: "'v status \<Rightarrow> ('v, 'd) store \<Rightarrow> failure + bool \<times> ('v, 'd) store" where
  "advance_expired s st =
     transition_in (st_id s) (Decide Abort) ''deadline elapsed before durable decision'' st"

definition advance_answered ::
  "'v manifest \<Rightarrow> 'v status \<Rightarrow> vote \<Rightarrow> participant_operation \<Rightarrow> 'v local_status \<Rightarrow> ('v, 'd) store
     \<Rightarrow> failure + ('v, 'd) store" where
  "advance_answered m s v op response st =
     and_then (domain (validate_acknowledgement m s op response)) (\<lambda>_.
       acknowledge (st_id s) (v_node v) (ls_phase response) st)"

definition gives_up :: "'v status \<Rightarrow> bool \<Rightarrow> failure \<Rightarrow> bool" where
  "gives_up s scoped e \<longleftrightarrow>
     st_decision s = None
     \<and> ((case e of FConflict _ \<Rightarrow> True | FInvalid _ \<Rightarrow> True | NotFound _ \<Rightarrow> True
           | Forbidden \<Rightarrow> True | Unauthorized \<Rightarrow> True | _ \<Rightarrow> False)
        \<or> (e = TransactionPending \<and> scoped))"

text \<open>\<open>detail\<close> is the text of the error.\<close>

definition advance_failed ::
  "'v status \<Rightarrow> bool \<Rightarrow> failure \<Rightarrow> string \<Rightarrow> ('v, 'd) store \<Rightarrow> failure + ('v, 'd) store" where
  "advance_failed s scoped e detail st =
     (if gives_up s scoped e
      then and_then (transition_in (st_id s) (Decide Abort) detail st) (\<lambda>(_, st). Inr st)
      else record_error (st_id s) detail st)"

section \<open>What the writes do to coordinator records\<close>

text \<open>
  A coordinator row is created undecided with a pending vote for each participant, and afterwards
  keeps its manifest and only progresses.
\<close>

definition row_progress :: "'v atomic_coordinator \<Rightarrow> 'v atomic_coordinator \<Rightarrow> bool" where
  "row_progress c c' \<longleftrightarrow>
     c_digest c' = c_digest c \<and> c_manifest c' = c_manifest c
     \<and> progressed (row_state c) (row_state c')
     \<and> (coordinator_inv (row_state c) \<longrightarrow> coordinator_inv (row_state c'))"

lemma row_progress_refl [simp]: "row_progress c c"
  by (simp add: row_progress_def)

lemma row_progress_error [simp]: "row_progress c (c\<lparr>c_last_error := e\<rparr>)"
  by (simp add: row_progress_def row_state_def)

lemma transition_in_Inr:
  assumes "transition_in i change detail st = Inr (changed, st')"
  obtains (same) "st' = st" "\<not> changed"
  | (moved) c s' e where "coordinators st i = Some c" "changed"
      "transition_apply change (row_state c) = Inr (True, s')"
      "coordinators st' = (coordinators st)(i \<mapsto>
         c\<lparr>c_decision := decided s', c_visible := visible s', c_complete := complete s', c_last_error := e\<rparr>)"
      "votes_of st' = votes_of st" "rows st' = rows st" "gate st' = gate st"
  using assms
  by (auto simp: transition_in_def row_apply_def and_then_Inr_iff Let_def split: option.splits if_splits)

lemma transition_progress:
  assumes "transition_apply change (row_state c) = Inr (changed, s')"
  shows "row_progress c
    (c\<lparr>c_decision := decided s', c_visible := visible s', c_complete := complete s', c_last_error := e\<rparr>)"
proof -
  have "coordinator_step (row_state c) s'" using assms by (auto simp: coordinator_step_def)
  then have "progressed (row_state c) s'" by (blast intro: coordinator_steps_progress)
  moreover have "row_state (c\<lparr>c_decision := decided s', c_visible := visible s', c_complete := complete s',
      c_last_error := e\<rparr>) = s'"
    by (simp add: row_state_def)
  ultimately show ?thesis unfolding row_progress_def using transition_apply_effect(5)[OF assms] by simp
qed

lemma acknowledge_Inr:
  assumes "acknowledge i node phase st = Inr st'"
  obtains c where "coordinators st i = Some c"
      "coordinators st' = (coordinators st)(i \<mapsto> c\<lparr>c_last_error := None\<rparr>)"
      "votes_of st' = (votes_of st)(i :=
         map (\<lambda>v. if v_node v = node then v\<lparr>v_phase := phase\<rparr> else v) (votes_of st i))"
      "rows st' = rows st" "gate st' = gate st"
  using assms by (auto simp: acknowledge_def Let_def split: option.splits if_splits)

lemma record_error_Inr:
  assumes "record_error i detail st = Inr st'"
  obtains c where "coordinators st i = Some c"
      "coordinators st' = (coordinators st)(i \<mapsto> c\<lparr>c_last_error := Some detail\<rparr>)"
      "votes_of st' = votes_of st" "rows st' = rows st" "gate st' = gate st"
  using assms by (auto simp: record_error_def split: option.splits)

lemma submit_in_Inr:
  assumes "submit_in E here now og m st = Inr (s, st')"
  obtains (existing) "st' = st"
  | (new) c where "manifest_ok (json E) (codec_of E) m" "deployment_of (coordinator m) = deployment_of here"
      "coordinators st (m_id m) = None" "coordinators st' = (coordinators st)(m_id m \<mapsto> c)"
      "c_manifest c = to_value (codec_of E) m" "row_state c = \<lparr> decided = None, visible = False, complete = False \<rparr>"
      "votes_of st' = (votes_of st)(m_id m :=
         map (\<lambda>p. \<lparr> v_node = node_id p, v_phase = ''PENDING'' \<rparr>) (participants m))"
      "rows st' = rows st" "gate st' = gate st"
proof (cases "coordinators st (m_id m)")
  case (Some c)
  with assms have "st' = st"
    by (auto simp: submit_in_def coordinator_status_def and_then_Inr_iff split: if_splits)
  with existing show ?thesis .
next
  case None
  with assms have valid: "manifest_validate (json E) (codec_of E) m = Inr ()"
      "deployment_of (coordinator m) = deployment_of here" and run: "admit_new E now og m st = Inr (s, st')"
    by (auto simp: submit_in_def coordinator_status_def and_then_Inr_iff split: if_splits)
  from run obtain s1 st1 d where admit: "admit_in (codec_of E) m st = Inr (s1, st1)" "st' = st1\<lparr>contents := d\<rparr>"
    by (auto simp: admit_new_def and_then_Inr_iff split: if_splits)
  from admit(1) None obtain digest where
      "coordinators st1 = (coordinators st)(m_id m \<mapsto> new_coordinator (codec_of E) m digest)"
      "votes_of st1 = (votes_of st)(m_id m :=
         map (\<lambda>p. \<lparr> v_node = node_id p, v_phase = ''PENDING'' \<rparr>) (participants m))"
      "rows st1 = rows st" "gate st1 = gate st"
    by (auto simp: admit_in_def and_then_Inr_iff Let_def)
  with new[of "new_coordinator (codec_of E) m digest"] valid None admit(2) show ?thesis
    by (simp add: manifest_validate_ok new_coordinator_def row_state_def)
qed

end
