(* ===== verification/Protocol.thy ===== *)
theory Protocol
  imports Coordination
begin

text \<open>
  The atomic commit protocol across Deployments: any number of transactions, coordinators and
  participants, with every database transaction as one step and all interleavings of them. What one
  party read or answered earlier may reach another at any later time, more than once or never, so a
  lost connection, a crash between two writes and a repeated request are all runs of the system.
  The recovery lease, which keeps two recoveries of one transaction apart, is not relied upon.
\<close>

section \<open>The system\<close>

text \<open>
  \<open>seen\<close> holds the statuses read from coordinator records, with the Deployment they were read at,
  \<open>polled\<close> the votes read by a coordinator after such a status, and \<open>answered\<close> what participants
  answered.
\<close>

record ('v, 'd) world =
  stores :: "string \<Rightarrow> ('v, 'd) store"
  seen :: "(string \<times> 'v status) set"
  polled :: "(string \<times> uuid \<times> vote list) set"
  answered :: "(string \<times> 'v local_status) set"

definition at_store :: "string \<Rightarrow> ('v, 'd) store \<Rightarrow> ('v, 'd) world \<Rightarrow> ('v, 'd) world" where
  "at_store d st w = w\<lparr>stores := (stores w)(d := st)\<rparr>"

text \<open>A participant serves a request; a decision is one that was read from the coordinator's record.\<close>

inductive serves ::
  "('v, 'd) env \<Rightarrow> ('v, 'd) world \<Rightarrow> string \<Rightarrow> 'v local_status \<Rightarrow> ('v, 'd) store \<Rightarrow> bool" for E w d where
  serve_reserve: "reserve E d receiver now later caller m (stores w d) = Inr (row, st') \<Longrightarrow> serves E w d row st'"
| serve_reserve_in: "reserve_in E d now later m (stores w d) = Inr (row, st') \<Longrightarrow> serves E w d row st'"
| serve_prepare: "prepare E d receiver now caller m (stores w d) = Inr (row, st') \<Longrightarrow> serves E w d row st'"
| serve_finish: "finish E d receiver caller m answer (stores w d) = Inr (row, st') \<Longrightarrow>
    (deployment_of (coordinator m), answer) \<in> seen w \<Longrightarrow> serves E w d row st'"
| serve_recover: "recover_reserved E now m (stores w d) = Inr (Some (row, st')) \<Longrightarrow> serves E w d row st'"

inductive world_step :: "('v, 'd) env \<Rightarrow> ('v, 'd) world \<Rightarrow> ('v, 'd) world \<Rightarrow> bool" for E where
  submit: "submit_in E d now og m (stores w d) = Inr (s, st') \<Longrightarrow> deployment_of d = d \<Longrightarrow>
    world_step E w (at_store d st' w)"
| read_status: "coordinator_status i (stores w d) = Inr s \<Longrightarrow>
    world_step E w (w\<lparr>seen := insert (d, s) (seen w)\<rparr>)"
| read_votes: "(d, s) \<in> seen w \<Longrightarrow>
    world_step E w (w\<lparr>polled := insert (d, st_id s, votes_of (stores w d) (st_id s)) (polled w)\<rparr>)"
| administrator_abort: "coordinator_abort i (stores w d) = Inr (s, st') \<Longrightarrow>
    world_step E w (at_store d st' w)"
| deadline_passed: "(d, s) \<in> seen w \<Longrightarrow> advance_plan (codec_of E) now s votes = Inr Expire \<Longrightarrow>
    advance_expired s (stores w d) = Inr (changed, st') \<Longrightarrow> world_step E w (at_store d st' w)"
| participant_answered: "(d, s) \<in> seen w \<Longrightarrow> (d, st_id s, votes) \<in> polled w \<Longrightarrow>
    advance_plan (codec_of E) now s votes = Inr (Ask v op) \<Longrightarrow>
    from_value (codec_of E) (st_manifest s) = Some m \<Longrightarrow>
    (deployment_of (v_node v), response) \<in> answered w \<Longrightarrow>
    advance_answered m s v op response (stores w d) = Inr st' \<Longrightarrow> world_step E w (at_store d st' w)"
| participant_failed: "(d, s) \<in> seen w \<Longrightarrow> (d, st_id s, votes) \<in> polled w \<Longrightarrow>
    advance_plan (codec_of E) now s votes = Inr (Ask v op) \<Longrightarrow>
    advance_failed s scoped e detail (stores w d) = Inr st' \<Longrightarrow> world_step E w (at_store d st' w)"
| coordinator_moves: "(d, s) \<in> seen w \<Longrightarrow> (d, st_id s, votes) \<in> polled w \<Longrightarrow>
    advance_plan (codec_of E) now s votes = Inr (Move change detail) \<Longrightarrow>
    transition_in (st_id s) change detail (stores w d) = Inr (changed, st') \<Longrightarrow>
    world_step E w (at_store d st' w)"
| participant_serves: "serves E w d row st' \<Longrightarrow>
    world_step E w ((at_store d st' w)\<lparr>answered := insert (d, row) (answered w)\<rparr>)"

definition world_init :: "('v, 'd) world \<Rightarrow> bool" where
  "world_init w \<longleftrightarrow>
     (\<forall>d. store_init (stores w d)) \<and> seen w = {} \<and> polled w = {} \<and> answered w = {}"

section \<open>What holds in every reachable state\<close>

definition coordinator_row :: "('v, 'd) env \<Rightarrow> ('v, 'd) world \<Rightarrow> 'v manifest \<Rightarrow> 'v atomic_coordinator option" where
  "coordinator_row E w m =
     (case coordinators (stores w (deployment_of (coordinator m))) (m_id m) of
        Some c \<Rightarrow> if c_manifest c = to_value (codec_of E) m then Some c else None
      | None \<Rightarrow> None)"

definition is_committed :: "('v, 'd) env \<Rightarrow> ('v, 'd) world \<Rightarrow> 'v manifest \<Rightarrow> bool" where
  "is_committed E w m \<longleftrightarrow> (\<exists>c. coordinator_row E w m = Some c \<and> c_decision c = Some Commit)"

definition is_aborted :: "('v, 'd) env \<Rightarrow> ('v, 'd) world \<Rightarrow> 'v manifest \<Rightarrow> bool" where
  "is_aborted E w m \<longleftrightarrow> (\<exists>c. coordinator_row E w m = Some c \<and> c_decision c = Some Abort)"

definition is_published :: "('v, 'd) env \<Rightarrow> ('v, 'd) world \<Rightarrow> 'v manifest \<Rightarrow> bool" where
  "is_published E w m \<longleftrightarrow> (\<exists>c. coordinator_row E w m = Some c \<and> c_visible c)"

text \<open>The participant of a manifest at a Deployment, in one of some phases.\<close>

definition in_phase ::
  "('v, 'd) env \<Rightarrow> ('v, 'd) world \<Rightarrow> 'v manifest \<Rightarrow> string \<Rightarrow> participant_phase set \<Rightarrow> bool" where
  "in_phase E w m d P \<longleftrightarrow>
     (\<exists>r. rows (stores w d) (m_id m) = Some r \<and> ap_manifest r = to_value (codec_of E) m \<and> ap_phase r \<in> P)"

definition all_in_phase ::
  "('v, 'd) env \<Rightarrow> ('v, 'd) world \<Rightarrow> 'v manifest \<Rightarrow> participant_phase set \<Rightarrow> bool" where
  "all_in_phase E w m P \<longleftrightarrow> (\<forall>p\<in>set (participants m). in_phase E w m (deployment_of (node_id p)) P)"

text \<open>
  What a phase that was answered or recorded as a vote says about the participant from then on.
\<close>

definition phase_true :: "('v, 'd) env \<Rightarrow> ('v, 'd) world \<Rightarrow> 'v manifest \<Rightarrow> string \<Rightarrow> string \<Rightarrow> bool" where
  "phase_true E w m d phase \<longleftrightarrow>
     (phase = ''PREPARED'' \<longrightarrow> in_phase E w m d {Prepared, Applied, Committed} \<or> is_aborted E w m)
     \<and> (phase = ''APPLIED'' \<longrightarrow> in_phase E w m d {Applied, Committed})
     \<and> (phase = ''COMMITTED'' \<longrightarrow> in_phase E w m d {Committed})
     \<and> (phase = ''ABORTED'' \<longrightarrow> in_phase E w m d {Aborted})"

definition seen_inv :: "('v, 'd) world \<Rightarrow> string \<Rightarrow> 'v status \<Rightarrow> bool" where
  "seen_inv w d s \<longleftrightarrow>
     (\<exists>c. coordinators (stores w d) (st_id s) = Some c \<and> c_manifest c = st_manifest s
        \<and> st_decision s \<in> {None, map_option decision_text (c_decision c)}
        \<and> (st_visible s \<longrightarrow> c_visible c \<and> st_decision s = Some ''COMMIT''))"

definition coordinator_row_inv :: "('v, 'd) env \<Rightarrow> ('v, 'd) world \<Rightarrow> string \<Rightarrow> uuid \<Rightarrow> 'v atomic_coordinator \<Rightarrow> bool" where
  "coordinator_row_inv E w d i c \<longleftrightarrow>
     (\<exists>m. c_manifest c = to_value (codec_of E) m \<and> m_id m = i \<and> deployment_of (coordinator m) = d
        \<and> manifest_ok (json E) (codec_of E) m \<and> coordinator_inv (row_state c)
        \<and> map v_node (votes_of (stores w d) i) = map node_id (participants m)
        \<and> (\<forall>v\<in>set (votes_of (stores w d) i). phase_true E w m (deployment_of (v_node v)) (v_phase v))
        \<and> (c_decision c = Some Commit \<longrightarrow> all_in_phase E w m {Prepared, Applied, Committed})
        \<and> (c_visible c \<longrightarrow> all_in_phase E w m {Applied, Committed})
        \<and> (c_complete c \<longrightarrow> all_in_phase E w m (if c_decision c = Some Commit then {Committed} else {Aborted})))"

definition polled_inv :: "('v, 'd) env \<Rightarrow> ('v, 'd) world \<Rightarrow> string \<Rightarrow> uuid \<Rightarrow> vote list \<Rightarrow> bool" where
  "polled_inv E w d i votes \<longleftrightarrow>
     (\<exists>c m. coordinators (stores w d) i = Some c \<and> c_manifest c = to_value (codec_of E) m
        \<and> m_id m = i \<and> map v_node votes = map node_id (participants m)
        \<and> (\<forall>v\<in>set votes. phase_true E w m (deployment_of (v_node v)) (v_phase v)))"

definition answered_inv :: "('v, 'd) env \<Rightarrow> ('v, 'd) world \<Rightarrow> string \<Rightarrow> 'v local_status \<Rightarrow> bool" where
  "answered_inv E w d row \<longleftrightarrow>
     (\<exists>m. ls_manifest row = to_value (codec_of E) m \<and> ls_id row = m_id m
        \<and> phase_true E w m d (ls_phase row))"

definition row_inv :: "('v, 'd) env \<Rightarrow> ('v, 'd) world \<Rightarrow> uuid \<Rightarrow> 'v atomic_participant \<Rightarrow> bool" where
  "row_inv E w i r \<longleftrightarrow>
     ap_id r = i
     \<and> (\<exists>m. ap_manifest r = to_value (codec_of E) m \<and> m_id m = i
          \<and> (ap_phase r \<in> {Applied, Committed} \<longrightarrow> is_committed E w m)
          \<and> (ap_phase r = Committed \<longrightarrow> is_published E w m))"

definition world_inv :: "('v, 'd) env \<Rightarrow> ('v, 'd) world \<Rightarrow> bool" where
  "world_inv E w \<longleftrightarrow>
     (\<forall>(d, s)\<in>seen w. seen_inv w d s)
     \<and> (\<forall>d i c. coordinators (stores w d) i = Some c \<longrightarrow> coordinator_row_inv E w d i c)
     \<and> (\<forall>(d, i, votes)\<in>polled w. polled_inv E w d i votes)
     \<and> (\<forall>(d, row)\<in>answered w. answered_inv E w d row)
     \<and> (\<forall>d i r. rows (stores w d) i = Some r \<longrightarrow> row_inv E w i r)
     \<and> (\<forall>d. gate_ok (stores w d))"

section \<open>Facts that stay true\<close>

text \<open>
  One state of the system follows another when coordinator rows progress and participant rows move
  along their phase machine, leaving the prepared phase for the aborted one only under an abort.
\<close>

definition row_grows ::
  "('v, 'd) env \<Rightarrow> ('v, 'd) world \<Rightarrow> uuid \<Rightarrow> 'v atomic_participant \<Rightarrow> 'v atomic_participant \<Rightarrow> bool" where
  "row_grows E w' i r r' \<longleftrightarrow>
     ap_manifest r' = ap_manifest r
     \<and> (case ap_phase r of
          Reserved \<Rightarrow> True
        | Prepared \<Rightarrow> ap_phase r' \<in> {Prepared, Applied, Committed}
            \<or> (ap_phase r' = Aborted
               \<and> (\<forall>m. ap_manifest r = to_value (codec_of E) m \<longrightarrow> m_id m = i \<longrightarrow> is_aborted E w' m))
        | Applied \<Rightarrow> ap_phase r' \<in> {Applied, Committed}
        | Committed \<Rightarrow> ap_phase r' = Committed
        | Aborted \<Rightarrow> ap_phase r' = Aborted)"

lemma row_grows_refl [simp]: "row_grows E w' i r r"
  by (simp add: row_grows_def split: participant_phase.splits)

definition grows :: "('v, 'd) env \<Rightarrow> ('v, 'd) world \<Rightarrow> ('v, 'd) world \<Rightarrow> bool" where
  "grows E w w' \<longleftrightarrow>
     (\<forall>d i c. coordinators (stores w d) i = Some c \<longrightarrow>
        (\<exists>c'. coordinators (stores w' d) i = Some c' \<and> row_progress c c'))
     \<and> (\<forall>d i r. rows (stores w d) i = Some r \<longrightarrow>
          (\<exists>r'. rows (stores w' d) i = Some r' \<and> row_grows E w' i r r'))"

lemma row_progress_simps:
  assumes "row_progress c c'"
  shows "c_manifest c' = c_manifest c" "c_decision c = Some x \<Longrightarrow> c_decision c' = Some x"
    "c_visible c \<Longrightarrow> c_visible c'" "c_complete c \<Longrightarrow> c_complete c'"
    "coordinator_inv (row_state c) \<Longrightarrow> coordinator_inv (row_state c')"
  using assms by (auto simp: row_progress_def progressed_def row_state_def)

lemma grows_coordinator_row:
  assumes "grows E w w'" "coordinator_row E w m = Some c"
  shows "\<exists>c'. coordinator_row E w' m = Some c' \<and> row_progress c c'"
proof -
  from assms(2) have c: "coordinators (stores w (deployment_of (coordinator m))) (m_id m) = Some c"
    "c_manifest c = to_value (codec_of E) m"
    by (auto simp: coordinator_row_def split: option.splits if_splits)
  from c(1) assms(1) obtain c' where
    "coordinators (stores w' (deployment_of (coordinator m))) (m_id m) = Some c'" "row_progress c c'"
    unfolding grows_def by blast
  with c(2) show ?thesis by (simp add: coordinator_row_def row_progress_simps(1))
qed

lemma grows_decided:
  assumes "grows E w w'"
  shows "is_committed E w m \<Longrightarrow> is_committed E w' m" "is_aborted E w m \<Longrightarrow> is_aborted E w' m"
    "is_published E w m \<Longrightarrow> is_published E w' m"
  using grows_coordinator_row[OF assms, of m]
  by (auto simp: is_committed_def is_aborted_def is_published_def dest: row_progress_simps)

lemma not_both: "is_committed E w m \<Longrightarrow> \<not> is_aborted E w m"
  by (auto simp: is_committed_def is_aborted_def)

lemma grows_in_phase_step:
  assumes "grows E w w'" "in_phase E w m d P"
    and "\<And>r r'. ap_manifest r = to_value (codec_of E) m \<Longrightarrow> ap_phase r \<in> P \<Longrightarrow>
      row_grows E w' (m_id m) r r' \<Longrightarrow> ap_phase r' \<in> Q \<or> B"
  shows "in_phase E w' m d Q \<or> B"
proof -
  from assms(2) obtain r where r: "rows (stores w d) (m_id m) = Some r"
      "ap_manifest r = to_value (codec_of E) m" "ap_phase r \<in> P"
    by (auto simp: in_phase_def)
  from r(1) assms(1) obtain r' where r': "rows (stores w' d) (m_id m) = Some r'" "row_grows E w' (m_id m) r r'"
    unfolding grows_def by blast
  with assms(3)[OF r(2,3) r'(2)] r(2) show ?thesis by (auto simp: in_phase_def row_grows_def)
qed

lemma grows_in_phase:
  assumes "grows E w w'"
  shows "in_phase E w m d {Applied, Committed} \<Longrightarrow> in_phase E w' m d {Applied, Committed}"
    "in_phase E w m d {Committed} \<Longrightarrow> in_phase E w' m d {Committed}"
    "in_phase E w m d {Aborted} \<Longrightarrow> in_phase E w' m d {Aborted}"
    "in_phase E w m d {Prepared, Applied, Committed} \<Longrightarrow>
       in_phase E w' m d {Prepared, Applied, Committed} \<or> is_aborted E w' m"
proof -
  show "in_phase E w' m d {Applied, Committed}" if "in_phase E w m d {Applied, Committed}"
  proof -
    have "in_phase E w' m d {Applied, Committed} \<or> False"
      by (rule grows_in_phase_step[OF assms that]) (auto simp: row_grows_def)
    then show ?thesis by simp
  qed
  show "in_phase E w' m d {Committed}" if "in_phase E w m d {Committed}"
  proof -
    have "in_phase E w' m d {Committed} \<or> False"
      by (rule grows_in_phase_step[OF assms that]) (auto simp: row_grows_def)
    then show ?thesis by simp
  qed
  show "in_phase E w' m d {Aborted}" if "in_phase E w m d {Aborted}"
  proof -
    have "in_phase E w' m d {Aborted} \<or> False"
      by (rule grows_in_phase_step[OF assms that]) (auto simp: row_grows_def)
    then show ?thesis by simp
  qed
  show "in_phase E w' m d {Prepared, Applied, Committed} \<or> is_aborted E w' m"
    if "in_phase E w m d {Prepared, Applied, Committed}"
    by (rule grows_in_phase_step[OF assms that]) (auto simp: row_grows_def)
qed

lemma grows_phase_true:
  assumes "grows E w w'" "phase_true E w m d phase"
  shows "phase_true E w' m d phase"
  unfolding phase_true_def
proof (intro conjI impI)
  assume "phase = ''PREPARED''"
  with assms(2) have "in_phase E w m d {Prepared, Applied, Committed} \<or> is_aborted E w m"
    by (simp add: phase_true_def)
  then show "in_phase E w' m d {Prepared, Applied, Committed} \<or> is_aborted E w' m"
    using grows_in_phase(4)[OF assms(1)] grows_decided(2)[OF assms(1)] by metis
qed (use assms(2) grows_in_phase(1-3)[OF assms(1)] in \<open>simp_all add: phase_true_def\<close>)

lemma grows_all_in_phase:
  assumes "grows E w w'" "all_in_phase E w m P"
  shows "P \<in> {{Applied, Committed}, {Committed}, {Aborted}} \<Longrightarrow> all_in_phase E w' m P"
    "P = {Prepared, Applied, Committed} \<Longrightarrow> is_committed E w' m \<Longrightarrow> all_in_phase E w' m P"
proof -
  show "all_in_phase E w' m P" if "P \<in> {{Applied, Committed}, {Committed}, {Aborted}}"
    using that assms(2) grows_in_phase(1-3)[OF assms(1), of m] by (auto simp: all_in_phase_def)
  show "all_in_phase E w' m P" if "P = {Prepared, Applied, Committed}" "is_committed E w' m"
    using that assms(2) grows_in_phase(4)[OF assms(1), of m] not_both[OF that(2)]
    by (auto simp: all_in_phase_def)
qed

lemma seen_inv_grows: "grows E w w' \<Longrightarrow> seen_inv w d s \<Longrightarrow> seen_inv w' d s"
proof -
  assume grow: "grows E w w'" and "seen_inv w d s"
  then obtain c where c: "coordinators (stores w d) (st_id s) = Some c" "c_manifest c = st_manifest s"
      "st_decision s \<in> {None, map_option decision_text (c_decision c)}"
      "st_visible s \<longrightarrow> c_visible c \<and> st_decision s = Some ''COMMIT''"
    by (auto simp: seen_inv_def)
  from c(1) grow obtain c' where c': "coordinators (stores w' d) (st_id s) = Some c'" "row_progress c c'"
    unfolding grows_def by blast
  from c'(2) c(3) have "st_decision s \<in> {None, map_option decision_text (c_decision c')}"
    by (cases "c_decision c") (auto dest: row_progress_simps(2))
  with c c' show ?thesis by (auto simp: seen_inv_def dest: row_progress_simps)
qed

lemma polled_inv_grows: "grows E w w' \<Longrightarrow> polled_inv E w d i votes \<Longrightarrow> polled_inv E w' d i votes"
proof -
  assume grow: "grows E w w'" and "polled_inv E w d i votes"
  then obtain c m where c: "coordinators (stores w d) i = Some c" "c_manifest c = to_value (codec_of E) m"
      "m_id m = i" "map v_node votes = map node_id (participants m)"
      "\<forall>v\<in>set votes. phase_true E w m (deployment_of (v_node v)) (v_phase v)"
    unfolding polled_inv_def by blast
  from c(1) grow obtain c' where c': "coordinators (stores w' d) i = Some c'" "row_progress c c'"
    unfolding grows_def by blast
  from c'(2) c(2) have "c_manifest c' = to_value (codec_of E) m" by (simp add: row_progress_simps(1))
  moreover have "\<forall>v\<in>set votes. phase_true E w' m (deployment_of (v_node v)) (v_phase v)"
    using c(5) grows_phase_true[OF grow] by blast
  ultimately show ?thesis using c c'(1) unfolding polled_inv_def by blast
qed

lemma answered_inv_grows: "grows E w w' \<Longrightarrow> answered_inv E w d row \<Longrightarrow> answered_inv E w' d row"
  unfolding answered_inv_def using grows_phase_true by blast

lemma row_inv_grows: "grows E w w' \<Longrightarrow> row_inv E w i r \<Longrightarrow> row_inv E w' i r"
  unfolding row_inv_def using grows_decided by metis

text \<open>A coordinator row that progressed, with new votes and reasons for a new decision.\<close>

lemma coordinator_row_changed:
  assumes grow: "grows E w w'" and inv: "coordinator_row_inv E w d i c" and progress: "row_progress c c'"
    and row: "coordinators (stores w' d) i = Some c'"
    and votes: "map v_node (votes_of (stores w' d) i) = map v_node (votes_of (stores w d) i)"
      "\<And>m v. c_manifest c = to_value (codec_of E) m \<Longrightarrow> m_id m = i \<Longrightarrow> v \<in> set (votes_of (stores w' d) i)
         \<Longrightarrow> v \<notin> set (votes_of (stores w d) i) \<Longrightarrow> phase_true E w m (deployment_of (v_node v)) (v_phase v)"
    and commit: "\<And>m. c_manifest c = to_value (codec_of E) m \<Longrightarrow> m_id m = i \<Longrightarrow>
      c_decision c \<noteq> Some Commit \<Longrightarrow> c_decision c' = Some Commit \<Longrightarrow> all_in_phase E w m {Prepared, Applied, Committed}"
    and publish: "\<And>m. c_manifest c = to_value (codec_of E) m \<Longrightarrow> m_id m = i \<Longrightarrow>
      \<not> c_visible c \<Longrightarrow> c_visible c' \<Longrightarrow> all_in_phase E w m {Applied, Committed}"
    and finalize: "\<And>m. c_manifest c = to_value (codec_of E) m \<Longrightarrow> m_id m = i \<Longrightarrow> \<not> c_complete c \<Longrightarrow> c_complete c' \<Longrightarrow>
      all_in_phase E w m (if c_decision c' = Some Commit then {Committed} else {Aborted})"
  shows "coordinator_row_inv E w' d i c'"
proof -
  from inv obtain m where m: "c_manifest c = to_value (codec_of E) m" "m_id m = i" "deployment_of (coordinator m) = d"
      "manifest_ok (json E) (codec_of E) m" "coordinator_inv (row_state c)"
      "map v_node (votes_of (stores w d) i) = map node_id (participants m)"
      "\<forall>v\<in>set (votes_of (stores w d) i). phase_true E w m (deployment_of (v_node v)) (v_phase v)"
      "c_decision c = Some Commit \<longrightarrow> all_in_phase E w m {Prepared, Applied, Committed}"
      "c_visible c \<longrightarrow> all_in_phase E w m {Applied, Committed}"
      "c_complete c \<longrightarrow> all_in_phase E w m (if c_decision c = Some Commit then {Committed} else {Aborted})"
    unfolding coordinator_row_inv_def by blast
  note p = row_progress_simps[OF progress]
  have here: "coordinator_row E w' m = Some c'" using row m(1-3) p(1) by (simp add: coordinator_row_def)
  have decided: "c_complete c \<Longrightarrow> (c_decision c = Some Commit) = (c_decision c' = Some Commit)"
    using m(5) p(2) by (fastforce simp: coordinator_inv_def row_state_def)
  have now: "c_decision c' = Some Commit \<Longrightarrow> all_in_phase E w m {Prepared, Applied, Committed}"
    "c_visible c' \<Longrightarrow> all_in_phase E w m {Applied, Committed}"
    "c_complete c' \<Longrightarrow> all_in_phase E w m (if c_decision c' = Some Commit then {Committed} else {Aborted})"
    using m(8-10) decided commit[OF m(1,2)] publish[OF m(1,2)] finalize[OF m(1,2)] by metis+
  have "\<forall>v\<in>set (votes_of (stores w' d) i). phase_true E w' m (deployment_of (v_node v)) (v_phase v)"
    using m(7) votes(2)[OF m(1,2)] grows_phase_true[OF grow] by blast
  moreover have "c_decision c' = Some Commit \<Longrightarrow> all_in_phase E w' m {Prepared, Applied, Committed}"
    using grows_all_in_phase(2)[OF grow now(1)] here by (auto simp: is_committed_def)
  moreover have "c_visible c' \<Longrightarrow> all_in_phase E w' m {Applied, Committed}"
    using grows_all_in_phase(1)[OF grow now(2)] by simp
  moreover have "c_complete c' \<Longrightarrow> all_in_phase E w' m (if c_decision c' = Some Commit then {Committed} else {Aborted})"
    using grows_all_in_phase(1)[OF grow now(3)] by simp
  moreover have "c_manifest c' = to_value (codec_of E) m" "coordinator_inv (row_state c')"
    using p(1,5) m(1,5) by simp_all
  ultimately show ?thesis
    unfolding coordinator_row_inv_def using m(2-4,6) votes(1) by metis
qed

lemma world_invD:
  assumes "world_inv E w"
  shows "(d, s) \<in> seen w \<Longrightarrow> seen_inv w d s"
    and "coordinators (stores w d) i = Some c \<Longrightarrow> coordinator_row_inv E w d i c"
    and "(d, i, votes) \<in> polled w \<Longrightarrow> polled_inv E w d i votes"
    and "(d, row) \<in> answered w \<Longrightarrow> answered_inv E w d row"
    and "rows (stores w d) i = Some r \<Longrightarrow> row_inv E w i r"
    and "gate_ok (stores w d)"
  using assms unfolding world_inv_def by blast+

text \<open>What has to be shown of a step: only what it adds.\<close>

lemma world_inv_step:
  assumes inv: "world_inv E w" and grow: "grows E w w'"
    and "\<And>d s. (d, s) \<in> seen w' \<Longrightarrow> (d, s) \<notin> seen w \<Longrightarrow> seen_inv w' d s"
    and "\<And>d i votes. (d, i, votes) \<in> polled w' \<Longrightarrow> (d, i, votes) \<notin> polled w \<Longrightarrow> polled_inv E w' d i votes"
    and "\<And>d row. (d, row) \<in> answered w' \<Longrightarrow> (d, row) \<notin> answered w \<Longrightarrow> answered_inv E w' d row"
    and coord: "\<And>d i c. coordinators (stores w' d) i = Some c \<Longrightarrow>
      (coordinators (stores w d) i = Some c \<and> votes_of (stores w' d) i = votes_of (stores w d) i)
      \<or> coordinator_row_inv E w' d i c"
    and "\<And>d i r. rows (stores w' d) i = Some r \<Longrightarrow> rows (stores w d) i = Some r \<or> row_inv E w' i r"
    and "\<And>d. gate_ok (stores w' d)"
  shows "world_inv E w'"
proof -
  note D = world_invD[OF inv]
  have "seen_inv w' d s" if "(d, s) \<in> seen w'" for d s
    using that D(1) assms(3) seen_inv_grows[OF grow] by blast
  moreover have "polled_inv E w' d i votes" if "(d, i, votes) \<in> polled w'" for d i votes
    using that D(3) assms(4) polled_inv_grows[OF grow] by blast
  moreover have "answered_inv E w' d row" if "(d, row) \<in> answered w'" for d row
    using that D(4) assms(5) answered_inv_grows[OF grow] by blast
  moreover have "row_inv E w' i r" if "rows (stores w' d) i = Some r" for d i r
    using that D(5) assms(7) row_inv_grows[OF grow] by blast
  moreover have "coordinator_row_inv E w' d i c" if c: "coordinators (stores w' d) i = Some c" for d i c
    using coord[OF c]
  proof (elim disjE conjE)
    assume "coordinators (stores w d) i = Some c" "votes_of (stores w' d) i = votes_of (stores w d) i"
    then show ?thesis
      using coordinator_row_changed[OF grow D(2) row_progress_refl c] by simp
  qed
  ultimately show ?thesis using assms(8) unfolding world_inv_def by blast
qed

lemma at_store_simps [simp]:
  "stores (at_store d st w) = (stores w)(d := st)" "seen (at_store d st w) = seen w"
  "polled (at_store d st w) = polled w" "answered (at_store d st w) = answered w"
  by (simp_all add: at_store_def)

lemma gate_ok_cong: "rows st' = rows st \<Longrightarrow> gate st' = gate st \<Longrightarrow> gate_ok st' = gate_ok st"
  by (simp add: gate_ok_def)

text \<open>A write to one coordinator row and its votes.\<close>

lemma coordinator_write:
  assumes inv: "world_inv E w"
    and old: "coordinators (stores w d) i = Some c" and progress: "row_progress c c'"
    and new: "coordinators st' = (coordinators (stores w d))(i \<mapsto> c')"
      "votes_of st' = (votes_of (stores w d))(i := votes)"
      "rows st' = rows (stores w d)" "gate st' = gate (stores w d)"
    and votes: "map v_node votes = map v_node (votes_of (stores w d) i)"
      "\<And>m v. c_manifest c = to_value (codec_of E) m \<Longrightarrow> m_id m = i \<Longrightarrow> v \<in> set votes
         \<Longrightarrow> v \<notin> set (votes_of (stores w d) i) \<Longrightarrow> phase_true E w m (deployment_of (v_node v)) (v_phase v)"
    and commit: "\<And>m. c_manifest c = to_value (codec_of E) m \<Longrightarrow> m_id m = i \<Longrightarrow>
      c_decision c \<noteq> Some Commit \<Longrightarrow> c_decision c' = Some Commit \<Longrightarrow> all_in_phase E w m {Prepared, Applied, Committed}"
    and publish: "\<And>m. c_manifest c = to_value (codec_of E) m \<Longrightarrow> m_id m = i \<Longrightarrow>
      \<not> c_visible c \<Longrightarrow> c_visible c' \<Longrightarrow> all_in_phase E w m {Applied, Committed}"
    and finalize: "\<And>m. c_manifest c = to_value (codec_of E) m \<Longrightarrow> m_id m = i \<Longrightarrow> \<not> c_complete c \<Longrightarrow> c_complete c' \<Longrightarrow>
      all_in_phase E w m (if c_decision c' = Some Commit then {Committed} else {Aborted})"
  shows "world_inv E (at_store d st' w)"
proof -
  let ?w = "at_store d st' w"
  have grow: "grows E w ?w"
    using old progress new(1,3) by (auto simp: grows_def)
  have here: "coordinators (stores ?w d) i = Some c'" "votes_of (stores ?w d) i = votes"
    using new(1,2) by simp_all
  have row: "coordinator_row_inv E ?w d i c'"
    by (rule coordinator_row_changed[OF grow world_invD(2)[OF inv old] progress here(1)])
      (use here(2) votes commit publish finalize in simp_all)
  show ?thesis
  proof (rule world_inv_step[OF inv grow])
    fix d' j c1 assume c1: "coordinators (stores ?w d') j = Some c1"
    show "(coordinators (stores w d') j = Some c1 \<and> votes_of (stores ?w d') j = votes_of (stores w d') j)
        \<or> coordinator_row_inv E ?w d' j c1"
    proof (cases "d' = d \<and> j = i")
      case True
      with c1 here row show ?thesis by simp
    next
      case False
      with c1 new show ?thesis by (auto split: if_splits)
    qed
  next
    fix d' show "gate_ok (stores ?w d')"
      using world_invD(6)[OF inv] gate_ok_cong[OF new(3,4)] by simp
  qed (use new(3) in \<open>auto split: if_splits\<close>)
qed

section \<open>Every step keeps the invariant\<close>

lemma at_store_same [simp]: "at_store d (stores w d) w = w"
  by (simp add: at_store_def)

lemma transition_reason:
  assumes "transition_apply change (row_state c) = Inr (True, s')"
  shows "decided s' = Some Commit \<Longrightarrow> c_decision c \<noteq> Some Commit \<Longrightarrow> change = Decide Commit \<and> c_decision c = None"
    "visible s' \<Longrightarrow> \<not> c_visible c \<Longrightarrow> change = Publish"
    "complete s' \<Longrightarrow> \<not> c_complete c \<Longrightarrow> change = Complete \<and> decided s' = c_decision c"
  using assms by (cases change; auto simp: row_state_def split: if_splits)+

lemma transition_write:
  assumes inv: "world_inv E w" and run: "transition_in i change detail (stores w d) = Inr (changed, st')"
    and commit: "\<And>c m. coordinators (stores w d) i = Some c \<Longrightarrow> c_manifest c = to_value (codec_of E) m \<Longrightarrow> m_id m = i
      \<Longrightarrow> change = Decide Commit \<Longrightarrow> c_decision c = None \<Longrightarrow> all_in_phase E w m {Prepared, Applied, Committed}"
    and publish: "\<And>c m. coordinators (stores w d) i = Some c \<Longrightarrow> c_manifest c = to_value (codec_of E) m \<Longrightarrow> m_id m = i
      \<Longrightarrow> change = Publish \<Longrightarrow> all_in_phase E w m {Applied, Committed}"
    and finalize: "\<And>c m. coordinators (stores w d) i = Some c \<Longrightarrow> c_manifest c = to_value (codec_of E) m \<Longrightarrow> m_id m = i
      \<Longrightarrow> change = Complete \<Longrightarrow> all_in_phase E w m (if c_decision c = Some Commit then {Committed} else {Aborted})"
  shows "world_inv E (at_store d st' w)"
  using run
proof (cases rule: transition_in_Inr)
  case same
  with inv show ?thesis by simp
next
  case (moved c s' e)
  note progress = transition_progress[OF moved(3), of e]
  show ?thesis
  proof (rule coordinator_write[OF inv moved(1) progress moved(4), of "votes_of (stores w d) i"])
    show "votes_of st' = (votes_of (stores w d))(i := votes_of (stores w d) i)" using moved(5) by simp
  next
    fix m assume m: "c_manifest c = to_value (codec_of E) m" "m_id m = i"
    let ?c = "c\<lparr>c_decision := decided s', c_visible := visible s', c_complete := complete s', c_last_error := e\<rparr>"
    show "all_in_phase E w m {Prepared, Applied, Committed}"
      if "c_decision c \<noteq> Some Commit" "c_decision ?c = Some Commit"
      using transition_reason(1)[OF moved(3)] that commit[OF moved(1) m] by simp
    show "all_in_phase E w m {Applied, Committed}" if "\<not> c_visible c" "c_visible ?c"
      using transition_reason(2)[OF moved(3)] that publish[OF moved(1) m] by simp
    show "all_in_phase E w m (if c_decision ?c = Some Commit then {Committed} else {Aborted})"
      if "\<not> c_complete c" "c_complete ?c"
      using transition_reason(3)[OF moved(3)] that finalize[OF moved(1) m] by simp
  qed (use moved in simp_all)
qed

lemma abort_write:
  assumes "world_inv E w" "transition_in i (Decide Abort) detail (stores w d) = Inr (changed, st')"
  shows "world_inv E (at_store d st' w)"
  by (rule transition_write[OF assms]) simp_all

text \<open>What the votes a coordinator read tell about all participants.\<close>

lemma polled_all:
  assumes inv: "world_inv E w" and laws: "codec_laws (codec_of E)"
    and polled: "(d, i, votes) \<in> polled w" and c: "coordinators (stores w d) i = Some c"
    and m: "c_manifest c = to_value (codec_of E) m" "m_id m = i"
    and all: "\<And>v. v \<in> set votes \<Longrightarrow> phase_true E w m (deployment_of (v_node v)) (v_phase v) \<Longrightarrow>
      in_phase E w m (deployment_of (v_node v)) P"
  shows "all_in_phase E w m P"
proof -
  from world_invD(3)[OF inv polled] c obtain m' where m': "c_manifest c = to_value (codec_of E) m'"
      "map v_node votes = map node_id (participants m')"
      "\<forall>v\<in>set votes. phase_true E w m' (deployment_of (v_node v)) (v_phase v)"
    unfolding polled_inv_def by auto
  from m(1) m'(1) laws have eq: "m' = m" by (metis to_value_inj)
  have "in_phase E w m (deployment_of n) P" if "n \<in> set (map v_node votes)" for n
    using that m'(3) all unfolding eq by auto
  then show ?thesis unfolding all_in_phase_def using m'(2) eq by simp
qed

lemma owner_row:
  assumes inv: "world_inv E w" and laws: "codec_laws (codec_of E)"
    and c: "coordinators (stores w d) i = Some c" and m: "c_manifest c = to_value (codec_of E) m" "m_id m = i"
  shows "coordinator_row E w m = Some c"
proof -
  from world_invD(2)[OF inv c] obtain m' where m': "c_manifest c = to_value (codec_of E) m'" "deployment_of (coordinator m') = d"
    by (auto simp: coordinator_row_inv_def)
  with m laws have "m' = m" by (metis to_value_inj)
  with m' c m show ?thesis by (simp add: coordinator_row_def)
qed

lemma move_write:
  assumes inv: "world_inv E w" and laws: "codec_laws (codec_of E)"
    and read: "(d, s) \<in> seen w" "(d, st_id s, votes) \<in> polled w"
    and plan: "advance_plan (codec_of E) now s votes = Inr (Move change detail)"
    and run: "transition_in (st_id s) change detail (stores w d) = Inr (changed, st')"
  shows "world_inv E (at_store d st' w)"
proof -
  from plan have none: "next_participant s votes = None" and "next": "next_transition s votes = Inr (change, detail)"
    by (auto simp: advance_plan_def and_then_Inr_iff split: if_splits option.splits)
  note all = polled_all[OF inv laws read(2)]
  show ?thesis
  proof (rule transition_write[OF inv run])
    fix c m assume c: "coordinators (stores w d) (st_id s) = Some c"
      and m: "c_manifest c = to_value (codec_of E) m" "m_id m = st_id s"
    note row = owner_row[OF inv laws c m]
    from world_invD(1)[OF inv read(1)] c have seen:
        "st_decision s \<in> {None, map_option decision_text (c_decision c)}"
        "st_visible s \<Longrightarrow> c_visible c \<and> st_decision s = Some ''COMMIT''"
      by (auto simp: seen_inv_def)
    show "all_in_phase E w m {Prepared, Applied, Committed}" if "change = Decide Commit" "c_decision c = None"
    proof (rule all[OF c m])
      have "list_all (\<lambda>v. v_phase v = ''PREPARED'') votes"
        using "next" that(1) by (auto simp: next_transition_def split: if_splits)
      moreover have "\<not> is_aborted E w m" using row that(2) by (simp add: is_aborted_def)
      ultimately show "in_phase E w m (deployment_of (v_node v)) {Prepared, Applied, Committed}"
        if "v \<in> set votes" "phase_true E w m (deployment_of (v_node v)) (v_phase v)" for v
        using that by (auto simp: list_all_iff phase_true_def)
    qed
    show "all_in_phase E w m {Applied, Committed}" if "change = Publish"
    proof (rule all[OF c m])
      have "st_decision s = Some ''COMMIT''" "\<not> st_visible s"
        using "next" that by (auto simp: next_transition_def split: if_splits)
      with none have "\<forall>v\<in>set votes. v_phase v \<in> {''APPLIED'', ''COMMITTED''}"
        by (auto simp: next_participant_def find_None_iff)
      then show "in_phase E w m (deployment_of (v_node v)) {Applied, Committed}"
        if "v \<in> set votes" "phase_true E w m (deployment_of (v_node v)) (v_phase v)" for v
        using that by (auto simp: phase_true_def in_phase_def)
    qed
    show "all_in_phase E w m (if c_decision c = Some Commit then {Committed} else {Aborted})" if "change = Complete"
    proof (rule all[OF c m])
      have decided: "st_decision s \<noteq> None" "st_decision s = Some ''COMMIT'' \<Longrightarrow> st_visible s"
        using "next" that by (auto simp: next_transition_def split: if_splits)
      with seen(1) have said: "st_decision s = Some (if c_decision c = Some Commit then ''COMMIT'' else ''ABORT'')"
        by (cases "c_decision c"; cases "the (c_decision c)") auto
      have "v_phase v = (if c_decision c = Some Commit then ''COMMITTED'' else ''ABORTED'')" if "v \<in> set votes" for v
        using none that decided(2) said by (auto simp: next_participant_def find_None_iff split: if_splits)
      then show "in_phase E w m (deployment_of (v_node v)) (if c_decision c = Some Commit then {Committed} else {Aborted})"
        if "v \<in> set votes" "phase_true E w m (deployment_of (v_node v)) (v_phase v)" for v
        using that by (auto simp: phase_true_def split: if_splits)
    qed
  qed
qed

lemma error_write:
  assumes inv: "world_inv E w" and run: "record_error i detail (stores w d) = Inr st'"
  shows "world_inv E (at_store d st' w)"
  using run
proof (cases rule: record_error_Inr)
  case (1 c)
  show ?thesis
    by (rule coordinator_write[OF inv 1(1) row_progress_error 1(2), of "votes_of (stores w d) i"])
      (use 1 in simp_all)
qed

lemma failed_write:
  assumes inv: "world_inv E w" and run: "advance_failed s scoped e detail (stores w d) = Inr st'"
  shows "world_inv E (at_store d st' w)"
proof (cases "gives_up s scoped e")
  case True
  with run obtain changed where "transition_in (st_id s) (Decide Abort) detail (stores w d) = Inr (changed, st')"
    by (auto simp: advance_failed_def and_then_Inr_iff)
  from abort_write[OF inv this] show ?thesis .
next
  case False
  with run have "record_error (st_id s) detail (stores w d) = Inr st'" by (simp add: advance_failed_def)
  from error_write[OF inv this] show ?thesis .
qed

lemma answer_write:
  assumes inv: "world_inv E w" and laws: "codec_laws (codec_of E)"
    and read: "(d, s) \<in> seen w" and m: "from_value (codec_of E) (st_manifest s) = Some m"
    and answer: "(deployment_of (v_node v), response) \<in> answered w"
    and run: "advance_answered m s v op response (stores w d) = Inr st'"
  shows "world_inv E (at_store d st' w)"
proof -
  from run have ack: "acknowledge (st_id s) (v_node v) (ls_phase response) (stores w d) = Inr st'"
    and valid: "validate_acknowledgement m s op response = Inr ()"
    by (auto simp: advance_answered_def and_then_Inr_iff)
  from valid have response: "ls_id response = m_id m" "ls_manifest response = st_manifest s"
    by (auto simp: validate_acknowledgement_def split: if_splits)
  from ack show ?thesis
  proof (cases rule: acknowledge_Inr)
    case (1 c)
    let ?votes = "map (\<lambda>u. if v_node u = v_node v then u\<lparr>v_phase := ls_phase response\<rparr> else u)
        (votes_of (stores w d) (st_id s))"
    show ?thesis
    proof (rule coordinator_write[OF inv 1(1) row_progress_error 1(2), of ?votes])
      fix m' u assume m': "c_manifest c = to_value (codec_of E) m'" "m_id m' = st_id s"
        and u: "u \<in> set ?votes" "u \<notin> set (votes_of (stores w d) (st_id s))"
      from u have u: "v_node u = v_node v" "v_phase u = ls_phase response" by (auto split: if_splits)
      from world_invD(1)[OF inv read] 1(1) have "c_manifest c = st_manifest s" by (auto simp: seen_inv_def)
      moreover from world_invD(4)[OF inv answer] obtain m2 where m2:
          "ls_manifest response = to_value (codec_of E) m2"
          "phase_true E w m2 (deployment_of (v_node v)) (ls_phase response)"
        by (auto simp: answered_inv_def)
      ultimately have "m2 = m'" using m'(1) response(2) laws by (metis to_value_inj)
      with m2(2) u show "phase_true E w m' (deployment_of (v_node u)) (v_phase u)" by simp
    qed (use 1 in auto)
  qed
qed

lemma submit_write:
  assumes inv: "world_inv E w" and laws: "codec_laws (codec_of E)"
    and run: "submit_in E d now og m (stores w d) = Inr (s, st')" and d: "deployment_of d = d"
  shows "world_inv E (at_store d st' w)"
  using run
proof (cases rule: submit_in_Inr)
  case existing
  with inv show ?thesis by simp
next
  case (new c)
  let ?w = "at_store d st' w"
  from new(6) have c: "c_decision c = None" "\<not> c_visible c" "\<not> c_complete c"
    by (simp_all add: row_state_def)
  have grow: "grows E w ?w" using new(3,4,8) by (auto simp: grows_def)
  have votes: "votes_of st' (m_id m) = map (\<lambda>p. \<lparr> v_node = node_id p, v_phase = ''PENDING'' \<rparr>) (participants m)"
    using new(7) by simp
  have row: "coordinator_row_inv E ?w d (m_id m) c"
    unfolding coordinator_row_inv_def
    by (rule exI[of _ m]) (use new c d votes in \<open>auto simp: coordinator_inv_def phase_true_def comp_def\<close>)
  show ?thesis
  proof (rule world_inv_step[OF inv grow])
    fix d' j c1 assume c1: "coordinators (stores ?w d') j = Some c1"
    show "(coordinators (stores w d') j = Some c1 \<and> votes_of (stores ?w d') j = votes_of (stores w d') j)
        \<or> coordinator_row_inv E ?w d' j c1"
      using c1 new(4,7) row by (cases "d' = d \<and> j = m_id m") (auto split: if_splits)
  next
    fix d' show "gate_ok (stores ?w d')"
      using world_invD(6)[OF inv] gate_ok_cong[OF new(8,9)] by simp
  qed (use new(8) in \<open>auto split: if_splits\<close>)
qed

lemma grows_same_stores: "stores w' = stores w \<Longrightarrow> grows E w w'"
  by (simp add: grows_def)

lemma status_read:
  assumes inv: "world_inv E w" and run: "coordinator_status i (stores w d) = Inr s"
  shows "world_inv E (w\<lparr>seen := insert (d, s) (seen w)\<rparr>)"
proof (rule world_inv_step[OF inv grows_same_stores])
  from run obtain c where c: "coordinators (stores w d) i = Some c" "s = contract i c"
    by (auto simp: coordinator_status_def split: option.splits)
  from world_invD(2)[OF inv c(1)] have "coordinator_inv (row_state c)" by (auto simp: coordinator_row_inv_def)
  with c have "seen_inv (w\<lparr>seen := insert (d, s) (seen w)\<rparr>) d s"
    by (auto simp: seen_inv_def contract_def coordinator_inv_def row_state_def)
  then show "seen_inv (w\<lparr>seen := insert (d, s) (seen w)\<rparr>) d' s'"
    if "(d', s') \<in> seen (w\<lparr>seen := insert (d, s) (seen w)\<rparr>)" "(d', s') \<notin> seen w" for d' s'
    using that by simp
qed (use world_invD(6)[OF inv] in simp_all)

lemma votes_read:
  assumes inv: "world_inv E w" and read: "(d, s) \<in> seen w"
  shows "world_inv E (w\<lparr>polled := insert (d, st_id s, votes_of (stores w d) (st_id s)) (polled w)\<rparr>)"
    (is "world_inv E ?w")
proof (rule world_inv_step[OF inv grows_same_stores])
  have grow: "grows E w ?w" by (rule grows_same_stores) simp
  from world_invD(1)[OF inv read] obtain c where c: "coordinators (stores w d) (st_id s) = Some c"
    by (auto simp: seen_inv_def)
  from world_invD(2)[OF inv c] have "polled_inv E w d (st_id s) (votes_of (stores w d) (st_id s))"
    using c unfolding coordinator_row_inv_def polled_inv_def by blast
  from polled_inv_grows[OF grow this]
  show "polled_inv E ?w d' i votes" if "(d', i, votes) \<in> polled ?w" "(d', i, votes) \<notin> polled w" for d' i votes
    using that by simp
qed (use world_invD(6)[OF inv] in simp_all)

lemma decision_text_inj: "Some (decision_text x) = map_option decision_text y' \<longleftrightarrow> y' = Some x"
  by (cases y'; cases x; cases "the y'") auto

text \<open>A participant acts on a decision only when the coordinator has really taken it.\<close>

lemma serves_effect:
  assumes "serves E w d row st'" and inv: "world_inv E w"
  shows "\<exists>v m. participant_effect E v m (stores w d) row st'
    \<and> (v = Aborting \<longrightarrow> is_aborted E w m) \<and> (v \<in> {Committing, Publishing} \<longrightarrow> is_committed E w m)
    \<and> (v = Publishing \<longrightarrow> is_published E w m)"
  using assms(1)
proof cases
  case (serve_finish receiver caller m answer)
  note matches = finish_effect(2)[OF serve_finish(1)]
  from world_invD(1)[OF inv serve_finish(2)] matches obtain c where
      c: "coordinators (stores w (deployment_of (coordinator m))) (m_id m) = Some c"
      "c_manifest c = to_value (codec_of E) m"
      "st_decision answer \<in> {None, map_option decision_text (c_decision c)}" "st_visible answer \<longrightarrow> c_visible c"
    by (auto simp: seen_inv_def decision_matches_def)
  have row: "coordinator_row E w m = Some c" using c(1,2) by (simp add: coordinator_row_def)
  have text_of: "c_decision c = Some Abort" if "st_decision answer = Some ''ABORT''"
    using c(3) that decision_text_inj[of Abort "c_decision c"] by simp
  have text_of': "c_decision c = Some Commit" if "st_decision answer = Some ''COMMIT''"
    using c(3) that decision_text_inj[of Commit "c_decision c"] by simp
  show ?thesis
  proof (intro exI conjI impI)
    show "participant_effect E (verdict_of answer) m (stores w d) row st'"
      by (rule finish_effect(1)[OF serve_finish(1)])
    show "is_aborted E w m" if "verdict_of answer = Aborting"
      using that text_of row by (simp add: verdict_of_def is_aborted_def split: if_splits)
    show "is_committed E w m" if "verdict_of answer \<in> {Committing, Publishing}"
      using that text_of' row by (simp add: verdict_of_def is_committed_def split: if_splits)
    show "is_published E w m" if "verdict_of answer = Publishing"
      using that c(4) row by (simp add: verdict_of_def is_published_def split: if_splits)
  qed
next
  case (serve_reserve receiver now later caller m)
  from reserve_effect[OF this, of Undecided] show ?thesis by (intro exI[of _ Undecided] exI[of _ m]) simp
next
  case (serve_reserve_in now later m)
  from reserve_in_effect[OF this, of Undecided] show ?thesis by (intro exI[of _ Undecided] exI[of _ m]) simp
next
  case (serve_prepare receiver now caller m)
  from prepare_effect[OF this, of Undecided] show ?thesis by (intro exI[of _ Undecided] exI[of _ m]) simp
next
  case (serve_recover now m)
  from recover_reserved_effect[OF this, of Undecided] show ?thesis by (intro exI[of _ Undecided] exI[of _ m]) simp
qed

lemma serve_write:
  assumes run: "serves E w d row st'" and inv: "world_inv E w" and laws: "codec_laws (codec_of E)"
  shows "world_inv E ((at_store d st' w)\<lparr>answered := insert (d, row) (answered w)\<rparr>)" (is "world_inv E ?w")
proof -
  from serves_effect[OF run inv] obtain v m where effect: "participant_effect E v m (stores w d) row st'"
    and verdict: "v = Aborting \<Longrightarrow> is_aborted E w m" "v \<in> {Committing, Publishing} \<Longrightarrow> is_committed E w m"
      "v = Publishing \<Longrightarrow> is_published E w m"
    by blast
  from effect obtain r where r: "rows st' = (rows (stores w d))(m_id m \<mapsto> r)" "row = row_status r"
      "ap_manifest r = to_value (codec_of E) m"
      "moves v (map_option ap_phase (rows (stores w d) (m_id m))) (ap_phase r)"
    and keep: "\<And>r0. rows (stores w d) (m_id m) = Some r0 \<Longrightarrow> r = r0\<lparr>ap_phase := ap_phase r\<rparr>"
      "rows (stores w d) (m_id m) = None \<Longrightarrow> ap_id r = m_id m"
    and gate: "gate_ok (stores w d) \<longrightarrow> gate_ok st'"
    and coord: "coordinators st' = coordinators (stores w d)" "votes_of st' = votes_of (stores w d)"
    by (auto simp: participant_effect_def names_manifest_def split: option.splits)
  have decided: "coordinator_row E ?w m' = coordinator_row E w m'" for m'
    using coord(1) by (simp add: coordinator_row_def)
  have grow: "grows E w ?w"
  proof -
    have "row_grows E ?w (m_id m) r0 r" if r0: "rows (stores w d) (m_id m) = Some r0" for r0
    proof -
      have same: "ap_manifest r0 = ap_manifest r" by (subst keep(1)[OF r0]) simp
      have "m' = m" if "ap_manifest r0 = to_value (codec_of E) m'" for m'
        using that same r(3) laws by (metis to_value_inj)
      with same r(4) r0 verdict(1) decided show ?thesis
        by (auto simp: row_grows_def moves_from_simps is_aborted_def split: participant_phase.splits)
    qed
    then show ?thesis using coord(1) r(1) by (auto simp: grows_def)
  qed
  have here: "ap_id r = m_id m"
  proof (cases "rows (stores w d) (m_id m)")
    case (Some r0)
    with keep(1)[OF Some] world_invD(5)[OF inv Some] show ?thesis
      by (metis atomic_participant.select_convs(1) atomic_participant.surjective atomic_participant.update_convs(5) row_inv_def)
  qed (use keep(2) in simp)
  have in_row: "in_phase E ?w m d {ap_phase r}" using r(1,3) by (simp add: in_phase_def)
  have old: "(ap_phase r0 \<in> {Applied, Committed} \<longrightarrow> is_committed E w m)
      \<and> (ap_phase r0 = Committed \<longrightarrow> is_published E w m)" if r0: "rows (stores w d) (m_id m) = Some r0" for r0
  proof -
    have "ap_manifest r0 = to_value (codec_of E) m" using r(3) by (subst (asm) keep(1)[OF r0]) simp
    with world_invD(5)[OF inv r0] laws show ?thesis unfolding row_inv_def by (metis to_value_inj)
  qed
  have committed: "(ap_phase r \<in> {Applied, Committed} \<longrightarrow> is_committed E w m)
      \<and> (ap_phase r = Committed \<longrightarrow> is_published E w m)"
    using r(4) verdict(2,3) old
    by (cases "rows (stores w d) (m_id m)") (auto simp: moves_from_simps)
  have row_ok: "row_inv E ?w (m_id m) r"
    using here r(3) committed grows_decided[OF grow, of m] unfolding row_inv_def by blast
  have answer: "answered_inv E ?w d row"
    unfolding answered_inv_def
    by (rule exI[of _ m]) (use r(2,3) here in_row in \<open>auto simp: phase_true_def in_phase_def\<close>)
  show ?thesis
  proof (rule world_inv_step[OF inv grow])
    fix d' i r1 assume "rows (stores ?w d') i = Some r1"
    then show "rows (stores w d') i = Some r1 \<or> row_inv E ?w i r1"
      using row_ok r(1) by (auto split: if_splits)
  next
    fix d' show "gate_ok (stores ?w d')" using world_invD(6)[OF inv] gate by simp
  next
    fix d' row' assume "(d', row') \<in> answered ?w" "(d', row') \<notin> answered w"
    with answer show "answered_inv E ?w d' row'" by simp
  qed (use coord in \<open>auto split: if_splits\<close>)
qed

text \<open>The protocol as a transition system with its invariant.\<close>

lemma world_inv_init: "world_init w \<Longrightarrow> world_inv E w"
proof -
  assume init: "world_init w"
  then have empty: "coordinators (stores w d) = Map.empty" "rows (stores w d) = Map.empty" "gate (stores w d) = None" for d
    by (auto simp: world_init_def store_init_def empty_store_def) (metis store.select_convs)+
  from init empty show ?thesis by (simp add: world_inv_def world_init_def gate_ok_def)
qed

lemma world_inv_preserved:
  assumes "codec_laws (codec_of E)" "world_inv E w" "world_step E w w'"
  shows "world_inv E w'"
  using assms(3)
proof cases
  case (administrator_abort i d s st')
  then obtain changed st1 where
    "transition_in i (Decide Abort) ''Deployment Administrator requested abort'' (stores w d) = Inr (changed, st1)"
    "st' = st1"
    by (auto simp: coordinator_abort_def and_then_Inr_iff split: if_splits)
  with abort_write[OF assms(2)] administrator_abort(1) show ?thesis by simp
next
  case (deadline_passed d s now votes changed st')
  with abort_write[OF assms(2)] show ?thesis by (simp add: advance_expired_def)
next
  case (submit d now og m s st')
  from submit_write[OF assms(2,1) submit(2,3)] submit(1) show ?thesis by simp
next
  case (read_status i d s)
  from status_read[OF assms(2) read_status(2)] read_status(1) show ?thesis by simp
next
  case (read_votes d s)
  from votes_read[OF assms(2) read_votes(2)] read_votes(1) show ?thesis by simp
next
  case (participant_answered d s votes now v op m response st')
  from answer_write[OF assms(2,1) participant_answered(2,5,6,7)] participant_answered(1) show ?thesis by simp
next
  case (participant_failed d s votes now v op scoped e detail st')
  from failed_write[OF assms(2) participant_failed(5)] participant_failed(1) show ?thesis by simp
next
  case (coordinator_moves d s votes now change detail changed st')
  from move_write[OF assms(2,1) coordinator_moves(2-5)] coordinator_moves(1) show ?thesis by simp
next
  case (participant_serves d row st')
  from serve_write[OF participant_serves(2) assms(2,1)] participant_serves(1) show ?thesis by simp
qed

end
