(* ===== verification/Protocol_Props.thy ===== *)
theory Protocol_Props
  imports Protocol
begin

text \<open>
  What the atomic commit protocol guarantees in every reachable state of the system, and a complete
  run of it on a manifest of two Deployments that shows the guarantees are about something.
\<close>

interpretation protocol: invariant_system
  "\<lambda>w. codec_laws (codec_of E) \<and> world_init w" "world_step E" "\<lambda>w. codec_laws (codec_of E) \<and> world_inv E w"
  for E :: "('v, 'd) env"
  by unfold_locales (auto intro: world_inv_init world_inv_preserved)

definition reachable :: "('v, 'd) env \<Rightarrow> ('v, 'd) world \<Rightarrow> bool" where
  "reachable E w \<longleftrightarrow> reaches world_init (world_step E) w"

lemma world_reachable_inv:
  assumes "codec_laws (codec_of E)" "reachable E w"
  shows "world_inv E w"
  using protocol.reachable_inv[of E w] assms by (simp add: reachable_def)

lemma coordinator_row_facts:
  assumes inv: "world_inv E w" and laws: "codec_laws (codec_of E)" and row: "coordinator_row E w m = Some c"
  shows "c_decision c = Some Commit \<Longrightarrow> all_in_phase E w m {Prepared, Applied, Committed}"
    "c_visible c \<Longrightarrow> all_in_phase E w m {Applied, Committed}"
    "c_complete c \<Longrightarrow> all_in_phase E w m (if c_decision c = Some Commit then {Committed} else {Aborted})"
    "coordinator_inv (row_state c)"
proof -
  from row have c: "coordinators (stores w (deployment_of (coordinator m))) (m_id m) = Some c"
    "c_manifest c = to_value (codec_of E) m"
    by (auto simp: coordinator_row_def split: option.splits if_splits)
  from world_invD(2)[OF inv c(1)] obtain m' where m': "c_manifest c = to_value (codec_of E) m'"
      "c_decision c = Some Commit \<longrightarrow> all_in_phase E w m' {Prepared, Applied, Committed}"
      "c_visible c \<longrightarrow> all_in_phase E w m' {Applied, Committed}"
      "c_complete c \<longrightarrow> all_in_phase E w m' (if c_decision c = Some Commit then {Committed} else {Aborted})"
      "coordinator_inv (row_state c)"
    unfolding coordinator_row_inv_def by blast
  from m'(1) c(2) laws have "m' = m" by (metis to_value_inj)
  with m' show "c_decision c = Some Commit \<Longrightarrow> all_in_phase E w m {Prepared, Applied, Committed}"
    "c_visible c \<Longrightarrow> all_in_phase E w m {Applied, Committed}"
    "c_complete c \<Longrightarrow> all_in_phase E w m (if c_decision c = Some Commit then {Committed} else {Aborted})"
    "coordinator_inv (row_state c)"
    by simp_all
qed

lemma phase_decided:
  assumes inv: "world_inv E w" and laws: "codec_laws (codec_of E)"
  shows "in_phase E w m d {Applied, Committed} \<Longrightarrow> is_committed E w m"
    "in_phase E w m d {Committed} \<Longrightarrow> is_published E w m"
  using world_invD(5)[OF inv] laws unfolding in_phase_def row_inv_def
  by (metis insertCI singletonD insertE to_value_inj)+

text \<open>The whole system under load: nothing is known of who else uses it.\<close>

lemma committed_everywhere:
  assumes "world_inv E w" "codec_laws (codec_of E)" "is_committed E w m"
  shows "all_in_phase E w m {Prepared, Applied, Committed}"
  using assms(3) coordinator_row_facts(1)[OF assms(1,2)] by (auto simp: is_committed_def)

lemma published_everywhere:
  assumes "world_inv E w" "codec_laws (codec_of E)" "is_published E w m"
  shows "all_in_phase E w m {Applied, Committed}"
  using assms(3) coordinator_row_facts(2)[OF assms(1,2)] by (auto simp: is_published_def)

lemma in_phase_unique: "in_phase E w m d P \<Longrightarrow> in_phase E w m d Q \<Longrightarrow> P \<inter> Q \<noteq> {}"
  by (auto simp: in_phase_def)

section \<open>A run\<close>

abbreviation A :: string where "A \<equiv> ''aidash://acme''"
abbreviation B :: string where "B \<equiv> ''aidash://beta''"

definition demo_votes :: "string \<Rightarrow> string \<Rightarrow> vote list" where
  "demo_votes a b = [\<lparr> v_node = demo_node ''acme'', v_phase = a \<rparr>, \<lparr> v_node = demo_node ''beta'', v_phase = b \<rparr>]"

definition demo_coordinator :: "wire atomic_coordinator" where
  "demo_coordinator = new_coordinator wire_codec demo_manifest (take 64 (demo_node ''acme''))"

definition demo_decided :: "coordinator_decision option \<Rightarrow> bool \<Rightarrow> string option \<Rightarrow> wire atomic_coordinator" where
  "demo_decided dec vis e = demo_coordinator\<lparr>c_decision := dec, c_visible := vis, c_last_error := e\<rparr>"

text \<open>
  A reachable state of the system in which the manifest was submitted, and the participants, the
  recorded votes and the decision are as given.
\<close>

definition holds_gate :: "participant_phase option \<Rightarrow> uuid option" where
  "holds_gate p = (case p of None \<Rightarrow> None | Some q \<Rightarrow> if active q then Some 7 else None)"

definition demo_at ::
  "(wire, nat) world \<Rightarrow> participant_phase option \<Rightarrow> participant_phase option \<Rightarrow> string \<Rightarrow> string
     \<Rightarrow> coordinator_decision option \<Rightarrow> bool \<Rightarrow> bool" where
  "demo_at w a b va vb dec vis \<longleftrightarrow>
     reachable wire_env w
     \<and> rows (stores w A) 7 = map_option demo_row a \<and> gate (stores w A) = holds_gate a
     \<and> rows (stores w B) 7 = map_option demo_row b \<and> gate (stores w B) = holds_gate b
     \<and> votes_of (stores w A) 7 = demo_votes va vb
     \<and> (\<exists>e. coordinators (stores w A) 7 = Some (demo_decided dec vis e))"

lemma demo_decided_simps [simp]:
  "c_manifest (demo_decided dec vis e) = to_value wire_codec demo_manifest"
  "c_digest (demo_decided dec vis e) = take 64 (demo_node ''acme'')"
  "c_decision (demo_decided dec vis e) = dec" "c_visible (demo_decided dec vis e) = vis"
  "c_complete (demo_decided dec vis e) = False"
  "(demo_decided dec vis e)\<lparr>c_last_error := e'\<rparr> = demo_decided dec vis e'"
  by (simp_all add: demo_decided_def demo_coordinator_def new_coordinator_def)

lemma contract_simps [simp]:
  "st_id (contract i c) = i" "st_manifest (contract i c) = c_manifest c" "st_digest (contract i c) = c_digest c"
  "st_decision (contract i c) = map_option decision_text (c_decision c)"
  "st_visible (contract i c) = c_visible c" "st_complete (contract i c) = c_complete c"
  by (simp_all add: contract_def)

lemma reachable_step: "reachable E w \<Longrightarrow> world_step E w w' \<Longrightarrow> reachable E w'"
  unfolding reachable_def by (rule reaches_step)

lemma demo_ids [simp]:
  "m_id demo_manifest = 7" "deadline demo_manifest = seconds 100"
  "coordinator demo_manifest = demo_node ''acme''" "deployment_of A = A"
  by (simp_all add: demo_manifest_def)
    (simp add: deployment_of_def SCHEME_def strip_prefix_def find_char_def)

lemma demo_participants:
  "participants demo_manifest =
     [\<lparr> node_id = demo_node ''acme'', mutations = [WorkspaceState 1 0 WObject] \<rparr>,
      \<lparr> node_id = demo_node ''beta'', mutations = [FinishRun 2 3 4] \<rparr>]"
  by (simp add: demo_manifest_def)

lemma demo_valid [simp]: "manifest_validate wire_json wire_codec demo_manifest = Inr ()"
  using demo_manifest_ok by (simp add: manifest_validate_ok)

lemma demo_submitted: "\<exists>w. demo_at w None None ''PENDING'' ''PENDING'' None False"
proof -
  let ?w0 = "\<lparr> stores = (\<lambda>_. empty_store 0), seen = {}, polled = {}, answered = {} \<rparr> :: (wire, nat) world"
  have start: "reachable wire_env ?w0"
    unfolding reachable_def by (rule reaches_init) (auto simp: world_init_def store_init_def)
  obtain s st where st: "submit_in wire_env A (seconds 10) None demo_manifest (empty_store 0) = Inr (s, st)"
      "rows st = Map.empty" "gate st = None" "votes_of st 7 = demo_votes ''PENDING'' ''PENDING''"
      "coordinators st 7 = Some demo_coordinator"
    by (simp add: submit_in_def coordinator_status_def empty_store_def admit_new_def admit_in_def
        demo_digest Let_def num_seconds_def seconds_def demo_coordinator_def demo_participants demo_votes_def)
  have "reachable wire_env (at_store A st ?w0)"
    by (rule reachable_step[OF start submit[of _ _ "seconds 10" None demo_manifest _ s]]) (use st(1) in simp_all)
  moreover have "demo_coordinator = demo_decided None False None"
    by (simp add: demo_decided_def demo_coordinator_def new_coordinator_def)
  ultimately show ?thesis using st
    by (intro exI[of _ "at_store A st ?w0"]) (auto simp: demo_at_def holds_gate_def empty_store_def)
qed

text \<open>The handlers on a store that knows nothing but this transaction.\<close>

lemma demo_local_at:
  assumes "d \<in> {A, B}"
  shows "\<exists>p. manifest_local demo_manifest (local_node d demo_manifest) = Some p"
  using assms demo_local by auto

lemma demo_sender [simp]: "sender wire_env None (demo_node ''acme'') demo_manifest = Inr ()"
  by (simp add: sender_def manifest_local_def demo_participants)

lemma demo_reserve_at:
  assumes "d \<in> {A, B}" "rows st 7 = None" "gate st = None"
  shows "\<exists>st'. reserve_in wire_env d (seconds 10) (seconds 20) demo_manifest st
      = Inr (row_status (demo_row Reserved), st')
    \<and> rows st' 7 = Some (demo_row Reserved) \<and> gate st' = Some 7
    \<and> coordinators st' = coordinators st \<and> votes_of st' = votes_of st"
proof -
  obtain p where p: "manifest_local demo_manifest (local_node d demo_manifest) = Some p"
    using demo_local_at[OF assms(1)] by blast
  have target: "for_each (\<lambda>mut. Inr ()) muts = Inr ()" for muts :: "wire mutation list"
    by (induction muts) auto
  show ?thesis using assms(2,3)
    by (simp add: reserve_in_def lock_row_def insert_row_def p demo_digest demo_row_def num_seconds_def
        seconds_def target Let_def)
qed

lemma demo_prepare_at:
  assumes "rows st 7 = Some (demo_row Reserved)" "gate st = Some 7"
  shows "\<exists>st'. prepare wire_env d None (seconds 30) (demo_node ''acme'') demo_manifest st
      = Inr (row_status (demo_row Prepared), st')
    \<and> rows st' 7 = Some (demo_row Prepared) \<and> gate st' = Some 7
    \<and> coordinators st' = coordinators st \<and> votes_of st' = votes_of st"
proof -
  have check: "check_existing wire_env (row_status (demo_row Reserved)) demo_manifest = Inr ()" by simp
  show ?thesis using assms
    by (simp add: prepare_def lock_row_def check seconds_def row_transition_def Let_def)
qed

lemma demo_decision:
  "check_decision wire_env demo_manifest (contract 7 (demo_decided (Some Commit) vis e))
     = Inr (contract 7 (demo_decided (Some Commit) vis e))"
  by (simp add: check_decision_def demo_digest decision_matches_def)

lemma demo_finish_at:
  assumes "(q, q', vis) \<in> {(Prepared, Applied, False), (Applied, Committed, True)}"
    and "rows st 7 = Some (demo_row q)" "gate st = Some 7"
  shows "\<exists>st'. finish wire_env d None (demo_node ''acme'') demo_manifest (contract 7 (demo_decided (Some Commit) vis e)) st
      = Inr (row_status (demo_row q'), st')
    \<and> rows st' 7 = Some (demo_row q') \<and> gate st' = holds_gate (Some q')
    \<and> coordinators st' = coordinators st \<and> votes_of st' = votes_of st"
proof -
  have check: "check_existing wire_env (row_status (demo_row p)) demo_manifest = Inr ()" for p by simp
  show ?thesis using assms
    by (auto simp: check finish_def demo_decision lock_row_def finish_commit_def commit_ready_def
        apply_prepared_def row_transition_def Let_def holds_gate_def active_def)
qed

text \<open>What the workflow does: a participant serves, its answer is recorded, the coordinator moves on.\<close>

lemma demo_served:
  assumes "demo_at w a b va vb dec vis" "serves wire_env w d (row_status (demo_row q)) st'"
    and st': "rows st' 7 = Some (demo_row q)" "gate st' = holds_gate (Some q)"
      "coordinators st' = coordinators (stores w d)" "votes_of st' = votes_of (stores w d)"
    and d: "d \<in> {A, B}"
  shows "\<exists>w'. demo_at w' (if d = A then Some q else a) (if d = A then b else Some q) va vb dec vis
    \<and> (d, row_status (demo_row q)) \<in> answered w'"
proof -
  let ?w = "(at_store d st' w)\<lparr>answered := insert (d, row_status (demo_row q)) (answered w)\<rparr>"
  have "reachable wire_env ?w"
    using assms(1) reachable_step[OF _ participant_serves[OF assms(2)]] by (simp add: demo_at_def)
  then show ?thesis using assms(1) st' d by (intro exI[of _ ?w]) (auto simp: demo_at_def)
qed

text \<open>The status and the votes are read before the coordinator acts.\<close>

lemma demo_read:
  assumes "demo_at w a b va vb dec vis"
  obtains w' e where "demo_at w' a b va vb dec vis" "stores w' = stores w" "answered w' = answered w"
    "(A, contract 7 (demo_decided dec vis e)) \<in> seen w'" "(A, 7, demo_votes va vb) \<in> polled w'"
    "coordinators (stores w' A) 7 = Some (demo_decided dec vis e)"
proof -
  from assms obtain e where c: "coordinators (stores w A) 7 = Some (demo_decided dec vis e)"
    and votes: "votes_of (stores w A) 7 = demo_votes va vb" and r: "reachable wire_env w"
    by (auto simp: demo_at_def)
  let ?s = "contract 7 (demo_decided dec vis e)"
  let ?w1 = "w\<lparr>seen := insert (A, ?s) (seen w)\<rparr>"
  have r1: "reachable wire_env ?w1"
    by (rule reachable_step[OF r read_status[of 7]]) (simp add: coordinator_status_def c)
  let ?w2 = "?w1\<lparr>polled := insert (A, 7, demo_votes va vb) (polled ?w1)\<rparr>"
  have "reachable wire_env ?w2"
    using reachable_step[OF r1 read_votes[of A ?s]] votes by simp
  with assms c that[of ?w2 e] show ?thesis by (auto simp: demo_at_def)
qed

lemma demo_manifest_decoded:
  "from_value wire_codec (to_value wire_codec demo_manifest) = Some demo_manifest"
  using wire_codec_laws by (simp add: codec_laws_def)

lemma demo_recorded:
  assumes at: "demo_at w a b va vb dec vis"
    and ask: "\<And>e. next_participant (contract 7 (demo_decided dec vis e)) (demo_votes va vb)
      = Some (\<lparr> v_node = n, v_phase = v \<rparr>, op)"
    and answer: "(deployment_of n, row_status (demo_row q)) \<in> answered w"
      "\<And>e. phase_str q = expected_phase op (contract 7 (demo_decided dec vis e))"
    and n: "n \<in> {demo_node ''acme'', demo_node ''beta''}"
  shows "\<exists>w'. demo_at w' a b (if n = demo_node ''acme'' then phase_str q else va)
      (if n = demo_node ''acme'' then vb else phase_str q) dec vis"
proof -
  obtain w1 e where w1: "demo_at w1 a b va vb dec vis" "stores w1 = stores w" "answered w1 = answered w"
    "(A, contract 7 (demo_decided dec vis e)) \<in> seen w1" "(A, 7, demo_votes va vb) \<in> polled w1"
    "coordinators (stores w1 A) 7 = Some (demo_decided dec vis e)"
    using at by (rule demo_read)
  let ?s = "contract 7 (demo_decided dec vis e)" and ?v = "\<lparr> v_node = n, v_phase = v \<rparr>"
  have plan: "advance_plan wire_codec (seconds 40) ?s (demo_votes va vb) = Inr (Ask ?v op)"
    using ask[of e] by (simp add: advance_plan_def demo_manifest_decoded seconds_def)
  have valid: "validate_acknowledgement demo_manifest ?s op (row_status (demo_row q)) = Inr ()"
    using answer(2)[of e] by (simp add: validate_acknowledgement_def) (simp add: demo_row_def new_row_def)
  have votes: "votes_of (stores w1 A) 7 = demo_votes va vb" using w1(1) by (simp add: demo_at_def)
  have known: "phase_str q \<in> set VOTE_PHASES" by (cases q) (simp_all add: VOTE_PHASES_def)
  obtain st' where st': "advance_answered demo_manifest ?s ?v op (row_status (demo_row q)) (stores w1 A) = Inr st'"
      "votes_of st' 7 = demo_votes (if n = demo_node ''acme'' then phase_str q else va)
         (if n = demo_node ''acme'' then vb else phase_str q)"
      "rows st' = rows (stores w1 A)" "gate st' = gate (stores w1 A)"
      "coordinators st' 7 = Some (demo_decided dec vis None)"
    using n votes known w1(6)
    by (auto simp: advance_answered_def valid domain_def acknowledge_def demo_votes_def)
  have "world_step wire_env w1 (at_store A st' w1)"
    by (rule participant_answered[where s = ?s and votes = "demo_votes va vb" and now = "seconds 40"
          and v = ?v and op = op and m = demo_manifest and response = "row_status (demo_row q)"])
      (use w1 plan answer(1) st'(1) demo_manifest_decoded in simp_all)
  then have "reachable wire_env (at_store A st' w1)"
    using w1(1) by (auto simp: demo_at_def intro: reachable_step)
  with w1(1) st' show ?thesis by (intro exI[of _ "at_store A st' w1"]) (auto simp: demo_at_def)
qed

lemma demo_moved:
  assumes at: "demo_at w a b va vb dec vis"
    and settled: "\<And>e. next_participant (contract 7 (demo_decided dec vis e)) (demo_votes va vb) = None"
      "\<And>e. next_transition (contract 7 (demo_decided dec vis e)) (demo_votes va vb) = Inr (change, detail)"
      "transition_apply change \<lparr> decided = dec, visible = vis, complete = False \<rparr>
         = Inr (True, \<lparr> decided = dec', visible = vis', complete = False \<rparr>)"
  shows "\<exists>w'. demo_at w' a b va vb dec' vis'"
proof -
  obtain w1 e where w1: "demo_at w1 a b va vb dec vis"
    "(A, contract 7 (demo_decided dec vis e)) \<in> seen w1" "(A, 7, demo_votes va vb) \<in> polled w1"
    "coordinators (stores w1 A) 7 = Some (demo_decided dec vis e)"
    using at by (rule demo_read)
  let ?s = "contract 7 (demo_decided dec vis e)"
  have plan: "advance_plan wire_codec (seconds 50) ?s (demo_votes va vb) = Inr (Move change detail)"
    using settled(1,2)[of e] by (simp add: advance_plan_def demo_manifest_decoded seconds_def domain_def)
  have moved: "(demo_decided dec vis e)\<lparr>c_decision := dec', c_visible := vis', c_complete := False, c_last_error := e'\<rparr>
      = demo_decided dec' vis' e'" for e'
    by (simp add: demo_decided_def demo_coordinator_def new_coordinator_def)
  obtain st' where st': "transition_in 7 change detail (stores w1 A) = Inr (True, st')"
      "votes_of st' = votes_of (stores w1 A)" "rows st' = rows (stores w1 A)" "gate st' = gate (stores w1 A)"
      "\<exists>e. coordinators st' 7 = Some (demo_decided dec' vis' e)"
    using w1(4) settled(3) moved
    by (auto simp: transition_in_def row_apply_def row_state_def domain_def Let_def)
  have "world_step wire_env w1 (at_store A st' w1)"
    by (rule coordinator_moves[where s = ?s and votes = "demo_votes va vb" and now = "seconds 50"
          and change = change and detail = detail and changed = True])
      (use w1 plan st'(1) in simp_all)
  then have "reachable wire_env (at_store A st' w1)"
    using w1(1) by (auto simp: demo_at_def intro: reachable_step)
  with w1(1) st' show ?thesis by (intro exI[of _ "at_store A st' w1"]) (auto simp: demo_at_def)
qed

lemma demo_turn:
  assumes at: "demo_at w a b va vb dec vis"
    and node: "(n, d) \<in> {(demo_node ''acme'', A), (demo_node ''beta'', B)}"
    and handler: "\<And>w e. demo_at w a b va vb dec vis \<Longrightarrow> (A, contract 7 (demo_decided dec vis e)) \<in> seen w \<Longrightarrow>
      \<exists>st'. serves wire_env w d (row_status (demo_row q)) st' \<and> rows st' 7 = Some (demo_row q)
        \<and> gate st' = holds_gate (Some q) \<and> coordinators st' = coordinators (stores w d)
        \<and> votes_of st' = votes_of (stores w d)"
    and ask: "\<And>e. next_participant (contract 7 (demo_decided dec vis e)) (demo_votes va vb)
      = Some (\<lparr> v_node = n, v_phase = v \<rparr>, op)"
    and expected: "\<And>e. phase_str q = expected_phase op (contract 7 (demo_decided dec vis e))"
  shows "\<exists>w'. demo_at w' (if d = A then Some q else a) (if d = A then b else Some q)
    (if d = A then phase_str q else va) (if d = A then vb else phase_str q) dec vis"
proof -
  obtain w1 e where w1: "demo_at w1 a b va vb dec vis" "(A, contract 7 (demo_decided dec vis e)) \<in> seen w1"
    using at by (rule demo_read)
  obtain st' where st': "serves wire_env w1 d (row_status (demo_row q)) st'" "rows st' 7 = Some (demo_row q)"
      "gate st' = holds_gate (Some q)" "coordinators st' = coordinators (stores w1 d)"
      "votes_of st' = votes_of (stores w1 d)"
    using handler[OF w1] by blast
  from demo_served[OF w1(1) st'] node obtain w2 where w2:
      "demo_at w2 (if d = A then Some q else a) (if d = A then b else Some q) va vb dec vis"
      "(d, row_status (demo_row q)) \<in> answered w2" by auto
  from demo_recorded[OF w2(1) ask _ expected] w2(2) node show ?thesis by auto
qed

lemmas demo_eval = next_participant_def next_transition_def demo_votes_def demo_at_def holds_gate_def active_def

lemma demo_reserve_turn:
  assumes "rows (stores w d) 7 = None" "gate (stores w d) = None" "d \<in> {A, B}"
  shows "\<exists>st'. serves wire_env w d (row_status (demo_row Reserved)) st' \<and> rows st' 7 = Some (demo_row Reserved)
    \<and> gate st' = holds_gate (Some Reserved) \<and> coordinators st' = coordinators (stores w d)
    \<and> votes_of st' = votes_of (stores w d)"
  using demo_reserve_at[OF assms(3,1,2)] serve_reserve_in[of wire_env d _ _ demo_manifest w]
  by (fastforce simp: holds_gate_def active_def)

lemma demo_prepare_turn:
  assumes "rows (stores w d) 7 = Some (demo_row Reserved)" "gate (stores w d) = Some 7"
  shows "\<exists>st'. serves wire_env w d (row_status (demo_row Prepared)) st' \<and> rows st' 7 = Some (demo_row Prepared)
    \<and> gate st' = holds_gate (Some Prepared) \<and> coordinators st' = coordinators (stores w d)
    \<and> votes_of st' = votes_of (stores w d)"
  using demo_prepare_at[OF assms, of d] serve_prepare[of wire_env d _ _ _ demo_manifest w]
  by (fastforce simp: holds_gate_def active_def)

lemma demo_finish_turn:
  assumes "(q, q', vis) \<in> {(Prepared, Applied, False), (Applied, Committed, True)}"
    and "rows (stores w d) 7 = Some (demo_row q)" "gate (stores w d) = Some 7"
    and "(A, contract 7 (demo_decided (Some Commit) vis e)) \<in> seen w"
  shows "\<exists>st'. serves wire_env w d (row_status (demo_row q')) st' \<and> rows st' 7 = Some (demo_row q')
    \<and> gate st' = holds_gate (Some q') \<and> coordinators st' = coordinators (stores w d)
    \<and> votes_of st' = votes_of (stores w d)"
proof -
  from demo_finish_at[OF assms(1-3), of d e] obtain st' where
    "finish wire_env d None (demo_node ''acme'') demo_manifest (contract 7 (demo_decided (Some Commit) vis e)) (stores w d)
      = Inr (row_status (demo_row q'), st')" and rest: "rows st' 7 = Some (demo_row q')"
    "gate st' = holds_gate (Some q')" "coordinators st' = coordinators (stores w d)"
    "votes_of st' = votes_of (stores w d)" by blast
  from serve_finish[OF this(1)] assms(4) have "serves wire_env w d (row_status (demo_row q')) st'" by simp
  with rest show ?thesis by blast
qed

lemma demo_prepared: "\<exists>w. demo_at w (Some Prepared) (Some Prepared) ''PREPARED'' ''PREPARED'' None False"
proof -
  obtain w where "demo_at w None None ''PENDING'' ''PENDING'' None False" using demo_submitted by blast
  from demo_turn[OF this, of "demo_node ''acme''" A Reserved] obtain w where
    "demo_at w (Some Reserved) None ''RESERVED'' ''PENDING'' None False"
    using demo_reserve_turn[of _ A] by (auto simp: demo_eval)
  from demo_turn[OF this, of "demo_node ''beta''" B Reserved] obtain w where
    "demo_at w (Some Reserved) (Some Reserved) ''RESERVED'' ''RESERVED'' None False"
    using demo_reserve_turn[of _ B] by (auto simp: demo_eval)
  from demo_turn[OF this, of "demo_node ''acme''" A Prepared] obtain w where
    "demo_at w (Some Prepared) (Some Reserved) ''PREPARED'' ''RESERVED'' None False"
    using demo_prepare_turn[of _ A] by (auto simp: demo_eval)
  from demo_turn[OF this, of "demo_node ''beta''" B Prepared] show ?thesis
    using demo_prepare_turn[of _ B] by (auto simp: demo_eval)
qed

lemma demo_applied:
  "\<exists>w. demo_at w (Some Applied) (Some Prepared) ''APPLIED'' ''PREPARED'' (Some Commit) False"
proof -
  obtain w where "demo_at w (Some Prepared) (Some Prepared) ''PREPARED'' ''PREPARED'' None False"
    using demo_prepared by blast
  from demo_moved[OF this, of "Decide Commit" "[]" "Some Commit" False] obtain w where
    "demo_at w (Some Prepared) (Some Prepared) ''PREPARED'' ''PREPARED'' (Some Commit) False"
    by (auto simp: demo_eval)
  from demo_turn[OF this, of "demo_node ''acme''" A Applied] show ?thesis
    using demo_finish_turn[of Prepared Applied False _ A] by (auto simp: demo_eval)
qed

lemma demo_published:
  "\<exists>w. demo_at w (Some Committed) (Some Committed) ''COMMITTED'' ''COMMITTED'' (Some Commit) True"
proof -
  obtain w where "demo_at w (Some Applied) (Some Prepared) ''APPLIED'' ''PREPARED'' (Some Commit) False"
    using demo_applied by blast
  from demo_turn[OF this, of "demo_node ''beta''" B Applied] obtain w where
    "demo_at w (Some Applied) (Some Applied) ''APPLIED'' ''APPLIED'' (Some Commit) False"
    using demo_finish_turn[of Prepared Applied False _ B] by (auto simp: demo_eval)
  from demo_moved[OF this, of Publish "''every participant durably applied commit''" "Some Commit" True] obtain w where
    "demo_at w (Some Applied) (Some Applied) ''APPLIED'' ''APPLIED'' (Some Commit) True"
    by (auto simp: demo_eval)
  from demo_turn[OF this, of "demo_node ''acme''" A Committed] obtain w where
    "demo_at w (Some Committed) (Some Applied) ''COMMITTED'' ''APPLIED'' (Some Commit) True"
    using demo_finish_turn[of Applied Committed True _ A] by (auto simp: demo_eval)
  from demo_turn[OF this, of "demo_node ''beta''" B Committed] show ?thesis
    using demo_finish_turn[of Applied Committed True _ B] by (auto simp: demo_eval)
qed

lemma demo_in_phase:
  assumes "demo_at w (Some a) (Some b) va vb dec vis"
  shows "in_phase wire_env w demo_manifest A {a}" "in_phase wire_env w demo_manifest B {b}"
  using assms by (simp_all add: demo_at_def in_phase_def demo_row_def new_row_def)

section \<open>Properties\<close>

text \<open>
  Property C2. Atomicity, in every interleaving of any number of transactions and whatever is lost,
  repeated or delayed: when one participant of a manifest has applied or committed it, the
  coordinator has decided to commit and every participant is at least prepared, so none has aborted.
\<close>

theorem atomic_outcome:
  assumes "codec_laws (codec_of E)" "reachable E w" "p \<in> set (participants m)" "q \<in> set (participants m)"
    and "in_phase E w m (deployment_of (node_id p)) {Applied, Committed}"
  shows "is_committed E w m \<and> in_phase E w m (deployment_of (node_id q)) {Prepared, Applied, Committed}
    \<and> \<not> in_phase E w m (deployment_of (node_id q)) {Aborted}"
proof -
  note inv = world_reachable_inv[OF assms(1,2)]
  have committed: "is_committed E w m" by (rule phase_decided(1)[OF inv assms(1,5)])
  from committed_everywhere[OF inv assms(1) this] assms(4)
  have "in_phase E w m (deployment_of (node_id q)) {Prepared, Applied, Committed}"
    by (simp add: all_in_phase_def)
  with committed in_phase_unique[OF this, of "{Aborted}"] show ?thesis by auto
qed

theorem atomic_outcome_witness:
  "\<exists>w. reachable wire_env w \<and> in_phase wire_env w demo_manifest A {Applied}
     \<and> is_committed wire_env w demo_manifest \<and> \<not> in_phase wire_env w demo_manifest B {Aborted}"
proof -
  obtain w where w: "demo_at w (Some Applied) (Some Prepared) ''APPLIED'' ''PREPARED'' (Some Commit) False"
    using demo_applied by blast
  from w have r: "reachable wire_env w" by (simp add: demo_at_def)
  have "in_phase wire_env w demo_manifest A {Applied, Committed}"
    using demo_in_phase(1)[OF w] by (auto simp: in_phase_def)
  with atomic_outcome[of wire_env w "participants demo_manifest ! 0" demo_manifest "participants demo_manifest ! 1"]
    r demo_in_phase(1)[OF w] show ?thesis by (auto simp: demo_participants)
qed

text \<open>
  Property C8. A decision is backed by every participant: when the coordinator has committed, all of
  them are prepared, applied or committed; when the commit is visible, all have applied it; and when
  the transaction is complete, all have committed, or all have aborted.
\<close>

theorem decision_backed:
  assumes "codec_laws (codec_of E)" "reachable E w" "coordinator_row E w m = Some c"
  shows "(c_decision c = Some Commit \<longrightarrow> all_in_phase E w m {Prepared, Applied, Committed})
    \<and> (c_visible c \<longrightarrow> all_in_phase E w m {Applied, Committed})
    \<and> (c_complete c \<longrightarrow> all_in_phase E w m {Committed} \<or> all_in_phase E w m {Aborted})"
  using coordinator_row_facts(1-3)[OF world_reachable_inv[OF assms(1,2)] assms(1,3)] by (auto split: if_splits)

theorem decision_backed_witness:
  "\<exists>w c. reachable wire_env w \<and> coordinator_row wire_env w demo_manifest = Some c \<and> c_visible c
     \<and> all_in_phase wire_env w demo_manifest {Applied, Committed}"
proof -
  obtain w where w: "demo_at w (Some Committed) (Some Committed) ''COMMITTED'' ''COMMITTED'' (Some Commit) True"
    using demo_published by blast
  from w obtain e where "reachable wire_env w"
      "coordinator_row wire_env w demo_manifest = Some (demo_decided (Some Commit) True e)"
    by (auto simp: demo_at_def coordinator_row_def)
  from decision_backed[OF _ this] this show ?thesis by auto
qed

text \<open>
  Property C26. Readers see all of a transaction or nothing: when one participant has committed a
  manifest, a reader that obtains a lease at any other participant finds it committed there as well.
\<close>

theorem atomic_visibility:
  assumes "codec_laws (codec_of E)" "reachable E w" "p \<in> set (participants m)" "q \<in> set (participants m)"
    and "in_phase E w m (deployment_of (node_id p)) {Committed}"
    and "read_lease (stores w (deployment_of (node_id q))) = Inr epoch"
  shows "in_phase E w m (deployment_of (node_id q)) {Committed}"
proof -
  note inv = world_reachable_inv[OF assms(1,2)]
  let ?d = "deployment_of (node_id q)"
  from published_everywhere[OF inv assms(1) phase_decided(2)[OF inv assms(1,5)]] assms(4)
  obtain r where r: "rows (stores w ?d) (m_id m) = Some r" "ap_manifest r = to_value (codec_of E) m"
      "ap_phase r \<in> {Applied, Committed}"
    by (auto simp: all_in_phase_def in_phase_def)
  have "ap_phase r \<noteq> Applied"
    using world_invD(6)[OF inv, of ?d] r(1) assms(6)
    by (auto simp: gate_ok_def active_def read_lease_def split: if_splits)
  with r show ?thesis by (auto simp: in_phase_def)
qed

theorem atomic_visibility_witness:
  "\<exists>w epoch. reachable wire_env w \<and> in_phase wire_env w demo_manifest A {Committed}
     \<and> read_lease (stores w B) = Inr epoch \<and> in_phase wire_env w demo_manifest B {Committed}"
proof -
  obtain w where w: "demo_at w (Some Committed) (Some Committed) ''COMMITTED'' ''COMMITTED'' (Some Commit) True"
    using demo_published by blast
  from w have r: "reachable wire_env w" "gate (stores w B) = None"
    by (auto simp: demo_at_def holds_gate_def active_def)
  then have lease: "read_lease (stores w B) = Inr (commit_epoch (stores w B))" by (simp add: read_lease_def)
  with atomic_visibility[of wire_env w "participants demo_manifest ! 0" demo_manifest "participants demo_manifest ! 1"
      "commit_epoch (stores w B)"] r(1) demo_in_phase(1)[OF w]
  show ?thesis by (auto simp: demo_participants)
qed

end
