(* ===== verification/Subnode_Rules.thy ===== *)
theory Subnode_Rules
  imports Run_State Failures
begin

text \<open>
  The authority and membership rules of Run-scoped Subnodes
  (crates/aidash-domain/src/subnodes.rs): what the creating Run may allow, what a member may need,
  the limits of a Tenant and the refusals that name the first item outside the permitted set.
\<close>

record entity_ref =
  er_id :: string
  er_version :: string

definition COORDINATION_TOOLS :: "string list" where
  "COORDINATION_TOOLS =
     [''task_create'', ''task_delegate'', ''task_assign'', ''agent_discover'', ''workspace_message'',
      ''subnode_message'', ''subnode_add_member'', ''subnode_remove_member'']"

record sub_member =
  m_agent_id :: string
  m_agent_version :: string
  m_added_by :: uuid
  m_added_at :: datetime

datatype sub_state = SubActive | SubDissolved

datatype end_reason = EndDissolved | CreatorCompleted | CreatorFailed | CreatorCancelled | SafetyStopped

record allowance =
  al_tools :: "string btree_set"
  al_secrets :: "string btree_set"

record subnode =
  sub_id :: uuid
  sub_tenant :: string
  sub_node :: string
  sub_creator_run :: uuid
  sub_creator_task :: uuid
  sub_creator_agent :: entity_ref
  sub_leader :: entity_ref
  sub_members :: "sub_member list"
  sub_allowance :: allowance
  sub_workspace :: uuid
  sub_title :: "string option"
  sub_status :: sub_state
  sub_created_at :: datetime
  sub_ended_at :: "datetime option"
  sub_ended_reason :: "end_reason option"

datatype refusal =
    CoordinationToolInAllowance string
  | CreatorTool string
  | CreatorSecret string
  | MemberTool string
  | MemberSecret string
  | MemberLimit
  | SubnodeLimit
  | DuplicateMember string
  | CreatorMember
  | LeaderNotMember
  | LeaderRemoval
  | MemberHasWork
  | NotMember
  | NestedSubnode
  | RemoteCreationDisabled
  | InvalidLimits

definition apostrophe_s :: string where
  "apostrophe_s = CHR 0x27 # ''s''"

fun refusal_display :: "refusal \<Rightarrow> string" where
  "refusal_display (CoordinationToolInAllowance t) = ''coordination tool must not appear in the allowance: '' @ t"
| "refusal_display (CreatorTool t) = ''tool is outside the creator'' @ apostrophe_s @ '' authority: '' @ t"
| "refusal_display (CreatorSecret t) = ''secret is outside the creator'' @ apostrophe_s @ '' authority: '' @ t"
| "refusal_display (MemberTool t) = ''member needs a tool outside the allowance: '' @ t"
| "refusal_display (MemberSecret t) = ''member needs a secret outside the allowance: '' @ t"
| "refusal_display MemberLimit = ''Subnode member limit reached''"
| "refusal_display SubnodeLimit = ''active Subnode limit reached''"
| "refusal_display (DuplicateMember a) = ''agent already belongs to the Subnode: '' @ a"
| "refusal_display CreatorMember = ''the creating agent cannot be a Subnode member''"
| "refusal_display LeaderNotMember = ''leader must be a member''"
| "refusal_display LeaderRemoval = ''leader cannot be removed''"
| "refusal_display MemberHasWork = ''member has unfinished work''"
| "refusal_display NotMember = ''agent is not a member''"
| "refusal_display NestedSubnode = ''a Subnode member cannot create another Subnode''"
| "refusal_display RemoteCreationDisabled = ''remote Runs are not permitted to create Subnodes''"
| "refusal_display InvalidLimits = ''invalid Subnode limits''"

section \<open>Membership\<close>

definition is_agent :: "entity_ref \<Rightarrow> sub_member \<Rightarrow> bool" where
  "is_agent a m \<longleftrightarrow> m_agent_id m = er_id a \<and> m_agent_version m = er_version a"

definition allows_delegation :: "entity_ref \<Rightarrow> subnode \<Rightarrow> bool" where
  "allows_delegation target s \<longleftrightarrow> sub_status s = SubActive \<and> list_ex (is_agent target) (sub_members s)"

definition check_removal :: "entity_ref \<Rightarrow> bool \<Rightarrow> subnode \<Rightarrow> refusal + unit" where
  "check_removal agent has_active_run s =
     (if \<not> list_ex (is_agent agent) (sub_members s) then Inl NotMember
      else if sub_leader s = agent then Inl LeaderRemoval
      else if has_active_run then Inl MemberHasWork
      else Inr ())"

definition check_leader :: "entity_ref \<Rightarrow> sub_member list \<Rightarrow> refusal + unit" where
  "check_leader leader members = (if list_ex (is_agent leader) members then Inr () else Inl LeaderNotMember)"

definition check_can_create :: "bool \<Rightarrow> refusal + unit" where
  "check_can_create is_member = (if is_member then Inl NestedSubnode else Inr ())"

text \<open>The loop of the set of agent ids, which refuses the first repeated one.\<close>

fun unique_ids :: "string list \<Rightarrow> string list \<Rightarrow> refusal + unit" where
  "unique_ids seen [] = Inr ()"
| "unique_ids seen (i # is) =
     (if i \<in> set seen then Inl (DuplicateMember i) else unique_ids (set_insert i seen) is)"

section \<open>Authority\<close>

definition allowance_within :: "allowance \<Rightarrow> allowance \<Rightarrow> refusal + unit" where
  "allowance_within creator requested =
     (case filter (\<lambda>t. t \<in> set COORDINATION_TOOLS) (al_tools requested) of
        item # _ \<Rightarrow> Inl (CoordinationToolInAllowance item)
      | [] \<Rightarrow>
          (case set_difference (al_tools requested) (al_tools creator) of
             item # _ \<Rightarrow> Inl (CreatorTool item)
           | [] \<Rightarrow>
               (case set_difference (al_secrets requested) (al_secrets creator) of
                  item # _ \<Rightarrow> Inl (CreatorSecret item)
                | [] \<Rightarrow> Inr ())))"

definition member_fits :: "allowance \<Rightarrow> allowance \<Rightarrow> refusal + unit" where
  "member_fits required allow =
     (case filter (\<lambda>t. t \<notin> set COORDINATION_TOOLS) (set_difference (al_tools required) (al_tools allow)) of
        item # _ \<Rightarrow> Inl (MemberTool item)
      | [] \<Rightarrow>
          (case set_difference (al_secrets required) (al_secrets allow) of
             item # _ \<Rightarrow> Inl (MemberSecret item)
           | [] \<Rightarrow> Inr ()))"

section \<open>Limits\<close>

record subnode_limits =
  members_per_subnode :: u32
  subnodes_per_run :: u32
  remote_runs_may_create :: bool

definition default_subnode_limits :: subnode_limits where
  "default_subnode_limits = \<lparr> members_per_subnode = 5, subnodes_per_run = 3, remote_runs_may_create = False \<rparr>"

definition subnode_limits_validate :: "subnode_limits \<Rightarrow> refusal + unit" where
  "subnode_limits_validate l =
     refuse_if (\<not> (1 \<le> members_per_subnode l \<and> members_per_subnode l \<le> 20)
         \<or> \<not> (1 \<le> subnodes_per_run l \<and> subnodes_per_run l \<le> 10)) InvalidLimits"

definition check_remote :: "subnode_limits \<Rightarrow> bool \<Rightarrow> refusal + unit" where
  "check_remote l remote =
     and_then (subnode_limits_validate l) (\<lambda>_.
       refuse_if (remote \<and> \<not> remote_runs_may_create l) RemoteCreationDisabled)"

definition check_members :: "subnode_limits \<Rightarrow> nat \<Rightarrow> refusal + unit" where
  "check_members l count =
     and_then (subnode_limits_validate l) (\<lambda>_. refuse_if (unat (members_per_subnode l) < count) MemberLimit)"

definition check_create :: "subnode_limits \<Rightarrow> nat \<Rightarrow> refusal + unit" where
  "check_create l active =
     and_then (subnode_limits_validate l) (\<lambda>_. refuse_if (unat (subnodes_per_run l) \<le> active) SubnodeLimit)"

definition check_member_set :: "entity_ref \<Rightarrow> sub_member list \<Rightarrow> subnode_limits \<Rightarrow> refusal + unit" where
  "check_member_set leader members l =
     and_then (check_members l (length members)) (\<lambda>_.
     and_then (unique_ids [] (map m_agent_id members)) (\<lambda>_.
     check_leader leader members))"

section \<open>Lemmas\<close>

lemma unique_ids_Inr: "unique_ids seen is = Inr () \<longleftrightarrow> distinct is \<and> set seen \<inter> set is = {}"
  by (induction "is" arbitrary: seen) auto

lemma first_refused: "(case xs of [] \<Rightarrow> r | x # _ \<Rightarrow> Inl (f x)) = Inr y \<longleftrightarrow> xs = [] \<and> r = Inr y"
  by (cases xs) auto

lemma allowance_within_Inr:
  "allowance_within creator requested = Inr () \<longleftrightarrow>
     set (al_tools requested) \<subseteq> set (al_tools creator)
     \<and> set (al_tools requested) \<inter> set COORDINATION_TOOLS = {}
     \<and> set (al_secrets requested) \<subseteq> set (al_secrets creator)"
  unfolding allowance_within_def set_difference_def
  by (auto simp: first_refused filter_empty_conv)

lemma member_fits_Inr:
  "member_fits required allow = Inr () \<longleftrightarrow>
     set (al_tools required) \<subseteq> set (al_tools allow) \<union> set COORDINATION_TOOLS
     \<and> set (al_secrets required) \<subseteq> set (al_secrets allow)"
  unfolding member_fits_def set_difference_def
  by (auto simp: first_refused filter_empty_conv)

lemma limits_bounds:
  assumes "subnode_limits_validate l = Inr ()"
  shows "unat (members_per_subnode l) \<le> 20" "unat (subnodes_per_run l) \<le> 10"
  using assms by (simp_all add: subnode_limits_validate_def word_le_nat_alt)

lemma check_members_Inr: "check_members l n = Inr () \<Longrightarrow> n \<le> 20"
  using limits_bounds(1)[of l] by (auto simp: check_members_def and_then_Inr_iff)

lemma check_create_Inr: "check_create l n = Inr () \<Longrightarrow> n < 10"
  using limits_bounds(2)[of l] by (auto simp: check_create_def and_then_Inr_iff)

end
