(* ===== verification/Run_Control.thy ===== *)
theory Run_Control
  imports Subnode_Rules
begin

text \<open>
  The control of Runs (server/src/apps/execution/repositories/store.rs, \<open>control_in_as\<close> and
  \<open>control_one_in_as\<close>) and its cascade to the Subnodes a Run created
  (crates/aidash-application/src/subnodes.rs, \<open>control_for_creator\<close>, over
  server/src/apps/execution/repositories/subnodes.rs).

  A use case runs in one transaction: it returns an error, and the transaction is rolled back, or
  the store that commits. Rows are in insertion order; those of Runs are decoded (\<open>run\<close>).
\<close>

section \<open>The store\<close>

datatype run_control_action = CtlPause | CtlResume | CtlCancel

fun action_control :: "run_control_action \<Rightarrow> run_control" where
  "action_control CtlPause = Paused"
| "action_control CtlResume = Active"
| "action_control CtlCancel = ControlCancelled"

record subnode_row =
  sr_subnode :: subnode
  sr_key :: string
  sr_fingerprint :: string

text \<open>The members of a Subnode are rows of their own: \<open>sub_members\<close> of a stored row is empty.\<close>

record member_row =
  mr_subnode :: uuid
  mr_tenant :: string
  mr_member :: sub_member

datatype control_event =
    RunControlled uuid "uuid option" run_control_action "control_source option"
  | ManualRetry uuid "uuid option" int semantic_failure
  | SubnodeDissolved uuid uuid end_reason
  | SubnodeCreated uuid uuid uuid
  | MemberAdded uuid uuid entity_ref
  | MemberRemoved uuid uuid entity_ref

record ('v, 'x) control_store =
  runs :: "('v, 'x) run list"
  subnode_rows :: "subnode_row list"
  member_rows :: "member_row list"
  retry_cycles :: "uuid \<Rightarrow> int"
  stopped_previews :: "uuid list"
  log :: "control_event list"

definition append_event :: "control_event \<Rightarrow> ('v, 'x) control_store \<Rightarrow> ('v, 'x) control_store" where
  "append_event e st = st\<lparr>log := log st @ [e]\<rparr>"

definition find_run :: "uuid \<Rightarrow> ('v, 'x) control_store \<Rightarrow> ('v, 'x) run option" where
  "find_run i st = List.find (\<lambda>r. run_id r = i) (runs st)"

section \<open>One control decision\<close>

definition resumed_pending :: "('v, 'x) run \<Rightarrow> 'v recovery_state option" where
  "resumed_pending r =
     (if control r = Paused \<and> (semantic_reason (recovery r) \<noteq> None \<or> context_reason (recovery r) \<noteq> None)
      then Some ((recovery r)\<lparr>retry := None, semantic_reason := None, context_reason := None,
                   decision_cycle := saturating_add (decision_cycle (recovery r)) 1, decider_retry := 0\<rparr>)
      else None)"

definition manual_semantic_retry :: "('v, 'x) run \<Rightarrow> semantic_failure option" where
  "manual_semantic_retry r = (if control r = Paused then semantic_reason (recovery r) else None)"

text \<open>The condition of the \<open>UPDATE\<close>: the Run has not ended and its cancellation is not requested.\<close>

definition controllable :: "('v, 'x) run \<Rightarrow> bool" where
  "controllable r \<longleftrightarrow> \<not> phase_is_terminal (state_phase (state r)) \<and> control r \<noteq> ControlCancelled"

definition decide_control ::
  "datetime \<Rightarrow> run_control_action \<Rightarrow> control_source \<Rightarrow> 'v recovery_state option \<Rightarrow> ('v, 'x) run \<Rightarrow> ('v, 'x) run" where
  "decide_control now action source resumed r =
     r\<lparr>recovery := (case resumed of None \<Rightarrow> recovery r | Some rec \<Rightarrow> rec),
       control := action_control action,
       run_error := (if resumed \<noteq> None
                        \<or> (action_control action = Paused \<and> run_error r = Some ''identity status unavailable'')
                     then None else run_error r),
       revision := revision r + 1,
       control_revision := control_revision r + 1,
       run_control_source := source,
       updated_at := now\<rparr>"

definition control_one_in_as ::
  "string \<Rightarrow> datetime \<Rightarrow> run_control_action \<Rightarrow> control_source \<Rightarrow> uuid \<Rightarrow> ('v, 'x) control_store
     \<Rightarrow> failure + ('v, 'x) run \<times> ('v, 'x) control_store" where
  "control_one_in_as deployment now action source i st =
     (case find_run i st of
        None \<Rightarrow> Inl (if action = CtlResume then NotFound ''database row''
                     else FConflict ''run is terminal or cancellation is already requested'')
      | Some r0 \<Rightarrow>
          let resumed = (if action = CtlResume then resumed_pending r0 else None);
              semantic_retry = (if action = CtlResume then manual_semantic_retry r0 else None)
          in if \<not> controllable r0
             then Inl (FConflict ''run is terminal or cancellation is already requested'')
             else
               let r = decide_control now action source resumed r0;
                   st1 = st\<lparr>runs := map (\<lambda>x. if run_id x = i \<and> controllable x then r else x) (runs st)\<rparr>;
                   st2 = (if action = CtlCancel then st1\<lparr>stopped_previews := stopped_previews st1 @ [i]\<rparr> else st1);
                   workspace = (if is_local deployment r then Some (run_workspace_id r) else None);
                   st3 = (case semantic_retry of
                            None \<Rightarrow> st2
                          | Some reason \<Rightarrow>
                              let cycle = retry_cycles st2 i + 1
                              in append_event (ManualRetry i workspace cycle reason)
                                   (st2\<lparr>retry_cycles := (retry_cycles st2)(i := cycle)\<rparr>))
               in Inr (r, append_event (RunControlled i workspace action
                            (if source = ByTenant then None else Some source)) st3))"

section \<open>The cascade to Subnodes\<close>

definition sub_active :: "subnode_row \<Rightarrow> bool" where
  "sub_active row \<longleftrightarrow> sub_status (sr_subnode row) = SubActive"

definition active_subnodes :: "uuid \<Rightarrow> ('v, 'x) control_store \<Rightarrow> (uuid \<times> uuid) list" where
  "active_subnodes creator st =
     map (\<lambda>row. (sub_id (sr_subnode row), sub_workspace (sr_subnode row)))
       (sort_key (\<lambda>row. sub_id (sr_subnode row))
         (filter (\<lambda>row. sub_creator_run (sr_subnode row) = creator \<and> sub_active row) (subnode_rows st)))"

definition end_subnode :: "datetime \<Rightarrow> end_reason \<Rightarrow> subnode \<Rightarrow> subnode" where
  "end_subnode now reason s =
     s\<lparr>sub_status := SubDissolved, sub_ended_at := Some now, sub_ended_reason := Some reason\<rparr>"

definition mark_ended :: "datetime \<Rightarrow> uuid \<Rightarrow> uuid \<Rightarrow> end_reason \<Rightarrow> ('v, 'x) control_store \<Rightarrow> ('v, 'x) control_store" where
  "mark_ended now i workspace reason st =
     append_event (SubnodeDissolved i workspace reason)
       (st\<lparr>subnode_rows := map (\<lambda>row. if sub_id (sr_subnode row) = i
                                     then row\<lparr>sr_subnode := end_subnode now reason (sr_subnode row)\<rparr> else row)
                             (subnode_rows st)\<rparr>)"

definition active_runs :: "uuid \<Rightarrow> ('v, 'x) control_store \<Rightarrow> uuid list" where
  "active_runs workspace st =
     map run_id (sort_key run_id (filter (\<lambda>r. run_workspace_id r = workspace \<and> controllable r) (runs st)))"

definition control_runs ::
  "string \<Rightarrow> datetime \<Rightarrow> run_control_action \<Rightarrow> control_source \<Rightarrow> uuid list \<Rightarrow> ('v, 'x) control_store
     \<Rightarrow> failure + ('v, 'x) control_store" where
  "control_runs deployment now action source is st =
     fold_each (\<lambda>i st. and_then (control_one_in_as deployment now action source i st) (\<lambda>(_, st'). Inr st')) is st"

definition control_subnode ::
  "string \<Rightarrow> datetime \<Rightarrow> run_control_action \<Rightarrow> control_source \<Rightarrow> end_reason option \<Rightarrow> uuid \<times> uuid
     \<Rightarrow> ('v, 'x) control_store \<Rightarrow> failure + ('v, 'x) control_store" where
  "control_subnode deployment now action source reason = (\<lambda>(i, workspace) st.
     let st1 = (case reason of None \<Rightarrow> st | Some why \<Rightarrow> mark_ended now i workspace why st)
     in control_runs deployment now action source (active_runs workspace st1) st1)"

definition control_for_creator ::
  "string \<Rightarrow> datetime \<Rightarrow> uuid \<Rightarrow> run_control_action \<Rightarrow> control_source \<Rightarrow> end_reason option
     \<Rightarrow> ('v, 'x) control_store \<Rightarrow> failure + ('v, 'x) control_store" where
  "control_for_creator deployment now creator action source reason st =
     (if reason \<noteq> None \<and> action \<noteq> CtlCancel then Inl (FInvalid ''ending a Subnode requires cancellation'')
      else if reason = None \<and> action \<noteq> CtlPause then Inl (FInvalid ''a nonterminal Subnode control must pause'')
      else fold_each (control_subnode deployment now action source reason) (active_subnodes creator st) st)"

definition control_in_as ::
  "string \<Rightarrow> datetime \<Rightarrow> run_control_action \<Rightarrow> control_source \<Rightarrow> uuid \<Rightarrow> ('v, 'x) control_store
     \<Rightarrow> failure + ('v, 'x) run \<times> ('v, 'x) control_store" where
  "control_in_as deployment now action source i st =
     and_then (control_one_in_as deployment now action source i st) (\<lambda>(r, st1).
     if action = CtlCancel then
       and_then (control_for_creator deployment now i CtlCancel source
           (Some (if source = ByDeploymentAdministrator then SafetyStopped else CreatorCancelled)) st1) (\<lambda>st2. Inr (r, st2))
     else if action = CtlPause \<and> source = ByDeploymentAdministrator then
       and_then (control_for_creator deployment now i CtlPause source None st1) (\<lambda>st2. Inr (r, st2))
     else Inr (r, st1))"

section \<open>Lemmas\<close>

definition control_ok :: "('v, 'x) control_store \<Rightarrow> bool" where
  "control_ok st \<longleftrightarrow> distinct (map run_id (runs st)) \<and> distinct (map (\<lambda>row. sub_id (sr_subnode row)) (subnode_rows st))"

text \<open>A Run after one or more decisions of a source, and a store in which those of some Runs were taken.\<close>

definition under :: "run_control_action \<Rightarrow> control_source \<Rightarrow> ('v, 'x) run \<Rightarrow> ('v, 'x) run \<Rightarrow> bool" where
  "under action source x y \<longleftrightarrow>
     control y = action_control action \<and> run_control_source y = source
     \<and> control_revision x < control_revision y \<and> state y = state x \<and> recovery y = recovery x
     \<and> run_id y = run_id x \<and> run_workspace_id y = run_workspace_id x"

definition controlled ::
  "run_control_action \<Rightarrow> control_source \<Rightarrow> (('v, 'x) run \<Rightarrow> bool) \<Rightarrow> ('v, 'x) run list \<Rightarrow> ('v, 'x) run list \<Rightarrow> bool" where
  "controlled action source P xs ys \<longleftrightarrow> list_all2 (\<lambda>x y. if P x then under action source x y else y = x) xs ys"

lemma under_trans: "under a s x y \<Longrightarrow> under a s y z \<Longrightarrow> under a s x z"
  by (auto simp: under_def)

lemma controlled_refl: "controlled a s (\<lambda>_. False) xs xs"
  by (simp add: controlled_def list_all2_same)

lemma controlled_trans:
  assumes "controlled a s P xs ys" "controlled a s Q ys zs"
  shows "controlled a s (\<lambda>x. P x \<or> Q x) xs zs"
  using assms unfolding controlled_def
proof (induction xs ys arbitrary: zs rule: list_all2_induct)
  case (Cons x xs y ys)
  then show ?case by (cases zs) (auto intro: under_trans split: if_splits)
qed auto

lemma controlled_cong:
  "controlled a s P xs ys \<Longrightarrow> (\<And>x. x \<in> set xs \<Longrightarrow> P x \<longleftrightarrow> Q x) \<Longrightarrow> controlled a s Q xs ys"
  unfolding controlled_def by (auto intro: list_all2_mono simp: list_all2_conv_all_nth split: if_splits)

lemma controlled_ids: "controlled a s P xs ys \<Longrightarrow> map run_id ys = map run_id xs"
  unfolding controlled_def by (induction rule: list_all2_induct) (auto simp: under_def split: if_splits)

lemma controlled_map:
  "(\<And>x. x \<in> set xs \<Longrightarrow> P x \<Longrightarrow> under a s x (f x)) \<Longrightarrow> controlled a s P xs (map (\<lambda>x. if P x then f x else x) xs)"
  unfolding controlled_def by (induction xs) auto

lemma find_run_Some: "find_run i st = Some r \<Longrightarrow> r \<in> set (runs st) \<and> run_id r = i"
  by (auto simp: find_run_def find_Some_iff)

lemma find_run_unique: "control_ok st \<Longrightarrow> r \<in> set (runs st) \<Longrightarrow> find_run (run_id r) st = Some r"
  unfolding find_run_def control_ok_def
  by (induction "runs st" arbitrary: st) (auto simp: find_Some_iff in_set_conv_nth distinct_conv_nth)

lemma decide_control_under: "under action source r (decide_control now action source None r)"
  by (simp add: under_def decide_control_def)

text \<open>What one decision other than a resumption does, and that it is always taken where it can be.\<close>

lemma control_one_Inr:
  assumes "control_one_in_as deployment now action source i st = Inr (r, st')" "action \<noteq> CtlResume"
  shows "\<exists>r0. find_run i st = Some r0 \<and> controllable r0 \<and> r = decide_control now action source None r0"
    "runs st' = map (\<lambda>x. if run_id x = i \<and> controllable x then r else x) (runs st)"
    "subnode_rows st' = subnode_rows st" "member_rows st' = member_rows st"
  using assms by (auto simp: control_one_in_as_def Let_def append_event_def split: option.splits if_splits)

lemma control_one_total:
  assumes "find_run i st = Some r0" "controllable r0"
  shows "\<exists>r st'. control_one_in_as deployment now action source i st = Inr (r, st')"
  using assms by (simp add: control_one_in_as_def Let_def)

lemma control_one_conflict:
  assumes "find_run i st = Some r0" "\<not> controllable r0"
  shows "control_one_in_as deployment now action source i st
    = Inl (FConflict ''run is terminal or cancellation is already requested'')"
  using assms by (simp add: control_one_in_as_def Let_def)

lemma control_one_decided:
  assumes "control_one_in_as deployment now action source i st = Inr (r, st')" "action \<noteq> CtlResume" "control_ok st"
  shows "controlled action source (\<lambda>x. run_id x = i) (runs st) (runs st')" "control_ok st'"
proof -
  obtain r0 where r0: "find_run i st = Some r0" "controllable r0" "r = decide_control now action source None r0"
    using control_one_Inr(1)[OF assms(1,2)] by blast
  have one: "x = r0" if "x \<in> set (runs st)" "run_id x = i" for x
    using find_run_unique[OF assms(3) that(1)] that(2) r0(1) by simp
  have "runs st' = map (\<lambda>x. if run_id x = i then r else x) (runs st)"
    using control_one_Inr(2)[OF assms(1,2)] one r0(2) by auto
  then show "controlled action source (\<lambda>x. run_id x = i) (runs st) (runs st')"
    using controlled_map[of "runs st" "\<lambda>x. run_id x = i" action source "\<lambda>_. r"] one r0(3) decide_control_under by fastforce
  then show "control_ok st'"
    using assms(3) control_one_Inr(3)[OF assms(1,2)] by (simp add: control_ok_def controlled_ids)
qed

lemma controlled_controllable:
  assumes "controlled a s P xs ys" "x \<in> set xs" "\<not> P x"
  shows "x \<in> set ys"
  using assms unfolding controlled_def
  by (induction rule: list_all2_induct) auto

lemma control_runs_total:
  assumes "control_ok st" "action \<noteq> CtlResume" "distinct is"
    "\<And>i. i \<in> set is \<Longrightarrow> \<exists>r \<in> set (runs st). run_id r = i \<and> controllable r"
  shows "\<exists>st'. control_runs deployment now action source is st = Inr st' \<and> control_ok st'
    \<and> controlled action source (\<lambda>x. run_id x \<in> set is) (runs st) (runs st')
    \<and> subnode_rows st' = subnode_rows st \<and> member_rows st' = member_rows st"
  using assms
proof (induction "is" arbitrary: st)
  case Nil
  then show ?case by (simp add: control_runs_def controlled_refl)
next
  case (Cons i "is")
  obtain r0 where r0: "r0 \<in> set (runs st)" "run_id r0 = i" "controllable r0" using Cons.prems(4)[of i] by auto
  then have "find_run i st = Some r0" using find_run_unique[OF Cons.prems(1)] by blast
  then obtain r st1 where one: "control_one_in_as deployment now action source i st = Inr (r, st1)"
    using control_one_total[OF _ r0(3)] by blast
  note d = control_one_decided[OF one Cons.prems(2,1)]
  have "\<exists>r \<in> set (runs st1). run_id r = j \<and> controllable r" if "j \<in> set is" for j
  proof -
    obtain x where x: "x \<in> set (runs st)" "run_id x = j" "controllable x" using Cons.prems(4)[of j] \<open>j \<in> set is\<close> by auto
    then have "run_id x \<noteq> i" using that Cons.prems(3) by auto
    then show ?thesis using controlled_controllable[OF d(1) x(1)] x by blast
  qed
  then obtain st' where st': "control_runs deployment now action source is st1 = Inr st'" "control_ok st'"
    "controlled action source (\<lambda>x. run_id x \<in> set is) (runs st1) (runs st')"
    "subnode_rows st' = subnode_rows st1" "member_rows st' = member_rows st1"
    using Cons.IH[OF d(2) Cons.prems(2)] Cons.prems(3) by auto
  have "control_runs deployment now action source (i # is) st = Inr st'" using one st'(1) by (simp add: control_runs_def)
  moreover have "controlled action source (\<lambda>x. run_id x \<in> set (i # is)) (runs st) (runs st')"
    using controlled_trans[OF d(1) st'(3)] by simp
  ultimately show ?case using st' control_one_Inr(3,4)[OF one Cons.prems(2)] by auto
qed

lemma active_runs_facts:
  "i \<in> set (active_runs workspace st) \<Longrightarrow>
     \<exists>r \<in> set (runs st). run_id r = i \<and> run_workspace_id r = workspace \<and> controllable r"
  "control_ok st \<Longrightarrow> distinct (active_runs workspace st)"
  "control_ok st \<Longrightarrow> x \<in> set (runs st) \<Longrightarrow>
     run_id x \<in> set (active_runs workspace st) \<longleftrightarrow> run_workspace_id x = workspace \<and> controllable x"
proof -
  show *: "\<exists>r \<in> set (runs st). run_id r = i \<and> run_workspace_id r = workspace \<and> controllable r"
    if "i \<in> set (active_runs workspace st)" for i using that by (auto simp: active_runs_def)
  show "distinct (active_runs workspace st)" if "control_ok st"
    using that by (auto simp: active_runs_def control_ok_def distinct_map inj_on_def)
  show "run_id x \<in> set (active_runs workspace st) \<longleftrightarrow> run_workspace_id x = workspace \<and> controllable x"
    if "control_ok st" "x \<in> set (runs st)"
  proof
    assume "run_id x \<in> set (active_runs workspace st)"
    then obtain r where "r \<in> set (runs st)" "run_id r = run_id x" "run_workspace_id r = workspace" "controllable r"
      using * by blast
    moreover have "r = x" using find_run_unique[OF that(1)] calculation(1,2) that(2) by (metis option.inject)
    ultimately show "run_workspace_id x = workspace \<and> controllable x" by simp
  qed (use that(2) in \<open>auto simp: active_runs_def\<close>)
qed

text \<open>The rows of ended Subnodes.\<close>

definition ended_rows :: "datetime \<Rightarrow> end_reason option \<Rightarrow> uuid set \<Rightarrow> subnode_row list \<Rightarrow> subnode_row list" where
  "ended_rows now reason is rows =
     (case reason of
        None \<Rightarrow> rows
      | Some why \<Rightarrow> map (\<lambda>row. if sub_id (sr_subnode row) \<in> is
                              then row\<lparr>sr_subnode := end_subnode now why (sr_subnode row)\<rparr> else row) rows)"

lemma ended_rows_compose:
  "ended_rows now reason A (ended_rows now reason B rows) = ended_rows now reason (A \<union> B) rows"
  by (cases reason) (auto simp: ended_rows_def end_subnode_def)

lemma ended_rows_ids:
  "map (\<lambda>row. sub_id (sr_subnode row)) (ended_rows now reason A rows) = map (\<lambda>row. sub_id (sr_subnode row)) rows"
  by (cases reason) (auto simp: ended_rows_def end_subnode_def)

lemma control_subnode_total:
  assumes "control_ok st" "action \<noteq> CtlResume"
  shows "\<exists>st'. control_subnode deployment now action source reason (i, workspace) st = Inr st' \<and> control_ok st'
    \<and> controlled action source (\<lambda>x. run_workspace_id x = workspace \<and> controllable x) (runs st) (runs st')
    \<and> subnode_rows st' = ended_rows now reason {i} (subnode_rows st) \<and> member_rows st' = member_rows st"
proof -
  define st1 where "st1 = (case reason of None \<Rightarrow> st | Some why \<Rightarrow> mark_ended now i workspace why st)"
  have st1: "runs st1 = runs st" "subnode_rows st1 = ended_rows now reason {i} (subnode_rows st)"
    "member_rows st1 = member_rows st"
    by (auto simp: st1_def mark_ended_def append_event_def ended_rows_def split: option.splits)
  then have ok: "control_ok st1" using assms(1) by (simp add: control_ok_def ended_rows_ids)
  have "\<exists>r \<in> set (runs st1). run_id r = j \<and> controllable r" if "j \<in> set (active_runs workspace st1)" for j
    using active_runs_facts(1)[OF that] by blast
  then obtain st' where st': "control_runs deployment now action source (active_runs workspace st1) st1 = Inr st'"
    "control_ok st'" "controlled action source (\<lambda>x. run_id x \<in> set (active_runs workspace st1)) (runs st1) (runs st')"
    "subnode_rows st' = subnode_rows st1" "member_rows st' = member_rows st1"
    using control_runs_total[OF ok assms(2) active_runs_facts(2)[OF ok]] by blast
  have "control_subnode deployment now action source reason (i, workspace) st = Inr st'"
    using st'(1) by (simp add: control_subnode_def st1_def Let_def)
  moreover have "controlled action source (\<lambda>x. run_workspace_id x = workspace \<and> controllable x) (runs st) (runs st')"
    using controlled_cong[OF st'(3)] active_runs_facts(3)[OF ok] st1(1) by simp
  ultimately show ?thesis using st' st1 by auto
qed

lemma control_subnodes_total:
  assumes "control_ok st" "action \<noteq> CtlResume"
  shows "\<exists>st'. fold_each (control_subnode deployment now action source reason) subs st = Inr st' \<and> control_ok st'
    \<and> controlled action source (\<lambda>x. run_workspace_id x \<in> snd ` set subs \<and> controllable x) (runs st) (runs st')
    \<and> subnode_rows st' = ended_rows now reason (fst ` set subs) (subnode_rows st) \<and> member_rows st' = member_rows st"
  using assms(1)
proof (induction subs arbitrary: st)
  case Nil
  then show ?case by (auto simp: controlled_refl ended_rows_def map_idI split: option.splits)
next
  case (Cons sub subs)
  obtain i workspace where sub: "sub = (i, workspace)" by (cases sub)
  obtain st1 where st1: "control_subnode deployment now action source reason (i, workspace) st = Inr st1" "control_ok st1"
    "controlled action source (\<lambda>x. run_workspace_id x = workspace \<and> controllable x) (runs st) (runs st1)"
    "subnode_rows st1 = ended_rows now reason {i} (subnode_rows st)" "member_rows st1 = member_rows st"
    using control_subnode_total[OF Cons.prems assms(2)] by blast
  obtain st' where st': "fold_each (control_subnode deployment now action source reason) subs st1 = Inr st'" "control_ok st'"
    "controlled action source (\<lambda>x. run_workspace_id x \<in> snd ` set subs \<and> controllable x) (runs st1) (runs st')"
    "subnode_rows st' = ended_rows now reason (fst ` set subs) (subnode_rows st1)" "member_rows st' = member_rows st1"
    using Cons.IH[OF st1(2)] by blast
  have "controlled action source (\<lambda>x. run_workspace_id x \<in> snd ` set (sub # subs) \<and> controllable x) (runs st) (runs st')"
    by (rule controlled_cong[OF controlled_trans[OF st1(3) st'(3)]]) (auto simp: sub)
  then show ?case using st1 st' sub by (auto simp: ended_rows_compose)
qed

definition member_workspaces :: "uuid \<Rightarrow> ('v, 'x) control_store \<Rightarrow> uuid set" where
  "member_workspaces creator st =
     {sub_workspace (sr_subnode row) |row. row \<in> set (subnode_rows st) \<and> sub_creator_run (sr_subnode row) = creator \<and> sub_active row}"

lemma active_subnodes_sets:
  "snd ` set (active_subnodes creator st) = member_workspaces creator st"
  "fst ` set (active_subnodes creator st) =
     {sub_id (sr_subnode row) |row. row \<in> set (subnode_rows st) \<and> sub_creator_run (sr_subnode row) = creator \<and> sub_active row}"
  by (force simp: active_subnodes_def member_workspaces_def)+

lemma ended_rows_inactive:
  assumes "row \<in> set (ended_rows now (Some why) (fst ` set (active_subnodes creator st)) (subnode_rows st))"
    "sub_creator_run (sr_subnode row) = creator"
  shows "\<not> sub_active row"
proof
  assume active: "sub_active row"
  obtain row0 where "row0 \<in> set (subnode_rows st)"
    "row = (if sub_id (sr_subnode row0) \<in> fst ` set (active_subnodes creator st)
            then row0\<lparr>sr_subnode := end_subnode now why (sr_subnode row0)\<rparr> else row0)"
    using assms(1) unfolding ended_rows_def option.case set_map by blast
  moreover have "sub_id (sr_subnode row0) \<notin> fst ` set (active_subnodes creator st)"
    using calculation(2) active by (cases "sub_id (sr_subnode row0) \<in> fst ` set (active_subnodes creator st)")
      (simp_all add: sub_active_def end_subnode_def)
  ultimately have "row0 \<in> set (subnode_rows st)" "row0 = row"
    "sub_id (sr_subnode row0) \<notin> fst ` set (active_subnodes creator st)" by simp_all
  then show False using active assms(2) unfolding active_subnodes_sets(2) by auto
qed

lemma control_in_as_cascade:
  assumes "control_ok st" "find_run i st = Some r0" "controllable r0"
    and "action = CtlCancel \<or> action = CtlPause \<and> source = ByDeploymentAdministrator"
  shows "\<exists>r st'. control_in_as deployment now action source i st = Inr (r, st') \<and> control_ok st'
    \<and> controlled action source (\<lambda>x. run_id x = i \<or> run_workspace_id x \<in> member_workspaces i st \<and> controllable x) (runs st) (runs st')
    \<and> (action = CtlCancel \<longrightarrow> (\<forall>row \<in> set (subnode_rows st'). sub_creator_run (sr_subnode row) = i \<longrightarrow> \<not> sub_active row))
    \<and> (\<exists>why. subnode_rows st' = ended_rows now why (fst ` set (active_subnodes i st)) (subnode_rows st))
    \<and> member_rows st' = member_rows st"
proof -
  have action: "action \<noteq> CtlResume" using assms(4) by auto
  obtain r st1 where one: "control_one_in_as deployment now action source i st = Inr (r, st1)"
    using control_one_total[OF assms(2,3)] by blast
  note d = control_one_decided[OF one action assms(1)]
  note rows = control_one_Inr(3,4)[OF one action]
  define reason where "reason = (if action = CtlCancel
    then Some (if source = ByDeploymentAdministrator then SafetyStopped else CreatorCancelled) else None)"
  obtain st' where st': "fold_each (control_subnode deployment now action source reason) (active_subnodes i st1) st1 = Inr st'"
    "control_ok st'"
    "controlled action source (\<lambda>x. run_workspace_id x \<in> snd ` set (active_subnodes i st1) \<and> controllable x) (runs st1) (runs st')"
    "subnode_rows st' = ended_rows now reason (fst ` set (active_subnodes i st1)) (subnode_rows st1)"
    "member_rows st' = member_rows st1"
    using control_subnodes_total[OF d(2) action] by blast
  have "active_subnodes i st1 = active_subnodes i st" using rows(1) by (simp add: active_subnodes_def)
  note st' = st'[unfolded this]
  have "control_in_as deployment now action source i st = Inr (r, st')"
    using one st'(1) assms(4) \<open>active_subnodes i st1 = active_subnodes i st\<close>
    by (auto simp: control_in_as_def control_for_creator_def reason_def split: if_splits)
  moreover have "controlled action source (\<lambda>x. run_id x = i \<or> run_workspace_id x \<in> member_workspaces i st \<and> controllable x)
      (runs st) (runs st')"
    using controlled_trans[OF d(1) st'(3)] by (simp add: active_subnodes_sets)
  moreover have "\<not> sub_active row" if "action = CtlCancel" "row \<in> set (subnode_rows st')" "sub_creator_run (sr_subnode row) = i" for row
    using ended_rows_inactive that st'(4) rows(1) by (fastforce simp: reason_def)
  moreover have "subnode_rows st' = ended_rows now reason (fst ` set (active_subnodes i st)) (subnode_rows st)"
    using st'(4) rows(1) by simp
  ultimately show ?thesis using st'(2,5) rows(2) by auto
qed

section \<open>Properties\<close>

text \<open>A creating Run, the Run of a member of its Subnode, and an unrelated Run.\<close>

definition run_a :: "uuid \<Rightarrow> uuid \<Rightarrow> (sample, unit) run" where
  "run_a i workspace = (sample_run RunReady)\<lparr>run_id := i, run_workspace_id := workspace\<rparr>"

definition row_a :: subnode_row where
  "row_a = \<lparr> sr_subnode = \<lparr> sub_id = 20, sub_tenant = ''t'', sub_node = ''d/a-b'', sub_creator_run = 1,
       sub_creator_task = 2, sub_creator_agent = \<lparr> er_id = ''agent'', er_version = ''1'' \<rparr>,
       sub_leader = \<lparr> er_id = ''worker'', er_version = ''1'' \<rparr>, sub_members = [],
       sub_allowance = \<lparr> al_tools = [], al_secrets = [] \<rparr>, sub_workspace = 9, sub_title = None,
       sub_status = SubActive, sub_created_at = 0, sub_ended_at = None, sub_ended_reason = None \<rparr>,
     sr_key = ''k'', sr_fingerprint = ''f'' \<rparr>"

definition control_store_a :: "(sample, unit) control_store" where
  "control_store_a = \<lparr> runs = [run_a 1 3, run_a 4 9, run_a 5 3], subnode_rows = [row_a], member_rows = [],
     retry_cycles = (\<lambda>_. 0), stopped_previews = [], log = [] \<rparr>"

text \<open>
  Property C10. Stopping a Run stops what works for it: a cancellation, or a Deployment
  Administrator's pause, of a Run that has not ended is always taken; it applies to that Run and to
  every Run that has not ended in the Workspace of an active Subnode it created, advances the
  control revision of each and records the same source, leaves every other Run as it was, and a
  cancellation leaves no Subnode of the Run active.
\<close>

theorem control_cascades:
  assumes "control_ok st" "find_run i st = Some r0" "controllable r0"
    and "action = CtlCancel \<or> action = CtlPause \<and> source = ByDeploymentAdministrator"
  shows "\<exists>r st'. control_in_as deployment now action source i st = Inr (r, st')
    \<and> list_all2 (\<lambda>x y. if run_id x = i \<or> run_workspace_id x \<in> member_workspaces i st \<and> controllable x
                       then under action source x y else y = x) (runs st) (runs st')
    \<and> (action = CtlCancel \<longrightarrow> (\<forall>row \<in> set (subnode_rows st'). sub_creator_run (sr_subnode row) = i \<longrightarrow> \<not> sub_active row))"
  using control_in_as_cascade[OF assms] unfolding controlled_def by blast

theorem control_cascades_witness:
  "\<exists>r st'. control_in_as ''d'' 100 CtlCancel ByTenant 1 control_store_a = Inr (r, st')
     \<and> map control (runs st') = [ControlCancelled, ControlCancelled, Active]"
proof -
  have ok: "control_ok control_store_a" by (simp add: control_ok_def control_store_a_def run_a_def)
  have find: "find_run 1 control_store_a = Some (run_a 1 3)" by (simp add: find_run_def control_store_a_def run_a_def)
  have c: "controllable (run_a i w)" for i w by (simp add: controllable_def run_a_def phase_is_terminal_def)
  have ws: "member_workspaces 1 control_store_a = {9}"
    by (auto simp: member_workspaces_def control_store_a_def row_a_def sub_active_def)
  obtain r st' where st': "control_in_as ''d'' 100 CtlCancel ByTenant 1 control_store_a = Inr (r, st')"
    "list_all2 (\<lambda>x y. if run_id x = 1 \<or> run_workspace_id x \<in> member_workspaces 1 control_store_a \<and> controllable x
                     then under CtlCancel ByTenant x y else y = x) (runs control_store_a) (runs st')"
    using control_cascades[OF ok find c, of CtlCancel ByTenant "''d''" 100] by auto
  have "map control (runs st') = [ControlCancelled, ControlCancelled, Active]"
    using st'(2) c unfolding ws
    by (auto simp: control_store_a_def list_all2_Cons1 under_def run_a_def)
  with st'(1) show ?thesis by (intro exI conjI)
qed

end
