(* ===== verification/Policy.thy ===== *)
theory Policy
  imports Json Nodes
begin

text \<open>
  Tenant-scoped role and attribute policies (crates/aidash-domain/src/policy.rs): the policy
  bundle, its validation, role expansion, and the evaluation of a request, for the subject
  itself and for every subject that delegated to it. \<open>Policy_Spec\<close> states what evaluation
  is for and proves that these definitions compute it.
\<close>

section \<open>Bundles\<close>

definition MAX_ENTITIES :: nat where "MAX_ENTITIES = 512"
definition MAX_DEPTH :: nat where "MAX_DEPTH = 32"

datatype subject_kind = User | Agent | Service

record 'v subject =
  s_kind :: subject_kind
  s_node :: "node_name option"
  s_groups :: "string btree_set"
  s_roles :: "string btree_set"
  s_attributes :: 'v
  s_enabled :: bool
  s_delegated_by :: "string option"

record group =
  g_roles :: "string btree_set"
  g_assignable :: bool

record role =
  inherits :: "string btree_set"

datatype effect = Allow | Deny

datatype 'v operand =
    OSubject string
  | OResource string
  | OEnvironment string
  | OLiteral 'v

datatype 'v condition =
    CAll "'v condition list"
  | CAny "'v condition list"
  | CEq "'v operand" "'v operand"
  | CNotEq "'v operand" "'v operand"
  | CContains "'v operand" "'v operand"
  | CExists "'v operand"

record subject_selector =
  sel_any :: bool
  sel_ids :: "string btree_set"
  sel_groups :: "string btree_set"
  sel_roles :: "string btree_set"
  sel_kinds :: "subject_kind list"

record resource_selector =
  rs_kinds :: "string btree_set"
  rs_ids :: "string btree_set"

record 'v policy =
  p_id :: string
  p_effect :: effect
  p_subjects :: subject_selector
  p_actions :: "string btree_set"
  p_resources :: resource_selector
  p_condition :: "'v condition option"

record 'v policy_bundle =
  b_tenant :: string
  b_subjects :: "(string, 'v subject) btree_map"
  b_groups :: "(string, group) btree_map"
  b_roles :: "(string, role) btree_map"
  b_policies :: "'v policy list"

record 'v resource =
  r_tenant :: string
  r_kind :: string
  r_id :: string
  r_attributes :: 'v

record 'v evaluation =
  e_subject :: string
  e_action :: string
  e_resource :: "'v resource"
  e_environment :: 'v

record decision =
  allowed :: bool
  reason :: string
  matched_policies :: "string list"
  decision_roles :: "string btree_set"
  revision :: int

definition denied :: "string \<Rightarrow> decision" where
  "denied why =
     \<lparr> allowed = False, reason = why, matched_policies = [], decision_roles = [], revision = 0 \<rparr>"

section \<open>Names and selectors\<close>

definition check_identifier :: "string \<Rightarrow> unit result" where
  "check_identifier value =
     refuse_if (value = [] \<or> length value > 256
                \<or> list_ex (\<lambda>c. is_whitespace c \<or> is_control c) (chars value)
                \<or> CHR ''*'' \<in> set value)
       (Invalid ''identifiers require 1..256 bytes without whitespace or wildcards'')"

definition selector_names :: "string btree_set \<Rightarrow> bool \<Rightarrow> unit result" where
  "selector_names values allow_empty =
     and_then (refuse_if ((\<not> allow_empty \<and> values = []) \<or> length values > MAX_ENTITIES)
                 (Invalid ''invalid selector size''))
       (\<lambda>_. for_each (\<lambda>value. if value \<noteq> ''*'' then check_identifier value else Inr ()) values)"

definition matches_name :: "string btree_set \<Rightarrow> string \<Rightarrow> bool" where
  "matches_name values name \<longleftrightarrow> ''*'' \<in> set values \<or> name \<in> set values"

definition MODE_BYPASS :: string where "MODE_BYPASS = ''approval.mode.bypass''"
definition SUBNODE_CREATE :: string where "SUBNODE_CREATE = ''subnode.create''"

definition EXPLICIT_ACTIONS :: "string list" where
  "EXPLICIT_ACTIONS =
     [''tool.call_unapproved'', ''sampling.request_unapproved'', MODE_BYPASS, SUBNODE_CREATE]"

definition matches_action :: "string btree_set \<Rightarrow> string \<Rightarrow> effect \<Rightarrow> bool" where
  "matches_action values action eff \<longleftrightarrow>
     action \<in> set values
     \<or> (''*'' \<in> set values \<and> (eff = Deny \<or> action \<notin> set EXPLICIT_ACTIONS))"

section \<open>Conditions\<close>

text \<open>The scan of a path for \<open>~\<close> that is not followed by \<open>0\<close> or \<open>1\<close>.\<close>

fun escapes_ok :: "string \<Rightarrow> bool" where
  "escapes_ok [] = True"
| "escapes_ok (c # cs) =
     (if c = CHR ''~''
      then (case cs of [] \<Rightarrow> False | d # ds \<Rightarrow> (d = CHR ''0'' \<or> d = CHR ''1'') \<and> escapes_ok ds)
      else escapes_ok cs)"

definition path_validate :: "string \<Rightarrow> unit result" where
  "path_validate path =
     (if length path > 1024 \<or> strip_prefix ''/'' path = None
      then Inl (Invalid ''attribute paths must be JSON pointers beginning with /'')
      else if \<not> escapes_ok path then Inl (Invalid ''invalid JSON pointer escape'')
      else Inr ())"

fun operand_validate :: "'v operand \<Rightarrow> unit result" where
  "operand_validate (OSubject path) = path_validate path"
| "operand_validate (OResource path) = path_validate path"
| "operand_validate (OEnvironment path) = path_validate path"
| "operand_validate (OLiteral v) = Inr ()"

fun operand_resolve ::
  "'v json_ops \<Rightarrow> 'v operand \<Rightarrow> 'v subject \<Rightarrow> 'v evaluation \<Rightarrow> 'v option" where
  "operand_resolve J (OSubject path) subject input = pointer J (s_attributes subject) path"
| "operand_resolve J (OResource path) subject input =
     pointer J (r_attributes (e_resource input)) path"
| "operand_resolve J (OEnvironment path) subject input = pointer J (e_environment input) path"
| "operand_resolve J (OLiteral v) subject input = Some v"

text \<open>
  \<open>Condition::validate\<close> counts the nodes it visits in a mutable counter, which the model
  returns; the second function is its loop over the conditions of a group.
\<close>

definition condition_enter :: "nat \<Rightarrow> nat \<Rightarrow> nat result" where
  "condition_enter depth count =
     (if depth > 16 \<or> count + 1 > 256
      then Inl (Invalid ''condition exceeds expression depth or size limit'')
      else Inr (count + 1))"

fun condition_validate :: "'v condition \<Rightarrow> nat \<Rightarrow> nat \<Rightarrow> nat result"
  and conditions_validate :: "'v condition list \<Rightarrow> nat \<Rightarrow> nat \<Rightarrow> nat result" where
  "condition_validate (CAll cs) depth count =
     and_then (condition_enter depth count) (\<lambda>count.
       if cs = [] then Inl (Invalid ''condition groups must not be empty'')
       else conditions_validate cs (depth + 1) count)"
| "condition_validate (CAny cs) depth count =
     and_then (condition_enter depth count) (\<lambda>count.
       if cs = [] then Inl (Invalid ''condition groups must not be empty'')
       else conditions_validate cs (depth + 1) count)"
| "condition_validate (CEq l r) depth count =
     and_then (condition_enter depth count) (\<lambda>count.
       and_then (operand_validate l) (\<lambda>_. and_then (operand_validate r) (\<lambda>_. Inr count)))"
| "condition_validate (CNotEq l r) depth count =
     and_then (condition_enter depth count) (\<lambda>count.
       and_then (operand_validate l) (\<lambda>_. and_then (operand_validate r) (\<lambda>_. Inr count)))"
| "condition_validate (CContains l r) depth count =
     and_then (condition_enter depth count) (\<lambda>count.
       and_then (operand_validate l) (\<lambda>_. and_then (operand_validate r) (\<lambda>_. Inr count)))"
| "condition_validate (CExists v) depth count =
     and_then (condition_enter depth count) (\<lambda>count.
       and_then (operand_validate v) (\<lambda>_. Inr count))"
| "conditions_validate [] depth count = Inr count"
| "conditions_validate (c # cs) depth count =
     and_then (condition_validate c depth count) (conditions_validate cs depth)"

definition both_resolve ::
  "'v json_ops \<Rightarrow> 'v subject \<Rightarrow> 'v evaluation \<Rightarrow> 'v operand \<Rightarrow> 'v operand
     \<Rightarrow> ('v \<Rightarrow> 'v \<Rightarrow> bool) \<Rightarrow> bool" where
  "both_resolve J subject input l r test =
     (case (operand_resolve J l subject input, operand_resolve J r subject input) of
        (Some left, Some right) \<Rightarrow> test left right
      | _ \<Rightarrow> False)"

fun condition_matches ::
  "'v json_ops \<Rightarrow> 'v condition \<Rightarrow> 'v subject \<Rightarrow> 'v evaluation \<Rightarrow> bool" where
  "condition_matches J (CAll cs) subject input =
     list_all (\<lambda>c. condition_matches J c subject input) cs"
| "condition_matches J (CAny cs) subject input =
     list_ex (\<lambda>c. condition_matches J c subject input) cs"
| "condition_matches J (CExists v) subject input = (operand_resolve J v subject input \<noteq> None)"
| "condition_matches J (CEq l r) subject input = both_resolve J subject input l r (=)"
| "condition_matches J (CNotEq l r) subject input = both_resolve J subject input l r (\<noteq>)"
| "condition_matches J (CContains l r) subject input =
     both_resolve J subject input l r
       (\<lambda>left right. case as_array J left of None \<Rightarrow> False | Some values \<Rightarrow> right \<in> set values)"

section \<open>Roles\<close>

definition require_roles :: "'v policy_bundle \<Rightarrow> string btree_set \<Rightarrow> unit result" where
  "require_roles b names =
     for_each (\<lambda>name. refuse_if (map_of (b_roles b) name = None)
                        (Invalid (''unknown role: '' @ name))) names"

text \<open>
  \<open>expand_role\<close> visits a role and what it inherits, depth first; \<open>path\<close> holds the roles
  being visited and \<open>res\<close> those already finished. The source inserts the role into the
  mutable path before its loop and removes it afterwards, so a call leaves the path as it
  found it: here each call gets its path as an argument. \<open>expand_roles\<close> is the loop.
\<close>

function expand_role ::
    "(string, role) btree_map \<Rightarrow> string \<Rightarrow> string btree_set \<Rightarrow> string btree_set
       \<Rightarrow> string btree_set result"
  and expand_roles ::
    "(string, role) btree_map \<Rightarrow> string list \<Rightarrow> string btree_set \<Rightarrow> string btree_set
       \<Rightarrow> string btree_set result" where
  "expand_role roles name path res =
     (if name \<in> set path \<or> length path \<ge> MAX_DEPTH
      then Inl (Invalid ''role cycle or excessive depth'')
      else if name \<in> set res then Inr res
      else case map_of roles name of
             None \<Rightarrow> Inl (Invalid (''unknown role: '' @ name))
           | Some role \<Rightarrow>
               and_then (expand_roles roles (inherits role) (set_insert name path) res)
                 (\<lambda>res. Inr (set_insert name res)))"
| "expand_roles roles [] path res = Inr res"
| "expand_roles roles (parent # parents) path res =
     and_then (expand_role roles parent path res) (expand_roles roles parents path)"
  by pat_completeness auto
termination
  by (relation "measures
      [\<lambda>x. case x of Inl (rs, n, p, r) \<Rightarrow> MAX_DEPTH - length p
                    | Inr (rs, ns, p, r) \<Rightarrow> MAX_DEPTH - length p,
       \<lambda>x. case x of Inl _ \<Rightarrow> 0 | Inr (rs, ns, p, r) \<Rightarrow> Suc (length ns)]")
    (auto simp: length_set_insert)

declare expand_role.simps [simp del]

definition effective_roles :: "'v policy_bundle \<Rightarrow> 'v subject \<Rightarrow> string btree_set result" where
  "effective_roles b subject =
     and_then (fold_each (\<lambda>name res. expand_role (b_roles b) name [] res) (s_roles subject) [])
       (fold_each (\<lambda>name res.
          case map_of (b_groups b) name of
            None \<Rightarrow> Inl (Invalid ''unknown group'')
          | Some grp \<Rightarrow>
              fold_each (\<lambda>name res. expand_role (b_roles b) name [] res) (g_roles grp) res)
        (s_groups subject))"

section \<open>Validation\<close>

text \<open>The \<open>while\<close> loop that follows \<open>delegated_by\<close> and refuses a cycle or a long chain.\<close>

function check_chain ::
  "(string, 'v subject) btree_map \<Rightarrow> string option \<Rightarrow> string btree_set \<Rightarrow> unit result" where
  "check_chain subjects None chain = Inr ()"
| "check_chain subjects (Some i) chain =
     (if length chain \<ge> MAX_DEPTH \<or> i \<in> set chain
      then Inl (Invalid ''delegation cycle or excessive depth'')
      else case map_of subjects i of
             None \<Rightarrow> Inl (Invalid (''unknown delegator: '' @ i))
           | Some entry \<Rightarrow> check_chain subjects (s_delegated_by entry) (set_insert i chain))"
  by pat_completeness auto
termination
  by (relation "measure (\<lambda>(subjects, current, chain). MAX_DEPTH - length chain)")
    (auto simp: length_set_insert)

declare check_chain.simps(2) [simp del]

definition validate_role :: "'v policy_bundle \<Rightarrow> string \<times> role \<Rightarrow> unit result" where
  "validate_role b = (\<lambda>(name, _).
     and_then (check_identifier name) (\<lambda>_.
       and_then (expand_role (b_roles b) name [] []) (\<lambda>_. Inr ())))"

definition validate_group :: "'v policy_bundle \<Rightarrow> string \<times> group \<Rightarrow> unit result" where
  "validate_group b = (\<lambda>(name, grp).
     and_then (check_identifier name) (\<lambda>_. require_roles b (g_roles grp)))"

definition validate_subject ::
  "'v json_ops \<Rightarrow> 'v policy_bundle \<Rightarrow> string \<times> 'v subject \<Rightarrow> unit result" where
  "validate_subject J b = (\<lambda>(name, subject).
     and_then (check_identifier name) (\<lambda>_.
     and_then (refuse_if ((s_kind subject = User) \<noteq> (s_node subject = None))
       (Invalid ''users must not own a Node; every other subject requires a Node'')) (\<lambda>_.
     and_then (refuse_if (\<not> is_object J (s_attributes subject))
       (Invalid ''subject attributes must be an object'')) (\<lambda>_.
     and_then (require_roles b (s_roles subject)) (\<lambda>_.
     and_then (for_each (\<lambda>grp. refuse_if (map_of (b_groups b) grp = None)
                                   (Invalid (''unknown group: '' @ grp))) (s_groups subject)) (\<lambda>_.
       check_chain (b_subjects b) (Some name) []))))))"

definition validate_policy ::
  "'v policy_bundle \<Rightarrow> 'v policy \<Rightarrow> string btree_set \<Rightarrow> string btree_set result" where
  "validate_policy b p ids =
     and_then (check_identifier (p_id p)) (\<lambda>_.
     and_then (refuse_if (p_id p \<in> set ids) (Invalid ''duplicate policy id'')) (\<lambda>_.
     (let sel = p_subjects p;
          count = length (sel_ids sel) + length (sel_groups sel)
                  + length (sel_roles sel) + length (sel_kinds sel)
      in and_then (refuse_if ((sel_any sel \<and> count \<noteq> 0) \<or> (\<not> sel_any sel \<and> count = 0))
           (Invalid ''select any subject explicitly, or supply subject selectors'')) (\<lambda>_.
         and_then (require_roles b (sel_roles sel)) (\<lambda>_.
         and_then (for_each (\<lambda>i. refuse_if (map_of (b_subjects b) i = None)
                                  (Invalid (''unknown subject selector: '' @ i))) (sel_ids sel)) (\<lambda>_.
         and_then (for_each (\<lambda>grp. refuse_if (map_of (b_groups b) grp = None)
                                  (Invalid (''unknown group selector: '' @ grp)))
                     (sel_groups sel)) (\<lambda>_.
         and_then (selector_names (p_actions p) False) (\<lambda>_.
         and_then (selector_names (rs_kinds (p_resources p)) False) (\<lambda>_.
         and_then (selector_names (rs_ids (p_resources p)) True) (\<lambda>_.
         and_then (case p_condition p of
                     None \<Rightarrow> Inr ()
                   | Some c \<Rightarrow> and_then (condition_validate c 0 0) (\<lambda>_. Inr ())) (\<lambda>_.
           Inr (set_insert (p_id p) ids))))))))))))"

definition bundle_validate :: "'v json_ops \<Rightarrow> 'v policy_bundle \<Rightarrow> unit result" where
  "bundle_validate J b =
     and_then (check_identifier (b_tenant b)) (\<lambda>_.
     and_then (refuse_if (list_ex (\<lambda>size. size > MAX_ENTITIES)
                 [length (b_subjects b), length (b_groups b), length (b_roles b),
                  length (b_policies b)])
       (Invalid ''policy bundles support at most 512 entries of each type'')) (\<lambda>_.
     and_then (for_each (validate_role b) (b_roles b)) (\<lambda>_.
     and_then (for_each (validate_group b) (b_groups b)) (\<lambda>_.
     and_then (for_each (validate_subject J b) (b_subjects b)) (\<lambda>_.
     and_then (fold_each (validate_policy b) (b_policies b) []) (\<lambda>_. Inr ()))))))"

definition evaluation_validate :: "'v json_ops \<Rightarrow> 'v evaluation \<Rightarrow> unit result" where
  "evaluation_validate J input =
     and_then (for_each check_identifier
                 [e_subject input, e_action input, r_tenant (e_resource input),
                  r_kind (e_resource input), r_id (e_resource input)]) (\<lambda>_.
       refuse_if (\<not> is_object J (r_attributes (e_resource input))
                  \<or> \<not> is_object J (e_environment input))
         (Invalid ''resource and environment attributes must be objects''))"

section \<open>Evaluation\<close>

definition subject_matches ::
  "'v policy \<Rightarrow> string \<Rightarrow> 'v subject \<Rightarrow> string btree_set \<Rightarrow> bool" where
  "subject_matches p i subject roles \<longleftrightarrow>
     (let sel = p_subjects p
      in sel_any sel \<or> i \<in> set (sel_ids sel) \<or> s_kind subject \<in> set (sel_kinds sel)
         \<or> \<not> is_disjoint (sel_groups sel) (s_groups subject)
         \<or> \<not> is_disjoint (sel_roles sel) roles)"

definition policy_skipped ::
  "'v json_ops \<Rightarrow> 'v policy \<Rightarrow> string \<Rightarrow> 'v subject \<Rightarrow> string btree_set \<Rightarrow> 'v evaluation \<Rightarrow> bool" where
  "policy_skipped J p i subject roles input \<longleftrightarrow>
     \<not> subject_matches p i subject roles
     \<or> \<not> matches_action (p_actions p) (e_action input) (p_effect p)
     \<or> \<not> matches_name (rs_kinds (p_resources p)) (r_kind (e_resource input))
     \<or> (rs_ids (p_resources p) \<noteq> []
        \<and> \<not> matches_name (rs_ids (p_resources p)) (r_id (e_resource input)))
     \<or> (case p_condition p of None \<Rightarrow> False | Some c \<Rightarrow> \<not> condition_matches J c subject input)"

text \<open>One pass of the loop over the policies: the decision so far and the \<open>deny\<close> flag.\<close>

definition apply_policy ::
  "'v json_ops \<Rightarrow> string \<Rightarrow> 'v subject \<Rightarrow> string btree_set \<Rightarrow> 'v evaluation
     \<Rightarrow> 'v policy \<Rightarrow> decision \<times> bool \<Rightarrow> decision \<times> bool" where
  "apply_policy J i subject roles input p = (\<lambda>(d, deny).
     if policy_skipped J p i subject roles input then (d, deny)
     else let d = d\<lparr>matched_policies := matched_policies d @ [p_id p]\<rparr>
          in case p_effect p of
               Allow \<Rightarrow> (d\<lparr>allowed := True\<rparr>, deny)
             | Deny \<Rightarrow> (d, True))"

definition evaluate_subject ::
  "'v json_ops \<Rightarrow> 'v policy_bundle \<Rightarrow> string \<Rightarrow> 'v evaluation \<Rightarrow> decision" where
  "evaluate_subject J b i input =
     (case map_of (b_subjects b) i of
        None \<Rightarrow> denied ''unknown_subject''
      | Some subject \<Rightarrow>
          if \<not> s_enabled subject then denied ''subject_disabled''
          else case effective_roles b subject of
                 Inl _ \<Rightarrow> denied ''invalid_policy''
               | Inr roles \<Rightarrow>
                   (let start = (denied ''no_matching_allow'')\<lparr>decision_roles := roles\<rparr>;
                        (d, deny) = fold (apply_policy J i subject roles input) (b_policies b)
                                      (start, False);
                        d = d\<lparr>matched_policies := sort (matched_policies d)\<rparr>
                    in if deny then d\<lparr>allowed := False, reason := ''explicit_deny''\<rparr>
                       else if allowed d then d\<lparr>reason := ''allowed''\<rparr>
                       else d))"

definition delegator :: "'v policy_bundle \<Rightarrow> string \<Rightarrow> string option" where
  "delegator b i = Option.bind (map_of (b_subjects b) i) s_delegated_by"

text \<open>
  The loop over the delegation chain has no bound of its own: it relies on the bundle having
  been validated. Not returning is \<open>None\<close>.
\<close>

partial_function (option) evaluate_chain ::
  "'v json_ops \<Rightarrow> 'v policy_bundle \<Rightarrow> 'v evaluation \<Rightarrow> decision \<Rightarrow> string option \<Rightarrow> decision option" where
  "evaluate_chain J b input d next =
     (case next of
        None \<Rightarrow> Some d
      | Some i \<Rightarrow>
          if \<not> allowed (evaluate_subject J b i input)
          then Some (d\<lparr>allowed := False, reason := ''delegation_denied'',
                       matched_policies := remdups_adj (sort
                         (matched_policies d @ matched_policies (evaluate_subject J b i input)))\<rparr>)
          else evaluate_chain J b input d (delegator b i))"

definition evaluate :: "'v json_ops \<Rightarrow> 'v policy_bundle \<Rightarrow> 'v evaluation \<Rightarrow> decision option" where
  "evaluate J b input =
     (if \<not> is_ok (bundle_validate J b) then Some (denied ''invalid_policy'')
      else if \<not> is_ok (evaluation_validate J input) then Some (denied ''invalid_request'')
      else if r_tenant (e_resource input) \<noteq> b_tenant b then Some (denied ''tenant_mismatch'')
      else let d = evaluate_subject J b (e_subject input) input
           in if \<not> allowed d then Some d
              else evaluate_chain J b input d (delegator b (e_subject input)))"

end
