(* ===== verification/Safety_Stop.thy ===== *)
theory Safety_Stop
  imports Run_Control Policy
begin

text \<open>
  The Safety Stop: a Deployment Administrator's pause or cancellation of one Run, with a reason and
  a receipt that answers repeated commands (crates/aidash-domain/src/safety\_stop.rs,
  crates/aidash-application/src/safety\_stop.rs, the ledger of
  server/src/apps/identity/services/execution/safety\_stop.rs and the table of
  server/src/apps/execution/models/safety\_stops.rs).

  Parameters: the text of a UUID, the digest of a command's canonical JSON (SHA-256), and whether a
  Tenant is available. The command runs in one transaction; a refused one is rolled back.
\<close>

section \<open>Commands\<close>

datatype stop_action = StopPause | StopCancel

fun stop_action_str :: "stop_action \<Rightarrow> string" where
  "stop_action_str StopPause = ''pause''"
| "stop_action_str StopCancel = ''cancel''"

fun stop_control :: "stop_action \<Rightarrow> run_control" where
  "stop_control StopPause = Paused"
| "stop_control StopCancel = ControlCancelled"

definition stop_action_parse :: "string \<Rightarrow> stop_action result" where
  "stop_action_parse s =
     (if s = ''pause'' then Inr StopPause
      else if s = ''cancel'' then Inr StopCancel
      else Inl (Invalid (''unknown Safety Stop action '' @ s)))"

datatype actor = SharedBearer | Browser uuid

fun actor_kind :: "actor \<Rightarrow> string" where
  "actor_kind SharedBearer = ''shared_bearer''"
| "actor_kind (Browser _) = ''browser''"

fun actor_identity :: "actor \<Rightarrow> uuid option" where
  "actor_identity SharedBearer = None"
| "actor_identity (Browser i) = Some i"

fun caller_key :: "(uuid \<Rightarrow> string) \<Rightarrow> actor \<Rightarrow> string" where
  "caller_key show_uuid SharedBearer = ''shared_bearer''"
| "caller_key show_uuid (Browser i) = ''browser:'' @ show_uuid i"

datatype stop_outcome = Accepted | NoOp

fun stop_outcome_str :: "stop_outcome \<Rightarrow> string" where
  "stop_outcome_str Accepted = ''accepted''"
| "stop_outcome_str NoOp = ''no_op''"

definition stop_outcome_parse :: "string \<Rightarrow> stop_outcome result" where
  "stop_outcome_parse s =
     (if s = ''accepted'' then Inr Accepted
      else if s = ''no_op'' then Inr NoOp
      else Inl (Invalid (''unknown Safety Stop outcome '' @ s)))"

record stop_command =
  sc_tenant :: string
  sc_run :: uuid
  sc_action :: stop_action
  sc_expected :: int
  sc_operation :: uuid
  sc_reason :: string

definition MAX_REASON_CHARS :: nat where "MAX_REASON_CHARS = 1000"

definition bounded_reason :: "string \<Rightarrow> string \<Rightarrow> string result" where
  "bounded_reason input subj =
     (let why = trim input
      in if why = [] \<or> length (chars why) > MAX_REASON_CHARS
            \<or> list_ex (\<lambda>c. is_control c \<and> c \<noteq> 10 \<and> c \<noteq> 13 \<and> c \<noteq> 9) (chars why)
         then Inl (Invalid (subj @ '' needs a reason of 1 to 1000 characters''))
         else Inr why)"

definition new_command ::
  "string \<Rightarrow> uuid \<Rightarrow> stop_action \<Rightarrow> int \<Rightarrow> uuid \<Rightarrow> string \<Rightarrow> stop_command result" where
  "new_command tenant run action expected operation why =
     (if expected < 0 then Inl (Invalid ''the expected control revision cannot be negative'')
      else and_then (check_identifier tenant) (\<lambda>_.
           and_then (bounded_reason why ''a Safety Stop'') (\<lambda>text.
           Inr \<lparr> sc_tenant = tenant, sc_run = run, sc_action = action, sc_expected = expected,
                 sc_operation = operation, sc_reason = text \<rparr>)))"

text \<open>The fields that the fingerprint digests: everything but the operation.\<close>

type_synonym canonical = "string \<times> uuid \<times> stop_action \<times> int \<times> string"

definition fingerprint :: "(canonical \<Rightarrow> string) \<Rightarrow> stop_command \<Rightarrow> string" where
  "fingerprint sha c = sha (sc_tenant c, sc_run c, sc_action c, sc_expected c, sc_reason c)"

datatype stop_decision = DecAccepted | DecNoOp | DecStale

definition decide :: "run_phase \<Rightarrow> run_control \<Rightarrow> int \<Rightarrow> stop_command \<Rightarrow> stop_decision" where
  "decide phase ctl now_revision c =
     (if phase_is_terminal phase \<or> ctl = ControlCancelled then DecNoOp
      else if sc_expected c \<noteq> now_revision then DecStale
      else DecAccepted)"

section \<open>The ledger\<close>

record receipt =
  rc_operation :: uuid
  rc_run :: uuid
  rc_tenant :: string
  rc_action :: stop_action
  rc_outcome :: stop_outcome

record stop_row =
  sp_tenant :: string
  sp_run :: uuid
  sp_action :: string
  sp_expected :: int
  sp_actor_kind :: string
  sp_identity :: "uuid option"
  sp_reason :: string
  sp_operation :: uuid
  sp_caller_key :: string
  sp_fingerprint :: string
  sp_outcome :: string
  sp_created_at :: datetime

record ('v, 'x) stop_store =
  controls :: "('v, 'x) control_store"
  stops :: "stop_row list"
  run_tenants :: "uuid \<Rightarrow> string option"

record stop_env =
  show_uuid :: "uuid \<Rightarrow> string"
  sha :: "canonical \<Rightarrow> string"
  available :: "string \<Rightarrow> failure + unit"
  deployment :: string

definition row_key :: "stop_row \<Rightarrow> string \<times> string \<times> uuid" where
  "row_key row = (sp_tenant row, sp_caller_key row, sp_operation row)"

definition stored_receipt :: "stop_row \<Rightarrow> failure + string \<times> receipt" where
  "stored_receipt row =
     and_then (domain (stop_action_parse (sp_action row))) (\<lambda>action.
     and_then (domain (stop_outcome_parse (sp_outcome row))) (\<lambda>outcome.
     Inr (sp_fingerprint row,
          \<lparr> rc_operation = sp_operation row, rc_run = sp_run row, rc_tenant = sp_tenant row,
            rc_action = action, rc_outcome = outcome \<rparr>)))"

definition find_receipt ::
  "string \<Rightarrow> string \<Rightarrow> uuid \<Rightarrow> ('v, 'x) stop_store \<Rightarrow> failure + (string \<times> receipt) option" where
  "find_receipt tenant caller operation st =
     (case filter (\<lambda>row. row_key row = (tenant, caller, operation)) (stops st) of
        [] \<Rightarrow> Inr None
      | rows \<Rightarrow> and_then (stored_receipt (last rows)) (\<lambda>s. Inr (Some s)))"

definition apply_stop ::
  "stop_env \<Rightarrow> datetime \<Rightarrow> uuid \<Rightarrow> stop_action \<Rightarrow> ('v, 'x) stop_store \<Rightarrow> failure + ('v, 'x) stop_store" where
  "apply_stop E now run action st =
     and_then (control_in_as (deployment E) now (case action of StopPause \<Rightarrow> CtlPause | StopCancel \<Rightarrow> CtlCancel)
         ByDeploymentAdministrator run (controls st)) (\<lambda>(_, c). Inr (st\<lparr>controls := c\<rparr>))"

definition stop_row_of :: "stop_env \<Rightarrow> datetime \<Rightarrow> actor \<Rightarrow> stop_command \<Rightarrow> stop_outcome \<Rightarrow> stop_row" where
  "stop_row_of E now who c outcome =
     \<lparr> sp_tenant = sc_tenant c, sp_run = sc_run c, sp_action = stop_action_str (sc_action c),
       sp_expected = sc_expected c, sp_actor_kind = actor_kind who, sp_identity = actor_identity who,
       sp_reason = sc_reason c, sp_operation = sc_operation c, sp_caller_key = caller_key (show_uuid E) who,
       sp_fingerprint = fingerprint (sha E) c, sp_outcome = stop_outcome_str outcome, sp_created_at = now \<rparr>"

text \<open>The insertion fails on the unique index of Tenant, caller and operation.\<close>

definition record_stop ::
  "stop_env \<Rightarrow> datetime \<Rightarrow> actor \<Rightarrow> stop_command \<Rightarrow> stop_outcome \<Rightarrow> ('v, 'x) stop_store \<Rightarrow> failure + ('v, 'x) stop_store" where
  "record_stop E now who c outcome st =
     (let row = stop_row_of E now who c outcome
      in if row_key row \<in> set (map row_key (stops st)) then Inl (OtherFailure ''duplicate key'')
         else Inr (st\<lparr>stops := stops st @ [row]\<rparr>))"

section \<open>The use case\<close>

record stop_done =
  done_receipt :: receipt
  done_changed :: "stop_action option"

definition execute ::
  "stop_env \<Rightarrow> datetime \<Rightarrow> actor \<Rightarrow> stop_command \<Rightarrow> ('v, 'x) stop_store \<Rightarrow> failure + stop_done \<times> ('v, 'x) stop_store" where
  "execute E now who c st =
     and_then (available E (sc_tenant c)) (\<lambda>_.
     case find_run (sc_run c) (controls st) of
       None \<Rightarrow> Inl (NotFound ''run'')
     | Some r \<Rightarrow>
         and_then (find_receipt (sc_tenant c) (caller_key (show_uuid E) who) (sc_operation c) st) (\<lambda>stored.
         case stored of
           Some (f, rc) \<Rightarrow>
             if f \<noteq> fingerprint (sha E) c
             then Inl (FConflict ''the operation id was used for a different command'')
             else Inr (\<lparr> done_receipt = rc, done_changed = None \<rparr>, st)
         | None \<Rightarrow>
             and_then (case decide (state_phase (state r)) (control r) (control_revision r) c of
                         DecStale \<Rightarrow> Inl (FConflict (''the Run'' @ apostrophe_s
                            @ '' control changed; read it again before stopping it''))
                       | DecNoOp \<Rightarrow> Inr (NoOp, st)
                       | DecAccepted \<Rightarrow>
                           and_then (apply_stop E now (sc_run c) (sc_action c) st) (\<lambda>st1. Inr (Accepted, st1))) (\<lambda>(outcome, st1).
             and_then (record_stop E now who c outcome st1) (\<lambda>st2.
             Inr (\<lparr> done_receipt = \<lparr> rc_operation = sc_operation c, rc_run = sc_run c, rc_tenant = sc_tenant c,
                                   rc_action = sc_action c, rc_outcome = outcome \<rparr>,
                    done_changed = (if outcome = Accepted then Some (sc_action c) else None) \<rparr>, st2)))))"

definition stop_target :: "string \<Rightarrow> uuid \<Rightarrow> ('v, 'x) stop_store \<Rightarrow> failure + unit" where
  "stop_target tenant run st =
     and_then (domain (check_identifier tenant)) (\<lambda>_.
       case run_tenants st run of
         Some t \<Rightarrow> if t = tenant then Inr () else Inl (NotFound ''run'')
       | None \<Rightarrow> Inl (NotFound ''run''))"

definition stop ::
  "stop_env \<Rightarrow> datetime \<Rightarrow> actor \<Rightarrow> uuid \<Rightarrow> string \<times> stop_action \<times> int \<times> string \<Rightarrow> uuid \<Rightarrow> ('v, 'x) stop_store
     \<Rightarrow> (failure + receipt) \<times> ('v, 'x) stop_store" where
  "stop E now who run = (\<lambda>(tenant, action, expected, why) operation st.
     case and_then (domain (new_command tenant run action expected operation why)) (\<lambda>c.
          and_then (stop_target (sc_tenant c) run st) (\<lambda>_. execute E now who c st)) of
       Inl e \<Rightarrow> (Inl e, st)
     | Inr (d, st') \<Rightarrow> (Inr (done_receipt d), st'))"

section \<open>Lemmas\<close>

lemma stop_action_round [simp]: "stop_action_parse (stop_action_str a) = Inr a"
  by (cases a) (simp_all add: stop_action_parse_def)

lemma stop_outcome_round [simp]: "stop_outcome_parse (stop_outcome_str a) = Inr a"
  by (cases a) (simp_all add: stop_outcome_parse_def)

definition new_receipt :: "stop_command \<Rightarrow> stop_outcome \<Rightarrow> receipt" where
  "new_receipt c outcome =
     \<lparr> rc_operation = sc_operation c, rc_run = sc_run c, rc_tenant = sc_tenant c, rc_action = sc_action c,
       rc_outcome = outcome \<rparr>"

definition stop_key :: "stop_env \<Rightarrow> actor \<Rightarrow> stop_command \<Rightarrow> string \<times> string \<times> uuid" where
  "stop_key E who c = (sc_tenant c, caller_key (show_uuid E) who, sc_operation c)"

lemma row_key_new [simp]: "row_key (stop_row_of E now who c outcome) = stop_key E who c"
  by (simp add: row_key_def stop_row_of_def stop_key_def)

lemma stored_receipt_new:
  "stored_receipt (stop_row_of E now who c outcome) = Inr (fingerprint (sha E) c, new_receipt c outcome)"
  by (simp add: stored_receipt_def stop_row_of_def new_receipt_def domain_def)

definition ledger_ok :: "('v, 'x) stop_store \<Rightarrow> bool" where
  "ledger_ok st \<longleftrightarrow> distinct (map row_key (stops st)) \<and> control_ok (controls st)"

lemma distinct_key_filter:
  "distinct (map f xs) \<Longrightarrow> x \<in> set xs \<Longrightarrow> filter (\<lambda>y. f y = f x) xs = [x]"
  by (induction xs) (auto simp: filter_empty_conv rev_image_eqI)

text \<open>An earlier row with the key of a command answers it.\<close>

lemma find_receipt_row:
  assumes "ledger_ok st" "row \<in> set (stops st)" "row_key row = stop_key E who c"
  shows "find_receipt (sc_tenant c) (caller_key (show_uuid E) who) (sc_operation c) st
    = and_then (stored_receipt row) (\<lambda>s. Inr (Some s))"
proof -
  have "filter (\<lambda>y. row_key y = row_key row) (stops st) = [row]"
    using assms(1,2) by (intro distinct_key_filter) (simp_all add: ledger_ok_def)
  then show ?thesis using assms(3) by (simp add: find_receipt_def stop_key_def)
qed

lemma find_receipt_None:
  "find_receipt tenant caller operation st = Inr None \<Longrightarrow> (tenant, caller, operation) \<notin> set (map row_key (stops st))"
  by (auto simp: find_receipt_def filter_empty_conv and_then_Inr_iff split: list.splits)

lemma find_receipt_Some:
  assumes "find_receipt tenant caller operation st = Inr (Some s)"
  shows "\<exists>row \<in> set (stops st). row_key row = (tenant, caller, operation) \<and> stored_receipt row = Inr s"
proof -
  define rows where "rows = filter (\<lambda>row. row_key row = (tenant, caller, operation)) (stops st)"
  have "rows \<noteq> []" "stored_receipt (last rows) = Inr s"
    using assms unfolding find_receipt_def by (auto simp: and_then_Inr_iff rows_def split: list.splits)
  then show ?thesis using last_in_set[of rows] by (auto simp: rows_def)
qed

lemma execute_cases:
  assumes "execute E now who c st = Inr (d, st')"
  obtains (replayed) "find_receipt (sc_tenant c) (caller_key (show_uuid E) who) (sc_operation c) st
        = Inr (Some (fingerprint (sha E) c, done_receipt d))" "done_changed d = None" "st' = st"
  | (unchanged) r where "find_run (sc_run c) (controls st) = Some r" "\<not> controllable r"
      "done_receipt d = new_receipt c NoOp" "done_changed d = None"
      "st' = st\<lparr>stops := stops st @ [stop_row_of E now who c NoOp]\<rparr>" "stop_key E who c \<notin> set (map row_key (stops st))"
  | (changed) r st1 where "find_run (sc_run c) (controls st) = Some r" "controllable r"
      "control_revision r = sc_expected c" "apply_stop E now (sc_run c) (sc_action c) st = Inr st1"
      "done_receipt d = new_receipt c Accepted" "done_changed d = Some (sc_action c)"
      "st' = st1\<lparr>stops := stops st1 @ [stop_row_of E now who c Accepted]\<rparr>" "stop_key E who c \<notin> set (map row_key (stops st))"
proof -
  obtain r where r: "find_run (sc_run c) (controls st) = Some r"
    using assms by (auto simp: execute_def and_then_Inr_iff split: option.splits)
  obtain stored where stored: "find_receipt (sc_tenant c) (caller_key (show_uuid E) who) (sc_operation c) st = Inr stored"
    using assms r by (auto simp: execute_def and_then_Inr_iff)
  show thesis
  proof (cases stored)
    case (Some fr)
    obtain f rc where "fr = (f, rc)" by (cases fr)
    then show thesis using assms r stored Some replayed
      by (auto simp: execute_def and_then_Inr_iff split: if_splits)
  next
    case None
    then have key: "stop_key E who c \<notin> set (map row_key (stops st))"
      using find_receipt_None stored by (simp add: stop_key_def)
    show thesis
    proof (cases "decide (state_phase (state r)) (control r) (control_revision r) c")
      case DecAccepted
      then have "controllable r" "control_revision r = sc_expected c"
        by (auto simp: decide_def controllable_def split: if_splits)
      moreover obtain st1 where "apply_stop E now (sc_run c) (sc_action c) st = Inr st1"
        "st' = st1\<lparr>stops := stops st1 @ [stop_row_of E now who c Accepted]\<rparr>"
        "done_receipt d = new_receipt c Accepted" "done_changed d = Some (sc_action c)"
        using assms r stored None DecAccepted
        by (auto simp: execute_def and_then_Inr_iff record_stop_def Let_def new_receipt_def split: if_splits)
      ultimately show thesis using r key changed by blast
    next
      case DecNoOp
      then have "\<not> controllable r" by (auto simp: decide_def controllable_def split: if_splits)
      then show thesis using assms r stored None DecNoOp key
        by (intro unchanged[of r]) (auto simp: execute_def and_then_Inr_iff record_stop_def Let_def new_receipt_def split: if_splits)
    next
      case DecStale
      then show thesis using assms r stored None by (simp add: execute_def and_then_Inr_iff)
    qed
  qed
qed

abbreviation stop_ctl :: "stop_action \<Rightarrow> run_control_action" where
  "stop_ctl a \<equiv> (case a of StopPause \<Rightarrow> CtlPause | StopCancel \<Rightarrow> CtlCancel)"

lemma apply_stop_decided:
  assumes "apply_stop E now i action st = Inr st1" "control_ok (controls st)"
    "find_run i (controls st) = Some r" "controllable r"
  shows "stops st1 = stops st" "run_tenants st1 = run_tenants st" "control_ok (controls st1)"
    and "controlled (stop_ctl action) ByDeploymentAdministrator
      (\<lambda>x. run_id x = i \<or> run_workspace_id x \<in> member_workspaces i (controls st) \<and> controllable x)
      (runs (controls st)) (runs (controls st1))"
proof -
  have "stop_ctl action = CtlCancel \<or> stop_ctl action = CtlPause \<and> ByDeploymentAdministrator = ByDeploymentAdministrator"
    by (cases action) simp_all
  from control_in_as_cascade[OF assms(2-4) this, of "deployment E" now]
  show "stops st1 = stops st" "run_tenants st1 = run_tenants st" "control_ok (controls st1)"
    and "controlled (stop_ctl action) ByDeploymentAdministrator
      (\<lambda>x. run_id x = i \<or> run_workspace_id x \<in> member_workspaces i (controls st) \<and> controllable x)
      (runs (controls st)) (runs (controls st1))"
    using assms(1) by (auto simp: apply_stop_def)
qed

lemma controlled_weaken:
  assumes "controlled a s P xs ys" "\<And>x. x \<in> set xs \<Longrightarrow> P x \<Longrightarrow> Q x"
  shows "list_all2 (\<lambda>x y. y = x \<or> Q x \<and> under a s x y) xs ys"
  using assms unfolding controlled_def
  by (auto simp: list_all2_conv_all_nth split: if_splits)

lemma new_command_Inr:
  assumes "new_command tenant run action expected operation why = Inr c"
  shows "sc_tenant c = tenant" "sc_run c = run" "sc_action c = action" "sc_expected c = expected"
    "sc_operation c = operation" "sc_reason c \<noteq> []"
  using assms by (auto simp: new_command_def and_then_Inr_iff bounded_reason_def Let_def split: if_splits)

text \<open>What an accepted command leaves: one more audit row with its reason, and controls of its action only.\<close>

lemma execute_effect:
  assumes "execute E now who c st = Inr (d, st')" "ledger_ok st"
  shows "ledger_ok st'"
    and "list_all2 (\<lambda>x y. y = x \<or> controllable x \<and> under (stop_ctl (sc_action c)) ByDeploymentAdministrator x y)
      (runs (controls st)) (runs (controls st'))"
    and "if stop_key E who c \<in> set (map row_key (stops st)) then st' = st
      else stops st' = stops st @ [stop_row_of E now who c (rc_outcome (done_receipt d))]"
    and "done_changed d \<noteq> None \<Longrightarrow> \<exists>x y. find_run (sc_run c) (controls st) = Some x
      \<and> control_revision x = sc_expected c \<and> find_run (sc_run c) (controls st') = Some y
      \<and> under (stop_ctl (sc_action c)) ByDeploymentAdministrator x y"
proof -
  have same: "list_all2 (\<lambda>x y. y = x \<or> Q x y) xs xs" for Q and xs :: "('a, 'b) run list"
    by (simp add: list_all2_same)
  have "ledger_ok st'
    \<and> list_all2 (\<lambda>x y. y = x \<or> controllable x \<and> under (stop_ctl (sc_action c)) ByDeploymentAdministrator x y)
        (runs (controls st)) (runs (controls st'))
    \<and> (if stop_key E who c \<in> set (map row_key (stops st)) then st' = st
      else stops st' = stops st @ [stop_row_of E now who c (rc_outcome (done_receipt d))])
    \<and> (done_changed d \<noteq> None \<longrightarrow> (\<exists>x y. find_run (sc_run c) (controls st) = Some x
      \<and> control_revision x = sc_expected c \<and> find_run (sc_run c) (controls st') = Some y
      \<and> under (stop_ctl (sc_action c)) ByDeploymentAdministrator x y))"
    using assms(1)
  proof (cases rule: execute_cases)
    case replayed
    then have "stop_key E who c \<in> set (map row_key (stops st))" using find_receipt_Some[OF replayed(1)] by (force simp: stop_key_def)
    then show ?thesis using replayed(2,3) assms(2) same by simp
  next
    case (unchanged r)
    have "ledger_ok st'" using unchanged(5,6) assms(2) by (simp add: ledger_ok_def)
    then show ?thesis using unchanged(3-6) same by (simp add: new_receipt_def)
  next
    case (changed r st1)
    have ok: "control_ok (controls st)" using assms(2) by (simp add: ledger_ok_def)
    note a = apply_stop_decided[OF changed(4) ok changed(1,2)]
    have only: "x = r" if "x \<in> set (runs (controls st))" "run_id x = sc_run c" for x
      using find_run_unique[OF ok that(1)] that(2) changed(1) by simp
    have "list_all2 (\<lambda>x y. y = x \<or> controllable x \<and> under (stop_ctl (sc_action c)) ByDeploymentAdministrator x y)
        (runs (controls st)) (runs (controls st1))"
      by (rule controlled_weaken[OF a(4)]) (use only changed(2) in blast)
    moreover have "ledger_ok st'" using changed(7,8) a(1,3) assms(2) by (simp add: ledger_ok_def)
    moreover obtain y where "y \<in> set (runs (controls st1))" "under (stop_ctl (sc_action c)) ByDeploymentAdministrator r y"
      using a(4) find_run_Some[OF changed(1)] unfolding controlled_def
      by (auto simp: list_all2_conv_all_nth in_set_conv_nth split: if_splits)
    moreover from this have "find_run (sc_run c) (controls st1) = Some y"
      using find_run_unique[OF a(3)] find_run_Some[OF changed(1)] by (metis under_def)
    ultimately show ?thesis using changed(1,3,5,7,8) a(1) by (auto simp: new_receipt_def)
  qed
  then show "ledger_ok st'"
    and "list_all2 (\<lambda>x y. y = x \<or> controllable x \<and> under (stop_ctl (sc_action c)) ByDeploymentAdministrator x y)
      (runs (controls st)) (runs (controls st'))"
    and "if stop_key E who c \<in> set (map row_key (stops st)) then st' = st
      else stops st' = stops st @ [stop_row_of E now who c (rc_outcome (done_receipt d))]"
    and "done_changed d \<noteq> None \<Longrightarrow> \<exists>x y. find_run (sc_run c) (controls st) = Some x
      \<and> control_revision x = sc_expected c \<and> find_run (sc_run c) (controls st') = Some y
      \<and> under (stop_ctl (sc_action c)) ByDeploymentAdministrator x y" by blast+
qed

lemma stopped_ids:
  "list_all2 (\<lambda>x y. y = x \<or> controllable x \<and> under a src x y) xs ys \<Longrightarrow> map run_id ys = map run_id xs"
  by (induction rule: list_all2_induct) (auto simp: under_def)

lemma execute_accepts:
  assumes "ledger_ok st" "available E (sc_tenant c) = Inr ()" "find_run (sc_run c) (controls st) = Some r" "controllable r"
    and "sc_expected c = control_revision r" "stop_key E who c \<notin> set (map row_key (stops st))"
  shows "\<exists>st'. execute E now who c st = Inr (\<lparr> done_receipt = new_receipt c Accepted, done_changed = Some (sc_action c) \<rparr>, st')"
proof -
  have "filter (\<lambda>row. row_key row = (sc_tenant c, caller_key (show_uuid E) who, sc_operation c)) (stops st) = []"
    using assms(6) by (force simp: filter_empty_conv stop_key_def)
  then have "find_receipt (sc_tenant c) (caller_key (show_uuid E) who) (sc_operation c) st = Inr None"
    by (simp add: find_receipt_def)
  moreover have "decide (state_phase (state r)) (control r) (control_revision r) c = DecAccepted"
    using assms(4,5) by (simp add: decide_def controllable_def)
  moreover have "stop_ctl (sc_action c) = CtlCancel \<or> stop_ctl (sc_action c) = CtlPause \<and> ByDeploymentAdministrator = ByDeploymentAdministrator"
    by (cases "sc_action c") simp_all
  then obtain x cs where "control_in_as (deployment E) now (stop_ctl (sc_action c)) ByDeploymentAdministrator (sc_run c) (controls st) = Inr (x, cs)"
    using control_in_as_cascade[OF _ assms(3,4)] assms(1) unfolding ledger_ok_def by blast
  ultimately show ?thesis
    using assms(2,3,6) by (simp add: execute_def apply_stop_def record_stop_def Let_def new_receipt_def)
qed

section \<open>Properties\<close>

definition stop_env_a :: stop_env where
  "stop_env_a = \<lparr> show_uuid = (\<lambda>u. [char_of (unat u)]), sha = (\<lambda>(t, r, a, e, why). char_of (unat r) # t @ stop_action_str a @ why),
     available = (\<lambda>_. Inr ()), deployment = ''d'' \<rparr>"

definition stop_store_a :: "(sample, unit) stop_store" where
  "stop_store_a = \<lparr> controls = control_store_a, stops = [], run_tenants = (\<lambda>_. Some ''t'') \<rparr>"

definition command_a :: "stop_action \<Rightarrow> stop_command" where
  "command_a action = \<lparr> sc_tenant = ''t'', sc_run = 1, sc_action = action, sc_expected = 0, sc_operation = 77, sc_reason = ''why'' \<rparr>"

text \<open>
  Property C25. A Safety Stop acts once: after a command was answered, the same caller's repetition
  of it, in any later store that still has the audit rows and the Run, returns the same receipt,
  reports no change and changes nothing, whatever happened to the Run's control in between; the
  operation id with a command of another fingerprint, for the same Run or another one of the Tenant, is
  refused as a conflict.
\<close>

theorem stop_acts_once:
  assumes "ledger_ok st" "execute E now who c st = Inr (d, st1)"
    and "ledger_ok st2" "set (stops st1) \<subseteq> set (stops st2)" "find_run (sc_run c) (controls st2) = Some r"
    and "sc_tenant c' = sc_tenant c" "sc_operation c' = sc_operation c" "find_run (sc_run c') (controls st2) = Some r'"
    and "fingerprint (sha E) c' \<noteq> fingerprint (sha E) c"
  shows "execute E now' who c st2 = Inr (\<lparr> done_receipt = done_receipt d, done_changed = None \<rparr>, st2)
    \<and> execute E now' who c' st2 = Inl (FConflict ''the operation id was used for a different command'')"
proof -
  have "available E (sc_tenant c) = Inr ()"
    using assms(2) by (auto simp: execute_def and_then_Inr_iff)
  moreover have "find_receipt (sc_tenant c) (caller_key (show_uuid E) who) (sc_operation c) st2
      = Inr (Some (fingerprint (sha E) c, done_receipt d))"
    using assms(2)
  proof (cases rule: execute_cases)
    case replayed
    then obtain row where "row \<in> set (stops st)" "row_key row = stop_key E who c"
      "stored_receipt row = Inr (fingerprint (sha E) c, done_receipt d)"
      using find_receipt_Some[OF replayed(1)] by (auto simp: stop_key_def)
    moreover from this(1) have "row \<in> set (stops st2)" using assms(4) replayed(3) by blast
    ultimately show ?thesis using find_receipt_row[OF assms(3), of row E who c] by simp
  next
    case (unchanged r)
    then have "stop_row_of E now who c NoOp \<in> set (stops st2)" using assms(4) by auto
    from find_receipt_row[OF assms(3) this, of E who c] show ?thesis using unchanged(3) by (simp add: stored_receipt_new)
  next
    case (changed r st3)
    then have "stop_row_of E now who c Accepted \<in> set (stops st2)" using assms(4) by auto
    from find_receipt_row[OF assms(3) this, of E who c] show ?thesis using changed(5) by (simp add: stored_receipt_new)
  qed
  ultimately show ?thesis using assms(5-9) by (simp add: execute_def)
qed

lemma stop_example:
  "ledger_ok stop_store_a" "find_run 1 (controls stop_store_a) = Some (run_a 1 3)" "controllable (run_a 1 3)"
  "stops stop_store_a = []" "control_revision (run_a 1 3) = 0"
  by (simp_all add: ledger_ok_def stop_store_a_def control_ok_def control_store_a_def run_a_def find_run_def
      controllable_def phase_is_terminal_def sample_run_def)

theorem stop_acts_once_witness:
  "\<exists>d st1. execute stop_env_a 5 SharedBearer (command_a StopPause) stop_store_a = Inr (d, st1)
     \<and> execute stop_env_a 6 SharedBearer (command_a StopPause) st1
        = Inr (\<lparr> done_receipt = done_receipt d, done_changed = None \<rparr>, st1)
     \<and> execute stop_env_a 6 SharedBearer ((command_a StopPause)\<lparr>sc_run := 5\<rparr>) st1
        = Inl (FConflict ''the operation id was used for a different command'')"
proof -
  have "\<exists>st1. execute stop_env_a 5 SharedBearer (command_a StopPause) stop_store_a
      = Inr (\<lparr> done_receipt = new_receipt (command_a StopPause) Accepted, done_changed = Some StopPause \<rparr>, st1)"
    using execute_accepts[of stop_store_a stop_env_a "command_a StopPause" "run_a 1 3" SharedBearer 5] stop_example
    by (simp add: stop_env_a_def command_a_def)
  then obtain st1 where run: "execute stop_env_a 5 SharedBearer (command_a StopPause) stop_store_a
      = Inr (\<lparr> done_receipt = new_receipt (command_a StopPause) Accepted, done_changed = Some StopPause \<rparr>, st1)" ..
  note ok = execute_effect(1)[OF run stop_example(1)]
  obtain y where y: "find_run (sc_run (command_a StopPause)) (controls st1) = Some y"
    using execute_effect(4)[OF run stop_example(1)] by auto
  have "map run_id (runs (controls st1)) = map run_id (runs (controls stop_store_a))"
    using execute_effect(2)[OF run stop_example(1)] by (rule stopped_ids)
  then have "5 \<in> set (map run_id (runs (controls st1)))" by (simp add: stop_store_a_def control_store_a_def run_a_def)
  then obtain z where "find_run (sc_run ((command_a StopPause)\<lparr>sc_run := 5\<rparr>)) (controls st1) = Some z"
    by (cases "find_run 5 (controls st1)") (auto simp: find_run_def find_None_iff)
  from stop_acts_once[OF stop_example(1) run ok order.refl y _ _ this, of 6]
  show ?thesis using run by (simp add: command_a_def fingerprint_def stop_env_a_def)
qed

text \<open>
  Property C31. A Safety Stop never resumes a Run and is recorded: a refused or failed command leaves
  the store unchanged; an answered one names a Run of the Tenant and changes only Runs that have not
  ended, to the control of its action with the Deployment Administrator as the source. A command whose
  operation the caller has not used before, also one that changes nothing, appends exactly one audit
  row, which holds who sent it, when, for which Run, its outcome and a non-empty reason; only a
  repetition leaves the store as it is.
\<close>

theorem stop_bounded:
  assumes "stop E now who run (tenant, action, expected, why) operation st = (result, st')" "ledger_ok st"
  shows "case result of
      Inl e \<Rightarrow> st' = st
    | Inr rc \<Rightarrow> run_tenants st run = Some tenant \<and> ledger_ok st'
        \<and> list_all2 (\<lambda>x y. y = x \<or> controllable x \<and> control y = stop_control action
              \<and> run_control_source y = ByDeploymentAdministrator \<and> control_revision x < control_revision y)
            (runs (controls st)) (runs (controls st'))
        \<and> (if (tenant, caller_key (show_uuid E) who, operation) \<in> set (map row_key (stops st)) then st' = st
           else \<exists>row. stops st' = stops st @ [row] \<and> row_key row = (tenant, caller_key (show_uuid E) who, operation)
             \<and> sp_run row = run \<and> sp_actor_kind row = actor_kind who \<and> sp_identity row = actor_identity who
             \<and> sp_outcome row = stop_outcome_str (rc_outcome rc) \<and> sp_created_at row = now \<and> sp_reason row \<noteq> [])"
proof (cases result)
  case (Inl e)
  then show ?thesis using assms(1) by (auto simp: stop_def split: sum.splits)
next
  case (Inr rc)
  then obtain c d where c: "new_command tenant run action expected operation why = Inr c"
    "stop_target (sc_tenant c) run st = Inr ()" "execute E now who c st = Inr (d, st')"
    using assms(1) by (auto simp: stop_def and_then_Inr_iff split: sum.splits)
  note n = new_command_Inr[OF c(1)]
  have "run_tenants st run = Some tenant"
    using c(2) n(1) by (auto simp: stop_target_def and_then_Inr_iff split: option.splits if_splits)
  moreover have "list_all2 (\<lambda>x y. y = x \<or> controllable x \<and> control y = stop_control action
              \<and> run_control_source y = ByDeploymentAdministrator \<and> control_revision x < control_revision y)
            (runs (controls st)) (runs (controls st'))"
    using execute_effect(2)[OF c(3) assms(2)] n(3)
    by (cases action) (auto simp: under_def elim!: list_all2_mono)
  moreover have "stop_key E who c = (tenant, caller_key (show_uuid E) who, operation)" using n by (simp add: stop_key_def)
  moreover have "rc = done_receipt d" using c Inr assms(1) by (auto simp: stop_def domain_def)
  ultimately show ?thesis using Inr execute_effect(1,3)[OF c(3) assms(2)] n(2,6)
    by (auto simp: row_key_def stop_row_of_def stop_key_def split: if_splits)
qed

theorem stop_bounded_witness:
  "\<exists>rc st'. stop stop_env_a 5 SharedBearer 1 (''t'', StopCancel, 0, '' why '') 77 stop_store_a = (Inr rc, st')
     \<and> run_tenants stop_store_a 1 = Some ''t'' \<and> ledger_ok st' \<and> length (stops st') = 1"
proof -
  have c: "new_command ''t'' 1 StopCancel 0 77 '' why '' = Inr (command_a StopCancel)"
    by (simp add: new_command_def check_identifier_def bounded_reason_def trim_def utf8_width_def text_eval
        command_a_def MAX_REASON_CHARS_def)
  have "check_identifier ''t'' = Inr ()" by (simp add: check_identifier_def text_eval)
  then have t: "stop_target ''t'' 1 stop_store_a = Inr ()" by (simp add: stop_target_def stop_store_a_def domain_def)
  obtain st1 where "execute stop_env_a 5 SharedBearer (command_a StopCancel) stop_store_a
      = Inr (\<lparr> done_receipt = new_receipt (command_a StopCancel) Accepted, done_changed = Some StopCancel \<rparr>, st1)"
    using execute_accepts[of stop_store_a stop_env_a "command_a StopCancel" "run_a 1 3" SharedBearer 5] stop_example
    by (auto simp: stop_env_a_def command_a_def)
  then have run: "stop stop_env_a 5 SharedBearer 1 (''t'', StopCancel, 0, '' why '') 77 stop_store_a
      = (Inr (new_receipt (command_a StopCancel) Accepted), st1)"
    using c t by (simp add: stop_def domain_def command_a_def)
  from stop_bounded[OF run stop_example(1)] run show ?thesis by (auto simp: stop_example(4))
qed

end
