(* ===== verification/Egress.thy ===== *)
theory Egress
  imports Prelude
begin

text \<open>
  Outbound traffic of sandboxed code (crates/aidash-domain/src/egress.rs): the hosts a Scratch
  Space may reach, the limits of an External service, the debits against them and the validation of
  a service's definition. URL parsing is the parameter \<open>url_parse\<close>, which returns the components the
  source reads.
\<close>

section \<open>Hosts\<close>

record scope_id =
  scope_tenant :: string
  scope_node :: string
  scratch_space :: uuid

definition DEFAULT_ALLOWED_HOSTS :: "string list" where
  "DEFAULT_ALLOWED_HOSTS =
     [''registry.npmjs.org'', ''pypi.org'', ''files.pythonhosted.org'', ''crates.io'',
      ''index.crates.io'', ''static.crates.io'', ''proxy.golang.org'', ''sum.golang.org'',
      ''github.com'', ''codeload.github.com'', ''objects.githubusercontent.com'',
      ''deb.debian.org'', ''security.debian.org'', ''archive.ubuntu.com'',
      ''security.ubuntu.com'', ''registry-1.docker.io'', ''auth.docker.io'',
      ''production.cloudflare.docker.com'', ''ghcr.io'', ''pkg-containers.githubusercontent.com'',
      ''quay.io'', ''cdn.quay.io'']"

record allowed_hosts =
  hosts :: "string list"
  allow_all :: bool

definition default_allowed_hosts :: allowed_hosts where
  "default_allowed_hosts = \<lparr> hosts = DEFAULT_ALLOWED_HOSTS, allow_all = False \<rparr>"

definition host_matches :: "string \<Rightarrow> string \<Rightarrow> bool" where
  "host_matches host pattern =
     (let pattern = to_ascii_lowercase pattern in
      case strip_prefix ''*.'' pattern of
        Some parent \<Rightarrow>
          parent \<noteq> [] \<and> (case strip_suffix parent host of
                            None \<Rightarrow> False
                          | Some label \<Rightarrow> label \<noteq> [] \<and> last label = CHR ''.'' \<and> length label > 1)
      | None \<Rightarrow> host = pattern)"

definition permits_host :: "allowed_hosts \<Rightarrow> string \<Rightarrow> bool \<Rightarrow> bool" where
  "permits_host a host operator_allows_all =
     (if host = [] \<or> \<not> list_all (\<lambda>c. byte c < 128) host then False
      else if allow_all a \<and> operator_allows_all then True
      else list_ex (host_matches (to_ascii_lowercase host)) (hosts a))"

section \<open>Limits and debits\<close>

record daily_budget =
  budget_sent :: u64
  budget_received :: u64

definition default_daily_budget :: daily_budget where
  "default_daily_budget = \<lparr> budget_sent = 100 * 2 ^ 30, budget_received = 100 * 2 ^ 30 \<rparr>"

record anomaly_rule =
  connections_per_minute :: u32

record limits =
  limit_sent :: u64
  limit_received :: u64
  limit_requests :: u32

definition default_limits :: limits where
  "default_limits = \<lparr> limit_sent = 2 ^ 30, limit_received = 2 ^ 30, limit_requests = 1000 \<rparr>"

definition limits_validate :: "limits \<Rightarrow> unit result" where
  "limits_validate l =
     refuse_if (limit_sent l = 0 \<or> limit_received l = 0 \<or> limit_requests l = 0
         \<or> limit_sent l > 2 ^ 63 - 1 \<or> limit_received l > 2 ^ 63 - 1 \<or> limit_requests l > 2 ^ 31 - 1)
       (Invalid ''External service limits must be positive signed integers'')"

definition lower_than :: "limits \<Rightarrow> limits \<Rightarrow> limits result" where
  "lower_than l ceiling =
     and_then (limits_validate l) (\<lambda>_.
       if limit_sent l > limit_sent ceiling \<or> limit_received l > limit_received ceiling
          \<or> limit_requests l > limit_requests ceiling
       then Inl (Invalid ''External service limits exceed Deployment ceilings'')
       else Inr l)"

record usage =
  used_sent :: u64
  used_received :: u64
  used_requests :: u32

datatype debit = Sent u64 | Received u64 | Request

definition exceeded :: error where
  "exceeded = Conflict ''egress_limit_exceeded''"

fun add_debit :: "debit \<Rightarrow> usage \<Rightarrow> usage result" where
  "add_debit (Sent n) u =
     (case checked_add (used_sent u) n of None \<Rightarrow> Inl exceeded | Some s \<Rightarrow> Inr (u\<lparr>used_sent := s\<rparr>))"
| "add_debit (Received n) u =
     (case checked_add (used_received u) n of None \<Rightarrow> Inl exceeded | Some s \<Rightarrow> Inr (u\<lparr>used_received := s\<rparr>))"
| "add_debit Request u =
     (case checked_add (used_requests u) 1 of None \<Rightarrow> Inl exceeded | Some s \<Rightarrow> Inr (u\<lparr>used_requests := s\<rparr>))"

definition usage_debit :: "limits \<Rightarrow> debit \<Rightarrow> usage \<Rightarrow> usage result" where
  "usage_debit l d u =
     and_then (add_debit d u) (\<lambda>u'.
       if used_sent u' > limit_sent l \<or> used_received u' > limit_received l
          \<or> used_requests u' > limit_requests l
       then Inl exceeded else Inr u')"

fun usage_record :: "limits \<Rightarrow> debit \<Rightarrow> usage \<Rightarrow> usage \<times> bool" where
  "usage_record l (Sent n) u =
     (let s = saturating_add (used_sent u) n in (u\<lparr>used_sent := s\<rparr>, n > 0 \<and> s \<ge> limit_sent l))"
| "usage_record l (Received n) u =
     (let s = saturating_add (used_received u) n
      in (u\<lparr>used_received := s\<rparr>, n > 0 \<and> s \<ge> limit_received l))"
| "usage_record l Request u =
     (let s = saturating_add (used_requests u) 1 in (u\<lparr>used_requests := s\<rparr>, s > limit_requests l))"

section \<open>External services\<close>

datatype authentication = Bearer | Header string

fun auth_header :: "authentication \<Rightarrow> string" where
  "auth_header Bearer = ''authorization''"
| "auth_header (Header name) = name"

record external_service =
  base_url :: string
  methods :: "string list"
  es_secret :: "string option"
  es_authentication :: authentication
  es_limits :: "limits option"

record url =
  url_scheme :: string
  url_host :: "string option"
  url_username :: string
  url_password :: "string option"
  url_query :: "string option"
  url_fragment :: "string option"

definition validate_secret_name :: "string \<Rightarrow> unit result" where
  "validate_secret_name name =
     refuse_if (length name > 64
         \<or> (case name of [] \<Rightarrow> True | c # _ \<Rightarrow> \<not> (is_ascii_lowercase c \<or> is_ascii_digit c))
         \<or> \<not> list_all (\<lambda>c. is_ascii_lowercase c \<or> is_ascii_digit c \<or> c = CHR ''-'' \<or> c = CHR ''_'') (tl name))
       (Invalid (''a Tenant Secret name has 1 to 64 lowercase letters, digits, '' @ CHR 0x27 # ''-''
          @ CHR 0x27 # '' or '' @ CHR 0x27 # ''_'' @ CHR 0x27 # '' and starts with a letter or digit''))"

definition FORBIDDEN_HEADERS :: "string list" where
  "FORBIDDEN_HEADERS =
     [''host'', ''connection'', ''transfer-encoding'', ''content-length'', ''cookie'',
      ''proxy-authorization'', ''upgrade'', ''te'', ''trailer'', ''expect'']"

definition starts_with :: "string \<Rightarrow> string \<Rightarrow> bool" where
  "starts_with p s \<longleftrightarrow> take (length p) s = p"

definition HTTP_METHODS :: "string list" where
  "HTTP_METHODS = [''GET'', ''HEAD'', ''POST'', ''PUT'', ''PATCH'', ''DELETE'', ''OPTIONS'']"

definition service_validate :: "(string \<Rightarrow> url option) \<Rightarrow> external_service \<Rightarrow> unit result" where
  "service_validate url_parse e =
     (case url_parse (base_url e) of
        None \<Rightarrow> Inl (Invalid ''invalid External service base URL'')
      | Some u \<Rightarrow>
          and_then (refuse_if (url_scheme u \<noteq> ''https'' \<or> url_host u = None \<or> url_username u \<noteq> []
              \<or> url_password u \<noteq> None \<or> url_query u \<noteq> None \<or> url_fragment u \<noteq> None)
            (Invalid ''External service requires one HTTPS base URL without credentials, query or fragment'')) (\<lambda>_.
          and_then (refuse_if (set_extend [] (methods e) = []
              \<or> length (set_extend [] (methods e)) \<noteq> length (methods e)
              \<or> list_ex (\<lambda>m. m \<notin> set HTTP_METHODS) (methods e))
            (Invalid ''External service methods must be unique HTTP methods; CONNECT and TRACE are forbidden'')) (\<lambda>_.
          and_then (case es_secret e of None \<Rightarrow> Inr () | Some name \<Rightarrow> validate_secret_name name) (\<lambda>_.
          let header = to_ascii_lowercase (auth_header (es_authentication e)) in
          and_then (refuse_if (header = []
              \<or> \<not> list_all (\<lambda>b. is_ascii_alphanumeric b \<or> b = CHR ''-'') header
              \<or> header \<in> set FORBIDDEN_HEADERS
              \<or> starts_with ''sec-'' header \<or> starts_with ''x-forwarded-'' header
              \<or> starts_with ''x-aidash-'' header)
            (Invalid ''invalid External service credential header'')) (\<lambda>_.
          case es_limits e of None \<Rightarrow> Inr () | Some l \<Rightarrow> limits_validate l)))))"

definition builtin_index :: "string \<Rightarrow> external_service \<Rightarrow> bool" where
  "builtin_index i e \<longleftrightarrow>
     es_secret e = None \<and> methods e = [''GET'', ''HEAD'']
     \<and> ((i, base_url e) = (''core.npm'', ''https://registry.npmjs.org/'')
        \<or> (i, base_url e) = (''core.pypi'', ''https://pypi.org/''))"

section \<open>Lemmas\<close>

text \<open>What a host pattern means: a name, or every proper subdomain of a name.\<close>

definition covers :: "string \<Rightarrow> string \<Rightarrow> bool" where
  "covers pattern host \<longleftrightarrow>
     (if take 2 pattern = ''*.''
      then \<exists>label. label \<noteq> [] \<and> drop 2 pattern \<noteq> [] \<and> host = label @ ''.'' @ drop 2 pattern
      else host = pattern)"

lemma dotted_label:
  "label \<noteq> [] \<and> last label = c \<and> Suc 0 < length label \<longleftrightarrow> (\<exists>l. l \<noteq> [] \<and> label = l @ [c])"
  by (cases label rule: rev_cases) auto

lemma host_matches_covers: "host_matches host pattern \<longleftrightarrow> covers (to_ascii_lowercase pattern) host"
proof (cases "strip_prefix ''*.'' (to_ascii_lowercase pattern)")
  case None
  then have "take 2 (to_ascii_lowercase pattern) \<noteq> ''*.''"
    by (auto simp: strip_prefix_def numeral_2_eq_2 split: if_splits)
  then show ?thesis using None by (simp add: host_matches_def covers_def)
next
  case (Some parent)
  then have pattern: "to_ascii_lowercase pattern = ''*.'' @ parent" by simp
  have "host_matches host pattern \<longleftrightarrow>
      parent \<noteq> [] \<and> (\<exists>label. strip_suffix parent host = Some label
        \<and> label \<noteq> [] \<and> last label = CHR ''.'' \<and> Suc 0 < length label)"
    unfolding host_matches_def Let_def Some by (simp del: strip_suffix_Some_iff split: option.split)
  also have "\<dots> \<longleftrightarrow> parent \<noteq> [] \<and> (\<exists>label. label \<noteq> [] \<and> host = label @ ''.'' @ parent)"
    unfolding strip_suffix_Some_iff dotted_label by auto
  finally show ?thesis using pattern by (auto simp: covers_def)
qed

text \<open>Usage and limits as natural numbers.\<close>

type_synonym amounts = "nat \<times> nat \<times> nat"

definition used :: "usage \<Rightarrow> amounts" where
  "used u = (unat (used_sent u), unat (used_received u), unat (used_requests u))"

fun plus_debit :: "debit \<Rightarrow> amounts \<Rightarrow> amounts" where
  "plus_debit (Sent n) (s, r, q) = (s + unat n, r, q)"
| "plus_debit (Received n) (s, r, q) = (s, r + unat n, q)"
| "plus_debit Request (s, r, q) = (s, r, q + 1)"

fun within :: "limits \<Rightarrow> amounts \<Rightarrow> bool" where
  "within l (s, r, q) \<longleftrightarrow> s \<le> unat (limit_sent l) \<and> r \<le> unat (limit_received l) \<and> q \<le> unat (limit_requests l)"

lemma unat_max64: "unat (x :: u64) \<le> 2 ^ 64 - 1"
  using unsigned_less[of x, where ?'a = nat] by simp

lemma unat_max32: "unat (x :: u32) \<le> 2 ^ 32 - 1"
  using unsigned_less[of x, where ?'a = nat] by simp

lemma add_debit_Inr: "add_debit d u = Inr u' \<Longrightarrow> used u' = plus_debit d (used u)"
  by (cases d) (auto simp: used_def unat_checked_add split: option.splits)

lemma add_debit_Inl: "add_debit d u = Inl e \<Longrightarrow> e = exceeded \<and> \<not> within l (plus_debit d (used u))"
  using unat_max64[of "limit_sent l"] unat_max64[of "limit_received l"] unat_max32[of "limit_requests l"]
  by (cases d) (auto simp: used_def checked_add_def split: option.splits if_splits)

text \<open>A gateway that records the bodies it streams and stops at the first exhausted budget.\<close>

fun streamed :: "limits \<Rightarrow> debit list \<Rightarrow> usage \<Rightarrow> usage \<times> bool" where
  "streamed l [] u = (u, False)"
| "streamed l (d # ds) u =
     (case usage_record l d u of (u', stop) \<Rightarrow> if stop then (u', True) else streamed l ds u')"

lemma record_Sent:
  assumes "usage_record l (Sent n) u = (u', stop)" "used_sent u < limit_sent l"
  shows "stop \<longleftrightarrow> unat (limit_sent l) \<le> unat (used_sent u')"
    and "\<not> stop \<Longrightarrow> unat (used_sent u') = unat (used_sent u) + unat n"
    and "unat (used_sent u') \<le> unat (used_sent u) + unat n"
proof -
  have s: "unat (used_sent u') = min (unat (used_sent u) + unat n) (2 ^ 64 - 1)"
    and stop: "stop \<longleftrightarrow> 0 < n \<and> limit_sent l \<le> used_sent u'"
    using assms(1) by (auto simp: Let_def unat_saturating_add)
  have less: "unat (used_sent u) < unat (limit_sent l)" using assms(2) by (simp add: word_less_nat_alt)
  show "stop \<longleftrightarrow> unat (limit_sent l) \<le> unat (used_sent u')"
    using stop s less by (cases "n = 0") (auto simp: word_le_nat_alt word_neq_0_conv)
  then show "\<not> stop \<Longrightarrow> unat (used_sent u') = unat (used_sent u) + unat n"
    using s unat_max64[of "limit_sent l"] by (auto simp: min_def split: if_splits)
  show "unat (used_sent u') \<le> unat (used_sent u) + unat n" using s by simp
qed

lemma streamed_Sent:
  assumes "streamed l (map Sent ns) u = (u', stopped)" "used_sent u < limit_sent l"
  shows "if stopped
    then \<exists>k < length ns. unat (used_sent u) + sum_list (map unat (take k ns)) < unat (limit_sent l)
       \<and> unat (limit_sent l) \<le> unat (used_sent u')
       \<and> unat (used_sent u') \<le> unat (used_sent u) + sum_list (map unat (take (Suc k) ns))
    else unat (used_sent u') = unat (used_sent u) + sum_list (map unat ns) \<and> unat (used_sent u') < unat (limit_sent l)"
  using assms
proof (induction ns arbitrary: u)
  case Nil
  then show ?case by (simp add: word_less_nat_alt)
next
  case (Cons n ns)
  obtain v stop where v: "usage_record l (Sent n) u = (v, stop)" by (cases "usage_record l (Sent n) u")
  note r = record_Sent[OF v Cons.prems(2)]
  show ?case
  proof (cases stop)
    case True
    then have "u' = v" "stopped" using Cons.prems(1) v by auto
    then show ?thesis using r True Cons.prems(2) by (auto intro!: exI[of _ 0] simp: word_less_nat_alt)
  next
    case False
    then have "streamed l (map Sent ns) v = (u', stopped)" using Cons.prems(1) v by simp
    moreover have "used_sent v < limit_sent l" using r(1) False by (simp add: word_less_nat_alt)
    ultimately have ih: "if stopped
      then \<exists>k < length ns. unat (used_sent v) + sum_list (map unat (take k ns)) < unat (limit_sent l)
         \<and> unat (limit_sent l) \<le> unat (used_sent u')
         \<and> unat (used_sent u') \<le> unat (used_sent v) + sum_list (map unat (take (Suc k) ns))
      else unat (used_sent u') = unat (used_sent v) + sum_list (map unat ns) \<and> unat (used_sent u') < unat (limit_sent l)"
      by (rule Cons.IH)
    show ?thesis
    proof (cases stopped)
      case True
      with ih obtain k where "k < length ns" "unat (used_sent v) + sum_list (map unat (take k ns)) < unat (limit_sent l)"
        "unat (limit_sent l) \<le> unat (used_sent u')"
        "unat (used_sent u') \<le> unat (used_sent v) + sum_list (map unat (take (Suc k) ns))" by auto
      then show ?thesis using r(2) False True by (auto intro!: exI[of _ "Suc k"])
    qed (use ih r(2) False in simp)
  qed
qed

section \<open>Properties\<close>

text \<open>
  A Scratch Space reaches exactly the hosts its settings name: an ASCII host is
  permitted when both the settings and the operator allow every host, or when, ignoring case, it
  equals a listed name or is a proper subdomain of a name listed with a leading \<open>*.\<close>; no pattern
  admits the parent itself or a name that merely ends like it.
\<close>

theorem hosts_permitted:
  "permits_host a host operator_allows_all \<longleftrightarrow>
     host \<noteq> [] \<and> list_all (\<lambda>c. byte c < 128) host
     \<and> (allow_all a \<and> operator_allows_all
        \<or> list_ex (\<lambda>pattern. covers (to_ascii_lowercase pattern) (to_ascii_lowercase host)) (hosts a))"
  by (auto simp: permits_host_def host_matches_covers list_ex_iff)

text \<open>
  A debit counts exactly, without wrap-around: it succeeds exactly when the exact
  totals after it are within the limits, and then holds those totals; otherwise it is refused as
  exceeding the limit, and the caller keeps the usage it had.
\<close>

theorem debit_exact:
  "case usage_debit l d u of
     Inr u' \<Rightarrow> used u' = plus_debit d (used u) \<and> within l (used u')
   | Inl e \<Rightarrow> e = Conflict ''egress_limit_exceeded'' \<and> \<not> within l (plus_debit d (used u))"
proof (cases "add_debit d u")
  case (Inl e)
  then show ?thesis using add_debit_Inl[of d u e l] by (simp add: usage_debit_def exceeded_def)
next
  case (Inr u')
  from add_debit_Inr[OF Inr] have "plus_debit d (used u) = used u'" by simp
  then show ?thesis using Inr by (auto simp: usage_debit_def exceeded_def used_def word_less_nat_alt not_less)
qed

text \<open>
  A budget of bytes is exceeded by at most one debit: as long as a stream goes on, the
  counter holds exactly the bytes sent and is below the limit; when it is stopped, the bytes before
  the last debit were below the limit and the counter has reached it, never counting more than was sent.
\<close>

theorem overshoot_one_debit:
  assumes "streamed l (map Sent ns) u = (u', stopped)" "used_sent u < limit_sent l"
  shows "if stopped
    then \<exists>k < length ns. unat (used_sent u) + sum_list (map unat (take k ns)) < unat (limit_sent l)
       \<and> unat (limit_sent l) \<le> unat (used_sent u')
       \<and> unat (used_sent u') \<le> unat (used_sent u) + sum_list (map unat (take (Suc k) ns))
    else unat (used_sent u') = unat (used_sent u) + sum_list (map unat ns) \<and> unat (used_sent u') < unat (limit_sent l)"
  using streamed_Sent[OF assms] .

theorem overshoot_one_debit_witness:
  "\<exists>u'. streamed \<lparr> limit_sent = 10, limit_received = 5, limit_requests = 1 \<rparr> (map Sent [7, 8, 9])
     \<lparr> used_sent = 0, used_received = 0, used_requests = 0 \<rparr> = (u', True) \<and> 10 \<le> unat (used_sent u')"
proof -
  let ?l = "\<lparr> limit_sent = 10, limit_received = 5, limit_requests = 1 \<rparr>"
  let ?u = "\<lparr> used_sent = 0, used_received = 0, used_requests = 0 \<rparr>"
  have "streamed ?l (map Sent [7, 8, 9]) ?u = (?u\<lparr>used_sent := 15\<rparr>, True)"
    by (simp add: saturating_add_def)
  from overshoot_one_debit[OF this] this show ?thesis by simp
qed

end
