(* ===== verification/Scope_Egress.thy ===== *)
theory Scope_Egress
  imports Egress Failures
begin

text \<open>
  Durable accounting of a Scratch Space's traffic
  (server/src/apps/execution/repositories/scope\_egress.rs): daily counters of bytes, the rate of
  new connections with the suspension of a scope, and the meter of an External service, which
  charges two ledgers and stays exact when one of them is unavailable.

  Each operation is one database transaction: it returns its answer and the store it leaves, which
  is the store it found when it fails before the commit. The authority of the Scratch Space
  (\<open>ScopeAuthority\<close>) is a parameter. Counters are signed 64-bit columns, modelled as integers with
  the checks written out; days are numbers. Server and application errors share \<open>failure\<close>.
\<close>

section \<open>The store\<close>

record scope_state =
  ss_tenant :: string
  ss_node :: string
  suspended :: bool
  window_started_at :: datetime
  connections_in_window :: int

record scope_daily =
  sd_sent :: int
  sd_received :: int

record scope_connection =
  sc_scope :: scope_id
  sc_host :: string
  sc_port :: "16 word"
  sc_sent :: int
  sc_received :: int
  sc_duration :: int
  sc_outcome :: string
  sc_created_at :: datetime

record connection_record =
  cn_id :: uuid
  cn_scope :: scope_id
  cn_host :: string
  cn_port :: "16 word"
  cn_sent :: nat
  cn_received :: nat
  cn_duration :: nat
  cn_outcome :: string

type_synonym daily_key = "scope_id \<times> int \<times> string"

record egress_store =
  states :: "uuid \<Rightarrow> scope_state option"
  dailies :: "daily_key \<Rightarrow> scope_daily option"
  connections :: "uuid \<Rightarrow> scope_connection option"
  suspension_events :: "(scope_id \<times> datetime) list"

record scope_settings =
  se_id :: scope_id
  se_allowed_hosts :: allowed_hosts
  se_budget :: daily_budget
  se_anomaly :: anomaly_rule
  se_operator_allows_all :: bool

datatype direction = DirSent | DirReceived

text \<open>\<open>ScopeAuthority::current\<close> and \<open>authenticate\<close>.\<close>

record authority =
  current :: "scope_id \<Rightarrow> failure + scope_settings"
  authenticate :: "string \<Rightarrow> failure + scope_settings"

section \<open>Integers of the database\<close>

definition I64_MAX :: int where "I64_MAX = 2 ^ 63 - 1"
definition I32_MAX :: int where "I32_MAX = 2 ^ 31 - 1"

text \<open>\<open>i64::try_from\<close> of a \<open>u64\<close>, \<open>as u64\<close>, and \<open>i64::checked_add\<close>, \<open>saturating_add\<close>.\<close>

definition to_i64 :: "nat \<Rightarrow> failure + int" where
  "to_i64 n = (if int n \<le> I64_MAX then Inr (int n) else Inl Forbidden)"

definition as_u64 :: "int \<Rightarrow> int" where
  "as_u64 v = v mod 2 ^ 64"

definition i64_checked_add :: "int \<Rightarrow> int \<Rightarrow> int option" where
  "i64_checked_add a b = (if - (2 ^ 63) \<le> a + b \<and> a + b \<le> I64_MAX then Some (a + b) else None)"

definition i64_saturating_add :: "int \<Rightarrow> int \<Rightarrow> int" where
  "i64_saturating_add a b = max (- (2 ^ 63)) (min (a + b) I64_MAX)"

section \<open>Counters\<close>

fun counter :: "direction \<Rightarrow> scope_daily \<Rightarrow> int" where
  "counter DirSent row = sd_sent row"
| "counter DirReceived row = sd_received row"

fun set_counter :: "direction \<Rightarrow> int \<Rightarrow> scope_daily \<Rightarrow> scope_daily" where
  "set_counter DirSent v row = row\<lparr>sd_sent := v\<rparr>"
| "set_counter DirReceived v row = row\<lparr>sd_received := v\<rparr>"

fun budget_of :: "direction \<Rightarrow> daily_budget \<Rightarrow> u64" where
  "budget_of DirSent b = budget_sent b"
| "budget_of DirReceived b = budget_received b"

fun limit_of :: "direction \<Rightarrow> limits \<Rightarrow> u64" where
  "limit_of DirSent l = limit_sent l"
| "limit_of DirReceived l = limit_received l"

definition bounded_max :: "u64 \<Rightarrow> int" where
  "bounded_max m = min (int (unat m)) I64_MAX"

definition budget_exhausted :: failure where
  "budget_exhausted = FConflict ''egress_budget_exhausted''"

definition add_row :: "direction \<Rightarrow> int \<Rightarrow> u64 \<Rightarrow> scope_daily \<Rightarrow> failure + scope_daily" where
  "add_row dir bytes m row =
     (case i64_checked_add (counter dir row) bytes of
        None \<Rightarrow> Inl budget_exhausted
      | Some v \<Rightarrow> if 0 \<le> v \<and> as_u64 v \<le> bounded_max m then Inr (set_counter dir v row) else Inl budget_exhausted)"

definition charge_row ::
  "direction \<Rightarrow> int \<Rightarrow> u64 \<Rightarrow> bool \<Rightarrow> scope_daily \<Rightarrow> failure + scope_daily \<times> bool" where
  "charge_row dir bytes m forwarded row =
     (if \<not> forwarded then and_then (add_row dir bytes m row) (\<lambda>row. Inr (row, False))
      else let v = i64_saturating_add (counter dir row) bytes
           in Inr (set_counter dir v row, 0 < bytes \<and> bounded_max m \<le> as_u64 v))"

definition budget_available :: "scope_daily \<Rightarrow> u64 \<Rightarrow> u64 \<Rightarrow> failure + unit" where
  "budget_available row sent received =
     refuse_if (bounded_max sent \<le> as_u64 (sd_sent row) \<or> bounded_max received \<le> as_u64 (sd_received row))
       budget_exhausted"

text \<open>\<open>daily\<close> inserts an empty row where there is none.\<close>

definition daily_row :: "daily_key \<Rightarrow> egress_store \<Rightarrow> scope_daily" where
  "daily_row k st = (case dailies st k of Some row \<Rightarrow> row | None \<Rightarrow> \<lparr> sd_sent = 0, sd_received = 0 \<rparr>)"

definition save_daily :: "daily_key \<Rightarrow> scope_daily \<Rightarrow> egress_store \<Rightarrow> egress_store" where
  "save_daily k row st = st\<lparr>dailies := (dailies st)(k \<mapsto> row)\<rparr>"

section \<open>Operations\<close>

definition live :: "authority \<Rightarrow> scope_id \<Rightarrow> failure + scope_settings" where
  "live A i = and_then (current A i) (\<lambda>s. if se_id s \<noteq> i then Inl Forbidden else Inr s)"

definition locked_state :: "scope_id \<Rightarrow> egress_store \<Rightarrow> failure + scope_state" where
  "locked_state i st =
     (case states st (scratch_space i) of
        Some s \<Rightarrow> if ss_tenant s = scope_tenant i \<and> ss_node s = scope_node i then Inr s else Inl Forbidden
      | None \<Rightarrow> Inl Forbidden)"

definition not_suspended :: "scope_id \<Rightarrow> egress_store \<Rightarrow> failure + scope_state" where
  "not_suspended i st =
     and_then (locked_state i st) (\<lambda>s. if suspended s then Inl (FConflict ''egress_suspended'') else Inr s)"

definition initialize :: "datetime \<Rightarrow> scope_id \<Rightarrow> egress_store \<Rightarrow> failure + egress_store" where
  "initialize now i st =
     (let st' = (if states st (scratch_space i) = None
                 then st\<lparr>states := (states st)(scratch_space i \<mapsto>
                        \<lparr> ss_tenant = scope_tenant i, ss_node = scope_node i, suspended = False,
                          window_started_at = now, connections_in_window = 0 \<rparr>)\<rparr>
                 else st)
      in and_then (locked_state i st') (\<lambda>_. Inr st'))"

definition charge_rows ::
  "authority \<Rightarrow> scope_id \<Rightarrow> direction \<Rightarrow> nat \<Rightarrow> int \<Rightarrow> (string \<times> limits) option \<Rightarrow> bool \<Rightarrow> egress_store
     \<Rightarrow> failure + bool \<times> egress_store" where
  "charge_rows A i dir bytes day service forwarded st =
     and_then (live A i) (\<lambda>cur.
     and_then (to_i64 bytes) (\<lambda>n.
     and_then (not_suspended (se_id cur) st) (\<lambda>_.
     and_then (charge_row dir n (budget_of dir (se_budget cur)) forwarded (daily_row (se_id cur, day, []) st)) (\<lambda>(total, exhausted).
     case service of
       None \<Rightarrow> Inr (exhausted, save_daily (se_id cur, day, []) total st)
     | Some (name, l) \<Rightarrow>
         and_then (charge_row dir n (limit_of dir l) forwarded (daily_row (se_id cur, day, name) st)) (\<lambda>(row, exhausted').
           Inr (exhausted \<or> exhausted',
                save_daily (se_id cur, day, name) row (save_daily (se_id cur, day, []) total st)))))))"

definition charge ::
  "authority \<Rightarrow> scope_id \<Rightarrow> direction \<Rightarrow> nat \<Rightarrow> int \<Rightarrow> (string \<times> limits) option \<Rightarrow> bool \<Rightarrow> egress_store
     \<Rightarrow> (failure + unit) \<times> egress_store" where
  "charge A i dir bytes day service forwarded st =
     (case charge_rows A i dir bytes day service forwarded st of
        Inl e \<Rightarrow> (Inl e, st)
      | Inr (exhausted, st') \<Rightarrow> (if exhausted then Inl budget_exhausted else Inr (), st'))"

definition refund_row :: "direction \<Rightarrow> int \<Rightarrow> daily_key \<Rightarrow> egress_store \<Rightarrow> failure + egress_store" where
  "refund_row dir bytes k st =
     (let v = counter dir (daily_row k st) - bytes
      in if 0 \<le> v then Inr (save_daily k (set_counter dir v (daily_row k st)) st) else Inl Forbidden)"

definition refund_usage ::
  "scope_id \<Rightarrow> direction \<Rightarrow> nat \<Rightarrow> int \<Rightarrow> string option \<Rightarrow> egress_store \<Rightarrow> failure + egress_store" where
  "refund_usage i dir bytes day service st =
     and_then (to_i64 bytes) (\<lambda>n.
     and_then (locked_state i st) (\<lambda>_.
       fold_each (\<lambda>name. refund_row dir n (i, day, name))
         ([] # (case service of None \<Rightarrow> [] | Some name \<Rightarrow> [name])) st))"

definition application_error :: "failure \<Rightarrow> failure" where
  "application_error e =
     (case e of
        FConflict code \<Rightarrow>
          if code = ''egress_budget_exhausted'' \<or> code = ''egress_suspended'' then FRefused code else e
      | _ \<Rightarrow> e)"

definition map_error :: "('e \<Rightarrow> 'f) \<Rightarrow> 'e + 'a \<Rightarrow> 'f + 'a" where
  "map_error f r = (case r of Inl e \<Rightarrow> Inl (f e) | Inr x \<Rightarrow> Inr x)"

definition scope_debit ::
  "authority \<Rightarrow> scope_id \<Rightarrow> direction \<Rightarrow> nat \<Rightarrow> int \<Rightarrow> egress_store \<Rightarrow> (failure + unit) \<times> egress_store" where
  "scope_debit A i dir bytes day st =
     (case charge A i dir bytes day None False st of (r, st') \<Rightarrow> (map_error application_error r, st'))"

definition scope_refund ::
  "scope_id \<Rightarrow> direction \<Rightarrow> nat \<Rightarrow> int \<Rightarrow> egress_store \<Rightarrow> (failure + unit) \<times> egress_store" where
  "scope_refund i dir bytes day st =
     (case refund_usage i dir bytes day None st of
        Inl e \<Rightarrow> (Inl (application_error e), st)
      | Inr st' \<Rightarrow> (Inr (), st'))"

definition scope_resolve ::
  "authority \<Rightarrow> datetime \<Rightarrow> string \<Rightarrow> egress_store \<Rightarrow> (failure + scope_settings) \<times> egress_store" where
  "scope_resolve A now credential st =
     (case authenticate A credential of
        Inl e \<Rightarrow> (Inl e, st)
      | Inr s \<Rightarrow>
          (case initialize now (se_id s) st of
             Inl e \<Rightarrow> (Inl (application_error e), st)
           | Inr st' \<Rightarrow> (live A (se_id s), st')))"

definition check_active :: "authority \<Rightarrow> scope_id \<Rightarrow> string \<Rightarrow> egress_store \<Rightarrow> failure + scope_settings" where
  "check_active A i credential st =
     and_then (authenticate A credential) (\<lambda>s.
     if se_id s \<noteq> i then Inl Forbidden
     else and_then (live A i) (\<lambda>cur.
          and_then (map_error application_error (not_suspended (se_id cur) st)) (\<lambda>_. Inr cur)))"

definition check_budget ::
  "int \<Rightarrow> scope_settings \<Rightarrow> (string \<times> limits) option \<Rightarrow> egress_store \<Rightarrow> failure + unit" where
  "check_budget today s service st =
     and_then (budget_available (daily_row (se_id s, today, []) st)
                 (budget_sent (se_budget s)) (budget_received (se_budget s))) (\<lambda>_.
     case service of
       None \<Rightarrow> Inr ()
     | Some (name, l) \<Rightarrow>
         budget_available (daily_row (se_id s, today, name) st) (limit_sent l) (limit_received l))"

text \<open>Reading a counter through \<open>daily\<close> leaves a row behind when the transaction commits.\<close>

definition touch_daily :: "daily_key \<Rightarrow> egress_store \<Rightarrow> egress_store" where
  "touch_daily k st = save_daily k (daily_row k st) st"

definition next_window :: "datetime \<Rightarrow> scope_state \<Rightarrow> scope_state" where
  "next_window now s =
     (let s = (if now - window_started_at s \<ge> seconds 60
               then s\<lparr>window_started_at := now, connections_in_window := 0\<rparr> else s)
      in s\<lparr>connections_in_window := min (connections_in_window s + 1) I32_MAX\<rparr>)"

definition too_many :: "anomaly_rule \<Rightarrow> scope_state \<Rightarrow> bool" where
  "too_many rule s \<longleftrightarrow>
     (if 0 \<le> connections_in_window s then connections_in_window s else 2 ^ 32 - 1)
       > int (unat (connections_per_minute rule))"

definition admit_connection ::
  "authority \<Rightarrow> datetime \<Rightarrow> int \<Rightarrow> scope_id \<Rightarrow> egress_store \<Rightarrow> (failure + unit) \<times> egress_store" where
  "admit_connection A now today i st =
     (case and_then (live A i) (\<lambda>cur.
           and_then (map_error application_error (not_suspended (se_id cur) st)) (\<lambda>s.
           and_then (map_error application_error (check_budget today cur None st)) (\<lambda>_. Inr (cur, s)))) of
        Inl e \<Rightarrow> (Inl e, st)
      | Inr (cur, s) \<Rightarrow>
          let s' = next_window now s; stop = too_many (se_anomaly cur) s';
              s'' = (if stop then s'\<lparr>suspended := True\<rparr> else s');
              st1 = touch_daily (se_id cur, today, []) st;
              st' = st1\<lparr>states := (states st)(scratch_space (se_id cur) \<mapsto> s''),
                       suspension_events := (if stop then suspension_events st @ [(se_id cur, now)]
                                             else suspension_events st)\<rparr>
          in (if stop then Inl (FRefused ''egress_suspended'') else Inr (), st'))"

text \<open>What \<open>admit_external\<close> reads of an \<open>Admission\<close>.\<close>

record admission =
  ad_operation :: "uuid option"
  ad_session :: "uuid option"
  ad_service :: string
  ad_limits :: "limits option"

definition admit_external ::
  "authority \<Rightarrow> (scope_id \<Rightarrow> string \<Rightarrow> failure + admission) \<Rightarrow> datetime \<Rightarrow> int \<Rightarrow> string \<Rightarrow> string \<Rightarrow> egress_store
     \<Rightarrow> (failure + scope_settings \<times> admission) \<times> egress_store" where
  "admit_external A admits now today credential service st =
     (case scope_resolve A now credential st of
        (Inl e, st1) \<Rightarrow> (Inl e, st1)
      | (Inr resolved, st1) \<Rightarrow>
          (case and_then (check_active A (se_id resolved) credential st1) (\<lambda>s.
                and_then (admits (se_id s) service) (\<lambda>ad.
                if ad_operation ad \<noteq> None \<or> ad_session ad \<noteq> None \<or> ad_service ad \<noteq> service
                then Inl Forbidden
                else and_then (map_error application_error (not_suspended (se_id s) st1)) (\<lambda>_.
                     and_then (map_error application_error
                         (check_budget today s (map_option (Pair service) (ad_limits ad)) st1)) (\<lambda>_. Inr (s, ad))))) of
             Inl e \<Rightarrow> (Inl e, st1)
           | Inr (s, ad) \<Rightarrow>
               (Inr (s, ad),
                let st2 = touch_daily (se_id s, today, []) st1
                in if ad_limits ad = None then st2 else touch_daily (se_id s, today, service) st2)))"

definition record_connection :: "datetime \<Rightarrow> connection_record \<Rightarrow> egress_store \<Rightarrow> (failure + unit) \<times> egress_store" where
  "record_connection now r st =
     (case and_then (to_i64 (cn_sent r)) (\<lambda>s. and_then (to_i64 (cn_received r)) (\<lambda>v.
           and_then (to_i64 (cn_duration r)) (\<lambda>d. Inr (s, v, d)))) of
        Inl e \<Rightarrow> (Inl e, st)
      | Inr (s, v, d) \<Rightarrow>
          (Inr (), st\<lparr>connections := (connections st)(cn_id r \<mapsto>
             \<lparr> sc_scope = cn_scope r, sc_host = cn_host r, sc_port = cn_port r, sc_sent = s,
               sc_received = v, sc_duration = d, sc_outcome = cn_outcome r,
               sc_created_at = (case connections st (cn_id r) of None \<Rightarrow> now | Some c \<Rightarrow> sc_created_at c) \<rparr>)\<rparr>))"

definition lift_suspension :: "datetime \<Rightarrow> scope_id \<Rightarrow> egress_store \<Rightarrow> (failure + unit) \<times> egress_store" where
  "lift_suspension now i st =
     (case locked_state i st of
        Inl e \<Rightarrow> (Inl (application_error e), st)
      | Inr s \<Rightarrow> (Inr (), st\<lparr>states := (states st)(scratch_space i \<mapsto>
          s\<lparr>suspended := False, connections_in_window := 0, window_started_at := now\<rparr>)\<rparr>))"

section \<open>The meter of an External service\<close>

definition decides :: "failure \<Rightarrow> bool" where
  "decides e \<longleftrightarrow>
     (case e of
        Forbidden \<Rightarrow> True
      | Unauthorized \<Rightarrow> True
      | AuthorityRefused \<Rightarrow> True
      | FRefused code \<Rightarrow> code = ''egress_budget_exhausted'' \<or> code = ''egress_suspended''
      | FConflict code \<Rightarrow> code = ''egress_limit_exceeded'' \<or> code = ''operation_expired''
      | _ \<Rightarrow> False)"

record taken =
  tk_bytes :: nat
  tk_stop :: "failure option"

definition none_taken :: taken where
  "none_taken = \<lparr> tk_bytes = 0, tk_stop = None \<rparr>"

definition still_owed :: "nat \<Rightarrow> taken \<Rightarrow> nat option" where
  "still_owed bytes t = (if bytes = 0 \<or> tk_bytes t < bytes then Some (bytes - min (tk_bytes t) bytes) else None)"

text \<open>
  One side of a charge: it is asked for what it still owes, and remembers what it took. The answer
  is an error only when the side could not be asked.
\<close>

type_synonym 's side = "nat \<Rightarrow> 's \<Rightarrow> (failure + unit) \<times> 's"

definition ask_side :: "'s side \<Rightarrow> nat \<Rightarrow> taken \<times> 's \<Rightarrow> failure option \<times> taken \<times> 's" where
  "ask_side side bytes = (\<lambda>(t, s).
     case still_owed bytes t of
       None \<Rightarrow> (None, t, s)
     | Some owed \<Rightarrow>
         (case side owed s of
            (Inr _, s') \<Rightarrow> (None, t\<lparr>tk_bytes := tk_bytes t + owed\<rparr>, s')
          | (Inl e, s') \<Rightarrow>
              if decides e then (None, t\<lparr>tk_bytes := tk_bytes t + owed, tk_stop := Some e\<rparr>, s')
              else (Some e, t, s')))"

definition meter_charge ::
  "'s side \<Rightarrow> 'a side \<Rightarrow> nat \<Rightarrow> (taken \<times> 's) \<times> (taken \<times> 'a)
     \<Rightarrow> (failure + unit) \<times> (taken \<times> 's) \<times> (taken \<times> 'a)" where
  "meter_charge scope audit bytes = (\<lambda>(x, y).
     case ask_side scope bytes x of
       (e1, t, s) \<Rightarrow>
         (case ask_side audit bytes y of
            (e2, u, a) \<Rightarrow>
              (case (case e1 of Some e \<Rightarrow> Some e | None \<Rightarrow> e2) of
                 Some e \<Rightarrow> (Inl e, (t, s), (u, a))
               | None \<Rightarrow>
                   let t' = t\<lparr>tk_bytes := tk_bytes t - bytes\<rparr>; u' = u\<lparr>tk_bytes := tk_bytes u - bytes\<rparr>
                   in case tk_stop t' of
                        Some stop \<Rightarrow> (Inl stop, (t'\<lparr>tk_stop := None\<rparr>, s), (u'\<lparr>tk_stop := None\<rparr>, a))
                      | None \<Rightarrow> (case tk_stop u' of
                          Some stop \<Rightarrow> (Inl stop, (t', s), (u'\<lparr>tk_stop := None\<rparr>, a))
                        | None \<Rightarrow> (Inr (), (t', s), (u', a))))))"

definition scope_side :: "authority \<Rightarrow> scope_id \<Rightarrow> direction \<Rightarrow> int \<Rightarrow> (string \<times> limits) option \<Rightarrow> egress_store side" where
  "scope_side A i dir day service bytes st =
     (case charge A i dir bytes day service True st of (r, st') \<Rightarrow> (map_error application_error r, st'))"

section \<open>Lemmas on the counters\<close>

lemma counter_set [simp]: "counter dir (set_counter dir v row) = v"
  by (cases dir) simp_all

lemma counter_set_other [simp]: "dir \<noteq> dir' \<Longrightarrow> counter dir (set_counter dir' v row) = counter dir row"
  by (cases dir; cases dir') simp_all

lemma set_counter_same [simp]: "set_counter dir (counter dir row) (set_counter dir v row) = row"
  by (cases dir) simp_all

lemma daily_row_save: "daily_row k (save_daily k' row st) = (if k = k' then row else daily_row k st)"
  by (simp add: daily_row_def save_daily_def)

lemma daily_row_touch [simp]: "daily_row k (touch_daily k' st) = daily_row k st"
  by (simp add: touch_daily_def daily_row_save)

lemma states_save [simp]: "states (save_daily k row st) = states st" "states (touch_daily k st) = states st"
  by (simp_all add: save_daily_def touch_daily_def)

lemma as_u64_small [simp]: "0 \<le> v \<Longrightarrow> v \<le> I64_MAX \<Longrightarrow> as_u64 v = v"
  by (simp add: as_u64_def I64_MAX_def)

lemma bounded_max_le: "bounded_max m \<le> I64_MAX" "0 \<le> bounded_max m"
  by (simp_all add: bounded_max_def I64_MAX_def)

lemma map_error_Inr_iff [simp]: "map_error f r = Inr x \<longleftrightarrow> r = Inr x"
  by (cases r) (simp_all add: map_error_def)

text \<open>All counters are within their columns and not negative.\<close>

definition counter_ok :: "int \<Rightarrow> bool" where
  "counter_ok v \<longleftrightarrow> 0 \<le> v \<and> v \<le> I64_MAX"

definition row_ok :: "scope_daily \<Rightarrow> bool" where
  "row_ok row \<longleftrightarrow> counter_ok (sd_sent row) \<and> counter_ok (sd_received row)"

definition egress_ok :: "egress_store \<Rightarrow> bool" where
  "egress_ok st \<longleftrightarrow> (\<forall>k row. dailies st k = Some row \<longrightarrow> row_ok row)"

lemma row_ok_counter: "row_ok row \<Longrightarrow> counter_ok (counter dir row)"
  by (cases dir) (simp_all add: row_ok_def)

lemma row_ok_set: "row_ok row \<Longrightarrow> counter_ok v \<Longrightarrow> row_ok (set_counter dir v row)"
  by (cases dir) (simp_all add: row_ok_def)

lemma egress_ok_row: "egress_ok st \<Longrightarrow> row_ok (daily_row k st)"
proof (cases "dailies st k")
  case None
  then show ?thesis by (simp add: daily_row_def row_ok_def counter_ok_def I64_MAX_def)
next
  case (Some row)
  assume "egress_ok st"
  then have "row_ok row" using Some unfolding egress_ok_def by blast
  then show ?thesis using Some by (simp add: daily_row_def)
qed

lemma egress_ok_save: "egress_ok st \<Longrightarrow> row_ok row \<Longrightarrow> egress_ok (save_daily k row st)"
  by (simp add: egress_ok_def save_daily_def)

lemma add_row_Inr:
  assumes "add_row dir n m row = Inr row'"
  shows "row' = set_counter dir (counter dir row + n) row"
    and "0 \<le> counter dir row + n" "counter dir row + n \<le> bounded_max m"
  using assms bounded_max_le[of m]
  by (auto simp: add_row_def i64_checked_add_def split: option.splits if_splits)

lemma add_row_counter: "add_row dir n m row = Inr row' \<Longrightarrow>
    counter dir row' = counter dir row + n \<and> counter dir row' \<le> bounded_max m"
  using add_row_Inr[of dir n m row row'] by simp

lemma charge_row_Inr:
  assumes "charge_row dir n m forwarded row = Inr (row', exhausted)" "row_ok row" "0 \<le> n" "n \<le> I64_MAX"
  shows "row' = set_counter dir (counter dir row') row" "row_ok row'"
    and "counter dir row \<le> counter dir row'" "counter dir row' \<le> counter dir row + n"
    and "\<not> exhausted \<Longrightarrow> counter dir row' = counter dir row + n"
proof -
  have c: "0 \<le> counter dir row" "counter dir row \<le> I64_MAX"
    using row_ok_counter[OF assms(2), of dir] by (simp_all add: counter_ok_def)
  show "row' = set_counter dir (counter dir row') row"
    using assms(1) by (auto simp: charge_row_def Let_def and_then_Inr_iff dest!: add_row_Inr(1) split: if_splits)
  have v: "(if forwarded then counter dir row' = min (counter dir row + n) I64_MAX
             \<and> (exhausted \<longleftrightarrow> 0 < n \<and> bounded_max m \<le> as_u64 (counter dir row'))
           else \<not> exhausted \<and> counter dir row' = counter dir row + n \<and> counter dir row' \<le> bounded_max m)"
    using assms(1,3) c
    by (auto simp: charge_row_def Let_def and_then_Inr_iff i64_saturating_add_def I64_MAX_def
        dest: add_row_counter split: if_splits)
  then show "counter dir row \<le> counter dir row'" "counter dir row' \<le> counter dir row + n"
    using c assms(3) by (auto split: if_splits)
  have ok: "counter_ok (counter dir row')"
    using v c assms(3) bounded_max_le[of m] by (auto simp: counter_ok_def split: if_splits)
  show "row_ok row'" using row_ok_set[OF assms(2) ok] \<open>row' = set_counter dir (counter dir row') row\<close> by metis
  show "counter dir row' = counter dir row + n" if "\<not> exhausted"
    using v that c assms(3) ok bounded_max_le[of m] by (auto simp: counter_ok_def split: if_splits)
qed

lemma charge_row_forwarded:
  assumes "charge_row dir n m True row = Inr (row', exhausted)" "row_ok row" "0 \<le> n"
  shows "counter dir row' = min (counter dir row + n) I64_MAX"
  using assms row_ok_counter[OF assms(2), of dir]
  by (auto simp: charge_row_def Let_def i64_saturating_add_def counter_ok_def I64_MAX_def)

text \<open>What a charge that reaches its commit does to the scope's total of the day.\<close>

definition total_of :: "scope_id \<Rightarrow> direction \<Rightarrow> int \<Rightarrow> egress_store \<Rightarrow> int" where
  "total_of i dir day st = counter dir (daily_row (i, day, []) st)"

lemma live_Inr: "live A i = Inr cur \<Longrightarrow> se_id cur = i"
  by (auto simp: live_def and_then_Inr_iff split: if_splits)

lemma to_i64_Inr: "to_i64 n = Inr v \<Longrightarrow> v = int n \<and> v \<le> I64_MAX"
  by (auto simp: to_i64_def split: if_splits)

lemma charge_rows_Inr:
  assumes "charge_rows A i dir n day service forwarded st = Inr (exhausted, st')" "egress_ok st"
  shows "egress_ok st'" "total_of i dir day st \<le> total_of i dir day st'"
    and "total_of i dir day st' \<le> total_of i dir day st + int n"
    and "\<not> exhausted \<Longrightarrow> total_of i dir day st' = total_of i dir day st + int n"
proof -
  obtain cur total ex where cur: "live A i = Inr cur" "se_id cur = i"
    and n: "int n \<le> I64_MAX"
    and total: "charge_row dir (int n) (budget_of dir (se_budget cur)) forwarded (daily_row (i, day, []) st) = Inr (total, ex)"
    and rest: "(case service of
        None \<Rightarrow> Inr (ex, save_daily (i, day, []) total st)
      | Some (name, l) \<Rightarrow>
          and_then (charge_row dir (int n) (limit_of dir l) forwarded (daily_row (i, day, name) st)) (\<lambda>(row, ex').
            Inr (ex \<or> ex', save_daily (i, day, name) row (save_daily (i, day, []) total st)))) = Inr (exhausted, st')"
    using assms(1) by (auto simp: charge_rows_def and_then_Inr_iff dest: live_Inr dest!: to_i64_Inr)
  note t = charge_row_Inr[OF total egress_ok_row[OF assms(2)] _ n]
  have "egress_ok st' \<and> total_of i dir day st \<le> total_of i dir day st'
    \<and> total_of i dir day st' \<le> total_of i dir day st + int n
    \<and> (\<not> exhausted \<longrightarrow> total_of i dir day st' = total_of i dir day st + int n)"
  proof (cases service)
    case None
    then show ?thesis using rest t egress_ok_save[OF assms(2)] by (auto simp: total_of_def daily_row_save)
  next
    case (Some sl)
    then obtain name l row ex' where
      row: "charge_row dir (int n) (limit_of dir l) forwarded (daily_row (i, day, name) st) = Inr (row, ex')"
      and st': "exhausted = (ex \<or> ex')" "st' = save_daily (i, day, name) row (save_daily (i, day, []) total st)"
      using rest by (cases sl) (auto simp: and_then_Inr_iff)
    note r = charge_row_Inr[OF row egress_ok_row[OF assms(2)] _ n]
    have "egress_ok st'" using st'(2) t(2) r(2) egress_ok_save[OF egress_ok_save[OF assms(2)]] by simp
    moreover have "daily_row (i, day, []) st' = (if name = [] then row else total)"
      using st'(2) by (simp add: daily_row_save)
    ultimately show ?thesis using t(3-5) r(3-5) st'(1) by (auto simp: total_of_def)
  qed
  then show "egress_ok st'" "total_of i dir day st \<le> total_of i dir day st'"
    and "total_of i dir day st' \<le> total_of i dir day st + int n"
    and "\<not> exhausted \<Longrightarrow> total_of i dir day st' = total_of i dir day st + int n" by auto
qed

lemma charge_rows_forwarded:
  assumes "charge_rows A i dir n day service True st = Inr (exhausted, st')" "egress_ok st"
  shows "total_of i dir day st' = min (total_of i dir day st + int n) I64_MAX"
proof -
  obtain cur total ex where cur: "live A i = Inr cur" "se_id cur = i"
    and total: "charge_row dir (int n) (budget_of dir (se_budget cur)) True (daily_row (i, day, []) st) = Inr (total, ex)"
    and rest: "(case service of
        None \<Rightarrow> Inr (ex, save_daily (i, day, []) total st)
      | Some (name, l) \<Rightarrow>
          and_then (charge_row dir (int n) (limit_of dir l) True (daily_row (i, day, name) st)) (\<lambda>(row, ex').
            Inr (ex \<or> ex', save_daily (i, day, name) row (save_daily (i, day, []) total st)))) = Inr (exhausted, st')"
    using assms(1) by (auto simp: charge_rows_def and_then_Inr_iff dest: live_Inr dest!: to_i64_Inr)
  note exact = charge_row_forwarded[OF _ egress_ok_row[OF assms(2)]]
  show ?thesis
  proof (cases service)
    case None
    then show ?thesis using rest exact[OF total] by (auto simp: total_of_def daily_row_save)
  next
    case (Some sl)
    then obtain name l row ex' where row: "charge_row dir (int n) (limit_of dir l) True (daily_row (i, day, name) st) = Inr (row, ex')"
        "st' = save_daily (i, day, name) row (save_daily (i, day, []) total st)"
      using rest by (cases sl) (auto simp: and_then_Inr_iff)
    then show ?thesis using exact[OF total] exact[OF row(1)] by (cases "name = []") (simp_all add: total_of_def daily_row_save)
  qed
qed

section \<open>Exact metering\<close>

text \<open>
  A caller that charges several amounts, each in the environment of its call (the authority and the
  service's limits), and the amounts whose charge was answered: accepted, or refused by a decision.
\<close>

fun metered ::
  "('x \<Rightarrow> 's side) \<Rightarrow> ('x \<Rightarrow> 'a side) \<Rightarrow> ('x \<times> nat) list \<Rightarrow> (taken \<times> 's) \<times> (taken \<times> 'a)
     \<Rightarrow> (failure + unit) list \<times> (taken \<times> 's) \<times> (taken \<times> 'a)" where
  "metered scope audit [] w = ([], w)"
| "metered scope audit ((x, n) # cs) w =
     (case meter_charge (scope x) (audit x) n w of
        (r, w') \<Rightarrow> (case metered scope audit cs w' of (rs, w'') \<Rightarrow> (r # rs, w'')))"

fun answered :: "failure + unit \<Rightarrow> bool" where
  "answered (Inr _) \<longleftrightarrow> True"
| "answered (Inl e) \<longleftrightarrow> decides e"

fun acked :: "('x \<times> nat) list \<Rightarrow> (failure + unit) list \<Rightarrow> nat" where
  "acked ((x, n) # cs) (r # rs) = (if answered r then n else 0) + acked cs rs"
| "acked _ _ = 0"

text \<open>A ledger that keeps what it was asked and answered, and the sum of the amounts with some answers.\<close>

definition logged :: "'s side \<Rightarrow> ((nat \<times> (failure + unit)) list \<times> 's) side" where
  "logged side n = (\<lambda>(l, s). case side n s of (r, s') \<Rightarrow> (r, l @ [(n, r)], s'))"

definition sum_where :: "(failure + unit \<Rightarrow> bool) \<Rightarrow> (nat \<times> (failure + unit)) list \<Rightarrow> nat" where
  "sum_where P l = sum_list (map fst (filter (P \<circ> snd) l))"

lemma sum_where_simps [simp]:
  "sum_where P [] = 0" "sum_where P (l @ l') = sum_where P l + sum_where P l'"
  "sum_where P ((n, r) # l) = (if P r then n else 0) + sum_where P l"
  by (simp_all add: sum_where_def)

definition stop_ok :: "taken \<Rightarrow> bool" where
  "stop_ok t \<longleftrightarrow> (\<forall>e. tk_stop t = Some e \<longrightarrow> decides e)"

lemma ask_side_stop: "ask_side side n (t, s) = (e, t', s') \<Longrightarrow> stop_ok t \<Longrightarrow> stop_ok t'"
  by (auto simp: ask_side_def stop_ok_def split: option.splits prod.splits sum.splits if_splits)

lemma ask_side_bytes:
  assumes "ask_side side n (t, s) = (e, t', s')"
  shows "tk_bytes t' = (if e = None then max n (tk_bytes t) else tk_bytes t)"
proof (cases "still_owed n t")
  case None
  then show ?thesis using assms by (auto simp: ask_side_def still_owed_def split: if_splits)
next
  case (Some owed)
  then have "tk_bytes t + owed = max n (tk_bytes t)" by (auto simp: still_owed_def split: if_splits)
  then show ?thesis using assms Some by (auto simp: ask_side_def split: prod.splits sum.splits if_splits)
qed

lemma ask_side_unavailable: "ask_side side n (t, s) = (Some e, t', s') \<Longrightarrow> \<not> decides e"
  by (auto simp: ask_side_def split: option.splits prod.splits sum.splits if_splits)

text \<open>A charge of both sides: either one could not be asked, or both answered and the amount is settled.\<close>

lemma meter_charge_cases:
  assumes "meter_charge scope audit n ((t, s), (u, a)) = (r, (t', s'), (u', a'))" "stop_ok t" "stop_ok u"
  obtains (unanswered) e1 e2 where "ask_side scope n (t, s) = (e1, t', s')" "ask_side audit n (u, a) = (e2, u', a')"
      "\<not> answered r" "e1 \<noteq> None \<or> e2 \<noteq> None" "stop_ok t'" "stop_ok u'"
  | (answers) t1 u1 where "ask_side scope n (t, s) = (None, t1, s')" "ask_side audit n (u, a) = (None, u1, a')"
      "answered r" "t' = t1\<lparr>tk_bytes := tk_bytes t1 - n, tk_stop := None\<rparr>"
      "u' = u1\<lparr>tk_bytes := tk_bytes u1 - n, tk_stop := None\<rparr>"
      "stop_ok t'" "stop_ok u'"
proof -
  obtain e1 t1 s1 where 1: "ask_side scope n (t, s) = (e1, t1, s1)" by (cases "ask_side scope n (t, s)")
  obtain e2 u1 a1 where 2: "ask_side audit n (u, a) = (e2, u1, a1)" by (cases "ask_side audit n (u, a)")
  have ok: "stop_ok t1" "stop_ok u1" using ask_side_stop[OF 1 assms(2)] ask_side_stop[OF 2 assms(3)] by simp_all
  show thesis
  proof (cases "e1 = None \<and> e2 = None")
    case True
    then show thesis using assms(1) 1 2 ok
      by (intro answers[of t1 u1])
        (auto simp: meter_charge_def Let_def stop_ok_def split: option.splits)
  next
    case False
    then obtain e where "r = Inl e" "e1 = Some e \<or> e2 = Some e" "t' = t1" "s' = s1" "u' = u1" "a' = a1"
      using assms(1) 1 2 by (auto simp: meter_charge_def Let_def split: option.splits)
    moreover have "\<not> decides e"
      using calculation(2) 1 2 ask_side_unavailable[of scope n t s e t1 s1] ask_side_unavailable[of audit n u a e u1 a1]
      by blast
    ultimately show thesis using 1 2 ok False by (intro unanswered[of e1 e2]) auto
  qed
qed

text \<open>What a side was asked and answered, what the meter remembers of it and what was acknowledged agree.\<close>

lemma ask_side_sum:
  assumes "ask_side (logged side) n (t, l, s) = (e, t', l', s')"
  shows "sum_where answered l' + tk_bytes t = sum_where answered l + tk_bytes t'"
  using assms by (auto simp: ask_side_def logged_def split: option.splits prod.splits sum.splits if_splits)

lemma meter_charge_sum:
  assumes "meter_charge (logged scope) (logged audit) n ((t, l, s), (u, k, a)) = (r, (t', l', s'), (u', k', a'))" "stop_ok t" "stop_ok u"
  shows "sum_where answered l' + tk_bytes t = sum_where answered l + tk_bytes t' + (if answered r then n else 0)
    \<and> sum_where answered k' + tk_bytes u = sum_where answered k + tk_bytes u' + (if answered r then n else 0)
    \<and> stop_ok t' \<and> stop_ok u'"
  using assms
proof (cases rule: meter_charge_cases)
  case (unanswered e1 e2)
  then show ?thesis using ask_side_sum[OF unanswered(1)] ask_side_sum[OF unanswered(2)] by simp
next
  case (answers t1 u1)
  then show ?thesis
    using ask_side_sum[OF answers(1)] ask_side_sum[OF answers(2)] ask_side_bytes[OF answers(1)] ask_side_bytes[OF answers(2)] by simp
qed

lemma metered_step:
  assumes "metered scope audit ((x, n) # cs) (v, w) = (rs, v', w')"
  obtains r v1 w1 rs1 where "meter_charge (scope x) (audit x) n (v, w) = (r, v1, w1)" "rs = r # rs1" "metered scope audit cs (v1, w1) = (rs1, v', w')"
  using assms by (auto split: prod.splits)

lemma metered_sum:
  "metered (\<lambda>x. logged (scope x)) (\<lambda>x. logged (audit x)) cs ((t, l, s), (u, k, a)) = (rs, (t', l', s'), (u', k', a')) \<Longrightarrow> stop_ok t \<Longrightarrow> stop_ok u
     \<Longrightarrow> sum_where answered l' + tk_bytes t = sum_where answered l + tk_bytes t' + acked cs rs
       \<and> sum_where answered k' + tk_bytes u = sum_where answered k + tk_bytes u' + acked cs rs"
proof (induction cs arbitrary: t l s u k a rs)
  case (Cons c cs)
  obtain x n where c: "c = (x, n)" by (cases c)
  obtain r t1 l1 s1 u1 k1 a1 rs1 where
    1: "meter_charge (logged (scope x)) (logged (audit x)) n ((t, l, s), (u, k, a)) = (r, (t1, l1, s1), (u1, k1, a1))" and rs: "rs = r # rs1"
    and 2: "metered (\<lambda>x. logged (scope x)) (\<lambda>x. logged (audit x)) cs ((t1, l1, s1), (u1, k1, a1)) = (rs1, (t', l', s'), (u', k', a'))"
    using Cons.prems(1) unfolding c by (rule metered_step) (metis prod.collapse)
  note m = meter_charge_sum[OF 1 Cons.prems(2,3)]
  show ?case using Cons.IH[OF 2] m c rs by simp
qed simp

text \<open>
  What a ledger does with an amount: it records those with some answers, up to the largest value of its
  counter, and nothing else changes the counter.
\<close>

locale meter_side =
  fixes side :: "'x \<Rightarrow> 's side"
    and counted :: "'s \<Rightarrow> int"
    and inv :: "'s \<Rightarrow> bool"
    and known :: "'x \<Rightarrow> bool"
    and records :: "failure + unit \<Rightarrow> bool"
    and cap :: int
  assumes inv_kept: "inv s \<Longrightarrow> side x n s = (r, s') \<Longrightarrow> inv s'"
    and capped: "inv s \<Longrightarrow> counted s \<le> cap"
    and tallied: "inv s \<Longrightarrow> known x \<Longrightarrow> side x n s = (r, s') \<Longrightarrow>
      counted s' = (if records r then min (counted s + int n) cap else counted s)"
begin

definition tally :: "'s \<Rightarrow> (nat \<times> (failure + unit)) list \<times> 's \<Rightarrow> bool" where
  "tally s0 v \<longleftrightarrow> inv (snd v) \<and> counted (snd v) = min (counted s0 + int (sum_where records (fst v))) cap"

lemma ask_side_tally:
  assumes "ask_side (logged (side x)) n (t, v) = (e, t', v')" "tally s0 v" "known x"
  shows "tally s0 v'"
proof -
  obtain l s l' s' where v: "v = (l, s)" "v' = (l', s')" by (metis surj_pair)
  show ?thesis
  proof (cases "still_owed n t")
    case None
    then show ?thesis using assms by (simp add: ask_side_def)
  next
    case (Some owed)
    obtain r s1 where r: "side x owed s = (r, s1)" by fastforce
    have "l' = l @ [(owed, r)] \<and> s' = s1"
      using assms(1) Some r v by (auto simp: ask_side_def logged_def split: sum.splits if_splits)
    moreover have "inv s" "counted s = min (counted s0 + int (sum_where records l)) cap" using assms(2) v by (simp_all add: tally_def)
    ultimately show ?thesis using inv_kept[OF _ r] tallied[OF _ assms(3) r] v by (auto simp: tally_def)
  qed
qed

lemma meter_charge_tally:
  assumes "meter_charge (logged (side x)) audit n ((t, v), w) = (r, (t', v'), w')" "tally s0 v" "known x"
  shows "tally s0 v'"
proof -
  obtain e t1 v1 where 1: "ask_side (logged (side x)) n (t, v) = (e, t1, v1)" by (metis prod.collapse)
  then have "v' = v1" using assms(1) by (auto simp: meter_charge_def Let_def split: prod.splits option.splits)
  then show ?thesis using ask_side_tally[OF 1 assms(2,3)] by simp
qed

lemma metered_tally:
  "metered (\<lambda>x. logged (side x)) audit cs ((t, v), w) = (rs, (t', v'), w') \<Longrightarrow> tally s0 v \<Longrightarrow> \<forall>(x, n) \<in> set cs. known x \<Longrightarrow> tally s0 v'"
proof (induction cs arbitrary: t v w rs)
  case (Cons c cs)
  obtain x n where c: "c = (x, n)" by (cases c)
  obtain r t1 v1 w1 rs1 where 1: "meter_charge (logged (side x)) (audit x) n ((t, v), w) = (r, (t1, v1), w1)"
    "metered (\<lambda>x. logged (side x)) audit cs ((t1, v1), w1) = (rs1, (t', v'), w')"
    using Cons.prems(1) unfolding c by (rule metered_step) (metis prod.collapse)
  have "tally s0 v1" using meter_charge_tally[OF 1(1) Cons.prems(2)] Cons.prems(3) c by simp
  then show ?case using Cons.IH[OF 1(2)] Cons.prems(3) by simp
qed simp

lemma tally_start: "inv s \<Longrightarrow> tally s ([], s)"
  using capped by (simp add: tally_def)

end

lemma application_error_decides:
  "application_error budget_exhausted = FRefused ''egress_budget_exhausted''"
  "decides (application_error budget_exhausted)"
  by (simp_all add: application_error_def budget_exhausted_def decides_def)

lemma scope_side_cases:
  assumes "scope_side A i dir day service n st = (r, st')"
  obtains (failed) e where "r = Inl e" "st' = st"
  | (charged) exhausted where "charge_rows A i dir n day service True st = Inr (exhausted, st')"
      "r = (if exhausted then Inl (application_error budget_exhausted) else Inr ())"
  using assms by (cases "charge_rows A i dir n day service True st")
    (auto simp: scope_side_def charge_def map_error_def split: if_splits)

text \<open>
  The scope's side of the meter keeps the contract, with the scope's total of the day as its count: it
  records what it accepts and what it refuses because that exhausts the budget. The authority of a
  Scratch Space does not speak of budgets.
\<close>

definition records_scope :: "failure + unit \<Rightarrow> bool" where
  "records_scope r \<longleftrightarrow> r \<in> {Inr (), Inl (FRefused ''egress_budget_exhausted'')}"

definition no_budget_error :: "scope_id \<Rightarrow> authority \<times> (string \<times> limits) option \<Rightarrow> bool" where
  "no_budget_error i x \<longleftrightarrow> current (fst x) i \<notin> {Inl budget_exhausted, Inl (FRefused ''egress_budget_exhausted'')}"

definition scope_ledger :: "scope_id \<Rightarrow> direction \<Rightarrow> int \<Rightarrow> authority \<times> (string \<times> limits) option \<Rightarrow> egress_store side" where
  "scope_ledger i dir day x = scope_side (fst x) i dir day (snd x)"

lemma scope_side_failed:
  assumes "scope_side A i dir day service n st = (Inl e, st)" "charge_rows A i dir n day service True st = Inl e'" "no_budget_error i (A, service)"
  shows "e \<noteq> FRefused ''egress_budget_exhausted''"
  using assms
  by (auto simp: scope_side_def charge_def map_error_def charge_rows_def and_then_def live_def to_i64_def not_suspended_def locked_state_def
      charge_row_def Let_def application_error_def no_budget_error_def budget_exhausted_def split: sum.splits if_splits option.splits failure.splits prod.splits)

interpretation scope: meter_side "scope_ledger i dir day" "total_of i dir day" egress_ok "no_budget_error i" records_scope I64_MAX
proof unfold_locales
  fix x n s r s' assume *: "egress_ok s" "scope_ledger i dir day x n s = (r, s')"
  then have "scope_side (fst x) i dir day (snd x) n s = (r, s')" by (simp add: scope_ledger_def)
  then show "egress_ok s'" using *(1) by (cases rule: scope_side_cases) (auto dest: charge_rows_Inr)
next
  fix s assume "egress_ok s"
  then show "total_of i dir day s \<le> I64_MAX" using row_ok_counter[OF egress_ok_row] by (simp add: total_of_def counter_ok_def)
next
  fix x n s r s' assume *: "egress_ok s" "no_budget_error i x" "scope_ledger i dir day x n s = (r, s')"
  then have side: "scope_side (fst x) i dir day (snd x) n s = (r, s')" by (simp add: scope_ledger_def)
  show "total_of i dir day s' = (if records_scope r then min (total_of i dir day s + int n) I64_MAX else total_of i dir day s)"
  proof (cases "charge_rows (fst x) i dir n day (snd x) True s")
    case (Inl e')
    then obtain e where e: "r = Inl e" "s' = s" using side by (auto simp: scope_side_def charge_def map_error_def)
    then have "\<not> records_scope r" using scope_side_failed[of "fst x" i dir day "snd x" n s e e'] side Inl *(2) by (simp add: records_scope_def)
    then show ?thesis using e by simp
  next
    case (Inr p)
    then obtain exhausted where p: "charge_rows (fst x) i dir n day (snd x) True s = Inr (exhausted, s')"
        "r = (if exhausted then Inl (application_error budget_exhausted) else Inr ())"
      using side by (cases p) (auto simp: scope_side_def charge_def map_error_def split: if_splits)
    then have "records_scope r" by (simp add: records_scope_def application_error_decides(1))
    then show ?thesis using charge_rows_forwarded[OF p(1) *(1)] by simp
  qed
qed

text \<open>An amount that no earlier one exceeds leaves, once it is answered, nothing taken ahead.\<close>

lemma metered_same:
  assumes "metered scope audit cs ((t, s), (u, a)) = (rs, (t', s'), (u', a'))" "stop_ok t" "stop_ok u"
    "list_all (\<lambda>(x, m). m \<le> n) cs" "cs \<noteq> []" "tk_bytes t \<le> n" "tk_bytes u \<le> n" "snd (last cs) = n" "answered (last rs)"
  shows "t' = none_taken \<and> u' = none_taken"
  using assms
proof (induction cs arbitrary: t s u a rs)
  case Nil
  then show ?case by simp
next
  case (Cons c cs)
  obtain x m where c: "c = (x, m)" "m \<le> n" using Cons.prems(4) by (cases c) simp
  obtain r t1 s1 u1 a1 where 1: "meter_charge (scope x) (audit x) m ((t, s), (u, a)) = (r, (t1, s1), (u1, a1))"
    by (metis prod.collapse)
  obtain rs1 where rs: "rs = r # rs1" "metered scope audit cs ((t1, s1), (u1, a1)) = (rs1, (t', s'), (u', a'))"
    using Cons.prems(1) c 1 by (auto split: prod.splits)
  have next_step: "stop_ok t1" "stop_ok u1" "tk_bytes t1 \<le> n" "tk_bytes u1 \<le> n"
    "answered r \<Longrightarrow> m = n \<Longrightarrow> t1 = none_taken \<and> u1 = none_taken"
    using 1 Cons.prems(2,3)
    by (cases rule: meter_charge_cases; use Cons.prems(6,7) c(2) in \<open>auto simp: none_taken_def dest!: ask_side_bytes\<close>)+
  show ?case
  proof (cases "cs = []")
    case True
    then show ?thesis using rs next_step(5) Cons.prems(8,9) c(1) by simp
  next
    case False
    then have "rs1 \<noteq> []" using rs(2) by (cases cs) (auto split: prod.splits)
    then show ?thesis using Cons.IH[OF rs(2) next_step(1,2)] Cons.prems(4,8,9) False next_step(3,4) rs(1) by simp
  qed
qed

section \<open>Properties\<close>

text \<open>
  Property C9. The meter of an External service counts every amount exactly once in both ledgers although
  either may be unavailable at any call. Over any sequence of charges on a day, with authority and limits
  that may change between calls: what each of the two ledgers has answered, accepted or refused by a
  decision, are exactly the amounts whose charge was answered to the caller plus what the meter remembers
  as taken ahead; the scope's total has grown by exactly the amounts that it accepted or that exhausted
  its budget, up to the largest value of the column, also after refusals; and once the largest amount
  is answered nothing is taken ahead.
\<close>

theorem exact_metering:
  assumes "metered (\<lambda>x. logged (scope_ledger i dir day x)) (\<lambda>x. logged (audit x)) cs ((none_taken, [], st), (none_taken, [], a))
      = (rs, (t, asked, st'), (u, audited, a'))"
    and "egress_ok st" "\<forall>(x, m) \<in> set cs. no_budget_error i x"
  shows "sum_where answered asked = acked cs rs + tk_bytes t
    \<and> sum_where answered audited = acked cs rs + tk_bytes u
    \<and> total_of i dir day st' = min (total_of i dir day st + int (sum_where records_scope asked)) I64_MAX
    \<and> (list_all (\<lambda>(x, m). m \<le> n) cs \<and> cs \<noteq> [] \<and> snd (last cs) = n \<and> answered (last rs) \<longrightarrow> t = none_taken \<and> u = none_taken)"
proof -
  have ok: "stop_ok none_taken" "tk_bytes none_taken = 0" by (simp_all add: stop_ok_def none_taken_def)
  show ?thesis
    using metered_sum[OF assms(1) ok(1,1)] metered_same[OF assms(1) ok(1,1), of n] ok(2)
      scope.metered_tally[OF assms(1) scope.tally_start[OF assms(2)] assms(3)]
    by (auto simp: scope.tally_def)
qed

definition scope_a :: scope_id where
  "scope_a = \<lparr> scope_tenant = ''t'', scope_node = ''n'', scratch_space = 1 \<rparr>"

definition settings_a :: scope_settings where
  "settings_a = \<lparr> se_id = scope_a, se_allowed_hosts = default_allowed_hosts,
     se_budget = \<lparr> budget_sent = 100, budget_received = 100 \<rparr>,
     se_anomaly = \<lparr> connections_per_minute = 2 \<rparr>, se_operator_allows_all = False \<rparr>"

definition authority_a :: authority where
  "authority_a = \<lparr> current = (\<lambda>_. Inr settings_a), authenticate = (\<lambda>_. Inr settings_a) \<rparr>"

definition store_a :: egress_store where
  "store_a = \<lparr> states = (\<lambda>_. None)(1 \<mapsto> \<lparr> ss_tenant = ''t'', ss_node = ''n'', suspended = False,
       window_started_at = 0, connections_in_window = 0 \<rparr>),
     dailies = (\<lambda>_. None), connections = (\<lambda>_. None), suspension_events = [] \<rparr>"

text \<open>An audit ledger that is unavailable at its first call.\<close>

definition flaky_audit :: "authority \<times> (string \<times> limits) option \<Rightarrow> nat side" where
  "flaky_audit x n a = (if a = 0 then (Inl (OtherFailure ''unavailable''), 1) else (Inr (), a + n))"

lemmas scope_example = scope_a_def settings_a_def authority_a_def store_a_def

theorem exact_metering_witness:
  "\<exists>rs t asked st' u audited a'.
     metered (\<lambda>x. logged (scope_ledger scope_a DirSent 5 x)) (\<lambda>x. logged (flaky_audit x))
       [((authority_a, None), 4), ((authority_a, None), 7)] ((none_taken, [], store_a), (none_taken, [], 0))
     = (rs, (t, asked, st'), (u, audited, a')) \<and> rs = [Inl (OtherFailure ''unavailable''), Inr ()]
     \<and> total_of scope_a DirSent 5 st' = 7 \<and> sum_where answered audited = 7 \<and> t = none_taken \<and> u = none_taken"
proof -
  let ?cs = "[((authority_a, None), 4), ((authority_a, None), 7)]"
  have "\<exists>t st' u a'. metered (\<lambda>x. logged (scope_ledger scope_a DirSent 5 x)) (\<lambda>x. logged (flaky_audit x))
      ?cs ((none_taken, [], store_a), (none_taken, [], 0))
    = ([Inl (OtherFailure ''unavailable''), Inr ()], (t, [(4, Inr ()), (3, Inr ())], st'),
       (u, [(4, Inl (OtherFailure ''unavailable'')), (7, Inr ())], a'))"
    by (simp add: meter_charge_def ask_side_def still_owed_def none_taken_def flaky_audit_def scope_side_def scope_ledger_def logged_def charge_def
        charge_rows_def live_def scope_example to_i64_def I64_MAX_def not_suspended_def locked_state_def charge_row_def
        daily_row_def save_daily_def i64_saturating_add_def bounded_max_def as_u64_def decides_def map_error_def)
  then obtain t st' u a' where *: "metered (\<lambda>x. logged (scope_ledger scope_a DirSent 5 x)) (\<lambda>x. logged (flaky_audit x))
      ?cs ((none_taken, [], store_a), (none_taken, [], 0))
    = ([Inl (OtherFailure ''unavailable''), Inr ()], (t, [(4, Inr ()), (3, Inr ())], st'),
       (u, [(4, Inl (OtherFailure ''unavailable'')), (7, Inr ())], a'))" by auto
  have "egress_ok store_a" by (simp add: egress_ok_def store_a_def)
  moreover have "total_of scope_a DirSent 5 store_a = 0" by (simp add: total_of_def daily_row_def store_a_def)
  moreover have "\<forall>(x, m) \<in> set ?cs. no_budget_error scope_a x" by (simp add: no_budget_error_def authority_a_def)
  ultimately show ?thesis using exact_metering[OF *, of 7] *
    by (simp add: records_scope_def decides_def I64_MAX_def none_taken_def)
qed

text \<open>
  Property C32. A debit of a scope's daily budget is all or nothing: when it succeeds the scope is
  live and not suspended, its total has grown by exactly the amount and stays within the budget, and
  a refund of the same amount succeeds and gives every counter its value back; when it is refused or
  fails, the store is unchanged.
\<close>

theorem debit_all_or_nothing:
  assumes "egress_ok st" "scope_debit A i dir n day st = (r, st')"
  shows "case r of
      Inl e \<Rightarrow> st' = st
    | Inr _ \<Rightarrow>
        (\<exists>cur s. current A i = Inr cur \<and> locked_state i st = Inr s \<and> \<not> suspended s
           \<and> total_of i dir day st' = total_of i dir day st + int n
           \<and> total_of i dir day st' \<le> bounded_max (budget_of dir (se_budget cur)))
        \<and> (\<exists>st''. scope_refund i dir n day st' = (Inr (), st'') \<and> (\<forall>k. daily_row k st'' = daily_row k st))"
proof (cases "charge_rows A i dir n day None False st")
  case (Inl e)
  then show ?thesis using assms(2) by (auto simp: scope_debit_def charge_def map_error_def)
next
  case (Inr ex)
  obtain cur s row where cur: "live A i = Inr cur" "se_id cur = i" "int n \<le> I64_MAX" "not_suspended i st = Inr s"
    and row: "add_row dir (int n) (budget_of dir (se_budget cur)) (daily_row (i, day, []) st) = Inr row"
    and ex: "ex = (False, save_daily (i, day, []) row st)"
    using Inr by (auto simp: charge_rows_def and_then_Inr_iff charge_row_def dest: live_Inr dest!: to_i64_Inr)
  have st': "r = Inr ()" "st' = save_daily (i, day, []) row st"
    using assms(2) Inr ex by (auto simp: scope_debit_def charge_def map_error_def)
  have s: "locked_state i st = Inr s" "\<not> suspended s"
    using cur(4) by (auto simp: not_suspended_def and_then_Inr_iff split: if_splits)
  have "current A i = Inr cur" using cur(1) by (auto simp: live_def and_then_Inr_iff split: if_splits)
  have nonneg: "0 \<le> counter dir (daily_row (i, day, []) st)"
    using row_ok_counter[OF egress_ok_row[OF assms(1)]] by (simp add: counter_ok_def)
  have "locked_state i st' = Inr s" using s st'(2) by (simp add: locked_state_def)
  moreover have "row = set_counter dir (counter dir (daily_row (i, day, []) st) + int n) (daily_row (i, day, []) st)"
    by (rule add_row_Inr(1)[OF row])
  moreover have "daily_row (i, day, []) st' = row" using st'(2) by (simp add: daily_row_save)
  ultimately have "scope_refund i dir n day st' = (Inr (), save_daily (i, day, []) (daily_row (i, day, []) st) st')"
    using nonneg cur(3) by (simp add: scope_refund_def refund_usage_def to_i64_def refund_row_def Let_def)
  moreover have "\<forall>k. daily_row k (save_daily (i, day, []) (daily_row (i, day, []) st) st') = daily_row k st"
    using st'(2) by (simp add: daily_row_save)
  ultimately have "\<exists>st''. scope_refund i dir n day st' = (Inr (), st'') \<and> (\<forall>k. daily_row k st'' = daily_row k st)"
    by blast
  moreover have "total_of i dir day st' = total_of i dir day st + int n"
    "total_of i dir day st' \<le> bounded_max (budget_of dir (se_budget cur))"
    using add_row_counter[OF row] st'(2) by (simp_all add: total_of_def daily_row_save)
  ultimately show ?thesis unfolding st'(1) sum.case using s \<open>current A i = Inr cur\<close> by blast
qed

theorem debit_all_or_nothing_witness:
  "(\<exists>st'. scope_debit authority_a scope_a DirSent 60 5 store_a = (Inr (), st')
      \<and> total_of scope_a DirSent 5 st' = 60)
   \<and> snd (scope_debit authority_a scope_a DirSent 101 5 store_a) = store_a"
proof -
  note defs = scope_debit_def charge_def charge_rows_def live_def scope_example to_i64_def I64_MAX_def
    not_suspended_def locked_state_def charge_row_def daily_row_def add_row_def i64_checked_add_def bounded_max_def
    as_u64_def map_error_def budget_exhausted_def application_error_def
  have ok: "egress_ok store_a" by (simp add: egress_ok_def store_a_def)
  have "total_of scope_a DirSent 5 store_a = 0" by (simp add: total_of_def daily_row_def store_a_def)
  moreover obtain st1 where 1: "scope_debit authority_a scope_a DirSent 60 5 store_a = (Inr (), st1)"
    by (simp add: defs)
  moreover obtain e st2 where 2: "scope_debit authority_a scope_a DirSent 101 5 store_a = (Inl e, st2)"
    by (simp add: defs)
  moreover have "total_of scope_a DirSent 5 st1 = total_of scope_a DirSent 5 store_a + int 60"
    using debit_all_or_nothing[OF ok 1] unfolding sum.case by blast
  moreover have "st2 = store_a" using debit_all_or_nothing[OF ok 2] by simp
  ultimately show ?thesis by simp
qed

text \<open>Connections asked for one after the other, each at a time and on a day.\<close>

fun admissions ::
  "authority \<Rightarrow> scope_id \<Rightarrow> (datetime \<times> int) list \<Rightarrow> egress_store \<Rightarrow> (failure + unit) list \<times> egress_store" where
  "admissions A i [] st = ([], st)"
| "admissions A i ((now, today) # calls) st =
     (case admit_connection A now today i st of
        (r, st1) \<Rightarrow> (case admissions A i calls st1 of (rs, st') \<Rightarrow> (r # rs, st')))"

definition admitted :: "(failure + unit) list \<Rightarrow> nat" where
  "admitted rs = length (filter (\<lambda>r. r = Inr ()) rs)"

text \<open>The state of a scope, and a call in the window it is in.\<close>

definition state_in :: "scope_id \<Rightarrow> scope_state \<Rightarrow> egress_store \<Rightarrow> bool" where
  "state_in i s st \<longleftrightarrow> states st (scratch_space i) = Some s \<and> ss_tenant s = scope_tenant i \<and> ss_node s = scope_node i"

lemma locked_state_in: "state_in i s st \<Longrightarrow> locked_state i st = Inr s"
  by (simp add: locked_state_def state_in_def)

lemma admit_connection_suspended:
  "state_in i s st \<Longrightarrow> suspended s \<Longrightarrow> \<exists>e. admit_connection A now today i st = (Inl e, st)"
  by (cases "live A i") (auto simp: admit_connection_def not_suspended_def map_error_def locked_state_in dest!: live_Inr)

lemma admissions_suspended:
  "state_in i s st \<Longrightarrow> suspended s \<Longrightarrow> admissions A i calls st = (rs, st') \<Longrightarrow> admitted rs = 0 \<and> st' = st"
proof (induction calls arbitrary: rs)
  case Nil
  then show ?case by (simp add: admitted_def)
next
  case (Cons c calls)
  obtain now today where c: "c = (now, today)" by (cases c)
  obtain e where "admit_connection A now today i st = (Inl e, st)"
    using admit_connection_suspended[OF Cons.prems(1,2)] by blast
  then show ?case using Cons c by (auto simp: admitted_def split: prod.splits)
qed

lemma admit_connection_cases:
  assumes "admit_connection A now today i st = (r, st')" "state_in i s st"
    "current A i = Inr cur" "now - window_started_at s < seconds 60"
  obtains (refused) e where "r = Inl e" "st' = st" "e = FRefused ''egress_suspended'' \<longrightarrow> suspended s"
  | (counted) s' where "state_in i s' st'" "window_started_at s' = window_started_at s"
      "connections_in_window s' = min (connections_in_window s + 1) I32_MAX"
      "suspended s' \<longleftrightarrow> too_many (se_anomaly cur) s'" "r = Inr () \<longleftrightarrow> \<not> suspended s'"
proof (cases "and_then (live A i) (\<lambda>cur.
      and_then (map_error application_error (not_suspended (se_id cur) st)) (\<lambda>s.
      and_then (map_error application_error (check_budget today cur None st)) (\<lambda>_. Inr (cur, s))))")
  case (Inl e)
  then have "e = FRefused ''egress_suspended'' \<longrightarrow> suspended s"
    using assms(2,3)
    by (auto simp: and_then_Inl_iff live_def not_suspended_def locked_state_in map_error_def check_budget_def
        budget_available_def refuse_if_def application_error_def budget_exhausted_def split: if_splits sum.splits)
  moreover have "r = Inl e" "st' = st" using assms(1) Inl by (simp_all add: admit_connection_def)
  ultimately show thesis by (intro refused)
next
  case (Inr cs)
  then have cs: "cs = (cur, s)" "se_id cur = i" "\<not> suspended s"
    using assms(2,3) by (auto simp: and_then_Inr_iff live_def not_suspended_def locked_state_in split: if_splits)
  define s1 where "s1 = next_window now s"
  have s1: "window_started_at s1 = window_started_at s" "connections_in_window s1 = min (connections_in_window s + 1) I32_MAX"
    "suspended s1 = suspended s" "ss_tenant s1 = ss_tenant s" "ss_node s1 = ss_node s"
    using assms(4) by (simp_all add: s1_def next_window_def)
  show thesis
    using assms(1,2) Inr cs s1
    by (intro counted[of "if too_many (se_anomaly cur) s1 then s1\<lparr>suspended := True\<rparr> else s1"])
      (auto simp: admit_connection_def Let_def state_in_def too_many_def simp flip: s1_def)
qed

lemma admissions_limited:
  assumes "admissions A i calls st = (rs, st')" "state_in i s st" "current A i = Inr cur"
    and "0 \<le> connections_in_window s" "int (unat (connections_per_minute (se_anomaly cur))) < I32_MAX"
    and "list_all (\<lambda>(now, today). now - window_started_at s < seconds 60) calls"
  shows "int (admitted rs) \<le> max 0 (int (unat (connections_per_minute (se_anomaly cur))) - connections_in_window s)
    \<and> (\<exists>s'. state_in i s' st' \<and> (Inl (FRefused ''egress_suspended'') \<in> set rs \<longrightarrow> suspended s'))"
  using assms(1,2,4,6)
proof (induction calls arbitrary: rs st s)
  case Nil
  then show ?case by (auto simp: admitted_def)
next
  case (Cons c calls)
  obtain now today where c: "c = (now, today)" by (cases c)
  obtain r st1 where 1: "admit_connection A now today i st = (r, st1)" by (cases "admit_connection A now today i st")
  obtain rs1 where rs: "rs = r # rs1" "admissions A i calls st1 = (rs1, st')"
    using Cons.prems(1) c 1 by (auto split: prod.splits)
  have now: "now - window_started_at s < seconds 60" using Cons.prems(4) c by simp
  show ?case using 1 Cons.prems(2) assms(3) now
  proof (cases rule: admit_connection_cases)
    case (refused e)
    then show ?thesis
    proof (cases "suspended s")
      case True
      then have "admitted rs1 = 0" "st' = st1" using admissions_suspended[of i s st1] rs(2) refused(2) Cons.prems(2) by auto
      then show ?thesis using True refused rs(1) Cons.prems(2) by (auto simp: admitted_def)
    next
      case False
      then show ?thesis using refused rs Cons.IH[of st rs1 s] Cons.prems by (auto simp: admitted_def)
    qed
  next
    case (counted s1)
    have nonneg: "0 \<le> connections_in_window s1" using counted(3) Cons.prems(3) by (simp add: I32_MAX_def)
    show ?thesis
    proof (cases "suspended s1")
      case True
      then have "admitted rs1 = 0" "st' = st1" using admissions_suspended[OF counted(1)] rs(2) by auto
      then show ?thesis using True counted rs(1) by (auto simp: admitted_def)
    next
      case False
      then have "connections_in_window s1 = connections_in_window s + 1"
        "connections_in_window s1 \<le> int (unat (connections_per_minute (se_anomaly cur)))"
        using counted(3,4) nonneg assms(5) by (auto simp: too_many_def min_def split: if_splits)
      moreover have "r = Inr ()" using counted(5) False by simp
      ultimately show ?thesis
        using Cons.IH[OF rs(2) counted(1) nonneg] Cons.prems(4) counted(2) rs(1) by (auto simp: admitted_def)
    qed
  qed
qed

text \<open>
  Anomalous traffic is stopped: of any number of connections asked for within a
  scope's window of one minute, at most as many are admitted as the anomaly rule has left (for a
  rule below the largest 32-bit signed number), and after the connection that trips the rule the
  scope is suspended, when no connection is admitted at any later time.
\<close>

theorem connections_rate_limited:
  assumes "admissions A i calls st = (rs, st')" "state_in i s st" "current A i = Inr cur"
    and "0 \<le> connections_in_window s" "int (unat (connections_per_minute (se_anomaly cur))) < I32_MAX"
    and "list_all (\<lambda>(now, today). now - window_started_at s < seconds 60) calls"
    and "admissions A i later st' = (rs', st'')"
  shows "int (admitted rs) \<le> max 0 (int (unat (connections_per_minute (se_anomaly cur))) - connections_in_window s)
    \<and> (\<exists>s'. state_in i s' st' \<and> (suspended s' \<longrightarrow> admitted rs' = 0 \<and> st'' = st')
         \<and> (Inl (FRefused ''egress_suspended'') \<in> set rs \<longrightarrow> suspended s'))"
proof -
  from admissions_limited[OF assms(1-6)] obtain s' where s':
    "int (admitted rs) \<le> max 0 (int (unat (connections_per_minute (se_anomaly cur))) - connections_in_window s)"
    "state_in i s' st'" "Inl (FRefused ''egress_suspended'') \<in> set rs \<longrightarrow> suspended s'" by blast
  then show ?thesis using admissions_suspended[OF s'(2) _ assms(7)] by blast
qed

theorem connections_rate_limited_witness:
  "\<exists>rs st'. admissions authority_a scope_a [(1, 5), (2, 5), (3, 5)] store_a = (rs, st')
     \<and> rs = [Inr (), Inr (), Inl (FRefused ''egress_suspended'')] \<and> int (admitted rs) \<le> 2
     \<and> admissions authority_a scope_a [(seconds 90, 5)] st' = ([Inl (FRefused ''egress_suspended'')], st')"
proof -
  note defs = admit_connection_def live_def scope_example not_suspended_def locked_state_def check_budget_def
    budget_available_def daily_row_def bounded_max_def as_u64_def I64_MAX_def I32_MAX_def next_window_def too_many_def
    touch_daily_def save_daily_def map_error_def application_error_def seconds_def Let_def
  obtain rs st' where run: "admissions authority_a scope_a [(1, 5), (2, 5), (3, 5)] store_a = (rs, st')"
    "rs = [Inr (), Inr (), Inl (FRefused ''egress_suspended'')]"
    "admissions authority_a scope_a [(seconds 90, 5)] st' = ([Inl (FRefused ''egress_suspended'')], st')"
    by (simp add: defs)
  moreover have "state_in scope_a (the (states store_a 1)) store_a" "current authority_a scope_a = Inr settings_a"
    by (simp_all add: state_in_def scope_example)
  ultimately show ?thesis
    using connections_rate_limited[OF run(1) _ _ _ _ _ run(3), of "the (states store_a 1)" settings_a]
    by (simp add: scope_example I32_MAX_def seconds_def)
qed

end
