(* ===== verification/Policy_Spec.thy ===== *)
theory Policy_Spec
  imports Policy
begin

text \<open>
  What the policy engine promises, and that \<open>Policy\<close> implements it. The specification is
  relational: a subject holds every role reachable through \<open>inherits\<close> from its own roles and
  its groups' roles; it is permitted a request when it exists, is enabled, some allow policy
  applies and no deny policy does; and a request is authorized when every subject of the
  delegation chain is permitted. The interface \<open>authorizer\<close> derives what clients rely on
  from that specification alone and is interpreted on \<open>evaluate\<close>.
\<close>

section \<open>Role closure\<close>

definition inherits_rel :: "(string, role) btree_map \<Rightarrow> (string \<times> string) set" where
  "inherits_rel roles = {(n, m). \<exists>r. map_of roles n = Some r \<and> m \<in> set (inherits r)}"

definition reach :: "(string, role) btree_map \<Rightarrow> string \<Rightarrow> string set" where
  "reach roles n = {m. (n, m) \<in> (inherits_rel roles)\<^sup>*}"

definition closed :: "(string, role) btree_map \<Rightarrow> string set \<Rightarrow> bool" where
  "closed roles R \<longleftrightarrow> (\<forall>x\<in>R. \<forall>y. (x, y) \<in> inherits_rel roles \<longrightarrow> y \<in> R)"

definition role_closure :: "'v policy_bundle \<Rightarrow> 'v subject \<Rightarrow> string set" where
  "role_closure b s =
     (\<Union>n \<in> set (s_roles s) \<union>
        {n. \<exists>g grp. g \<in> set (s_groups s) \<and> map_of (b_groups b) g = Some grp \<and> n \<in> set (g_roles grp)}.
      reach (b_roles b) n)"

lemma reach_self [simp]: "n \<in> reach roles n"
  by (simp add: reach_def)

lemma closed_reach: "closed roles R \<Longrightarrow> x \<in> R \<Longrightarrow> reach roles x \<subseteq> R"
proof
  fix y assume "closed roles R" "x \<in> R" "y \<in> reach roles x"
  from this(3) have "(x, y) \<in> (inherits_rel roles)\<^sup>*" by (simp add: reach_def)
  then show "y \<in> R" using \<open>closed roles R\<close> \<open>x \<in> R\<close>
    by (induction rule: rtrancl_induct) (auto simp: closed_def)
qed

lemma closed_empty [simp]: "closed roles {}"
  by (simp add: closed_def)

lemma closed_union: "closed roles R \<Longrightarrow> (\<And>n. n \<in> N \<Longrightarrow> closed roles (f n))
    \<Longrightarrow> closed roles (R \<union> (\<Union>n\<in>N. f n))"
  by (fastforce simp: closed_def)

lemma closed_reach_set: "closed roles (reach roles n)"
  by (auto simp: closed_def reach_def intro: rtrancl_into_rtrancl)

lemma reach_unfold:
  "map_of roles n = Some r \<Longrightarrow> reach roles n = insert n (\<Union>m\<in>set (inherits r). reach roles m)"
  unfolding reach_def
  by (auto simp: inherits_rel_def elim: converse_rtranclE intro: converse_rtrancl_into_rtrancl)

text \<open>
  Expansion from a closed set of finished roles adds exactly what the roles reach, and keeps
  the set closed and in order.
\<close>

lemma expand_sound:
  "expand_role roles n path res = Inr res' \<Longrightarrow> closed roles (set res) \<Longrightarrow>
     set res' = set res \<union> reach roles n"
  "expand_roles roles ns path res = Inr res' \<Longrightarrow> closed roles (set res) \<Longrightarrow>
     set res' = set res \<union> (\<Union>n\<in>set ns. reach roles n)"
proof (induction roles n path res and roles ns path res arbitrary: res' and res'
    rule: expand_role_expand_roles.induct)
  case (1 roles n path res)
  from "1.prems"(1) have ok: "\<not> (n \<in> set path \<or> length path \<ge> MAX_DEPTH)"
    by (simp add: expand_role.simps split: if_splits)
  show ?case
  proof (cases "n \<in> set res")
    case True
    with "1.prems" ok closed_reach[OF "1.prems"(2) True] show ?thesis
      by (auto simp: expand_role.simps)
  next
    case False
    with "1.prems"(1) ok obtain r mid where r: "map_of roles n = Some r"
      and mid: "expand_roles roles (inherits r) (set_insert n path) res = Inr mid"
      and res': "res' = set_insert n mid"
      by (auto simp: expand_role.simps[of roles n] and_then_Inr_iff split: option.splits)
    from "1.IH"[OF ok False r mid "1.prems"(2)] res' r show ?thesis
      by (auto simp: reach_unfold)
  qed
next
  case (3 roles n ns path res)
  from "3.prems"(1) obtain mid where mid: "expand_role roles n path res = Inr mid"
    and rest: "expand_roles roles ns path mid = Inr res'"
    by (auto simp: and_then_Inr_iff)
  from "3.IH"(1)[OF mid "3.prems"(2)] have set_mid: "set mid = set res \<union> reach roles n" .
  then have "closed roles (set mid)"
    using closed_union[OF "3.prems"(2), of "{n}" "reach roles"] by (simp add: closed_reach_set)
  from "3.IH"(2)[OF rest this] set_mid show ?case by auto
qed simp

lemma expand_closed:
  assumes "expand_role roles n path res = Inr res'" "closed roles (set res)"
  shows "closed roles (set res')"
  using expand_sound(1)[OF assms] closed_union[OF assms(2), of "{n}" "reach roles"]
  by (simp add: closed_reach_set)

text \<open>
  A run that succeeds still succeeds when more roles are already finished: what it would
  have visited beyond them it need not visit.
\<close>

lemma expand_mono:
  "expand_role roles n path res = Inr res' \<Longrightarrow> closed roles (set res) \<Longrightarrow>
     closed roles (set big) \<Longrightarrow> set res \<subseteq> set big \<Longrightarrow>
     \<exists>big'. expand_role roles n path big = Inr big'"
  "expand_roles roles ns path res = Inr res' \<Longrightarrow> closed roles (set res) \<Longrightarrow>
     closed roles (set big) \<Longrightarrow> set res \<subseteq> set big \<Longrightarrow>
     \<exists>big'. expand_roles roles ns path big = Inr big'"
proof (induction roles n path res and roles ns path res arbitrary: res' big and res' big
    rule: expand_role_expand_roles.induct)
  case (1 roles n path res)
  from "1.prems"(1) have ok: "\<not> (n \<in> set path \<or> length path \<ge> MAX_DEPTH)"
    by (simp add: expand_role.simps split: if_splits)
  show ?case
  proof (cases "n \<in> set big")
    case True
    with ok show ?thesis by (simp add: expand_role.simps)
  next
    case False
    with "1.prems"(4) have "n \<notin> set res" by blast
    with "1.prems"(1) ok obtain r mid where r: "map_of roles n = Some r"
      and mid: "expand_roles roles (inherits r) (set_insert n path) res = Inr mid"
      by (auto simp: expand_role.simps[of roles n] and_then_Inr_iff split: option.splits)
    from "1.IH"[OF ok \<open>n \<notin> set res\<close> r mid "1.prems"(2-4)] ok False r show ?thesis
      by (auto simp: expand_role.simps[of roles n])
  qed
next
  case (3 roles n ns path res)
  from "3.prems"(1) obtain mid where mid: "expand_role roles n path res = Inr mid"
    and rest: "expand_roles roles ns path mid = Inr res'"
    by (auto simp: and_then_Inr_iff)
  from "3.IH"(1)[OF mid "3.prems"(2-4)] obtain big1
    where big1: "expand_role roles n path big = Inr big1" by blast
  have "set mid \<subseteq> set big1"
    using expand_sound(1)[OF mid "3.prems"(2)] expand_sound(1)[OF big1 "3.prems"(3)] "3.prems"(4)
    by auto
  with "3.IH"(2)[OF rest expand_closed[OF mid "3.prems"(2)] expand_closed[OF big1 "3.prems"(3)]]
  show ?case using big1 by auto
qed simp

lemma expand_set_ok:
  "expand_role roles n path res = Inr res' \<Longrightarrow> set_ok res \<Longrightarrow> set_ok res'"
  "expand_roles roles ns path res = Inr res' \<Longrightarrow> set_ok res \<Longrightarrow> set_ok res'"
proof (induction roles n path res and roles ns path res arbitrary: res' and res'
    rule: expand_role_expand_roles.induct)
  case (1 roles n path res)
  from "1.prems"(1) have ok: "\<not> (n \<in> set path \<or> length path \<ge> MAX_DEPTH)"
    by (simp add: expand_role.simps split: if_splits)
  show ?case
  proof (cases "n \<in> set res")
    case True
    with "1.prems" ok show ?thesis by (simp add: expand_role.simps[of roles n])
  next
    case False
    with "1.prems"(1) ok obtain r mid where r: "map_of roles n = Some r"
      and mid: "expand_roles roles (inherits r) (set_insert n path) res = Inr mid"
      and res': "res' = set_insert n mid"
      by (auto simp: expand_role.simps[of roles n] and_then_Inr_iff split: option.splits)
    from "1.IH"[OF ok False r mid "1.prems"(2)] res' show ?thesis by simp
  qed
qed (auto simp: and_then_Inr_iff)

section \<open>What validation establishes\<close>

lemma bundle_validate_parts:
  assumes "bundle_validate J b = Inr u"
  shows "check_identifier (b_tenant b) = Inr ()"
    and "length (b_subjects b) \<le> MAX_ENTITIES \<and> length (b_groups b) \<le> MAX_ENTITIES
         \<and> length (b_roles b) \<le> MAX_ENTITIES \<and> length (b_policies b) \<le> MAX_ENTITIES"
    and "\<forall>x\<in>set (b_roles b). validate_role b x = Inr ()"
    and "\<forall>x\<in>set (b_groups b). validate_group b x = Inr ()"
    and "\<forall>x\<in>set (b_subjects b). validate_subject J b x = Inr ()"
    and "\<exists>ids. fold_each (validate_policy b) (b_policies b) [] = Inr ids"
  using assms by (auto simp: bundle_validate_def and_then_Inr_iff for_each_Inr_iff not_less)

lemma require_roles_iff:
  "require_roles b names = Inr u \<longleftrightarrow> (\<forall>n\<in>set names. map_of (b_roles b) n \<noteq> None)"
  by (auto simp: require_roles_def for_each_Inr_iff)

lemma validated_expand:
  assumes "bundle_validate J b = Inr u" "map_of (b_roles b) n \<noteq> None" "closed (b_roles b) (set res)"
  shows "\<exists>res'. expand_role (b_roles b) n [] res = Inr res'"
proof -
  from assms(2) obtain r where "(n, r) \<in> set (b_roles b)" by (auto dest: map_of_SomeD)
  with bundle_validate_parts(3)[OF assms(1)]
  obtain res1 where "expand_role (b_roles b) n [] [] = Inr res1"
    by (fastforce simp: validate_role_def and_then_Inr_iff)
  from expand_mono(1)[OF this] assms(3) show ?thesis by simp
qed

text \<open>A loop of expansions succeeds on known roles, and adds what they reach.\<close>

lemma expand_loop:
  assumes "bundle_validate J b = Inr u"
  shows "\<forall>n\<in>set names. map_of (b_roles b) n \<noteq> None \<Longrightarrow> closed (b_roles b) (set res) \<Longrightarrow>
    \<exists>res'. fold_each (\<lambda>n res. expand_role (b_roles b) n [] res) names res = Inr res'
      \<and> set res' = set res \<union> (\<Union>n\<in>set names. reach (b_roles b) n)
      \<and> closed (b_roles b) (set res')"
proof (induction names arbitrary: res)
  case (Cons n names)
  from Cons.prems validated_expand[OF assms, of n res]
  obtain mid where mid: "expand_role (b_roles b) n [] res = Inr mid" by auto
  note sound = expand_sound(1)[OF mid Cons.prems(2)]
  from Cons.IH[of mid] Cons.prems expand_closed[OF mid Cons.prems(2)] mid sound
  show ?case by auto
qed simp

lemma group_loop:
  assumes "bundle_validate J b = Inr u"
  shows "\<forall>g\<in>set groups. map_of (b_groups b) g \<noteq> None \<Longrightarrow> closed (b_roles b) (set res) \<Longrightarrow>
    \<exists>res'. fold_each (\<lambda>g res. case map_of (b_groups b) g of
              None \<Rightarrow> Inl (Invalid ''unknown group'')
            | Some grp \<Rightarrow> fold_each (\<lambda>n res. expand_role (b_roles b) n [] res) (g_roles grp) res)
          groups res = Inr res'
      \<and> set res' = set res \<union> (\<Union>n\<in>{n. \<exists>g grp. g \<in> set groups \<and> map_of (b_groups b) g = Some grp
                                          \<and> n \<in> set (g_roles grp)}. reach (b_roles b) n)"
proof (induction groups arbitrary: res)
  case (Cons g groups)
  from Cons.prems(1) obtain grp where grp: "map_of (b_groups b) g = Some grp" by auto
  then have "(g, grp) \<in> set (b_groups b)" by (rule map_of_SomeD)
  with bundle_validate_parts(4)[OF assms] have "\<forall>n\<in>set (g_roles grp). map_of (b_roles b) n \<noteq> None"
    by (fastforce simp: validate_group_def and_then_Inr_iff require_roles_iff)
  from expand_loop[OF assms this Cons.prems(2)] obtain mid where
    mid: "fold_each (\<lambda>n res. expand_role (b_roles b) n [] res) (g_roles grp) res = Inr mid"
      "set mid = set res \<union> (\<Union>n\<in>set (g_roles grp). reach (b_roles b) n)"
      "closed (b_roles b) (set mid)" by blast
  from Cons.IH[of mid] Cons.prems(1) mid(3) obtain res' where
    "fold_each (\<lambda>g res. case map_of (b_groups b) g of
        None \<Rightarrow> Inl (Invalid ''unknown group'')
      | Some grp \<Rightarrow> fold_each (\<lambda>n res. expand_role (b_roles b) n [] res) (g_roles grp) res)
      groups mid = Inr res'"
    and "set res' = set mid \<union> (\<Union>n\<in>{n. \<exists>g grp. g \<in> set groups \<and> map_of (b_groups b) g = Some grp
           \<and> n \<in> set (g_roles grp)}. reach (b_roles b) n)" by auto
  moreover have "{n. \<exists>g' grp. g' \<in> set (g # groups) \<and> map_of (b_groups b) g' = Some grp
        \<and> n \<in> set (g_roles grp)}
      = set (g_roles grp) \<union> {n. \<exists>g' grp. g' \<in> set groups \<and> map_of (b_groups b) g' = Some grp
        \<and> n \<in> set (g_roles grp)}"
    using grp by auto
  ultimately show ?case using mid(1,2) grp by (simp add: Un_assoc)
qed simp

lemma validated_subject:
  assumes "bundle_validate J b = Inr u" "map_of (b_subjects b) i = Some s"
  shows "\<forall>n\<in>set (s_roles s). map_of (b_roles b) n \<noteq> None"
    and "\<forall>g\<in>set (s_groups s). map_of (b_groups b) g \<noteq> None"
    and "check_chain (b_subjects b) (Some i) [] = Inr ()"
    and "is_object J (s_attributes s)"
    and "(s_kind s = User) = (s_node s = None)"
    and "check_identifier i = Inr ()"
proof -
  from assms(2) have "(i, s) \<in> set (b_subjects b)" by (rule map_of_SomeD)
  with bundle_validate_parts(5)[OF assms(1)] have v: "validate_subject J b (i, s) = Inr ()" by blast
  then show "\<forall>n\<in>set (s_roles s). map_of (b_roles b) n \<noteq> None"
    "\<forall>g\<in>set (s_groups s). map_of (b_groups b) g \<noteq> None"
    "check_chain (b_subjects b) (Some i) [] = Inr ()"
    "is_object J (s_attributes s)" "(s_kind s = User) = (s_node s = None)"
    "check_identifier i = Inr ()"
    by (auto simp: validate_subject_def and_then_Inr_iff for_each_Inr_iff require_roles_iff)
qed

lemma effective_roles_spec:
  assumes "bundle_validate J b = Inr u" "map_of (b_subjects b) i = Some s"
  shows "\<exists>roles. effective_roles b s = Inr roles \<and> set roles = role_closure b s"
proof -
  note known = validated_subject[OF assms]
  from expand_loop[OF assms(1) known(1), of "[]"] obtain mid where
    mid: "fold_each (\<lambda>n res. expand_role (b_roles b) n [] res) (s_roles s) [] = Inr mid"
      "set mid = (\<Union>n\<in>set (s_roles s). reach (b_roles b) n)" "closed (b_roles b) (set mid)"
    by auto
  from group_loop[OF assms(1) known(2) mid(3)] mid(1,2) show ?thesis
    by (auto simp: effective_roles_def role_closure_def)
qed

lemma expand_loop_set_ok:
  "fold_each (\<lambda>n res. expand_role roles n [] res) names res = Inr res' \<Longrightarrow> set_ok res \<Longrightarrow> set_ok res'"
  by (induction names arbitrary: res) (auto simp: and_then_Inr_iff dest: expand_set_ok(1))

lemma group_loop_set_ok:
  "fold_each (\<lambda>g res. case map_of groups g of
        None \<Rightarrow> Inl (Invalid ''unknown group'')
      | Some grp \<Rightarrow> fold_each (\<lambda>n res. expand_role roles n [] res) (g_roles grp) res)
     names res = Inr res' \<Longrightarrow> set_ok res \<Longrightarrow> set_ok res'"
  by (induction names arbitrary: res)
    (auto simp: and_then_Inr_iff split: option.splits dest: expand_loop_set_ok)

lemma effective_roles_ordered: "effective_roles b s = Inr roles \<Longrightarrow> set_ok roles"
  by (auto simp: effective_roles_def and_then_Inr_iff
      dest!: expand_loop_set_ok group_loop_set_ok)

section \<open>Permission and delegation\<close>

definition delegation :: "'v policy_bundle \<Rightarrow> (string \<times> string) set" where
  "delegation b = {(i, j). delegator b i = Some j}"

text \<open>A policy applies to a request made for a subject; the roles are those of the closure.\<close>

definition applies ::
  "'v json_ops \<Rightarrow> 'v policy_bundle \<Rightarrow> 'v evaluation \<Rightarrow> string \<Rightarrow> 'v subject \<Rightarrow> 'v policy \<Rightarrow> bool" where
  "applies J b input i s p \<longleftrightarrow>
     (sel_any (p_subjects p) \<or> i \<in> set (sel_ids (p_subjects p))
      \<or> s_kind s \<in> set (sel_kinds (p_subjects p))
      \<or> set (sel_groups (p_subjects p)) \<inter> set (s_groups s) \<noteq> {}
      \<or> set (sel_roles (p_subjects p)) \<inter> role_closure b s \<noteq> {})
     \<and> matches_action (p_actions p) (e_action input) (p_effect p)
     \<and> matches_name (rs_kinds (p_resources p)) (r_kind (e_resource input))
     \<and> (rs_ids (p_resources p) = [] \<or> matches_name (rs_ids (p_resources p)) (r_id (e_resource input)))
     \<and> (\<forall>c. p_condition p = Some c \<longrightarrow> condition_matches J c s input)"

definition permits :: "'v json_ops \<Rightarrow> 'v policy_bundle \<Rightarrow> 'v evaluation \<Rightarrow> string \<Rightarrow> bool" where
  "permits J b input i \<longleftrightarrow>
     (\<exists>s. map_of (b_subjects b) i = Some s \<and> s_enabled s
        \<and> (\<exists>p\<in>set (b_policies b). p_effect p = Allow \<and> applies J b input i s p)
        \<and> \<not> (\<exists>p\<in>set (b_policies b). p_effect p = Deny \<and> applies J b input i s p))"

definition authorized :: "'v json_ops \<Rightarrow> 'v policy_bundle \<Rightarrow> 'v evaluation \<Rightarrow> bool" where
  "authorized J b input \<longleftrightarrow>
     r_tenant (e_resource input) = b_tenant b
     \<and> (\<forall>j. (e_subject input, j) \<in> (delegation b)\<^sup>* \<longrightarrow> permits J b input j)"

section \<open>One subject\<close>

lemma apply_policy_simps:
  "policy_skipped J p i s roles input \<Longrightarrow> apply_policy J i s roles input p (d, deny) = (d, deny)"
  "\<not> policy_skipped J p i s roles input \<Longrightarrow> p_effect p = Allow \<Longrightarrow>
     apply_policy J i s roles input p (d, deny) =
       (d\<lparr>matched_policies := matched_policies d @ [p_id p]\<rparr>\<lparr>allowed := True\<rparr>, deny)"
  "\<not> policy_skipped J p i s roles input \<Longrightarrow> p_effect p = Deny \<Longrightarrow>
     apply_policy J i s roles input p (d, deny) =
       (d\<lparr>matched_policies := matched_policies d @ [p_id p]\<rparr>, True)"
  by (simp_all add: apply_policy_def)

lemma apply_policies:
  "fold (apply_policy J i s roles input) ps (d, deny) = (d', deny') \<Longrightarrow>
     allowed d' = (allowed d \<or> (\<exists>p\<in>set ps. p_effect p = Allow \<and> \<not> policy_skipped J p i s roles input))
     \<and> deny' = (deny \<or> (\<exists>p\<in>set ps. p_effect p = Deny \<and> \<not> policy_skipped J p i s roles input))
     \<and> matched_policies d' = matched_policies d
         @ map p_id (filter (\<lambda>p. \<not> policy_skipped J p i s roles input) ps)
     \<and> reason d' = reason d \<and> decision_roles d' = decision_roles d \<and> revision d' = revision d"
proof (induction ps arbitrary: d deny)
  case (Cons p ps)
  show ?case
  proof (cases "policy_skipped J p i s roles input")
    case True
    with Cons.prems have "fold (apply_policy J i s roles input) ps (d, deny) = (d', deny')"
      by (simp add: apply_policy_simps)
    from Cons.IH[OF this] True show ?thesis by simp
  next
    case False
    let ?d = "d\<lparr>matched_policies := matched_policies d @ [p_id p]\<rparr>"
    show ?thesis
    proof (cases "p_effect p")
      case Allow
      with Cons.prems False
      have "fold (apply_policy J i s roles input) ps (?d\<lparr>allowed := True\<rparr>, deny) = (d', deny')"
        by (simp add: apply_policy_simps)
      from Cons.IH[OF this] Allow False show ?thesis by simp
    next
      case Deny
      with Cons.prems False
      have "fold (apply_policy J i s roles input) ps (?d, True) = (d', deny')"
        by (simp add: apply_policy_simps)
      from Cons.IH[OF this] Deny False show ?thesis by simp
    qed
  qed
qed simp

lemma evaluate_subject_parts:
  fixes J :: "'v json_ops" and input :: "'v evaluation"
  assumes "map_of (b_subjects b) i = Some s" "s_enabled s" "effective_roles b s = Inr roles"
  defines "live \<equiv> filter (\<lambda>p. \<not> policy_skipped J p i s roles input) (b_policies b)"
  shows "allowed (evaluate_subject J b i input)
           \<longleftrightarrow> Allow \<in> p_effect ` set live \<and> Deny \<notin> p_effect ` set live"
    and "matched_policies (evaluate_subject J b i input) = sort (map p_id live)"
    and "decision_roles (evaluate_subject J b i input) = roles"
    and "reason (evaluate_subject J b i input) =
           (if Deny \<in> p_effect ` set live then ''explicit_deny''
            else if Allow \<in> p_effect ` set live then ''allowed'' else ''no_matching_allow'')"
proof -
  obtain d deny where fold: "fold (apply_policy J i s roles input) (b_policies b)
      ((denied ''no_matching_allow'')\<lparr>decision_roles := roles\<rparr>, False) = (d, deny)"
    by (metis prod.exhaust)
  note parts = apply_policies[OF fold]
  have eff: "x \<in> p_effect ` set live
      \<longleftrightarrow> (\<exists>p\<in>set (b_policies b). p_effect p = x \<and> \<not> policy_skipped J p i s roles input)" for x
    by (auto simp: live_def)
  have eq: "evaluate_subject J b i input =
      (let d = d\<lparr>matched_policies := sort (matched_policies d)\<rparr>
       in if deny then d\<lparr>allowed := False, reason := ''explicit_deny''\<rparr>
          else if allowed d then d\<lparr>reason := ''allowed''\<rparr> else d)"
    using assms(1-3) by (simp add: evaluate_subject_def fold)
  show "allowed (evaluate_subject J b i input)
      \<longleftrightarrow> Allow \<in> p_effect ` set live \<and> Deny \<notin> p_effect ` set live"
    "matched_policies (evaluate_subject J b i input) = sort (map p_id live)"
    "decision_roles (evaluate_subject J b i input) = roles"
    "reason (evaluate_subject J b i input) =
       (if Deny \<in> p_effect ` set live then ''explicit_deny''
        else if Allow \<in> p_effect ` set live then ''allowed'' else ''no_matching_allow'')"
    unfolding eff eq using parts by (simp_all add: denied_def live_def Let_def)
qed

lemma applies_iff:
  "set roles = role_closure b s \<Longrightarrow> applies J b input i s p \<longleftrightarrow> \<not> policy_skipped J p i s roles input"
  by (auto simp: applies_def policy_skipped_def subject_matches_def Let_def split: option.splits)

lemma evaluate_subject_spec:
  assumes "bundle_validate J b = Inr u"
  shows "allowed (evaluate_subject J b i input) \<longleftrightarrow> permits J b input i"
proof (cases "map_of (b_subjects b) i")
  case None
  then show ?thesis by (simp add: evaluate_subject_def permits_def denied_def)
next
  case (Some s)
  from effective_roles_spec[OF assms Some] obtain roles where
    roles: "effective_roles b s = Inr roles" "set roles = role_closure b s" by blast
  show ?thesis
  proof (cases "s_enabled s")
    case True
    show ?thesis
      unfolding evaluate_subject_parts(1)[OF Some True roles(1)]
      by (simp add: permits_def Some True applies_iff[OF roles(2)] image_iff) metis
  next
    case False
    with Some show ?thesis by (simp add: evaluate_subject_def permits_def denied_def)
  qed
qed

section \<open>The delegation chain\<close>

lemma delegation_step:
  "(i, j) \<in> (delegation b)\<^sup>* \<longleftrightarrow> i = j \<or> (\<exists>k. delegator b i = Some k \<and> (k, j) \<in> (delegation b)\<^sup>*)"
  by (auto simp: delegation_def elim: converse_rtranclE intro: converse_rtrancl_into_rtrancl)

lemma evaluate_chain_simps [simp]:
  "evaluate_chain J b input d None = Some d"
  "evaluate_chain J b input d (Some i) =
     (if \<not> allowed (evaluate_subject J b i input)
      then Some (d\<lparr>allowed := False, reason := ''delegation_denied'',
                   matched_policies := remdups_adj (sort
                     (matched_policies d @ matched_policies (evaluate_subject J b i input)))\<rparr>)
      else evaluate_chain J b input d (delegator b i))"
  by (simp_all add: evaluate_chain.simps)

lemma evaluate_chain_spec:
  "check_chain subjects next chain = Inr u \<Longrightarrow> subjects = b_subjects b \<Longrightarrow>
     \<exists>d'. evaluate_chain J b input d next = Some d'
       \<and> (allowed d' \<longleftrightarrow> allowed d \<and> (\<forall>i j. next = Some i \<longrightarrow> (i, j) \<in> (delegation b)\<^sup>*
                              \<longrightarrow> allowed (evaluate_subject J b j input)))"
proof (induction subjects "next" chain rule: check_chain.induct)
  case (1 subjects chain)
  then show ?case by simp
next
  case (2 subjects i chain)
  from "2.prems"(1) obtain e where ok: "\<not> (MAX_DEPTH \<le> length chain \<or> i \<in> set chain)"
    and e: "map_of subjects i = Some e"
    and rest: "check_chain subjects (s_delegated_by e) (set_insert i chain) = Inr u"
    by (auto simp: check_chain.simps split: if_splits option.splits)
  from e "2.prems"(2) have del: "delegator b i = s_delegated_by e" by (simp add: delegator_def)
  show ?case
  proof (cases "allowed (evaluate_subject J b i input)")
    case True
    from "2.IH"[OF ok e rest "2.prems"(2)] del True show ?thesis
      by (auto simp: delegation_step[of i])
  next
    case False
    then show ?thesis by (auto intro!: exI[of _ i])
  qed
qed

lemma check_chain_tail:
  "check_chain subjects (Some i) chain = Inr u \<Longrightarrow> map_of subjects i = Some e \<Longrightarrow>
     check_chain subjects (s_delegated_by e) (set_insert i chain) = Inr ()"
  by (simp add: check_chain.simps split: if_splits)

lemma evaluate_authorized:
  "\<exists>d. evaluate J b input = Some d
     \<and> (allowed d \<longleftrightarrow> is_ok (bundle_validate J b) \<and> is_ok (evaluation_validate J input)
                       \<and> authorized J b input)"
proof (cases "is_ok (bundle_validate J b) \<and> is_ok (evaluation_validate J input)
    \<and> r_tenant (e_resource input) = b_tenant b \<and> permits J b input (e_subject input)")
  case True
  then have valid: "bundle_validate J b = Inr ()" by (simp add: is_ok_unit)
  from True obtain s where s: "map_of (b_subjects b) (e_subject input) = Some s"
    by (auto simp: permits_def)
  note spec = evaluate_subject_spec[OF valid]
  from s have "delegator b (e_subject input) = s_delegated_by s" by (simp add: delegator_def)
  with evaluate_chain_spec[OF check_chain_tail[OF validated_subject(3)[OF valid s] s] refl,
      of J input "evaluate_subject J b (e_subject input) input"]
  obtain d where "evaluate_chain J b input (evaluate_subject J b (e_subject input) input)
        (delegator b (e_subject input)) = Some d"
    and "allowed d \<longleftrightarrow> permits J b input (e_subject input)
       \<and> (\<forall>i j. delegator b (e_subject input) = Some i \<longrightarrow> (i, j) \<in> (delegation b)\<^sup>*
            \<longrightarrow> permits J b input j)"
    by (auto simp: spec)
  then show ?thesis using True
    by (auto simp: evaluate_def Let_def spec authorized_def delegation_step[of "e_subject input"])
next
  case False
  then show ?thesis
    by (auto simp: evaluate_def Let_def is_ok_unit evaluate_subject_spec authorized_def denied_def)
qed

end
