(* ===== verification/Subnodes.thy ===== *)
theory Subnodes
  imports Run_Control Policy_Spec
begin

text \<open>
  The use cases of Run-scoped Subnodes (crates/aidash-application/src/subnodes.rs) over their tables
  (server/src/apps/execution/models/subnodes.rs) and the scopes of a creation and of a management
  command (server/src/apps/identity/repositories/subnodes.rs), with the receipts that answer
  repeated commands (\<open>subnode_command\<close> of server/src/apps/identity/services/execution.rs).

  Parameters of a use case are what its scope was given: the policy snapshot and subject chain, the
  authority that the creator's and the members' bindings amount to, the resource of the Node, and the
  results of opening a Scratch Space. New identifiers and the time are arguments. An error rolls the
  transaction back, so operations return an error or the store that commits. Insertions fail where
  the schema (server/migrations/execution/0094\_subnodes.rs) has a primary key or unique constraint.
\<close>

section \<open>Tables\<close>

record limit_row =
  lr_members :: int
  lr_subnodes :: int
  lr_remote :: bool

record receipt_row =
  or_run :: uuid
  or_key :: string
  or_tenant :: string
  or_fingerprint :: string
  or_result :: string

record workspace_row =
  wr_id :: uuid
  wr_tenant :: string
  wr_node :: string
  wr_title :: string
  wr_goal :: string
  wr_scratch :: uuid
  wr_created_by :: string

record task_row =
  tr_id :: uuid
  tr_workspace :: uuid
  tr_status :: task_status
  tr_owner :: "string option"

record ('v, 'x) subnode_store =
  tables :: "('v, 'x) control_store"
  tenant_names :: "string list"
  limit_rows :: "string \<Rightarrow> limit_row option"
  receipts :: "receipt_row list"
  workspace_rows :: "workspace_row list"
  workspace_owners :: "(uuid \<times> string \<times> string) list"
  task_rows :: "task_row list"
  delegations :: "(uuid \<times> string \<times> string) list"
  task_origins :: "uuid \<Rightarrow> uuid option"
  decisions :: "decision list"

section \<open>Rows and limits\<close>

definition members_of :: "string \<Rightarrow> uuid \<Rightarrow> member_row list \<Rightarrow> sub_member list" where
  "members_of tenant i rows =
     sort_key m_agent_id (map mr_member (filter (\<lambda>m. mr_tenant m = tenant \<and> mr_subnode m = i) rows))"

definition row_domain :: "member_row list \<Rightarrow> subnode_row \<Rightarrow> subnode" where
  "row_domain members row =
     (sr_subnode row)\<lparr>sub_members := members_of (sub_tenant (sr_subnode row)) (sub_id (sr_subnode row)) members\<rparr>"

definition by_key :: "string \<Rightarrow> uuid \<Rightarrow> string \<Rightarrow> subnode_row list \<Rightarrow> subnode_row option" where
  "by_key tenant run key rows =
     (case filter (\<lambda>row. sub_tenant (sr_subnode row) = tenant \<and> sub_creator_run (sr_subnode row) = run \<and> sr_key row = key) rows of
        [] \<Rightarrow> None
      | found \<Rightarrow> Some (last found))"

definition active_count :: "string \<Rightarrow> uuid \<Rightarrow> subnode_row list \<Rightarrow> nat" where
  "active_count tenant run rows =
     length (filter (\<lambda>row. sub_tenant (sr_subnode row) = tenant \<and> sub_creator_run (sr_subnode row) = run \<and> sub_active row) rows)"

definition duplicate :: failure where
  "duplicate = OtherFailure ''duplicate key''"

definition insert_member :: "uuid \<Rightarrow> string \<Rightarrow> sub_member \<Rightarrow> member_row list \<Rightarrow> failure + member_row list" where
  "insert_member i tenant m rows =
     (if list_ex (\<lambda>r. mr_subnode r = i \<and> m_agent_id (mr_member r) = m_agent_id m) rows then Inl duplicate
      else Inr (rows @ [\<lparr> mr_subnode = i, mr_tenant = tenant, mr_member = m \<rparr>]))"

definition insert_active ::
  "subnode \<Rightarrow> string \<Rightarrow> string \<Rightarrow> ('v, 'x) control_store \<Rightarrow> failure + ('v, 'x) control_store" where
  "insert_active s key fingerprint st =
     (if sub_status s \<noteq> SubActive \<or> sub_ended_at s \<noteq> None \<or> sub_ended_reason s \<noteq> None
      then Inl (FInvalid ''new Subnode must be active'')
      else if list_ex (\<lambda>row. sub_id (sr_subnode row) = sub_id s \<or> sub_workspace (sr_subnode row) = sub_workspace s
                \<or> (sub_creator_run (sr_subnode row) = sub_creator_run s \<and> sr_key row = key)) (subnode_rows st)
      then Inl duplicate
      else and_then (fold_each (insert_member (sub_id s) (sub_tenant s)) (sub_members s) (member_rows st)) (\<lambda>members.
           Inr (st\<lparr>subnode_rows := subnode_rows st @ [\<lparr> sr_subnode = s\<lparr>sub_members := []\<rparr>, sr_key = key,
                                                      sr_fingerprint = fingerprint \<rparr>],
                   member_rows := members\<rparr>)))"

definition to_u32 :: "int \<Rightarrow> failure + u32" where
  "to_u32 n = (if 0 \<le> n then Inr (word_of_int n) else Inl (FInvalid ''invalid Subnode limits''))"

definition get_limits :: "string \<Rightarrow> ('v, 'x) subnode_store \<Rightarrow> failure + subnode_limits" where
  "get_limits tenant st =
     (if tenant \<notin> set (tenant_names st) then Inl Forbidden
      else case limit_rows st tenant of
        None \<Rightarrow> Inr default_subnode_limits
      | Some row \<Rightarrow>
          and_then (to_u32 (lr_members row)) (\<lambda>m.
          and_then (to_u32 (lr_subnodes row)) (\<lambda>n.
          let l = \<lparr> members_per_subnode = m, subnodes_per_run = n, remote_runs_may_create = lr_remote row \<rparr>
          in case subnode_limits_validate l of
               Inl e \<Rightarrow> Inl (FInvalid (refusal_display e))
             | Inr _ \<Rightarrow> Inr l)))"

definition put_limits :: "string \<Rightarrow> subnode_limits \<Rightarrow> ('v, 'x) subnode_store \<Rightarrow> failure + ('v, 'x) subnode_store" where
  "put_limits tenant l st =
     (case subnode_limits_validate l of
        Inl e \<Rightarrow> Inl (FInvalid (refusal_display e))
      | Inr _ \<Rightarrow>
          if tenant \<notin> set (tenant_names st) then Inl Forbidden
          else Inr (st\<lparr>limit_rows := (limit_rows st)(tenant \<mapsto>
                 \<lparr> lr_members = uint (members_per_subnode l), lr_subnodes = uint (subnodes_per_run l),
                   lr_remote = remote_runs_may_create l \<rparr>)\<rparr>))"

section \<open>Creation\<close>

record create_input =
  ci_leader :: entity_ref
  ci_members :: "entity_ref list"
  ci_allowance :: allowance
  ci_title :: "string option"

record 'j creation =
  cr_subjects :: "string list"
  cr_bundle :: "'j policy_bundle"
  cr_revision :: int
  cr_environment :: 'j
  cr_tenant :: string
  cr_subject :: string
  cr_node_address :: string
  cr_remote :: bool
  cr_creator_authority :: allowance
  cr_members :: "(string, allowance) btree_map"
  cr_node_resource :: "failure + 'j resource"
  cr_scratch :: "failure + uuid \<times> string"
  cr_digest :: "create_input \<Rightarrow> string"

definition refused :: "refusal + 'a \<Rightarrow> failure + 'a" where
  "refused r = (case r of Inl e \<Rightarrow> Inl (FRefused (refusal_display e)) | Inr x \<Rightarrow> Inr x)"

definition workspace_is_subnode :: "string \<Rightarrow> uuid \<Rightarrow> ('v, 'x) control_store \<Rightarrow> bool" where
  "workspace_is_subnode tenant workspace st \<longleftrightarrow>
     list_ex (\<lambda>row. sub_tenant (sr_subnode row) = tenant \<and> sub_workspace (sr_subnode row) = workspace) (subnode_rows st)"

definition create_replay ::
  "'j creation \<Rightarrow> uuid \<Rightarrow> string \<Rightarrow> create_input \<Rightarrow> ('v, 'x) control_store \<Rightarrow> failure + subnode option" where
  "create_replay C run key input st =
     (case find_run run st of
        None \<Rightarrow> Inl Forbidden
      | Some r \<Rightarrow>
          if \<not> controllable r then Inl (FRefused ''creating Run has ended'')
          else case by_key (cr_tenant C) run key (subnode_rows st) of
            None \<Rightarrow> Inr None
          | Some row \<Rightarrow>
              if sr_fingerprint row \<noteq> cr_digest C input
              then Inl (FConflict ''Subnode creation key was reused with different input'')
              else Inr (Some (row_domain (member_rows st) row)))"

definition agent_key :: "entity_ref \<Rightarrow> string" where
  "agent_key a = er_id a @ ''@'' @ er_version a"

definition approved_member_authority :: "'j creation \<Rightarrow> entity_ref \<Rightarrow> failure + allowance" where
  "approved_member_authority C agent =
     (case map_of (cr_members C) (agent_key agent) of None \<Rightarrow> Inl Forbidden | Some a \<Rightarrow> Inr a)"

text \<open>The loop over the requested members: neither the creating agent nor an agent twice.\<close>

fun check_new_members :: "string \<Rightarrow> string list \<Rightarrow> entity_ref list \<Rightarrow> refusal + unit" where
  "check_new_members creator seen [] = Inr ()"
| "check_new_members creator seen (m # ms) =
     (if er_id m = creator then Inl CreatorMember
      else if er_id m \<in> set seen then Inl (DuplicateMember (er_id m))
      else check_new_members creator (set_insert (er_id m) seen) ms)"

definition new_subnode ::
  "'j creation \<Rightarrow> datetime \<Rightarrow> uuid \<Rightarrow> uuid \<Rightarrow> ('v, 'x) run \<Rightarrow> create_input \<Rightarrow> subnode" where
  "new_subnode C now i workspace run input =
     \<lparr> sub_id = i, sub_tenant = cr_tenant C, sub_node = cr_node_address C, sub_creator_run = run_id run,
       sub_creator_task = run_task_id run,
       sub_creator_agent = \<lparr> er_id = run_agent_id run, er_version = run_agent_version run \<rparr>,
       sub_leader = ci_leader input,
       sub_members = map (\<lambda>a. \<lparr> m_agent_id = er_id a, m_agent_version = er_version a, m_added_by = run_id run,
                               m_added_at = now \<rparr>) (ci_members input),
       sub_allowance = ci_allowance input, sub_workspace = workspace, sub_title = ci_title input,
       sub_status = SubActive, sub_created_at = now, sub_ended_at = None, sub_ended_reason = None \<rparr>"

definition insert_subnode ::
  "'j creation \<Rightarrow> datetime \<Rightarrow> uuid \<Rightarrow> uuid \<Rightarrow> ('v, 'x) run \<Rightarrow> string \<Rightarrow> create_input \<Rightarrow> ('v, 'x) subnode_store
     \<Rightarrow> failure + subnode \<times> ('v, 'x) subnode_store" where
  "insert_subnode C now i workspace run key input st =
     (let title = (case ci_title input of None \<Rightarrow> ''Subnode'' | Some t \<Rightarrow> t);
          s = new_subnode C now i workspace run input in
      and_then (cr_scratch C) (\<lambda>(scratch, created_by).
      and_then (domain (nonempty title ''title'')) (\<lambda>_.
      and_then (domain (nonempty title ''goal'')) (\<lambda>_.
      if list_ex (\<lambda>w. wr_id w = workspace) (workspace_rows st) then Inl duplicate
      else and_then (insert_active s key (cr_digest C input) (tables st)) (\<lambda>t.
           Inr (s, st\<lparr>tables := append_event (SubnodeCreated workspace i (run_id run)) t,
                      workspace_rows := workspace_rows st @ [\<lparr> wr_id = workspace, wr_tenant = cr_tenant C,
                        wr_node = node_name_str (run_node run), wr_title = title, wr_goal = title,
                        wr_scratch = scratch, wr_created_by = created_by \<rparr>],
                      workspace_owners := workspace_owners st @ [(workspace, cr_tenant C, cr_subject C)]\<rparr>))))))"

definition create_checks ::
  "'j creation \<Rightarrow> ('v, 'x) run \<Rightarrow> create_input \<Rightarrow> ('v, 'x) subnode_store \<Rightarrow> failure + unit" where
  "create_checks C run input st =
     and_then (get_limits (cr_tenant C) st) (\<lambda>l.
     and_then (refused (check_remote l (cr_remote C))) (\<lambda>_.
     and_then (refused (check_create l (active_count (cr_tenant C) (run_id run) (subnode_rows (tables st))))) (\<lambda>_.
     and_then (refused (check_members l (length (ci_members input)))) (\<lambda>_.
     and_then (refused (if ci_leader input \<in> set (ci_members input) then Inr () else Inl LeaderNotMember)) (\<lambda>_.
     and_then (refused (check_new_members (run_agent_id run) [] (ci_members input))) (\<lambda>_.
     and_then (refused (allowance_within (cr_creator_authority C) (ci_allowance input))) (\<lambda>_.
     for_each (\<lambda>m. and_then (approved_member_authority C m) (\<lambda>required.
                   refused (member_fits required (ci_allowance input)))) (ci_members input))))))))"

definition create_subnode ::
  "'j json_ops \<Rightarrow> 'j creation \<Rightarrow> datetime \<Rightarrow> uuid \<Rightarrow> uuid \<Rightarrow> ('v, 'x) run \<Rightarrow> string \<Rightarrow> create_input
     \<Rightarrow> ('v, 'x) subnode_store \<Rightarrow> failure + subnode \<times> ('v, 'x) subnode_store" where
  "create_subnode J C now i workspace run key input st =
     (let creator = agent_subject (cr_node_address C) (run_agent_id run) (run_agent_version run) in
      if cr_subjects C = [] \<or> last (cr_subjects C) \<noteq> creator then Inl Forbidden
      else and_then (cr_node_resource C) (\<lambda>res.
        case evaluate J (cr_bundle C) \<lparr> e_subject = creator, e_action = SUBNODE_CREATE, e_resource = res,
                                        e_environment = cr_environment C \<rparr> of
          None \<Rightarrow> Inl (OtherFailure ''evaluation'')
        | Some d \<Rightarrow>
            let st1 = st\<lparr>decisions := decisions st @ [decision.revision_update (\<lambda>_. cr_revision C) d]\<rparr> in
            if \<not> allowed d then Inl Forbidden
            else and_then (refused (check_can_create
                   (workspace_is_subnode (cr_tenant C) (run_workspace_id run) (tables st1)))) (\<lambda>_.
                 and_then (create_replay C (run_id run) key input (tables st1)) (\<lambda>existing.
                 case existing of
                   Some s \<Rightarrow> Inr (s, st1)
                 | None \<Rightarrow>
                     and_then (create_checks C run input st1) (\<lambda>_.
                     insert_subnode C now i workspace run key input st1)))))"

section \<open>Management\<close>

text \<open>
  The scope of a command: the Tenant, the authorities computed for it, and the two effects outside
  these tables, a Task admitted for the leader and a message to the creating Run.
\<close>

record ('v, 'x) management =
  mg_tenant :: string
  mg_deployment :: string
  mg_creator_authority :: allowance
  mg_candidate :: "allowance option"
  mg_task :: "subnode \<Rightarrow> ('v, 'x) run \<Rightarrow> string \<Rightarrow> string \<Rightarrow> string \<Rightarrow> failure + string"
  mg_message :: "subnode \<Rightarrow> ('v, 'x) run \<Rightarrow> string \<Rightarrow> string \<Rightarrow> failure + unit"

definition find_subnode :: "string \<Rightarrow> uuid \<Rightarrow> ('v, 'x) control_store \<Rightarrow> subnode_row option" where
  "find_subnode tenant i st =
     List.find (\<lambda>row. sub_tenant (sr_subnode row) = tenant \<and> sub_id (sr_subnode row) = i) (subnode_rows st)"

definition lock_subnode :: "string \<Rightarrow> uuid \<Rightarrow> ('v, 'x) control_store \<Rightarrow> failure + subnode option" where
  "lock_subnode tenant i st =
     (case find_subnode tenant i st of
        None \<Rightarrow> Inr None
      | Some row \<Rightarrow>
          if find_run (sub_creator_run (sr_subnode row)) st = None then Inl Forbidden
          else Inr (Some (row_domain (member_rows st) row)))"

definition active_subnode :: "string \<Rightarrow> uuid \<Rightarrow> ('v, 'x) control_store \<Rightarrow> failure + subnode" where
  "active_subnode tenant i st =
     and_then (lock_subnode tenant i st) (\<lambda>found.
       case found of
         None \<Rightarrow> Inl (NotFound ''Subnode not found'')
       | Some s \<Rightarrow> if sub_status s \<noteq> SubActive then Inl (FRefused ''Subnode has ended'') else Inr s)"

definition is_creator :: "subnode \<Rightarrow> ('v, 'x) run \<Rightarrow> failure + unit" where
  "is_creator s run = (if sub_creator_run s = run_id run then Inr () else Inl Forbidden)"

definition is_member :: "subnode \<Rightarrow> ('v, 'x) run \<Rightarrow> bool" where
  "is_member s run \<longleftrightarrow>
     sub_workspace s = run_workspace_id run
     \<and> list_ex (\<lambda>m. m_agent_id m = run_agent_id run \<and> m_agent_version m = run_agent_version run) (sub_members s)"

definition sub_participant :: "subnode \<Rightarrow> ('v, 'x) run \<Rightarrow> failure + unit" where
  "sub_participant s run = (if sub_creator_run s = run_id run \<or> is_member s run then Inr () else Inl Forbidden)"

definition on_tables ::
  "(('v, 'x) control_store \<Rightarrow> ('v, 'x) control_store) \<Rightarrow> ('v, 'x) subnode_store \<Rightarrow> ('v, 'x) subnode_store" where
  "on_tables f st = st\<lparr>tables := f (tables st)\<rparr>"

definition add_member ::
  "('v, 'x) management \<Rightarrow> datetime \<Rightarrow> ('v, 'x) run \<Rightarrow> uuid \<Rightarrow> entity_ref \<Rightarrow> ('v, 'x) subnode_store
     \<Rightarrow> failure + ('v, 'x) subnode_store" where
  "add_member M now run i agent st =
     and_then (active_subnode (mg_tenant M) i (tables st)) (\<lambda>s.
     and_then (sub_participant s run) (\<lambda>_.
     and_then (refused (if er_id (sub_creator_agent s) = er_id agent then Inl CreatorMember else Inr ())) (\<lambda>_.
     and_then (refused (if list_ex (\<lambda>m. m_agent_id m = er_id agent) (sub_members s)
                        then Inl (DuplicateMember (er_id agent)) else Inr ())) (\<lambda>_.
     and_then (get_limits (sub_tenant s) st) (\<lambda>l.
     and_then (refused (check_members l (length (sub_members s) + 1))) (\<lambda>_.
     and_then (refused (allowance_within (mg_creator_authority M) (sub_allowance s))) (\<lambda>_.
     and_then (case mg_candidate M of None \<Rightarrow> Inl Forbidden | Some a \<Rightarrow> Inr a) (\<lambda>required.
     and_then (refused (member_fits required (sub_allowance s))) (\<lambda>_.
     and_then (insert_member (sub_id s) (sub_tenant s)
         \<lparr> m_agent_id = er_id agent, m_agent_version = er_version agent, m_added_by = run_id run, m_added_at = now \<rparr>
         (member_rows (tables st))) (\<lambda>rows.
     Inr (on_tables (\<lambda>t. append_event (MemberAdded (sub_workspace s) (sub_id s) agent) (t\<lparr>member_rows := rows\<rparr>)) st)))))))))))"

definition member_has_active_work :: "subnode \<Rightarrow> entity_ref \<Rightarrow> ('v, 'x) subnode_store \<Rightarrow> bool" where
  "member_has_active_work s agent st \<longleftrightarrow>
     list_ex (\<lambda>r. run_workspace_id r = sub_workspace s \<and> run_agent_id r = er_id agent
         \<and> run_agent_version r = er_version agent \<and> \<not> phase_is_terminal (state_phase (state r))) (runs (tables st))
     \<or> list_ex (\<lambda>t. tr_workspace t = sub_workspace s \<and> \<not> task_is_terminal (tr_status t)
         \<and> (tr_owner t = Some (agent_subject (sub_node s) (er_id agent) (er_version agent))
            \<or> (tr_id t, er_id agent, er_version agent) \<in> set (delegations st))) (task_rows st)"

definition remove_member ::
  "('v, 'x) management \<Rightarrow> ('v, 'x) run \<Rightarrow> uuid \<Rightarrow> entity_ref \<Rightarrow> ('v, 'x) subnode_store
     \<Rightarrow> failure + ('v, 'x) subnode_store" where
  "remove_member M run i agent st =
     and_then (active_subnode (mg_tenant M) i (tables st)) (\<lambda>s.
     and_then (sub_participant s run) (\<lambda>_.
     and_then (refused (check_removal agent (member_has_active_work s agent st) s)) (\<lambda>_.
     Inr (on_tables (\<lambda>t. append_event (MemberRemoved (sub_workspace s) (sub_id s) agent)
            (t\<lparr>member_rows := filter (\<lambda>m. \<not> (mr_tenant m = sub_tenant s \<and> mr_subnode m = sub_id s
                 \<and> m_agent_id (mr_member m) = er_id agent \<and> m_agent_version (mr_member m) = er_version agent))
               (member_rows t)\<rparr>)) st))))"

definition end_one ::
  "('v, 'x) management \<Rightarrow> datetime \<Rightarrow> subnode \<Rightarrow> end_reason \<Rightarrow> ('v, 'x) subnode_store \<Rightarrow> failure + ('v, 'x) subnode_store" where
  "end_one M now s why st =
     and_then (control_subnode (mg_deployment M) now CtlCancel BySystem (Some why) (sub_id s, sub_workspace s) (tables st))
       (\<lambda>t. Inr (st\<lparr>tables := t\<rparr>))"

definition dissolve ::
  "('v, 'x) management \<Rightarrow> datetime \<Rightarrow> ('v, 'x) run \<Rightarrow> uuid \<Rightarrow> ('v, 'x) subnode_store \<Rightarrow> failure + ('v, 'x) subnode_store" where
  "dissolve M now run i st =
     and_then (active_subnode (mg_tenant M) i (tables st)) (\<lambda>s.
     and_then (is_creator s run) (\<lambda>_. end_one M now s EndDissolved st))"

definition subnode_task ::
  "('v, 'x) management \<Rightarrow> ('v, 'x) run \<Rightarrow> uuid \<Rightarrow> string \<Rightarrow> string \<Rightarrow> string \<Rightarrow> ('v, 'x) subnode_store \<Rightarrow> failure + string" where
  "subnode_task M run i key title request st =
     and_then (active_subnode (mg_tenant M) i (tables st)) (\<lambda>s.
     and_then (is_creator s run) (\<lambda>_.
     and_then (domain (nonempty title ''title'')) (\<lambda>_.
     and_then (domain (nonempty request ''request'')) (\<lambda>_. mg_task M s run key title request))))"

definition subnode_message ::
  "('v, 'x) management \<Rightarrow> ('v, 'x) run \<Rightarrow> uuid \<Rightarrow> string \<Rightarrow> string \<Rightarrow> ('v, 'x) subnode_store \<Rightarrow> failure + unit" where
  "subnode_message M run i key content st =
     and_then (active_subnode (mg_tenant M) i (tables st)) (\<lambda>s.
     if \<not> is_member s run then Inl Forbidden
     else and_then (domain (nonempty content ''content'')) (\<lambda>_. mg_message M s run key content))"

section \<open>Commands with receipts\<close>

datatype sub_command =
    CmdTask uuid string string
  | CmdAdd uuid entity_ref
  | CmdRemove uuid entity_ref
  | CmdDissolve uuid
  | CmdMessage string

definition replay_receipt ::
  "string \<Rightarrow> uuid \<Rightarrow> string \<Rightarrow> string \<Rightarrow> receipt_row list \<Rightarrow> failure + string option" where
  "replay_receipt tenant run key fingerprint rows =
     (case filter (\<lambda>r. or_tenant r = tenant \<and> or_run r = run \<and> or_key r = key) rows of
        [] \<Rightarrow> Inr None
      | found \<Rightarrow>
          if or_fingerprint (last found) \<noteq> fingerprint
          then Inl (FConflict ''Subnode call key was reused with different input'')
          else Inr (Some (or_result (last found))))"

definition save_receipt :: "receipt_row \<Rightarrow> receipt_row list \<Rightarrow> failure + receipt_row list" where
  "save_receipt row rows =
     (if list_ex (\<lambda>r. or_run r = or_run row \<and> or_key r = or_key row) rows then Inl duplicate else Inr (rows @ [row]))"

definition allowed_command :: "sub_command \<Rightarrow> subnode \<Rightarrow> ('v, 'x) run \<Rightarrow> bool" where
  "allowed_command c s run \<longleftrightarrow>
     (case c of
        CmdTask _ _ _ \<Rightarrow> sub_creator_run s = run_id run
      | CmdDissolve _ \<Rightarrow> sub_creator_run s = run_id run
      | CmdMessage _ \<Rightarrow> is_member s run
      | _ \<Rightarrow> sub_creator_run s = run_id run \<or> is_member s run)"

definition run_command ::
  "('v, 'x) management \<Rightarrow> datetime \<Rightarrow> ('v, 'x) run \<Rightarrow> uuid \<Rightarrow> string \<Rightarrow> sub_command \<Rightarrow> ('v, 'x) subnode_store
     \<Rightarrow> failure + string \<times> ('v, 'x) subnode_store" where
  "run_command M now run i key c st =
     (case c of
        CmdTask j title request \<Rightarrow> and_then (subnode_task M run j key title request st) (\<lambda>t. Inr (''task_id:'' @ t, st))
      | CmdAdd j agent \<Rightarrow> and_then (add_member M now run j agent st) (\<lambda>st1. Inr (''added'', st1))
      | CmdRemove j agent \<Rightarrow> and_then (remove_member M run j agent st) (\<lambda>st1. Inr (''removed'', st1))
      | CmdDissolve j \<Rightarrow> and_then (dissolve M now run j st) (\<lambda>st1. Inr (''dissolved'', st1))
      | CmdMessage content \<Rightarrow> and_then (subnode_message M run i key content st) (\<lambda>_. Inr (''sent'', st)))"

text \<open>
  \<open>subnode_command\<close> from the lock on, for the Subnode \<open>i\<close> that it selected; \<open>digest\<close> is the digest of
  the command's JSON.
\<close>

definition subnode_command ::
  "(sub_command \<Rightarrow> string) \<Rightarrow> ('v, 'x) management \<Rightarrow> datetime \<Rightarrow> ('v, 'x) run \<Rightarrow> uuid \<Rightarrow> string \<Rightarrow> sub_command
     \<Rightarrow> ('v, 'x) subnode_store \<Rightarrow> failure + string \<times> ('v, 'x) subnode_store" where
  "subnode_command digest M now run i key c st =
     and_then (lock_subnode (mg_tenant M) i (tables st)) (\<lambda>found.
     case found of
       None \<Rightarrow> Inl Forbidden
     | Some s \<Rightarrow>
         if \<not> allowed_command c s run then Inl Forbidden
         else and_then (replay_receipt (mg_tenant M) (run_id run) key (digest c) (receipts st)) (\<lambda>previous.
              case previous of
                Some r \<Rightarrow> Inr (r, st)
              | None \<Rightarrow>
                  and_then (run_command M now run i key c st) (\<lambda>(r, st1).
                  and_then (save_receipt \<lparr> or_run = run_id run, or_key = key, or_tenant = mg_tenant M,
                      or_fingerprint = digest c, or_result = r \<rparr> (receipts st1)) (\<lambda>rows.
                  Inr (r, st1\<lparr>receipts := rows\<rparr>)))))"

section \<open>Admission of work\<close>

definition require_writable :: "uuid \<Rightarrow> ('v, 'x) control_store \<Rightarrow> failure + unit" where
  "require_writable workspace st =
     (case List.find (\<lambda>row. sub_workspace (sr_subnode row) = workspace) (subnode_rows st) of
        None \<Rightarrow> Inr ()
      | Some row \<Rightarrow> if sub_active row then Inr () else Inl Forbidden)"

definition require_admission ::
  "string \<Rightarrow> uuid \<Rightarrow> uuid \<Rightarrow> entity_ref \<Rightarrow> ('v, 'x) subnode_store \<Rightarrow> failure + unit" where
  "require_admission tenant task workspace agent st =
     (case List.find (\<lambda>row. sub_tenant (sr_subnode row) = tenant \<and> sub_workspace (sr_subnode row) = workspace)
             (subnode_rows (tables st)) of
        None \<Rightarrow> Inr ()
      | Some row \<Rightarrow>
          if \<not> sub_active row then Inl Forbidden
          else let members = members_of tenant (sub_id (sr_subnode row)) (member_rows (tables st)) in
          if \<not> list_ex (is_agent agent) members then Inl Forbidden
          else case task_origins st task of
            None \<Rightarrow> Inl Forbidden
          | Some source \<Rightarrow>
              if source = sub_creator_run (sr_subnode row) then Inr ()
              else case find_run source (tables st) of
                None \<Rightarrow> Inl Forbidden
              | Some r \<Rightarrow>
                  if run_workspace_id r \<noteq> sub_workspace (sr_subnode row)
                     \<or> \<not> list_ex (\<lambda>m. m_agent_id m = run_agent_id r \<and> m_agent_version m = run_agent_version r) members
                  then Inl Forbidden
                  else Inr ())"

end
