(* ===== verification/Policy_Props.thy ===== *)
theory Policy_Props
  imports Policy_Spec
begin

text \<open>
  What clients of the policy engine rely on. The interface \<open>authorizer\<close> states the contract of
  an access-control decision that follows delegation, and proves from it that a delegate never
  holds more than each of its delegators; it is interpreted on \<open>evaluate\<close>.
\<close>

section \<open>The interface\<close>

locale authorizer =
  fixes allows :: "'b \<Rightarrow> 'r \<Rightarrow> bool"
    and well_formed :: "'b \<Rightarrow> 'r \<Rightarrow> bool"
    and permitted :: "'b \<Rightarrow> 'r \<Rightarrow> string \<Rightarrow> bool"
    and delegated :: "'b \<Rightarrow> (string \<times> string) set"
    and asker :: "'r \<Rightarrow> string"
    and asked_by :: "string \<Rightarrow> 'r \<Rightarrow> 'r"
  assumes allows_iff: "allows b r \<longleftrightarrow>
      well_formed b r \<and> (\<forall>j. (asker r, j) \<in> (delegated b)\<^sup>* \<longrightarrow> permitted b r j)"
    and asker_asked_by [simp]: "asker (asked_by j r) = j"
    and permitted_asked_by [simp]: "permitted b (asked_by j r) k = permitted b r k"
    and well_formed_asked_by: "well_formed b r \<Longrightarrow> permitted b r j \<Longrightarrow> well_formed b (asked_by j r)"
begin

lemma attenuated: "allows b r \<Longrightarrow> (asker r, j) \<in> (delegated b)\<^sup>* \<Longrightarrow> allows b (asked_by j r)"
  by (simp add: allows_iff) (meson well_formed_asked_by rtrancl_trans)

lemma revoked: "\<not> permitted b r j \<Longrightarrow> (asker r, j) \<in> (delegated b)\<^sup>* \<Longrightarrow> \<not> allows b r"
  by (auto simp: allows_iff)

lemma undelegated: "(\<And>j. (asker r, j) \<notin> delegated b) \<Longrightarrow>
    allows b r \<longleftrightarrow> well_formed b r \<and> permitted b r (asker r)"
  by (auto simp: allows_iff elim: converse_rtranclE)

end

definition allows :: "'v json_ops \<Rightarrow> 'v policy_bundle \<Rightarrow> 'v evaluation \<Rightarrow> bool" where
  "allows J b input \<longleftrightarrow> (\<exists>d. evaluate J b input = Some d \<and> allowed d)"

definition well_formed_request :: "'v json_ops \<Rightarrow> 'v policy_bundle \<Rightarrow> 'v evaluation \<Rightarrow> bool" where
  "well_formed_request J b input \<longleftrightarrow>
     is_ok (bundle_validate J b) \<and> is_ok (evaluation_validate J input)
     \<and> r_tenant (e_resource input) = b_tenant b"

lemma allows_authorized: "allows J b input \<longleftrightarrow>
    is_ok (bundle_validate J b) \<and> is_ok (evaluation_validate J input) \<and> authorized J b input"
  using evaluate_authorized[of J b input] by (auto simp: allows_def)

lemma operand_resolve_subject:
  "operand_resolve J v s (input\<lparr>e_subject := j\<rparr>) = operand_resolve J v s input"
  by (cases v) simp_all

lemma condition_matches_subject:
  "condition_matches J c s (input\<lparr>e_subject := j\<rparr>) = condition_matches J c s input"
  by (induction J c s input rule: condition_matches.induct)
    (auto simp: list_all_iff list_ex_iff both_resolve_def operand_resolve_subject)

lemma permits_subject: "permits J b (input\<lparr>e_subject := j\<rparr>) i = permits J b input i"
  by (simp add: permits_def applies_def condition_matches_subject)

lemma permitted_subject_named:
  "bundle_validate J b = Inr u \<Longrightarrow> permits J b input j \<Longrightarrow> check_identifier j = Inr ()"
  by (auto simp: permits_def dest: validated_subject(6))

interpretation policies: authorizer
  "allows J" "well_formed_request J" "permits J" delegation e_subject "\<lambda>j r. r\<lparr>e_subject := j\<rparr>"
  for J :: "'v json_ops"
proof unfold_locales
  fix b :: "'v policy_bundle" and r j
  assume "well_formed_request J b r" "permits J b r j"
  then show "well_formed_request J b (r\<lparr>e_subject := j\<rparr>)"
    using permitted_subject_named[of J b "()" r j]
    by (auto simp: well_formed_request_def is_ok_unit evaluation_validate_def and_then_Inr_iff)
qed (auto simp: allows_authorized authorized_def well_formed_request_def permits_subject)

section \<open>A tenant with a delegated agent\<close>

text \<open>
  Alice is an editor, which inherits reader; her agent on the Node \<open>home\<close> is a reader on her
  behalf. Readers may read anything; only editors may create sub-nodes, and that policy names
  the action.
\<close>

definition plain_selector :: subject_selector where
  "plain_selector = \<lparr> sel_any = False, sel_ids = [], sel_groups = [], sel_roles = [], sel_kinds = [] \<rparr>"

definition demo_bundle :: "sample policy_bundle" where
  "demo_bundle =
     \<lparr> b_tenant = ''acme'',
       b_subjects =
         [(''agent'', \<lparr> s_kind = Agent, s_node = Some (NodeName ''home''), s_groups = [''staff''],
                        s_roles = [], s_attributes = SObject [], s_enabled = True,
                        s_delegated_by = Some ''alice'' \<rparr>),
          (''alice'', \<lparr> s_kind = User, s_node = None, s_groups = [], s_roles = [''editor''],
                        s_attributes = SObject [], s_enabled = True, s_delegated_by = None \<rparr>)],
       b_groups = [(''staff'', \<lparr> g_roles = [''editor''], g_assignable = True \<rparr>)],
       b_roles = [(''editor'', \<lparr> inherits = [''reader''] \<rparr>), (''reader'', \<lparr> inherits = [] \<rparr>)],
       b_policies =
         [\<lparr> p_id = ''read'', p_effect = Allow,
            p_subjects = plain_selector\<lparr> sel_roles := [''reader''] \<rparr>, p_actions = [''*''],
            p_resources = \<lparr> rs_kinds = [''*''], rs_ids = [] \<rparr>, p_condition = None \<rparr>,
          \<lparr> p_id = ''subnodes'', p_effect = Allow,
            p_subjects = plain_selector\<lparr> sel_roles := [''editor''] \<rparr>,
            p_actions = [''subnode.create''],
            p_resources = \<lparr> rs_kinds = [''node''], rs_ids = [] \<rparr>, p_condition = None \<rparr>] \<rparr>"

definition demo_request :: "string \<Rightarrow> string \<Rightarrow> sample evaluation" where
  "demo_request who action =
     \<lparr> e_subject = who, e_action = action,
       e_resource = \<lparr> r_tenant = ''acme'', r_kind = ''node'', r_id = ''home'',
                      r_attributes = SObject [] \<rparr>,
       e_environment = SObject [] \<rparr>"

lemmas policy_eval = check_identifier_def selector_names_def require_roles_def validate_role_def
  validate_group_def validate_subject_def validate_policy_def MAX_ENTITIES_def MAX_DEPTH_def
  expand_role.simps check_chain.simps(2) effective_roles_def Let_def text_eval evaluate_subject_def
  apply_policy_def policy_skipped_def subject_matches_def matches_action_def matches_name_def
  EXPLICIT_ACTIONS_def MODE_BYPASS_def SUBNODE_CREATE_def delegator_def denied_def

lemma demo_bundle_valid [simp]: "bundle_validate sample_json demo_bundle = Inr ()"
  by (simp add: bundle_validate_def demo_bundle_def plain_selector_def policy_eval)

lemma demo_request_valid [simp]:
  "evaluation_validate sample_json (demo_request ''agent'' ''subnode.create'') = Inr ()"
  by (simp add: evaluation_validate_def demo_request_def policy_eval)

lemma demo_evaluate:
  "evaluate sample_json demo_bundle (demo_request ''agent'' ''subnode.create'') =
     Some \<lparr> allowed = True, reason = ''allowed'', matched_policies = [''subnodes''],
            decision_roles = [''editor'', ''reader''], revision = 0 \<rparr>"
  by (simp add: evaluate_def)
    (simp add: demo_bundle_def demo_request_def plain_selector_def policy_eval)

lemma demo_delegation: "(''agent'', ''alice'') \<in> (delegation demo_bundle)\<^sup>*"
  by (rule r_into_rtrancl) (simp add: delegation_def delegator_def demo_bundle_def)

section \<open>Properties\<close>

text \<open>
  Property C1. Evaluation always returns, on every bundle and every request, and it allows the
  request exactly when the bundle and the request are valid, the resource belongs to the
  bundle's tenant, and every subject of the delegation chain, starting with the one that asks,
  is permitted: it exists, is enabled, some allow policy applies to it under its inherited roles
  and no deny policy does.
\<close>

theorem evaluate_decides:
  "\<exists>d. evaluate J b input = Some d
     \<and> (allowed d \<longleftrightarrow> is_ok (bundle_validate J b) \<and> is_ok (evaluation_validate J input)
                       \<and> authorized J b input)"
  by (rule evaluate_authorized)

text \<open>
  Property C27. Delegation only attenuates: what an agent is allowed, every subject up its
  delegation chain is allowed when it asks for itself.
\<close>

theorem delegate_attenuated:
  assumes "evaluate J b input = Some d" "allowed d" "(e_subject input, j) \<in> (delegation b)\<^sup>*"
  shows "\<exists>d'. evaluate J b (input\<lparr>e_subject := j\<rparr>) = Some d' \<and> allowed d'"
  using policies.attenuated[of J b input j] assms by (auto simp: allows_def)

theorem delegate_attenuated_witness:
  "\<exists>d'. evaluate sample_json demo_bundle (demo_request ''alice'' ''subnode.create'') = Some d' \<and> allowed d'"
  using delegate_attenuated[OF demo_evaluate, of "''alice''"] demo_delegation
  by (simp add: demo_request_def)

text \<open>
  Property C28. The actions that lift a safety check are never granted by a wildcard: when one
  is allowed, every subject of the delegation chain has an allow policy that applies to it and
  lists the action by name.
\<close>

theorem explicit_action_named:
  assumes "evaluate J b input = Some d" "allowed d" "e_action input \<in> set EXPLICIT_ACTIONS"
    and "(e_subject input, j) \<in> (delegation b)\<^sup>*"
  shows "\<exists>s p. map_of (b_subjects b) j = Some s \<and> p \<in> set (b_policies b) \<and> p_effect p = Allow
           \<and> applies J b input j s p \<and> e_action input \<in> set (p_actions p)"
proof -
  from assms have "permits J b input j"
    using policies.revoked[of J b input j] by (auto simp: allows_def)
  then obtain s p where "map_of (b_subjects b) j = Some s" "p \<in> set (b_policies b)"
      "p_effect p = Allow" "applies J b input j s p"
    by (auto simp: permits_def)
  moreover from this assms(3) have "e_action input \<in> set (p_actions p)"
    by (simp add: applies_def matches_action_def)
  ultimately show ?thesis by blast
qed

theorem explicit_action_named_witness:
  "\<exists>s p. map_of (b_subjects demo_bundle) ''alice'' = Some s \<and> p \<in> set (b_policies demo_bundle)
     \<and> p_effect p = Allow
     \<and> applies sample_json demo_bundle (demo_request ''agent'' ''subnode.create'') ''alice'' s p
     \<and> ''subnode.create'' \<in> set (p_actions p)"
  using explicit_action_named[OF demo_evaluate, of "''alice''"] demo_delegation
  by (simp add: demo_request_def EXPLICIT_ACTIONS_def SUBNODE_CREATE_def)

text \<open>
  Property C29. On a validated bundle the depth-first expansion of a subject's roles succeeds and
  computes exactly the roles reachable through inheritance from the subject's own roles and
  those of its groups, in ascending order.
\<close>

theorem effective_roles_closure:
  assumes "bundle_validate J b = Inr ()" "map_of (b_subjects b) i = Some s"
  shows "\<exists>roles. effective_roles b s = Inr roles \<and> set roles = role_closure b s \<and> set_ok roles"
  using effective_roles_spec[OF assms] effective_roles_ordered by blast

theorem effective_roles_closure_witness:
  "\<exists>s roles. map_of (b_subjects demo_bundle) ''agent'' = Some s
     \<and> effective_roles demo_bundle s = Inr roles \<and> set roles = role_closure demo_bundle s \<and> set_ok roles"
proof -
  obtain s where s: "map_of (b_subjects demo_bundle) ''agent'' = Some s"
    by (simp add: demo_bundle_def)
  from effective_roles_closure[OF demo_bundle_valid s] s show ?thesis by blast
qed

end
