(* ===== verification/Subnode_Props.thy ===== *)
theory Subnode_Props
  imports Subnodes Policy_Props
begin

text \<open>
  What the tables of Subnodes satisfy in every state that the use cases, the control of Runs and the
  progress of workers can reach, and what a Subnode's authority and admission amount to.
\<close>

section \<open>The invariant\<close>

definition raw_members :: "string \<Rightarrow> uuid \<Rightarrow> member_row list \<Rightarrow> sub_member list" where
  "raw_members tenant i rows = map mr_member (filter (\<lambda>m. mr_tenant m = tenant \<and> mr_subnode m = i) rows)"

definition members_inv :: "subnode \<Rightarrow> sub_member list \<Rightarrow> bool" where
  "members_inv s ms \<longleftrightarrow>
     distinct (map m_agent_id ms) \<and> length ms \<le> 20 \<and> (\<exists>m \<in> set ms. is_agent (sub_leader s) m)
     \<and> er_id (sub_creator_agent s) \<notin> m_agent_id ` set ms"

definition sub_row_inv :: "member_row list \<Rightarrow> subnode_row \<Rightarrow> bool" where
  "sub_row_inv members row \<longleftrightarrow>
     (let s = sr_subnode row in
      members_inv s (raw_members (sub_tenant s) (sub_id s) members)
      \<and> set (al_tools (sub_allowance s)) \<inter> set COORDINATION_TOOLS = {}
      \<and> (sub_status s = SubActive \<longleftrightarrow> sub_ended_at s = None)
      \<and> (sub_status s = SubActive \<longleftrightarrow> sub_ended_reason s = None))"

definition tables_inv :: "('v, 'x) control_store \<Rightarrow> bool" where
  "tables_inv t \<longleftrightarrow>
     control_ok t
     \<and> distinct (map (\<lambda>row. sub_workspace (sr_subnode row)) (subnode_rows t))
     \<and> (\<forall>m \<in> set (member_rows t). mr_subnode m \<in> (\<lambda>row. sub_id (sr_subnode row)) ` set (subnode_rows t))
     \<and> (\<forall>row \<in> set (subnode_rows t). sub_row_inv (member_rows t) row)
     \<and> (\<forall>tenant run. active_count tenant run (subnode_rows t) \<le> 10)"

lemma members_of_raw: "members_of tenant i rows = sort_key m_agent_id (raw_members tenant i rows)"
  by (simp add: members_of_def raw_members_def)

lemma members_of_facts [simp]:
  "set (members_of tenant i rows) = set (raw_members tenant i rows)"
  "length (members_of tenant i rows) = length (raw_members tenant i rows)"
  "list_ex P (members_of tenant i rows) \<longleftrightarrow> (\<exists>m \<in> set (raw_members tenant i rows). P m)"
  by (simp_all add: members_of_raw list_ex_iff)

lemma distinct_members_of:
  "distinct (map m_agent_id (members_of tenant i rows)) \<longleftrightarrow> distinct (map m_agent_id (raw_members tenant i rows))"
  by (simp add: members_of_raw distinct_map)

lemma row_domain_simps [simp]:
  "sub_id (row_domain ms row) = sub_id (sr_subnode row)" "sub_tenant (row_domain ms row) = sub_tenant (sr_subnode row)"
  "sub_status (row_domain ms row) = sub_status (sr_subnode row)"
  "sub_workspace (row_domain ms row) = sub_workspace (sr_subnode row)"
  "sub_leader (row_domain ms row) = sub_leader (sr_subnode row)"
  "sub_creator_run (row_domain ms row) = sub_creator_run (sr_subnode row)"
  "sub_creator_agent (row_domain ms row) = sub_creator_agent (sr_subnode row)"
  "sub_allowance (row_domain ms row) = sub_allowance (sr_subnode row)"
  "sub_members (row_domain ms row) = members_of (sub_tenant (sr_subnode row)) (sub_id (sr_subnode row)) ms"
  by (simp_all add: row_domain_def)

section \<open>Insertions\<close>

lemma refused_Inr [simp]: "refused r = Inr x \<longleftrightarrow> r = Inr x"
  by (cases r) (simp_all add: refused_def)

lemma insert_members_Inr:
  assumes "fold_each (insert_member i tenant) ms rows = Inr rows'"
  shows "rows' = rows @ map (\<lambda>m. \<lparr> mr_subnode = i, mr_tenant = tenant, mr_member = m \<rparr>) ms"
  using assms
proof (induction ms arbitrary: rows)
  case (Cons m ms)
  obtain rows1 where "insert_member i tenant m rows = Inr rows1" "fold_each (insert_member i tenant) ms rows1 = Inr rows'"
    using Cons.prems by (auto simp: and_then_Inr_iff)
  moreover from this(1) have "rows1 = rows @ [\<lparr> mr_subnode = i, mr_tenant = tenant, mr_member = m \<rparr>]"
    by (auto simp: insert_member_def split: if_splits)
  ultimately show ?case using Cons.IH[of rows1] by simp
qed simp

lemma raw_members_append: "raw_members tenant i (xs @ ys) = raw_members tenant i xs @ raw_members tenant i ys"
  by (simp add: raw_members_def)

lemma raw_members_new:
  "raw_members tenant j (map (\<lambda>m. \<lparr> mr_subnode = i, mr_tenant = tenant', mr_member = m \<rparr>) ms)
     = (if tenant' = tenant \<and> i = j then ms else [])"
  by (induction ms) (auto simp: raw_members_def)

lemma raw_members_unknown:
  "\<forall>m \<in> set rows. mr_subnode m \<noteq> i \<Longrightarrow> raw_members tenant i rows = []"
  by (auto simp: raw_members_def filter_empty_conv)

lemma raw_members_filter:
  "raw_members tenant i (filter (\<lambda>m. \<not> (mr_tenant m = tenant' \<and> mr_subnode m = j \<and> P (mr_member m))) rows)
     = (if tenant = tenant' \<and> i = j then filter (\<lambda>m. \<not> P m) (raw_members tenant i rows) else raw_members tenant i rows)"
  by (induction rows) (auto simp: raw_members_def)

lemma check_new_members_Inr:
  "check_new_members creator seen ms = Inr () \<longleftrightarrow>
     distinct (map er_id ms) \<and> set seen \<inter> er_id ` set ms = {} \<and> creator \<notin> er_id ` set ms"
  by (induction ms arbitrary: seen) auto

lemma active_count_append: "active_count tenant run (xs @ ys) = active_count tenant run xs + active_count tenant run ys"
  by (simp add: active_count_def)

text \<open>What the checks of a creation establish.\<close>

lemma create_checks_Inr:
  assumes "create_checks C run input st = Inr ()"
  shows "active_count (cr_tenant C) (run_id run) (subnode_rows (tables st)) < 10"
    and "length (ci_members input) \<le> 20" "ci_leader input \<in> set (ci_members input)"
    and "distinct (map er_id (ci_members input))" "run_agent_id run \<notin> er_id ` set (ci_members input)"
    and "set (al_tools (ci_allowance input)) \<subseteq> set (al_tools (cr_creator_authority C))"
    and "set (al_tools (ci_allowance input)) \<inter> set COORDINATION_TOOLS = {}"
    and "set (al_secrets (ci_allowance input)) \<subseteq> set (al_secrets (cr_creator_authority C))"
    and "\<forall>m \<in> set (ci_members input). \<exists>required. approved_member_authority C m = Inr required
      \<and> set (al_tools required) \<subseteq> set (al_tools (ci_allowance input)) \<union> set COORDINATION_TOOLS
      \<and> set (al_secrets required) \<subseteq> set (al_secrets (ci_allowance input))"
  using assms
  by (auto simp: create_checks_def and_then_Inr_iff for_each_Inr_iff check_new_members_Inr allowance_within_Inr
      member_fits_Inr dest!: check_create_Inr check_members_Inr split: if_splits)

lemma insert_active_Inr:
  assumes "insert_active s key f t = Inr t'"
  shows "runs t' = runs t"
    and "subnode_rows t' = subnode_rows t @ [\<lparr> sr_subnode = s\<lparr>sub_members := []\<rparr>, sr_key = key, sr_fingerprint = f \<rparr>]"
    and "member_rows t' = member_rows t @ map (\<lambda>m. \<lparr> mr_subnode = sub_id s, mr_tenant = sub_tenant s, mr_member = m \<rparr>) (sub_members s)"
    and "\<forall>row \<in> set (subnode_rows t). sub_id (sr_subnode row) \<noteq> sub_id s \<and> sub_workspace (sr_subnode row) \<noteq> sub_workspace s
      \<and> (sub_creator_run (sr_subnode row) = sub_creator_run s \<longrightarrow> sr_key row \<noteq> key)"
    and "sub_status s = SubActive" "sub_ended_at s = None" "sub_ended_reason s = None"
  using assms by (auto simp: insert_active_def and_then_Inr_iff list_ex_iff dest!: insert_members_Inr split: if_splits)

lemma tables_inv_event [simp]: "tables_inv (append_event e t) = tables_inv t"
  by (simp add: tables_inv_def append_event_def control_ok_def)

lemma insert_active_inv:
  assumes "insert_active s key f t = Inr t'" "tables_inv t" "members_inv s (sub_members s)"
    and "set (al_tools (sub_allowance s)) \<inter> set COORDINATION_TOOLS = {}"
    and "active_count (sub_tenant s) (sub_creator_run s) (subnode_rows t) < 10"
  shows "tables_inv t'"
proof -
  note t' = insert_active_Inr[OF assms(1)]
  let ?row = "\<lparr> sr_subnode = s\<lparr>sub_members := []\<rparr>, sr_key = key, sr_fingerprint = f \<rparr>"
  have known: "\<forall>m \<in> set (member_rows t). mr_subnode m \<noteq> sub_id s"
    using assms(2) t'(4) unfolding tables_inv_def by force
  have old: "raw_members tenant i (member_rows t') = raw_members tenant i (member_rows t)" if "i \<noteq> sub_id s" for tenant i
    using that by (simp add: t'(3) raw_members_append raw_members_new)
  have new: "raw_members (sub_tenant s) (sub_id s) (member_rows t') = sub_members s"
    by (simp add: t'(3) raw_members_append raw_members_new raw_members_unknown[OF known])
  have "sub_row_inv (member_rows t') row" if "row \<in> set (subnode_rows t)" for row
    using that assms(2) t'(4) old unfolding tables_inv_def sub_row_inv_def Let_def by auto
  moreover have "sub_row_inv (member_rows t') ?row"
    using assms(3,4) t'(5-7) new by (simp add: sub_row_inv_def members_inv_def)
  moreover have "active_count tenant run (subnode_rows t') \<le> 10" for tenant run
    using assms(2,5) by (auto simp: t'(2) active_count_append tables_inv_def) (auto simp: active_count_def)
  ultimately show ?thesis
    using assms(2) t'(4) unfolding tables_inv_def control_ok_def
    by (auto simp: t'(1-3) rev_image_eqI)
qed

lemma create_subnode_Inr:
  assumes "create_subnode J C now i workspace run key input st = Inr (s, st')"
  obtains (replayed) row where "by_key (cr_tenant C) (run_id run) key (subnode_rows (tables st)) = Some row"
      "sr_fingerprint row = cr_digest C input" "s = row_domain (member_rows (tables st)) row"
      "tables st' = tables st" "st' = st\<lparr>decisions := decisions st'\<rparr>"
  | (inserted) t where "by_key (cr_tenant C) (run_id run) key (subnode_rows (tables st)) = None"
      "create_checks C run input st = Inr ()" "s = new_subnode C now i workspace run input"
      "insert_active s key (cr_digest C input) (tables st) = Inr t"
      "tables st' = append_event (SubnodeCreated workspace i (run_id run)) t"
      "\<not> workspace_is_subnode (cr_tenant C) (run_workspace_id run) (tables st)"
proof -
  define creator where "creator = agent_subject (cr_node_address C) (run_agent_id run) (run_agent_version run)"
  obtain res d where "cr_node_resource C = Inr res" and d: "evaluate J (cr_bundle C)
      \<lparr> e_subject = creator, e_action = SUBNODE_CREATE, e_resource = res, e_environment = cr_environment C \<rparr> = Some d" "allowed d"
    using assms by (auto simp: create_subnode_def Let_def and_then_Inr_iff creator_def split: if_splits option.splits)
  define st1 where "st1 = st\<lparr>decisions := decisions st @ [decision.revision_update (\<lambda>_. cr_revision C) d]\<rparr>"
  have same: "create_checks C run input st1 = create_checks C run input st" "tables st1 = tables st"
    by (simp_all add: st1_def create_checks_def get_limits_def)
  obtain existing where ex: "create_replay C (run_id run) key input (tables st) = Inr existing"
    and nested: "\<not> workspace_is_subnode (cr_tenant C) (run_workspace_id run) (tables st)"
    and rest: "(case existing of Some s \<Rightarrow> Inr (s, st1) | None \<Rightarrow> and_then (create_checks C run input st1) (\<lambda>_.
        insert_subnode C now i workspace run key input st1)) = Inr (s, st')"
    using assms d \<open>cr_node_resource C = Inr res\<close> unfolding create_subnode_def Let_def creator_def st1_def
    by (auto simp: and_then_Inr_iff check_can_create_def split: if_splits)
  show thesis
  proof (cases existing)
    case None
    then have "by_key (cr_tenant C) (run_id run) key (subnode_rows (tables st)) = None"
      using ex by (auto simp: create_replay_def split: option.splits if_splits)
    moreover obtain t where "insert_active s key (cr_digest C input) (tables st) = Inr t"
      "s = new_subnode C now i workspace run input" "tables st' = append_event (SubnodeCreated workspace i (run_id run)) t"
      "create_checks C run input st = Inr ()"
      using rest None same by (auto simp: and_then_Inr_iff insert_subnode_def Let_def split: if_splits)
    ultimately show thesis using nested inserted by blast
  next
    case (Some s0)
    then obtain row where "by_key (cr_tenant C) (run_id run) key (subnode_rows (tables st)) = Some row"
      "sr_fingerprint row = cr_digest C input" "s = row_domain (member_rows (tables st)) row" "st' = st1"
      using ex rest by (auto simp: create_replay_def split: option.splits if_splits)
    then show thesis using replayed same(2) by (simp add: st1_def)
  qed
qed

lemma create_subnode_inv:
  assumes "create_subnode J C now i workspace run key input st = Inr (s, st')" "tables_inv (tables st)"
  shows "tables_inv (tables st')"
  using assms(1)
proof (cases rule: create_subnode_Inr)
  case (replayed row)
  then show ?thesis using assms(2) by simp
next
  case (inserted t)
  note c = create_checks_Inr[OF inserted(2)]
  have "members_inv s (sub_members s)"
    using c(2-5) by (auto simp: inserted(3) new_subnode_def members_inv_def is_agent_def comp_def image_image)
  moreover have "set (al_tools (sub_allowance s)) \<inter> set COORDINATION_TOOLS = {}"
    "active_count (sub_tenant s) (sub_creator_run s) (subnode_rows (tables st)) < 10"
    using c(1,7) by (simp_all add: inserted(3) new_subnode_def)
  ultimately show ?thesis using insert_active_inv[OF inserted(4) assms(2)] by (simp add: inserted(5))
qed

section \<open>Management keeps the invariant\<close>

lemma find_subnode_Some:
  "find_subnode tenant i t = Some row \<Longrightarrow> row \<in> set (subnode_rows t) \<and> sub_tenant (sr_subnode row) = tenant \<and> sub_id (sr_subnode row) = i"
  by (auto simp: find_subnode_def find_Some_iff)

lemma active_subnode_Inr:
  assumes "active_subnode tenant i t = Inr s"
  obtains row where "row \<in> set (subnode_rows t)" "sub_tenant (sr_subnode row) = tenant" "sub_id (sr_subnode row) = i"
    "s = row_domain (member_rows t) row" "sub_active row"
  using assms by (auto simp: active_subnode_def lock_subnode_def and_then_Inr_iff sub_active_def
      dest!: find_subnode_Some split: option.splits if_splits)

lemma same_id:
  assumes "tables_inv t" "row \<in> set (subnode_rows t)" "row' \<in> set (subnode_rows t)"
    "sub_id (sr_subnode row) = sub_id (sr_subnode row')"
  shows "row = row'"
proof -
  have "inj_on (\<lambda>row. sub_id (sr_subnode row)) (set (subnode_rows t))"
    using assms(1) by (simp add: tables_inv_def control_ok_def distinct_map)
  then show ?thesis using assms(2-4) by (auto dest: inj_onD)
qed

text \<open>Replacing the members of one Subnode by others that satisfy its rules.\<close>

lemma members_changed_inv:
  assumes "tables_inv t" "row \<in> set (subnode_rows t)"
    and "\<And>tenant i. (tenant, i) \<noteq> (sub_tenant (sr_subnode row), sub_id (sr_subnode row)) \<Longrightarrow>
      raw_members tenant i rows = raw_members tenant i (member_rows t)"
    and "members_inv (sr_subnode row) (raw_members (sub_tenant (sr_subnode row)) (sub_id (sr_subnode row)) rows)"
    and "mr_subnode ` set rows \<subseteq> insert (sub_id (sr_subnode row)) (mr_subnode ` set (member_rows t))"
  shows "tables_inv (t\<lparr>member_rows := rows\<rparr>)"
proof -
  have "sub_row_inv rows row'" if "row' \<in> set (subnode_rows t)" for row'
  proof (cases "row' = row")
    case True
    then show ?thesis using assms(1,2,4) by (auto simp: tables_inv_def sub_row_inv_def Let_def)
  next
    case False
    then have "sub_id (sr_subnode row') \<noteq> sub_id (sr_subnode row)" using same_id[OF assms(1) that assms(2)] by auto
    then show ?thesis using assms(1,3) that by (auto simp: tables_inv_def sub_row_inv_def Let_def)
  qed
  moreover have "\<forall>m \<in> set rows. mr_subnode m \<in> (\<lambda>row. sub_id (sr_subnode row)) ` set (subnode_rows t)"
  proof
    fix m assume "m \<in> set rows"
    then have "mr_subnode m = sub_id (sr_subnode row) \<or> mr_subnode m \<in> mr_subnode ` set (member_rows t)"
      using assms(5) by blast
    moreover have "mr_subnode ` set (member_rows t) \<subseteq> (\<lambda>row. sub_id (sr_subnode row)) ` set (subnode_rows t)"
      using assms(1) by (auto simp: tables_inv_def)
    ultimately show "mr_subnode m \<in> (\<lambda>row. sub_id (sr_subnode row)) ` set (subnode_rows t)" using assms(2) by blast
  qed
  ultimately show ?thesis using assms(1) by (simp add: tables_inv_def control_ok_def)
qed

lemma add_member_Inr:
  assumes "add_member M now run i agent st = Inr st'"
  obtains row required where "row \<in> set (subnode_rows (tables st))" "sub_active row" "sub_id (sr_subnode row) = i"
    "sub_tenant (sr_subnode row) = mg_tenant M"
    "mg_candidate M = Some required" "member_fits required (sub_allowance (sr_subnode row)) = Inr ()"
    "allowance_within (mg_creator_authority M) (sub_allowance (sr_subnode row)) = Inr ()"
    "er_id (sub_creator_agent (sr_subnode row)) \<noteq> er_id agent"
    "er_id agent \<notin> m_agent_id ` set (raw_members (sub_tenant (sr_subnode row)) i (member_rows (tables st)))"
    "length (raw_members (sub_tenant (sr_subnode row)) i (member_rows (tables st))) < 20"
    "sub_creator_run (sr_subnode row) = run_id run \<or> is_member (row_domain (member_rows (tables st)) row) run"
    "tables st' = append_event (MemberAdded (sub_workspace (sr_subnode row)) i agent)
      ((tables st)\<lparr>member_rows := member_rows (tables st) @ [\<lparr> mr_subnode = i, mr_tenant = sub_tenant (sr_subnode row),
         mr_member = \<lparr> m_agent_id = er_id agent, m_agent_version = er_version agent, m_added_by = run_id run, m_added_at = now \<rparr> \<rparr>]\<rparr>)"
proof -
  obtain s where s: "active_subnode (mg_tenant M) i (tables st) = Inr s"
    using assms by (auto simp: add_member_def and_then_Inr_iff)
  from s show thesis
  proof (cases rule: active_subnode_Inr)
    case (1 row)
    obtain required where "mg_candidate M = Some required"
      using assms by (auto simp: add_member_def and_then_Inr_iff split: option.splits)
    then show thesis using assms s 1
      by (intro that[of row required])
        (auto simp: add_member_def and_then_Inr_iff sub_participant_def insert_member_def on_tables_def list_ex_iff
          dest!: check_members_Inr split: if_splits option.splits)
  qed
qed

lemma add_member_inv:
  assumes "add_member M now run i agent st = Inr st'" "tables_inv (tables st)"
  shows "tables_inv (tables st')"
  using assms(1)
proof (cases rule: add_member_Inr)
  case (1 row required)
  let ?s = "sr_subnode row"
  let ?m = "\<lparr> m_agent_id = er_id agent, m_agent_version = er_version agent, m_added_by = run_id run, m_added_at = now \<rparr>"
  have inv: "members_inv ?s (raw_members (sub_tenant ?s) (sub_id ?s) (member_rows (tables st)))"
    using assms(2) 1(1) by (simp add: tables_inv_def sub_row_inv_def Let_def)
  have added: "raw_members tenant j (member_rows (tables st) @ [\<lparr> mr_subnode = i, mr_tenant = sub_tenant ?s, mr_member = ?m \<rparr>])
      = raw_members tenant j (member_rows (tables st)) @ (if tenant = sub_tenant ?s \<and> j = i then [?m] else [])" for tenant j
    by (auto simp: raw_members_def)
  have "tables_inv ((tables st)\<lparr>member_rows := member_rows (tables st) @ [\<lparr> mr_subnode = i, mr_tenant = sub_tenant ?s, mr_member = ?m \<rparr>]\<rparr>)"
    using inv 1(3,8-10) by (intro members_changed_inv[OF assms(2) 1(1)]) (auto simp: added members_inv_def)
  then show ?thesis by (simp add: 1(12))
qed

lemma remove_member_Inr:
  assumes "remove_member M run i agent st = Inr st'"
  obtains row where "row \<in> set (subnode_rows (tables st))" "sub_active row" "sub_id (sr_subnode row) = i"
    "sub_leader (sr_subnode row) \<noteq> agent" "\<not> member_has_active_work (row_domain (member_rows (tables st)) row) agent st"
    "tables st' = append_event (MemberRemoved (sub_workspace (sr_subnode row)) i agent)
      ((tables st)\<lparr>member_rows := filter (\<lambda>m. \<not> (mr_tenant m = sub_tenant (sr_subnode row) \<and> mr_subnode m = i
         \<and> is_agent agent (mr_member m))) (member_rows (tables st))\<rparr>)"
proof -
  obtain s where s: "active_subnode (mg_tenant M) i (tables st) = Inr s"
    using assms by (auto simp: remove_member_def and_then_Inr_iff)
  from s show thesis
  proof (cases rule: active_subnode_Inr)
    case (1 row)
    then show thesis using assms s
      by (intro that[of row])
        (auto simp: remove_member_def and_then_Inr_iff check_removal_def on_tables_def is_agent_def split: if_splits)
  qed
qed

lemma remove_member_inv:
  assumes "remove_member M run i agent st = Inr st'" "tables_inv (tables st)"
  shows "tables_inv (tables st')"
  using assms(1)
proof (cases rule: remove_member_Inr)
  case (1 row)
  let ?s = "sr_subnode row"
  let ?ms = "raw_members (sub_tenant ?s) (sub_id ?s) (member_rows (tables st))"
  have inv: "members_inv ?s ?ms"
    using assms(2) 1(1) by (simp add: tables_inv_def sub_row_inv_def Let_def)
  have "members_inv ?s (filter (\<lambda>m. \<not> is_agent agent m) ?ms)"
  proof -
    have "\<not> (is_agent (sub_leader ?s) m \<and> is_agent agent m)" for m
      using 1(4) by (cases agent; cases "sub_leader ?s") (auto simp: is_agent_def)
    moreover have "length (filter (\<lambda>m. \<not> is_agent agent m) ?ms) \<le> 20"
      using inv order.trans[OF length_filter_le] unfolding members_inv_def by blast
    ultimately show ?thesis using inv unfolding members_inv_def by (auto intro: distinct_map_filter)
  qed
  define rows where "rows = filter (\<lambda>m. \<not> (mr_tenant m = sub_tenant ?s \<and> mr_subnode m = i \<and> is_agent agent (mr_member m)))
    (member_rows (tables st))"
  have raw: "raw_members tenant j rows = (if tenant = sub_tenant ?s \<and> j = i
      then filter (\<lambda>m. \<not> is_agent agent m) (raw_members tenant j (member_rows (tables st)))
      else raw_members tenant j (member_rows (tables st)))" for tenant j
    unfolding rows_def by (rule raw_members_filter)
  have "set rows \<subseteq> set (member_rows (tables st))" by (auto simp: rows_def)
  then have "tables_inv ((tables st)\<lparr>member_rows := rows\<rparr>)"
    using 1(3) \<open>members_inv ?s (filter (\<lambda>m. \<not> is_agent agent m) ?ms)\<close>
    by (intro members_changed_inv[OF assms(2) 1(1)]) (auto simp: raw)
  then show ?thesis unfolding 1(6) rows_def[symmetric] by (simp only: tables_inv_event)
qed

text \<open>Ending Subnodes and controlling Runs.\<close>

lemma ended_rows_fields:
  "map (\<lambda>row. sub_workspace (sr_subnode row)) (ended_rows now why A rows) = map (\<lambda>row. sub_workspace (sr_subnode row)) rows"
  by (cases why) (auto simp: ended_rows_def end_subnode_def)

lemma sub_row_inv_end: "sub_row_inv ms row \<Longrightarrow> sub_row_inv ms (row\<lparr>sr_subnode := end_subnode now why (sr_subnode row)\<rparr>)"
  by (simp add: sub_row_inv_def end_subnode_def members_inv_def Let_def)

lemma ended_rows_inv:
  assumes "\<forall>row \<in> set rows. sub_row_inv ms row" "row \<in> set (ended_rows now why A rows)"
  shows "sub_row_inv ms row"
  using assms by (cases why) (auto simp: ended_rows_def intro: sub_row_inv_end)

lemma active_count_ended: "active_count tenant run (ended_rows now why A rows) \<le> active_count tenant run rows"
proof (cases why)
  case (Some w)
  then show ?thesis
    by (induction rows) (auto simp: ended_rows_def active_count_def end_subnode_def sub_active_def)
qed (simp add: ended_rows_def)

lemma ended_inv:
  assumes "tables_inv t" "control_ok t'" "subnode_rows t' = ended_rows now why A (subnode_rows t)" "member_rows t' = member_rows t"
  shows "tables_inv t'"
proof -
  have "(\<lambda>row. sub_id (sr_subnode row)) ` set (subnode_rows t') = (\<lambda>row. sub_id (sr_subnode row)) ` set (subnode_rows t)"
    using arg_cong[OF ended_rows_ids[of now why A "subnode_rows t"], of set] by (simp add: assms(3))
  moreover have "active_count tenant run (subnode_rows t') \<le> 10" for tenant run
    using assms(1) active_count_ended[of tenant run now why A "subnode_rows t"] unfolding assms(3) tables_inv_def
    by (meson order.trans)
  ultimately show ?thesis
    using assms ended_rows_inv[of "subnode_rows t" "member_rows t"] by (auto simp: tables_inv_def ended_rows_fields)
qed

lemma end_one_inv:
  assumes "end_one M now s why st = Inr st'" "tables_inv (tables st)"
  shows "tables_inv (tables st')"
proof -
  have ok: "control_ok (tables st)" using assms(2) by (simp add: tables_inv_def)
  have cancel: "CtlCancel \<noteq> CtlResume" by simp
  obtain t where t: "control_subnode (mg_deployment M) now CtlCancel BySystem (Some why) (sub_id s, sub_workspace s) (tables st) = Inr t"
    "control_ok t" "subnode_rows t = ended_rows now (Some why) {sub_id s} (subnode_rows (tables st))" "member_rows t = member_rows (tables st)"
    using control_subnode_total[OF ok cancel] by blast
  from t(1) have "st' = st\<lparr>tables := t\<rparr>" using assms(1) by (simp add: end_one_def)
  then show ?thesis using ended_inv[OF assms(2) t(2-4)] by simp
qed

lemma dissolve_inv: "dissolve M now run i st = Inr st' \<Longrightarrow> tables_inv (tables st) \<Longrightarrow> tables_inv (tables st')"
  by (auto simp: dissolve_def and_then_Inr_iff intro: end_one_inv)

lemma run_command_inv:
  assumes "run_command M now run i key c st = Inr (r, st')" "tables_inv (tables st)"
  shows "tables_inv (tables st')"
proof (cases c)
  case (CmdAdd j agent)
  then show ?thesis using assms add_member_inv by (auto simp: run_command_def and_then_Inr_iff)
next
  case (CmdRemove j agent)
  then show ?thesis using assms remove_member_inv by (auto simp: run_command_def and_then_Inr_iff)
next
  case (CmdDissolve j)
  then show ?thesis using assms dissolve_inv by (auto simp: run_command_def and_then_Inr_iff)
qed (use assms in \<open>auto simp: run_command_def and_then_Inr_iff\<close>)

lemma subnode_command_inv:
  assumes "subnode_command digest M now run i key c st = Inr (r, st')" "tables_inv (tables st)"
  shows "tables_inv (tables st')"
proof -
  have "st' = st \<or> (\<exists>st1 rows. run_command M now run i key c st = Inr (r, st1) \<and> st' = st1\<lparr>receipts := rows\<rparr>)"
    using assms(1) by (auto simp: subnode_command_def and_then_Inr_iff split: option.splits if_splits)
  then show ?thesis using assms(2) run_command_inv by fastforce
qed

lemma control_one_frame:
  assumes "control_one_in_as deployment now action source i t = Inr (r, t')"
  shows "subnode_rows t' = subnode_rows t" "member_rows t' = member_rows t" "map run_id (runs t') = map run_id (runs t)"
proof -
  obtain r0 where r0: "find_run i t = Some r0" "run_id r0 = i"
    using assms find_run_Some by (fastforce simp: control_one_in_as_def split: option.splits)
  then show "subnode_rows t' = subnode_rows t" "member_rows t' = member_rows t"
    using assms by (auto simp: control_one_in_as_def Let_def append_event_def split: if_splits option.splits)
  obtain resumed where "run_id r = i"
    "runs t' = map (\<lambda>x. if run_id x = i \<and> controllable x then r else x) (runs t)"
    using assms r0 by (auto simp: control_one_in_as_def Let_def append_event_def decide_control_def split: if_splits option.splits)
  then show "map run_id (runs t') = map run_id (runs t)" by simp
qed

lemma control_one_inv:
  "control_one_in_as deployment now action source i t = Inr (r, t') \<Longrightarrow> tables_inv t \<Longrightarrow> tables_inv t'"
  using control_one_frame[of deployment now action source i t r t'] by (simp add: tables_inv_def control_ok_def)

lemma control_for_creator_inv:
  assumes "control_for_creator deployment now creator action source why t = Inr t'" "tables_inv t"
  shows "tables_inv t'"
proof -
  have ok: "control_ok t" using assms(2) by (simp add: tables_inv_def)
  have action: "action \<noteq> CtlResume"
    and run: "fold_each (control_subnode deployment now action source why) (active_subnodes creator t) t = Inr t'"
    using assms(1) by (auto simp: control_for_creator_def split: if_splits)
  obtain t1 where t1: "fold_each (control_subnode deployment now action source why) (active_subnodes creator t) t = Inr t1"
    "control_ok t1" "subnode_rows t1 = ended_rows now why (fst ` set (active_subnodes creator t)) (subnode_rows t)"
    "member_rows t1 = member_rows t"
    using control_subnodes_total[OF ok action] by blast
  then have "t1 = t'" using run by simp
  then show ?thesis using ended_inv[OF assms(2) t1(2-4)] by simp
qed

lemma control_in_as_inv:
  assumes "control_in_as deployment now action source i t = Inr (r, t')" "tables_inv t"
  shows "tables_inv t'"
proof -
  obtain t1 where t1: "control_one_in_as deployment now action source i t = Inr (r, t1)"
    "t' = t1 \<or> (\<exists>why. control_for_creator deployment now i action source why t1 = Inr t')"
    using assms(1) by (auto simp: control_in_as_def and_then_Inr_iff split: if_splits)
  then show ?thesis using control_one_inv[OF t1(1) assms(2)] control_for_creator_inv by blast
qed

section \<open>Steps\<close>

text \<open>
  One committed transaction: a creation, a command, a control decision, a change of the Tenant's
  limits, or any change that workers make to Runs, Tasks, delegations and origins.
\<close>

inductive subnode_step :: "('v, 'x) subnode_store \<Rightarrow> ('v, 'x) subnode_store \<Rightarrow> bool" where
  step_created: "create_subnode J (C :: 'v creation) now i workspace run key input st = Inr (s, st') \<Longrightarrow> subnode_step st st'"
| step_commanded: "subnode_command digest M now run i key c st = Inr (r, st') \<Longrightarrow> subnode_step st st'"
| step_controlled: "control_in_as deployment now action source i (tables st) = Inr (r, t) \<Longrightarrow> subnode_step st (st\<lparr>tables := t\<rparr>)"
| step_limited: "put_limits tenant l st = Inr st' \<Longrightarrow> subnode_step st st'"
| step_worked: "distinct (map run_id rs) \<Longrightarrow>
    subnode_step st (st\<lparr>tables := (tables st)\<lparr>runs := rs\<rparr>, task_rows := ts, delegations := ds, task_origins := os\<rparr>)"

definition subnode_init :: "('v, 'x) subnode_store \<Rightarrow> bool" where
  "subnode_init st \<longleftrightarrow> subnode_rows (tables st) = [] \<and> member_rows (tables st) = [] \<and> distinct (map run_id (runs (tables st)))"

interpretation subnodes: invariant_system subnode_init subnode_step "\<lambda>st. tables_inv (tables st)"
proof unfold_locales
  fix st :: "('a, 'b) subnode_store"
  show "subnode_init st \<Longrightarrow> tables_inv (tables st)"
    by (simp add: subnode_init_def tables_inv_def control_ok_def active_count_def)
next
  fix st st' :: "('a, 'b) subnode_store"
  assume inv: "tables_inv (tables st)" and "subnode_step st st'"
  from this(2) show "tables_inv (tables st')"
  proof cases
    case step_created
    then show ?thesis using inv by (rule create_subnode_inv)
  next
    case step_commanded
    then show ?thesis using inv by (rule subnode_command_inv)
  next
    case step_controlled
    then show ?thesis using inv control_in_as_inv by fastforce
  next
    case step_limited
    then show ?thesis using inv by (auto simp: put_limits_def split: sum.splits if_splits)
  next
    case step_worked
    then show ?thesis using inv by (simp add: tables_inv_def control_ok_def)
  qed
qed

section \<open>An example\<close>

text \<open>The agent of a Run may create Subnodes; its Subnode has one worker, which needs one tool.\<close>

definition bundle_a :: "sample policy_bundle" where
  "bundle_a =
     \<lparr> b_tenant = ''t'',
       b_subjects = [(''d/a-b/agents/agent@1'', \<lparr> s_kind = Agent, s_node = Some (NodeName ''a-b''), s_groups = [], s_roles = [''maker''],
                        s_attributes = SObject [], s_enabled = True, s_delegated_by = None \<rparr>)],
       b_groups = [], b_roles = [(''maker'', \<lparr> inherits = [] \<rparr>)],
       b_policies = [\<lparr> p_id = ''make'', p_effect = Allow, p_subjects = plain_selector\<lparr> sel_roles := [''maker''] \<rparr>,
            p_actions = [''subnode.create''], p_resources = \<lparr> rs_kinds = [''node''], rs_ids = [] \<rparr>, p_condition = None \<rparr>] \<rparr>"

definition worker_a :: entity_ref where
  "worker_a = \<lparr> er_id = ''worker'', er_version = ''1'' \<rparr>"

definition creation_a :: "sample creation" where
  "creation_a =
     \<lparr> cr_subjects = [''d/a-b/agents/agent@1''], cr_bundle = bundle_a, cr_revision = 3, cr_environment = SObject [],
       cr_tenant = ''t'', cr_subject = ''u'', cr_node_address = ''d/a-b'', cr_remote = False,
       cr_creator_authority = \<lparr> al_tools = [''bash'', ''web''], al_secrets = [''s''] \<rparr>,
       cr_members = [(''worker@1'', \<lparr> al_tools = [''bash'', ''task_create''], al_secrets = [] \<rparr>)],
       cr_node_resource = Inr \<lparr> r_tenant = ''t'', r_kind = ''node'', r_id = ''a-b'', r_attributes = SObject [] \<rparr>,
       cr_scratch = Inr (8, ''u''), cr_digest = (\<lambda>_. ''f'') \<rparr>"

definition input_a :: create_input where
  "input_a = \<lparr> ci_leader = worker_a, ci_members = [worker_a], ci_allowance = \<lparr> al_tools = [''bash''], al_secrets = [] \<rparr>,
     ci_title = None \<rparr>"

definition substore_a :: "(sample, unit) subnode_store" where
  "substore_a =
     \<lparr> tables = \<lparr> runs = [run_a 1 3], subnode_rows = [], member_rows = [], retry_cycles = (\<lambda>_. 0), stopped_previews = [], log = [] \<rparr>,
       tenant_names = [''t''], limit_rows = (\<lambda>_. None), receipts = [], workspace_rows = [], workspace_owners = [],
       task_rows = [], delegations = [], task_origins = (\<lambda>_. None), decisions = [] \<rparr>"

lemma bundle_a_valid: "bundle_validate sample_json bundle_a = Inr ()"
  by (simp add: bundle_validate_def bundle_a_def plain_selector_def policy_eval)

lemma evaluate_a:
  "\<exists>d. evaluate sample_json bundle_a \<lparr> e_subject = ''d/a-b/agents/agent@1'', e_action = SUBNODE_CREATE,
      e_resource = \<lparr> r_tenant = ''t'', r_kind = ''node'', r_id = ''a-b'', r_attributes = SObject [] \<rparr>,
      e_environment = SObject [] \<rparr> = Some d \<and> allowed d"
  by (simp add: evaluate_def bundle_a_valid evaluation_validate_def)
    (simp add: bundle_a_def plain_selector_def policy_eval)

lemma run_a_facts:
  "run_agent_id (run_a i w) = ''agent''" "run_agent_version (run_a i w) = ''1''" "run_id (run_a i w) = i"
  "run_workspace_id (run_a i w) = w" "controllable (run_a i w)"
  by (simp_all add: run_a_def sample_run_def controllable_def phase_is_terminal_def)

lemma create_a:
  "\<exists>s st'. create_subnode sample_json creation_a 50 20 9 (run_a 1 3) ''k'' input_a substore_a = Inr (s, st')"
proof -
  obtain d where d: "evaluate sample_json bundle_a \<lparr> e_subject = ''d/a-b/agents/agent@1'', e_action = SUBNODE_CREATE,
      e_resource = \<lparr> r_tenant = ''t'', r_kind = ''node'', r_id = ''a-b'', r_attributes = SObject [] \<rparr>,
      e_environment = SObject [] \<rparr> = Some d" "allowed d" using evaluate_a by blast
  have subject: "agent_subject ''d/a-b'' ''agent'' ''1'' = ''d/a-b/agents/agent@1''" by (simp add: agent_subject_def)
  have checks: "create_checks creation_a (run_a 1 3) input_a (substore_a\<lparr>decisions := ds\<rparr>) = Inr ()" for ds
    by (simp add: create_checks_def creation_a_def substore_a_def get_limits_def default_subnode_limits_def check_remote_def
        subnode_limits_validate_def check_create_def active_count_def check_members_def input_a_def worker_a_def run_a_facts
        allowance_within_def COORDINATION_TOOLS_def set_difference_def approved_member_authority_def agent_key_def member_fits_def refused_def)
  have "\<exists>x. insert_subnode creation_a 50 20 9 (run_a 1 3) ''k'' input_a (substore_a\<lparr>decisions := ds\<rparr>) = Inr x" for ds
    by (simp add: insert_subnode_def creation_a_def substore_a_def input_a_def nonempty_def trim_def utf8_width_def text_eval
        domain_def insert_active_def new_subnode_def insert_member_def Let_def)
  then show ?thesis using d checks
    by (auto simp: create_subnode_def creation_a_def run_a_facts subject check_can_create_def workspace_is_subnode_def
        substore_a_def create_replay_def by_key_def find_run_def Let_def refused_def)
qed

lemma create_a_row:
  assumes c: "create_subnode sample_json creation_a 50 20 9 (run_a 1 3) ''k'' input_a substore_a = Inr (s, st')"
  shows "\<exists>row. reaches subnode_init subnode_step st' \<and> row \<in> set (subnode_rows (tables st'))
    \<and> sub_leader (sr_subnode row) = worker_a \<and> sub_creator_run (sr_subnode row) = 1 \<and> runs (tables st') = [run_a 1 3]"
proof -
  have init: "subnode_init substore_a" by (simp add: subnode_init_def substore_a_def)
  have r: "reaches subnode_init subnode_step st'"
    using reaches_step[of subnode_init subnode_step substore_a st'] reaches_init[of subnode_init substore_a subnode_step]
      init step_created[OF c] by blast
  from c show ?thesis
  proof (cases rule: create_subnode_Inr)
    case (replayed row)
    then show ?thesis by (simp add: by_key_def substore_a_def)
  next
    case (inserted t)
    have "subnode_rows (tables st') = subnode_rows (tables substore_a)
        @ [\<lparr> sr_subnode = s\<lparr>sub_members := []\<rparr>, sr_key = ''k'', sr_fingerprint = cr_digest creation_a input_a \<rparr>]"
      "runs (tables st') = runs (tables substore_a)"
      unfolding inserted(5) using insert_active_Inr(1,2)[OF inserted(4)] by (simp_all add: append_event_def)
    moreover have "sub_leader s = worker_a" "sub_creator_run s = 1"
      by (simp_all add: inserted(3) new_subnode_def input_a_def run_a_facts)
    ultimately show ?thesis using r by (simp add: substore_a_def)
  qed
qed

section \<open>Properties\<close>

text \<open>
  Property C6. In every state that creations, commands, controls, limit changes and the progress of
  workers can reach, a Subnode has at most twenty members and one version of each agent, its leader
  is a member, its creating agent is not, its allowance names no coordination tool, it is active
  exactly while it has no end, no two Subnodes share a Workspace, and no Run has more than ten active
  Subnodes.
\<close>

theorem subnodes_well_formed:
  assumes "reaches subnode_init subnode_step st" "row \<in> set (subnode_rows (tables st))"
  shows "let s = row_domain (member_rows (tables st)) row in
      distinct (map m_agent_id (sub_members s)) \<and> length (sub_members s) \<le> 20
      \<and> list_ex (is_agent (sub_leader s)) (sub_members s)
      \<and> er_id (sub_creator_agent s) \<notin> set (map m_agent_id (sub_members s))
      \<and> set (al_tools (sub_allowance s)) \<inter> set COORDINATION_TOOLS = {}
      \<and> (sub_status s = SubActive \<longleftrightarrow> sub_ended_at (sr_subnode row) = None)
      \<and> distinct (map (\<lambda>row. sub_workspace (sr_subnode row)) (subnode_rows (tables st)))
      \<and> active_count tenant run (subnode_rows (tables st)) \<le> 10"
proof -
  have "tables_inv (tables st)" using subnodes.reachable_inv[OF assms(1)] .
  then have "sub_row_inv (member_rows (tables st)) row" "distinct (map (\<lambda>row. sub_workspace (sr_subnode row)) (subnode_rows (tables st)))"
    "active_count tenant run (subnode_rows (tables st)) \<le> 10"
    using assms(2) by (simp_all add: tables_inv_def)
  then show ?thesis by (auto simp: Let_def sub_row_inv_def members_inv_def distinct_members_of)
qed

theorem subnodes_well_formed_witness:
  "\<exists>(st :: (sample, unit) subnode_store) row. reaches subnode_init subnode_step st \<and> row \<in> set (subnode_rows (tables st))
     \<and> sub_leader (row_domain (member_rows (tables st)) row) = worker_a
     \<and> list_ex (is_agent worker_a) (sub_members (row_domain (member_rows (tables st)) row))"
proof -
  obtain s st' where c: "create_subnode sample_json creation_a 50 20 9 (run_a 1 3) ''k'' input_a substore_a = Inr (s, st')"
    using create_a by blast
  obtain row where r: "reaches subnode_init subnode_step st'" and row: "row \<in> set (subnode_rows (tables st'))"
    "sub_leader (sr_subnode row) = worker_a"
    using create_a_row[OF c] by blast
  have "list_ex (is_agent worker_a) (sub_members (row_domain (member_rows (tables st')) row))"
    using subnodes_well_formed[OF r row(1), of "''t''" 1] row(2) by (simp add: Let_def)
  then show ?thesis using r row by (intro exI[of _ st'] exI[of _ row]) simp
qed

text \<open>
  Property C23. Authority narrows at both boundaries: a Subnode is created anew only when the policy
  permits the creating agent and its delegators the action, and then the allowance is within what
  the creator may use and what each member needs is within the allowance and the coordination tools;
  a member is added later only under the same bounds, against the creator's authority at that time.
\<close>

theorem subnode_authority:
  assumes "create_subnode J C now i workspace run key input st = Inr (s, st')"
    and "by_key (cr_tenant C) (run_id run) key (subnode_rows (tables st)) = None"
    and "add_member M later run' i agent st1 = Inr st2"
  shows "(\<exists>resource. cr_node_resource C = Inr resource \<and> authorized J (cr_bundle C)
      \<lparr> e_subject = agent_subject (cr_node_address C) (run_agent_id run) (run_agent_version run),
        e_action = SUBNODE_CREATE, e_resource = resource, e_environment = cr_environment C \<rparr>)
    \<and> set (al_tools (sub_allowance s)) \<subseteq> set (al_tools (cr_creator_authority C))
    \<and> set (al_secrets (sub_allowance s)) \<subseteq> set (al_secrets (cr_creator_authority C))
    \<and> (\<forall>m \<in> set (ci_members input). \<exists>required. approved_member_authority C m = Inr required
        \<and> set (al_tools required) \<subseteq> set (al_tools (sub_allowance s)) \<union> set COORDINATION_TOOLS
        \<and> set (al_secrets required) \<subseteq> set (al_secrets (sub_allowance s)))
    \<and> (\<exists>row required. row \<in> set (subnode_rows (tables st1)) \<and> sub_id (sr_subnode row) = i \<and> sub_active row
        \<and> mg_candidate M = Some required
        \<and> set (al_tools required) \<subseteq> set (al_tools (sub_allowance (sr_subnode row))) \<union> set COORDINATION_TOOLS
        \<and> set (al_secrets required) \<subseteq> set (al_secrets (sub_allowance (sr_subnode row)))
        \<and> set (al_tools (sub_allowance (sr_subnode row))) \<subseteq> set (al_tools (mg_creator_authority M))
        \<and> set (al_secrets (sub_allowance (sr_subnode row))) \<subseteq> set (al_secrets (mg_creator_authority M)))"
proof -
  define creator where "creator = agent_subject (cr_node_address C) (run_agent_id run) (run_agent_version run)"
  obtain res d where res: "cr_node_resource C = Inr res" and d: "evaluate J (cr_bundle C)
      \<lparr> e_subject = creator, e_action = SUBNODE_CREATE, e_resource = res, e_environment = cr_environment C \<rparr> = Some d" "allowed d"
    using assms(1) by (auto simp: create_subnode_def Let_def and_then_Inr_iff creator_def split: if_splits option.splits)
  then have "authorized J (cr_bundle C)
      \<lparr> e_subject = creator, e_action = SUBNODE_CREATE, e_resource = res, e_environment = cr_environment C \<rparr>"
    using evaluate_authorized[of J "cr_bundle C"] by fastforce
  moreover have "create_checks C run input st = Inr ()" "sub_allowance s = ci_allowance input"
    using assms(1,2) by (cases rule: create_subnode_Inr; simp add: new_subnode_def)+
  moreover note create_checks_Inr(6,8,9)[OF calculation(2)]
  moreover obtain row required where "row \<in> set (subnode_rows (tables st1))" "sub_id (sr_subnode row) = i" "sub_active row"
    "mg_candidate M = Some required" "member_fits required (sub_allowance (sr_subnode row)) = Inr ()"
    "allowance_within (mg_creator_authority M) (sub_allowance (sr_subnode row)) = Inr ()"
    using assms(3) by (cases rule: add_member_Inr) blast
  ultimately show ?thesis using res by (auto simp: creator_def member_fits_Inr allowance_within_Inr)
qed

definition management_a :: "(sample, unit) management" where
  "management_a = \<lparr> mg_tenant = ''t'', mg_deployment = ''d'', mg_creator_authority = \<lparr> al_tools = [], al_secrets = [] \<rparr>,
     mg_candidate = Some \<lparr> al_tools = [''task_create''], al_secrets = [] \<rparr>,
     mg_task = (\<lambda>_ _ _ _ _. Inl Forbidden), mg_message = (\<lambda>_ _ _ _. Inl Forbidden) \<rparr>"

lemma add_a:
  "\<exists>st2. add_member management_a 60 (run_a 1 3) 20 \<lparr> er_id = ''helper'', er_version = ''1'' \<rparr>
     (substore_a\<lparr>tables := control_store_a\<rparr>) = Inr st2"
  by (simp add: add_member_def active_subnode_def lock_subnode_def find_subnode_def management_a_def control_store_a_def row_a_def
      find_run_def run_a_facts sub_participant_def refused_def members_of_def substore_a_def get_limits_def row_domain_def
      default_subnode_limits_def check_members_def subnode_limits_validate_def allowance_within_def set_difference_def
      member_fits_def COORDINATION_TOOLS_def insert_member_def)

theorem subnode_authority_witness:
  "\<exists>s st'. create_subnode sample_json creation_a 50 20 9 (run_a 1 3) ''k'' input_a substore_a = Inr (s, st')
     \<and> set (al_tools (sub_allowance s)) \<subseteq> {''bash'', ''web''}"
proof -
  obtain s st' where c: "create_subnode sample_json creation_a 50 20 9 (run_a 1 3) ''k'' input_a substore_a = Inr (s, st')"
    using create_a by blast
  obtain st2 where a: "add_member management_a 60 (run_a 1 3) 20 \<lparr> er_id = ''helper'', er_version = ''1'' \<rparr>
     (substore_a\<lparr>tables := control_store_a\<rparr>) = Inr st2" using add_a by blast
  have "by_key (cr_tenant creation_a) (run_id (run_a 1 3)) ''k'' (subnode_rows (tables substore_a)) = None"
    by (simp add: by_key_def substore_a_def)
  from subnode_authority[OF c this a] have "set (al_tools (sub_allowance s)) \<subseteq> set (al_tools (cr_creator_authority creation_a))"
    by blast
  then show ?thesis using c by (simp add: creation_a_def)
qed

text \<open>Ending Subnodes keeps which Subnode is in which Workspace.\<close>

lemma ended_rows_find:
  assumes "distinct (map (\<lambda>row. sub_workspace (sr_subnode row)) rows)" "row \<in> set rows"
    "\<forall>row' \<in> set (ended_rows now why A rows). sub_creator_run (sr_subnode row') = sub_creator_run (sr_subnode row) \<longrightarrow> \<not> sub_active row'"
    "\<And>row'. sub_workspace (sr_subnode row') = sub_workspace (sr_subnode row) \<Longrightarrow>
        sub_tenant (sr_subnode row') = sub_tenant (sr_subnode row) \<Longrightarrow> P row'"
    "\<And>row'. P row' \<Longrightarrow> sub_workspace (sr_subnode row') = sub_workspace (sr_subnode row)"
  shows "\<exists>row'. List.find P (ended_rows now why A rows) = Some row' \<and> \<not> sub_active row'"
proof -
  define f where "f row = (case why of None \<Rightarrow> row | Some w \<Rightarrow> if sub_id (sr_subnode row) \<in> A
     then row\<lparr>sr_subnode := end_subnode now w (sr_subnode row)\<rparr> else row)" for row :: subnode_row
  have f: "ended_rows now why A rows = map f rows"
    by (cases why) (simp_all add: ended_rows_def f_def map_idI)
  have same: "sub_workspace (sr_subnode (f x)) = sub_workspace (sr_subnode x)" "sub_tenant (sr_subnode (f x)) = sub_tenant (sr_subnode x)"
    "sub_creator_run (sr_subnode (f x)) = sub_creator_run (sr_subnode x)" for x
    by (auto simp: f_def end_subnode_def split: option.splits)
  have "P (f row)" using assms(4) same by simp
  then have "List.find P (map f rows) \<noteq> None" using assms(2) by (auto simp: find_None_iff)
  then obtain row' where found: "List.find P (map f rows) = Some row'" by auto
  then obtain x where x: "x \<in> set rows" "row' = f x" "P (f x)" by (auto simp: find_Some_iff) (metis nth_mem)
  have "inj_on (\<lambda>row. sub_workspace (sr_subnode row)) (set rows)" using assms(1) by (simp add: distinct_map)
  moreover have "sub_workspace (sr_subnode x) = sub_workspace (sr_subnode row)" using assms(5)[OF x(3)] same by simp
  ultimately have "x = row" using x(1) assms(2) by (auto dest: inj_onD)
  then have "\<not> sub_active row'" using assms(2,3) x(2) same unfolding f by auto
  then show ?thesis using found f by simp
qed

text \<open>
  Property C30. Work in a Subnode ends with its creator: once a Run's cancellation is taken in a
  reachable state, no Task of a Workspace of its Subnodes is admitted for any agent, whatever the
  Task's origin, and nothing may be written there.
\<close>

theorem ended_subnode_closed:
  assumes "reaches subnode_init subnode_step st" "control_in_as deployment now CtlCancel source i (tables st) = Inr (r, t)"
    and "row \<in> set (subnode_rows (tables st))" "sub_creator_run (sr_subnode row) = i"
  shows "require_admission (sub_tenant (sr_subnode row)) task (sub_workspace (sr_subnode row)) agent (st\<lparr>tables := t\<rparr>) = Inl Forbidden
    \<and> require_writable (sub_workspace (sr_subnode row)) t = Inl Forbidden"
proof -
  have inv: "tables_inv (tables st)" using subnodes.reachable_inv[OF assms(1)] .
  then have ok: "control_ok (tables st)" by (simp add: tables_inv_def)
  obtain t1 where one: "control_one_in_as deployment now CtlCancel source i (tables st) = Inr (r, t1)"
    using assms(2) by (auto simp: control_in_as_def and_then_Inr_iff)
  then obtain r0 where r0: "find_run i (tables st) = Some r0" "controllable r0"
    using control_one_Inr(1) by blast
  have rows: "\<forall>row' \<in> set (subnode_rows t). sub_creator_run (sr_subnode row') = i \<longrightarrow> \<not> sub_active row'"
    using control_in_as_cascade[OF ok r0, of CtlCancel source deployment now] assms(2) by auto
  obtain why A where t: "subnode_rows t = ended_rows now why A (subnode_rows (tables st))"
    using control_in_as_cascade[OF ok r0, of CtlCancel source deployment now] assms(2) by auto
  have distinct: "distinct (map (\<lambda>row. sub_workspace (sr_subnode row)) (subnode_rows (tables st)))"
    using inv by (simp add: tables_inv_def)
  note find = ended_rows_find[OF distinct assms(3), of now why A, folded t, unfolded assms(4), OF rows]
  obtain row1 where "List.find (\<lambda>row'. sub_tenant (sr_subnode row') = sub_tenant (sr_subnode row)
      \<and> sub_workspace (sr_subnode row') = sub_workspace (sr_subnode row)) (subnode_rows t) = Some row1" "\<not> sub_active row1"
    using find[of "\<lambda>row'. sub_tenant (sr_subnode row') = sub_tenant (sr_subnode row)
      \<and> sub_workspace (sr_subnode row') = sub_workspace (sr_subnode row)"] by auto
  moreover obtain row2 where "List.find (\<lambda>row'. sub_workspace (sr_subnode row') = sub_workspace (sr_subnode row)) (subnode_rows t) = Some row2"
    "\<not> sub_active row2"
    using find[of "\<lambda>row'. sub_workspace (sr_subnode row') = sub_workspace (sr_subnode row)"] by auto
  ultimately show ?thesis by (simp add: require_admission_def require_writable_def)
qed

theorem ended_subnode_closed_witness:
  "\<exists>(st :: (sample, unit) subnode_store) r t row. reaches subnode_init subnode_step st
     \<and> control_in_as ''d'' 70 CtlCancel ByTenant 1 (tables st) = Inr (r, t)
     \<and> row \<in> set (subnode_rows (tables st))
     \<and> require_admission (sub_tenant (sr_subnode row)) 5 (sub_workspace (sr_subnode row)) worker_a (st\<lparr>tables := t\<rparr>) = Inl Forbidden"
proof -
  obtain s st' where c: "create_subnode sample_json creation_a 50 20 9 (run_a 1 3) ''k'' input_a substore_a = Inr (s, st')"
    using create_a by blast
  obtain row where r: "reaches subnode_init subnode_step st'" and row: "row \<in> set (subnode_rows (tables st'))"
    "sub_creator_run (sr_subnode row) = 1" "runs (tables st') = [run_a 1 3]"
    using create_a_row[OF c] by blast
  have ok: "control_ok (tables st')" using subnodes.reachable_inv[OF r] by (simp add: tables_inv_def)
  have "find_run 1 (tables st') = Some (run_a 1 3)" by (simp add: find_run_def row(3) run_a_facts)
  then obtain x t where t: "control_in_as ''d'' 70 CtlCancel ByTenant 1 (tables st') = Inr (x, t)"
    using control_in_as_cascade[OF ok _ run_a_facts(5), of 1 1 3 CtlCancel ByTenant "''d''" 70] by auto
  from ended_subnode_closed[OF r t row(1,2), of 5 worker_a] r t row(1) show ?thesis by blast
qed

end
