(* ===== verification/Tenant_Administration.thy ===== *)
theory Tenant_Administration
  imports Policy_Props
begin

text \<open>
  Tenant Administrator rules (crates/aidash-domain/src/identity/tenant_administration.rs): the
  actions that make a Tenant Administrator, the resource kind each is checked against, and the
  changes to a policy bundle an administrator can make without permission to replace the whole
  policy. Those changes take the bundle by mutable reference and validate it last, so the model
  returns the bundle also when they fail.
\<close>

section \<open>Actions\<close>

definition REGISTRATION_READ :: string where "REGISTRATION_READ = ''registration.read''"
definition REGISTRATION_APPROVE :: string where "REGISTRATION_APPROVE = ''registration.approve''"
definition REGISTRATION_REJECT :: string where "REGISTRATION_REJECT = ''registration.reject''"
definition MAPPING_READ :: string where "MAPPING_READ = ''mapping.read''"
definition MAPPING_DISABLE :: string where "MAPPING_DISABLE = ''mapping.disable''"
definition SUBJECT_GROUP_UPDATE :: string where "SUBJECT_GROUP_UPDATE = ''subject.group.update''"
definition INVITATION_CREATE :: string where "INVITATION_CREATE = ''invitation.create''"
definition INVITATION_READ :: string where "INVITATION_READ = ''invitation.read''"
definition INVITATION_REVOKE :: string where "INVITATION_REVOKE = ''invitation.revoke''"
definition POLICY_READ :: string where "POLICY_READ = ''policy.read''"
definition POLICY_UPDATE :: string where "POLICY_UPDATE = ''policy.update''"
definition DECISION_READ :: string where "DECISION_READ = ''decision.read''"
definition CREDENTIAL_CREATE :: string where "CREDENTIAL_CREATE = ''credential.create''"
definition CREDENTIAL_ISSUE :: string where "CREDENTIAL_ISSUE = ''credential.issue''"
definition CREDENTIAL_READ :: string where "CREDENTIAL_READ = ''credential.read''"
definition CREDENTIAL_REVOKE :: string where "CREDENTIAL_REVOKE = ''credential.revoke''"
definition PEER_MAPPING_READ :: string where "PEER_MAPPING_READ = ''peer_mapping.read''"
definition PEER_MAPPING_UPDATE :: string where "PEER_MAPPING_UPDATE = ''peer_mapping.update''"
definition NODE_READ :: string where "NODE_READ = ''node.read''"
definition SCRATCH_CREATE :: string where "SCRATCH_CREATE = ''scratch.create''"
definition NODE_USE :: string where "NODE_USE = ''node.use''"
definition NODE_CREATE :: string where "NODE_CREATE = ''node.create''"
definition NODE_UPDATE :: string where "NODE_UPDATE = ''node.update''"
definition NODE_DELETE :: string where "NODE_DELETE = ''node.delete''"
definition NODE_REGISTRATION_READ :: string where "NODE_REGISTRATION_READ = ''node_registration.read''"
definition NODE_REGISTRATION_UPDATE :: string where "NODE_REGISTRATION_UPDATE = ''node_registration.update''"
definition SUBNODE_LIMITS_UPDATE :: string where "SUBNODE_LIMITS_UPDATE = ''subnode.limits.update''"
definition TEST_LIMITS_UPDATE :: string where "TEST_LIMITS_UPDATE = ''workbench.test_limits.update''"
definition TEST_PROFILE_UPDATE :: string where "TEST_PROFILE_UPDATE = ''workbench.test_profile.update''"
definition APPROVAL_READ :: string where "APPROVAL_READ = ''approval.read''"
definition SECRET_MANAGE :: string where "SECRET_MANAGE = ''secret.manage''"
definition SECRET_USE :: string where "SECRET_USE = ''secret.use''"
definition CONNECTION_SCOPES_UPDATE :: string where "CONNECTION_SCOPES_UPDATE = ''connection.scopes.update''"
definition CONNECTION_ADMINISTER :: string where "CONNECTION_ADMINISTER = ''connection.administer''"
definition REGISTRY_CREATE :: string where "REGISTRY_CREATE = ''registry.create''"
definition CATALOG_APPROVE :: string where "CATALOG_APPROVE = ''catalog.approve''"
definition MARKETPLACE_INSTALL :: string where "MARKETPLACE_INSTALL = ''marketplace.install''"
definition COLLECTION :: string where "COLLECTION = ''all''"

text \<open>Names of crates/aidash-domain/src/identity/tenancy.rs and approval\_rules.rs.\<close>

definition OWNER :: string where "OWNER = ''owner''"
definition ADMINISTRATORS :: string where "ADMINISTRATORS = ''administrators''"
definition MEMBERS :: string where "MEMBERS = ''members''"
definition TENANT_UPDATE :: string where "TENANT_UPDATE = ''tenant.update''"
definition TENANT_DELETE :: string where "TENANT_DELETE = ''tenant.delete''"
definition BILLING_ATTACH :: string where "BILLING_ATTACH = ''billing.attach''"
definition MEMBER_TOOL_APPROVAL :: string where "MEMBER_TOOL_APPROVAL = ''members-tool-call-approval''"
definition APPROVAL_ADVANCE :: string where "APPROVAL_ADVANCE = ''approval.advance''"
definition MODE_AUTO :: string where "MODE_AUTO = ''approval.mode.auto''"
definition MODE_RESOURCE :: string where "MODE_RESOURCE = ''approval_mode''"

definition ACTIONS :: "string list" where
  "ACTIONS =
     [REGISTRATION_READ, REGISTRATION_APPROVE, REGISTRATION_REJECT, MAPPING_READ,
      MAPPING_DISABLE, SUBJECT_GROUP_UPDATE, INVITATION_CREATE, INVITATION_READ,
      INVITATION_REVOKE, POLICY_READ, POLICY_UPDATE, DECISION_READ, CREDENTIAL_ISSUE,
      CREDENTIAL_READ, CREDENTIAL_REVOKE, PEER_MAPPING_READ, PEER_MAPPING_UPDATE, NODE_CREATE,
      NODE_UPDATE, NODE_DELETE, NODE_REGISTRATION_READ, NODE_REGISTRATION_UPDATE,
      TEST_LIMITS_UPDATE, SUBNODE_LIMITS_UPDATE, TEST_PROFILE_UPDATE, SECRET_MANAGE,
      APPROVAL_READ, CONNECTION_SCOPES_UPDATE, CONNECTION_ADMINISTER]"

definition ADMINISTRATION_ACTIONS :: "string list" where
  "ADMINISTRATION_ACTIONS =
     [REGISTRATION_READ, REGISTRATION_APPROVE, REGISTRATION_REJECT, MAPPING_READ,
      MAPPING_DISABLE, SUBJECT_GROUP_UPDATE, INVITATION_CREATE, POLICY_READ, POLICY_UPDATE,
      TENANT_DELETE]"

definition MEMBER_ACTIONS :: "string list" where
  "MEMBER_ACTIONS =
     [''agent.configure'', ''agent.execute'', ''agent_dependency.read'',
      ''agent_draft.archive'', ''agent_draft.create'', ''agent_draft.read'',
      ''agent_draft.register'', ''agent_draft.share'', ''agent_draft.test'',
      ''agent_draft.transfer'', ''agent_draft.write'', ''agent_version.inspect'',
      APPROVAL_ADVANCE, MODE_AUTO, ''artifact.create'', ''artifact.read'',
      ''capability.request'', ''chatgpt.tokens.use.direct'', ''cluster.execute'',
      ''conversation.create'', ''conversation.read'', ''credential.create'',
      ''decision.evidence.read'', ''decision.invoke'', ''decision.state.read'',
      ''embedding.invoke'', ''file.delete'', ''file.read'', ''file.receive'', ''file.restore'',
      ''file.share'', ''file.transfer'', ''file.write'', ''generation.read'',
      ''generation.request'', ''generation.stop'', ''human.answer'', ''human.read'',
      ''human.request'', ''installation.create'', ''installation.read'',
      ''marketplace.browse'', ''marketplace.install'', ''marketplace.read'',
      ''memory.candidate.propose'', ''memory.candidate.read'', ''memory.derive'',
      ''memory.history.read'', ''memory.invoke'', ''memory.participant.create'',
      ''memory.participant.use'', ''memory.pin'', ''memory.read'', ''memory.reflect'',
      ''memory.use'', ''memory.write'', ''message.create'', ''message.read'', ''model.infer'',
      ''node.read'', ''node.use'', ''registry.create'', ''registry.read'', ''run.control'',
      ''run.message'', ''run.read'', ''scratch.create'', ''semantic.index.manage'',
      ''semantic.read'', ''semantic.search'', ''semantic.use'', ''semantic.write'',
      ''skill.import'', ''skill.use'', ''task.abandon'', ''task.claim'', ''task.complete'',
      ''task.create'', ''task.delegate'', ''task.execute'', ''task.read'', ''thread.delete'',
      ''tool.invoke'', ''workspace.create'', ''workspace.events'', ''workspace.read'',
      ''workspace.share'', ''workspace.update'']"

lemmas action_defs = REGISTRATION_READ_def REGISTRATION_APPROVE_def REGISTRATION_REJECT_def MAPPING_READ_def
  MAPPING_DISABLE_def SUBJECT_GROUP_UPDATE_def INVITATION_CREATE_def INVITATION_READ_def
  INVITATION_REVOKE_def POLICY_READ_def POLICY_UPDATE_def DECISION_READ_def
  CREDENTIAL_CREATE_def CREDENTIAL_ISSUE_def CREDENTIAL_READ_def CREDENTIAL_REVOKE_def
  PEER_MAPPING_READ_def PEER_MAPPING_UPDATE_def NODE_READ_def SCRATCH_CREATE_def
  NODE_USE_def NODE_CREATE_def NODE_UPDATE_def NODE_DELETE_def NODE_REGISTRATION_READ_def
  NODE_REGISTRATION_UPDATE_def SUBNODE_LIMITS_UPDATE_def TEST_LIMITS_UPDATE_def
  TEST_PROFILE_UPDATE_def APPROVAL_READ_def SECRET_MANAGE_def SECRET_USE_def
  CONNECTION_SCOPES_UPDATE_def CONNECTION_ADMINISTER_def REGISTRY_CREATE_def
  CATALOG_APPROVE_def MARKETPLACE_INSTALL_def COLLECTION_def OWNER_def ADMINISTRATORS_def
  MEMBERS_def TENANT_UPDATE_def TENANT_DELETE_def BILLING_ATTACH_def
  MEMBER_TOOL_APPROVAL_def APPROVAL_ADVANCE_def MODE_AUTO_def MODE_RESOURCE_def
  MODE_BYPASS_def SUBNODE_CREATE_def

definition resource_kind :: "string \<Rightarrow> string" where
  "resource_kind action =
     (if action \<in> set [REGISTRATION_READ, REGISTRATION_APPROVE, REGISTRATION_REJECT]
       then ''registration''
     else if action \<in> set [MAPPING_READ, MAPPING_DISABLE] then ''mapping''
     else if action \<in> set [INVITATION_CREATE, INVITATION_READ, INVITATION_REVOKE] then ''invitation''
     else if action \<in> set [POLICY_READ, POLICY_UPDATE] then ''policy''
     else if action = DECISION_READ then ''decision''
     else if action \<in> set [CREDENTIAL_READ, CREDENTIAL_REVOKE] then ''credential''
     else if action \<in> set [PEER_MAPPING_READ, PEER_MAPPING_UPDATE] then ''peer_mapping''
     else if action \<in> set [NODE_READ, NODE_USE, NODE_UPDATE, NODE_DELETE, SCRATCH_CREATE,
                              SUBNODE_CREATE] then ''node''
     else if action \<in> set [NODE_REGISTRATION_READ, NODE_REGISTRATION_UPDATE] then ''node_registration''
     else if action = TEST_LIMITS_UPDATE then ''test_limits''
     else if action = SUBNODE_LIMITS_UPDATE then ''tenant''
     else if action = TEST_PROFILE_UPDATE then ''test_profile''
     else if action = APPROVAL_READ then ''subject''
     else if action \<in> set [MODE_AUTO, MODE_BYPASS] then MODE_RESOURCE
     else if action \<in> set [TENANT_UPDATE, TENANT_DELETE, BILLING_ATTACH, NODE_CREATE] then ''tenant''
     else if action \<in> set [REGISTRY_CREATE, CATALOG_APPROVE] then ''registry''
     else if action = MARKETPLACE_INSTALL then ''package''
     else if action \<in> set [SECRET_MANAGE, SECRET_USE] then ''secret''
     else if action = CONNECTION_SCOPES_UPDATE then ''connection_scopes''
     else if action = CONNECTION_ADMINISTER then ''connection''
     else ''subject'')"

section \<open>Operations\<close>

definition assignable_groups :: "'v policy_bundle \<Rightarrow> string btree_set" where
  "assignable_groups b = map fst (filter (\<lambda>(_, grp). g_assignable grp) (b_groups b))"

definition require_assignable :: "'v policy_bundle \<Rightarrow> string btree_set \<Rightarrow> unit result" where
  "require_assignable b groups =
     for_each (\<lambda>name.
       refuse_if (\<not> (case map_of (b_groups b) name of None \<Rightarrow> False | Some grp \<Rightarrow> g_assignable grp))
         (Invalid (''not an Assignable Group: '' @ name))) groups"

datatype approval_target = NewSubject | Reapproval | Rejoin

definition check_approval_target ::
  "'v policy_bundle \<Rightarrow> string \<Rightarrow> bool \<Rightarrow> string btree_set \<Rightarrow> bool \<Rightarrow> approval_target result" where
  "check_approval_target b subject previously_mapped groups invited =
     and_then (check_identifier subject) (\<lambda>_.
       if map_of (b_subjects b) subject \<noteq> None then
         if \<not> previously_mapped then Inl (Conflict ''subject already exists'')
         else if invited then
           and_then (require_assignable b groups) (\<lambda>_. Inr Rejoin)
         else if groups \<noteq> [] then
           Inl (Invalid (''re-approval keeps the existing subject'' @ CHR 0x27 # ''s groups''))
         else Inr Reapproval
       else and_then (require_assignable b groups) (\<lambda>_. Inr NewSubject))"

definition rejoin ::
  "'v json_ops \<Rightarrow> 'v policy_bundle \<Rightarrow> string \<Rightarrow> string btree_set \<Rightarrow> unit result \<times> 'v policy_bundle" where
  "rejoin J b subject groups =
     (case require_assignable b groups of
        Inl e \<Rightarrow> (Inl e, b)
      | Inr _ \<Rightarrow>
          (case map_of (b_subjects b) subject of
             None \<Rightarrow> (Inl (Conflict ''subject does not exist''), b)
           | Some entry \<Rightarrow>
               let kept = filter (\<lambda>grp. grp \<notin> set (assignable_groups b)) (s_groups entry);
                   b' = b\<lparr>b_subjects := map_insert subject
                           (entry\<lparr>s_groups := set_extend kept groups\<rparr>) (b_subjects b)\<rparr>
               in (bundle_validate J b', b')))"

definition new_subject ::
  "'v json_ops \<Rightarrow> subject_kind \<Rightarrow> node_name option \<Rightarrow> string btree_set \<Rightarrow> 'v subject" where
  "new_subject J kind node groups =
     \<lparr> s_kind = kind, s_node = node, s_groups = groups, s_roles = [],
       s_attributes = empty_object J, s_enabled = True, s_delegated_by = None \<rparr>"

definition add_user_subject ::
  "'v json_ops \<Rightarrow> 'v policy_bundle \<Rightarrow> string \<Rightarrow> string btree_set \<Rightarrow> unit result \<times> 'v policy_bundle" where
  "add_user_subject J b subject groups =
     (case check_approval_target b subject False groups False of
        Inl e \<Rightarrow> (Inl e, b)
      | Inr target \<Rightarrow>
          if target \<noteq> NewSubject then (Inl (Conflict ''subject already exists''), b)
          else let b' = b\<lparr>b_subjects := map_insert subject (new_subject J User None groups)
                                          (b_subjects b)\<rparr>
               in (bundle_validate J b', b'))"

definition default_agent_groups :: "'v policy_bundle \<Rightarrow> string btree_set" where
  "default_agent_groups b = filter (\<lambda>grp. grp = MEMBERS) (assignable_groups b)"

definition add_agent_subject ::
  "'v json_ops \<Rightarrow> node_name \<Rightarrow> 'v policy_bundle \<Rightarrow> string \<Rightarrow> string btree_set
     \<Rightarrow> unit result \<times> 'v policy_bundle" where
  "add_agent_subject J node b subject groups =
     (if map_of (b_subjects b) subject \<noteq> None then (Inl (Conflict ''subject already exists''), b)
      else case require_assignable b groups of
             Inl e \<Rightarrow> (Inl e, b)
           | Inr _ \<Rightarrow>
               let b' = b\<lparr>b_subjects := map_insert subject (new_subject J Agent (Some node) groups)
                                          (b_subjects b)\<rparr>
               in (bundle_validate J b', b'))"

definition replace_assignable_memberships ::
  "'v json_ops \<Rightarrow> 'v policy_bundle \<Rightarrow> string \<Rightarrow> string btree_set \<Rightarrow> bool result \<times> 'v policy_bundle" where
  "replace_assignable_memberships J b subject groups =
     (case require_assignable b groups of
        Inl e \<Rightarrow> (Inl e, b)
      | Inr _ \<Rightarrow>
          (case map_of (b_subjects b) subject of
             None \<Rightarrow> (Inl (Invalid (''unknown subject: '' @ subject)), b)
           | Some entry \<Rightarrow>
               if s_kind entry \<notin> {User, Agent} then
                 (Inl (Invalid ''only user and agent subjects have Assignable Group memberships''), b)
               else
                 let next' = set_extend [] (set_difference (s_groups entry) (assignable_groups b) @ groups)
                 in if next' = s_groups entry then (Inr False, b)
                    else let b' = b\<lparr>b_subjects := map_insert subject
                                     (entry\<lparr>s_groups := next'\<rparr>) (b_subjects b)\<rparr>
                         in (and_then (bundle_validate J b') (\<lambda>_. Inr True), b')))"

definition memberships :: "'v policy_bundle \<Rightarrow> string \<Rightarrow> string btree_set" where
  "memberships b subject =
     (case map_of (b_subjects b) subject of
        None \<Rightarrow> []
      | Some entry \<Rightarrow> set_intersection (s_groups entry) (assignable_groups b))"

section \<open>The scope of a membership change\<close>

text \<open>
  A change of a subject's memberships touches no other subject and nothing else of the bundle;
  the subject keeps its kind, roles and delegator or starts without any; its Assignable Groups
  become the requested ones; and it gains no group outside them.
\<close>

definition changes_only :: "string \<Rightarrow> 'v policy_bundle \<Rightarrow> 'v policy_bundle \<Rightarrow> bool" where
  "changes_only i b b' \<longleftrightarrow>
     b_tenant b' = b_tenant b \<and> b_groups b' = b_groups b \<and> b_roles b' = b_roles b
     \<and> b_policies b' = b_policies b
     \<and> (\<forall>k. k \<noteq> i \<longrightarrow> map_of (b_subjects b') k = map_of (b_subjects b) k)"

definition reserved_groups :: "'v policy_bundle \<Rightarrow> string \<Rightarrow> string set" where
  "reserved_groups b i =
     (case map_of (b_subjects b) i of
        None \<Rightarrow> {}
      | Some e \<Rightarrow> set (s_groups e) - set (assignable_groups b))"

definition own_roles :: "'v policy_bundle \<Rightarrow> string \<Rightarrow> string set" where
  "own_roles b i = (case map_of (b_subjects b) i of None \<Rightarrow> {} | Some e \<Rightarrow> set (s_roles e))"

lemma changes_only_permits:
  assumes "changes_only i b b'" "k \<noteq> i"
  shows "permits J b' input k = permits J b input k"
proof -
  from assms have "map_of (b_subjects b') k = map_of (b_subjects b) k" "b_policies b' = b_policies b"
    "\<And>s. role_closure b' s = role_closure b s"
    by (auto simp: changes_only_def role_closure_def)
  then show ?thesis by (simp add: permits_def applies_def)
qed

lemma assignable_iff:
  assumes "map_ok (b_groups b)"
  shows "g \<in> set (assignable_groups b)
     \<longleftrightarrow> (\<exists>grp. map_of (b_groups b) g = Some grp \<and> g_assignable grp)"
  using map_ok_distinct[OF assms]
  by (force simp: assignable_groups_def dest: map_of_SomeD)

lemma require_assignable_iff:
  assumes "map_ok (b_groups b)"
  shows "require_assignable b groups = Inr u \<longleftrightarrow> set groups \<subseteq> set (assignable_groups b)"
  unfolding require_assignable_def for_each_Inr_iff subset_iff assignable_iff[OF assms]
  by (auto split: option.splits)

locale membership_change =
  fixes change :: "'v policy_bundle \<Rightarrow> string \<Rightarrow> string btree_set \<Rightarrow> 'r result \<times> 'v policy_bundle"
  assumes scoped: "change b i groups = (r, b') \<Longrightarrow> changes_only i b b'"
    and granted: "map_ok (b_groups b) \<Longrightarrow> change b i groups = (Inr x, b') \<Longrightarrow>
        \<exists>e. map_of (b_subjects b') i = Some e
          \<and> set (s_groups e) = reserved_groups b i \<union> set groups
          \<and> set groups \<subseteq> set (assignable_groups b) \<and> set (s_roles e) = own_roles b i"
begin

lemma others_unaffected:
  "change b i groups = (r, b') \<Longrightarrow> k \<noteq> i \<Longrightarrow> permits J b' input k = permits J b input k"
  by (rule changes_only_permits[OF scoped])

lemma assignable_unchanged: "change b i groups = (r, b') \<Longrightarrow> assignable_groups b' = assignable_groups b"
  by (drule scoped) (simp add: changes_only_def assignable_groups_def)

lemma memberships_exact:
  assumes "map_ok (b_groups b)" "change b i groups = (Inr x, b')"
  shows "set (memberships b' i) = set groups"
proof -
  from granted[OF assms] obtain e where "map_of (b_subjects b') i = Some e"
    "set (s_groups e) = reserved_groups b i \<union> set groups"
    "set groups \<subseteq> set (assignable_groups b)" by blast
  then show ?thesis
    by (auto simp: memberships_def assignable_unchanged[OF assms(2)] reserved_groups_def
        split: option.splits)
qed

lemma reserved_unchanged:
  assumes "map_ok (b_groups b)" "change b i groups = (Inr x, b')"
  shows "reserved_groups b' i = reserved_groups b i" "own_roles b' i = own_roles b i"
  using granted[OF assms] assignable_unchanged[OF assms(2)]
  by (auto simp: reserved_groups_def own_roles_def split: option.splits)

end

lemmas membership_defs = changes_only_def reserved_groups_def own_roles_def new_subject_def

interpretation rejoining: membership_change "rejoin J" for J :: "'v json_ops"
proof unfold_locales
  fix b i groups r b' assume "rejoin J b i groups = (r, b')"
  then show "changes_only i b b'"
    by (auto simp: rejoin_def membership_defs Let_def split: sum.splits option.splits)
next
  fix b i groups x b' assume ok: "map_ok (b_groups b)" and "rejoin J b i groups = (Inr x, b')"
  then show "\<exists>e. map_of (b_subjects b') i = Some e \<and> set (s_groups e) = reserved_groups b i \<union> set groups
      \<and> set groups \<subseteq> set (assignable_groups b) \<and> set (s_roles e) = own_roles b i"
    using require_assignable_iff[OF ok]
    by (auto simp: rejoin_def membership_defs Let_def split: sum.splits option.splits)
qed

lemma add_user_subject_Inr:
  "add_user_subject J b i groups = (Inr x, b') \<Longrightarrow>
     check_identifier i = Inr () \<and> map_of (b_subjects b) i = None \<and> require_assignable b groups = Inr ()
     \<and> bundle_validate J b' = Inr ()
     \<and> b' = b\<lparr>b_subjects := map_insert i (new_subject J User None groups) (b_subjects b)\<rparr>"
  by (auto simp: add_user_subject_def check_approval_target_def Let_def and_then_Inr_iff
      split: sum.splits if_splits)

interpretation user_adding: membership_change "add_user_subject J" for J :: "'v json_ops"
proof unfold_locales
  fix b i groups r b' assume "add_user_subject J b i groups = (r, b')"
  then show "changes_only i b b'"
    by (auto simp: add_user_subject_def membership_defs Let_def split: sum.splits if_splits)
next
  fix b i groups x b' assume ok: "map_ok (b_groups b)" and "add_user_subject J b i groups = (Inr x, b')"
  then show "\<exists>e. map_of (b_subjects b') i = Some e \<and> set (s_groups e) = reserved_groups b i \<union> set groups
      \<and> set groups \<subseteq> set (assignable_groups b) \<and> set (s_roles e) = own_roles b i"
    using require_assignable_iff[OF ok] by (auto dest!: add_user_subject_Inr simp: membership_defs)
qed

interpretation agent_adding: membership_change "add_agent_subject J node" for J :: "'v json_ops" and node
proof unfold_locales
  fix b i groups r b' assume "add_agent_subject J node b i groups = (r, b')"
  then show "changes_only i b b'"
    by (auto simp: add_agent_subject_def membership_defs Let_def split: sum.splits if_splits)
next
  fix b i groups x b' assume ok: "map_ok (b_groups b)"
    and "add_agent_subject J node b i groups = (Inr x, b')"
  then show "\<exists>e. map_of (b_subjects b') i = Some e \<and> set (s_groups e) = reserved_groups b i \<union> set groups
      \<and> set groups \<subseteq> set (assignable_groups b) \<and> set (s_roles e) = own_roles b i"
    using require_assignable_iff[OF ok]
    by (auto simp: add_agent_subject_def membership_defs Let_def split: sum.splits if_splits)
qed

interpretation replacing: membership_change "replace_assignable_memberships J" for J :: "'v json_ops"
proof unfold_locales
  fix b i groups r b' assume "replace_assignable_memberships J b i groups = (r, b')"
  then show "changes_only i b b'"
    by (auto simp: replace_assignable_memberships_def membership_defs Let_def
        split: sum.splits option.splits if_splits)
next
  fix b i groups x b' assume ok: "map_ok (b_groups b)"
    and run: "replace_assignable_memberships J b i groups = (Inr x, b')"
  from run obtain u e where e: "require_assignable b groups = Inr u" "map_of (b_subjects b) i = Some e"
    by (auto simp: replace_assignable_memberships_def split: sum.splits option.splits)
  define n where "n = set_extend [] (set_difference (s_groups e) (assignable_groups b) @ groups)"
  have n: "set n = (set (s_groups e) - set (assignable_groups b)) \<union> set groups"
    by (simp add: n_def)
  from run e have "map_of (b_subjects b') i = Some (e\<lparr>s_groups := n\<rparr>)"
    by (auto simp: replace_assignable_memberships_def Let_def n_def[symmetric] split: if_splits)
  then show "\<exists>e. map_of (b_subjects b') i = Some e \<and> set (s_groups e) = reserved_groups b i \<union> set groups
      \<and> set groups \<subseteq> set (assignable_groups b) \<and> set (s_roles e) = own_roles b i"
    using e n require_assignable_iff[OF ok] by (auto simp: membership_defs)
qed

section \<open>Properties\<close>

text \<open>
  Property C36. Replacing a subject's Assignable Group memberships makes them exactly the requested
  groups, keeps the groups and roles only a policy writer can assign, leaves a valid bundle when
  it changed anything, and changes what is permitted to no other subject.
\<close>

theorem replace_memberships_scope:
  assumes "replace_assignable_memberships J b i groups = (Inr changed, b')" "map_ok (b_groups b)"
  shows "set (memberships b' i) = set groups \<and> reserved_groups b' i = reserved_groups b i
    \<and> own_roles b' i = own_roles b i
    \<and> (\<forall>k input. k = i \<or> permits J b' input k = permits J b input k)
    \<and> (bundle_validate J b = Inr () \<longrightarrow> bundle_validate J b' = Inr ())"
proof -
  have "bundle_validate J b = Inr () \<Longrightarrow> bundle_validate J b' = Inr ()"
    using assms(1)
    by (auto simp: replace_assignable_memberships_def Let_def and_then_Inr_iff
        split: sum.splits option.splits if_splits)
  with replacing.memberships_exact[OF assms(2,1)] replacing.reserved_unchanged[OF assms(2,1)]
    replacing.others_unaffected[OF assms(1)]
  show ?thesis by blast
qed

theorem replace_memberships_scope_witness:
  "let b' = snd (replace_assignable_memberships sample_json demo_bundle ''alice'' [''staff''])
   in set (memberships b' ''alice'') = {''staff''} \<and> bundle_validate sample_json b' = Inr ()
      \<and> own_roles b' ''alice'' = {''editor''}"
proof -
  let ?r = "replace_assignable_memberships sample_json demo_bundle ''alice'' [''staff'']"
  have run: "fst ?r = Inr True"
    by (simp add: replace_assignable_memberships_def require_assignable_def demo_bundle_def
        assignable_groups_def set_difference_def set_extend_def bundle_validate_def plain_selector_def
        policy_eval)
  have ok: "map_ok (b_groups demo_bundle)" by (simp add: demo_bundle_def map_ok_def)
  have roles: "own_roles demo_bundle ''alice'' = {''editor''}"
    by (simp add: demo_bundle_def own_roles_def)
  from run have "?r = (Inr True, snd ?r)" by (metis prod.collapse)
  from replace_memberships_scope[OF this ok] roles show ?thesis by (simp add: Let_def)
qed

end
