(* ===== verification/Tenancy.thy ===== *)
theory Tenancy
  imports Tenant_Administration
begin

text \<open>
  The policy a Tenant starts with and the conservative check that somebody can always administer
  it (crates/aidash-domain/src/identity/tenancy.rs: \<open>initial_policy\<close> and
  \<open>has_unconditional_administrator\<close>).
\<close>

section \<open>The initial policy\<close>

definition group_policy :: "string \<Rightarrow> string \<Rightarrow> string btree_set \<Rightarrow> 'v policy" where
  "group_policy i grp actions =
     \<lparr> p_id = i, p_effect = Allow,
       p_subjects = \<lparr> sel_any = False, sel_ids = [], sel_groups = [grp], sel_roles = [], sel_kinds = [] \<rparr>,
       p_actions = actions,
       p_resources = \<lparr> rs_kinds = [''*''], rs_ids = [] \<rparr>,
       p_condition = None \<rparr>"

definition initial_bundle :: "'v json_ops \<Rightarrow> string \<Rightarrow> bool \<Rightarrow> 'v policy_bundle" where
  "initial_bundle J tenant creator =
     \<lparr> b_tenant = tenant,
       b_subjects =
         (if creator
          then [(OWNER, \<lparr> s_kind = User, s_node = None, s_groups = [ADMINISTRATORS], s_roles = [],
                          s_attributes = empty_object J, s_enabled = True, s_delegated_by = None \<rparr>)]
          else []),
       b_groups =
         [(ADMINISTRATORS, \<lparr> g_roles = [], g_assignable = True \<rparr>),
          (MEMBERS, \<lparr> g_roles = [], g_assignable = True \<rparr>)],
       b_roles = [],
       b_policies =
         [group_policy ADMINISTRATORS ADMINISTRATORS [''*''],
          group_policy MEMBERS MEMBERS (set_extend [] MEMBER_ACTIONS),
          (group_policy MEMBER_TOOL_APPROVAL MEMBERS [''capability.approve''])
            \<lparr> p_resources := \<lparr> rs_kinds = [''tool''], rs_ids = [] \<rparr> \<rparr>] \<rparr>"

definition initial_policy :: "'v json_ops \<Rightarrow> string \<Rightarrow> bool \<Rightarrow> 'v policy_bundle result" where
  "initial_policy J tenant creator =
     and_then (check_identifier tenant) (\<lambda>_.
       let b = initial_bundle J tenant creator
       in and_then (bundle_validate J b) (\<lambda>_. Inr b))"

section \<open>The last-administrator check\<close>

definition retained :: "'v policy \<Rightarrow> bool" where
  "retained p =
     (case p_effect p of
        Allow \<Rightarrow> p_condition p = None
                 \<and> (rs_ids (p_resources p) = [] \<or> ''*'' \<in> set (rs_ids (p_resources p)))
      | Deny \<Rightarrow> True)"

definition widened :: "'v policy \<Rightarrow> 'v policy" where
  "widened p =
     (if p_effect p = Deny
      then p\<lparr>p_condition := None, p_resources := (p_resources p)\<lparr>rs_ids := []\<rparr>\<rparr>
      else p)"

definition conservative :: "'v policy_bundle \<Rightarrow> 'v policy_bundle" where
  "conservative b = b\<lparr>b_policies := map widened (filter retained (b_policies b))\<rparr>"

definition administration_request ::
  "'v policy_bundle \<Rightarrow> string \<Rightarrow> string \<Rightarrow> string \<Rightarrow> 'v \<Rightarrow> 'v \<Rightarrow> 'v evaluation" where
  "administration_request b subject action i attributes environment =
     \<lparr> e_subject = subject, e_action = action,
       e_resource = \<lparr> r_tenant = b_tenant b, r_kind = resource_kind action, r_id = i,
                      r_attributes = attributes \<rparr>,
       e_environment = environment \<rparr>"

definition has_unconditional_administrator ::
  "'v json_ops \<Rightarrow> 'v policy_bundle \<Rightarrow> string list \<Rightarrow> bool" where
  "has_unconditional_administrator J b subjects =
     list_ex (\<lambda>subject. list_all (\<lambda>action.
         case evaluate J (conservative b)
                (administration_request b subject action COLLECTION (empty_object J) (empty_object J)) of
           None \<Rightarrow> False | Some d \<Rightarrow> allowed d)
       ADMINISTRATION_ACTIONS) subjects"

section \<open>Soundness of the check\<close>

lemma conservative_simps [simp]:
  "b_tenant (conservative b) = b_tenant b" "b_subjects (conservative b) = b_subjects b"
  "b_groups (conservative b) = b_groups b" "b_roles (conservative b) = b_roles b"
  "role_closure (conservative b) s = role_closure b s" "delegation (conservative b) = delegation b"
  by (simp_all add: conservative_def role_closure_def delegation_def delegator_def)

text \<open>A policy that denies a request for the bundle denies it in the conservative copy too.\<close>

lemma widened_applies:
  assumes "p_effect p = Deny" "applies J b input i s p"
    and "e_action input' = e_action input" "r_kind (e_resource input') = r_kind (e_resource input)"
  shows "applies J (conservative b) input' i s (widened p)"
  using assms by (simp add: applies_def widened_def)

lemma retained_applies:
  assumes "p_effect p = Allow" "retained p" "applies J (conservative b) input' i s p"
    and "e_action input' = e_action input" "r_kind (e_resource input') = r_kind (e_resource input)"
  shows "applies J b input i s p"
  using assms by (auto simp: applies_def retained_def matches_name_def)

lemma conservative_permits:
  assumes "permits J (conservative b) input' i"
    and same: "e_action input' = e_action input" "r_kind (e_resource input') = r_kind (e_resource input)"
  shows "permits J b input i"
proof -
  from assms(1) obtain s p where s: "map_of (b_subjects b) i = Some s" "s_enabled s"
    and p: "p \<in> set (b_policies b)" "retained p" "p_effect p = Allow"
      "applies J (conservative b) input' i s p"
    and no_deny: "\<And>q. q \<in> set (b_policies (conservative b)) \<Longrightarrow> p_effect q = Deny
        \<Longrightarrow> \<not> applies J (conservative b) input' i s q"
    by (fastforce simp: permits_def conservative_def widened_def split: if_splits)
  have "\<not> applies J b input i s q" if q: "q \<in> set (b_policies b)" "p_effect q = Deny" for q
  proof
    assume "applies J b input i s q"
    from widened_applies[OF q(2) this same]
    have "applies J (conservative b) input' i s (widened q)" .
    moreover have "widened q \<in> set (b_policies (conservative b))"
      using q by (auto simp: conservative_def retained_def)
    moreover have "p_effect (widened q) = Deny" using q(2) by (simp add: widened_def)
    ultimately show False using no_deny by blast
  qed
  with s p retained_applies[OF p(3,2,4) same] show ?thesis by (auto simp: permits_def)
qed

lemma conservative_authorized:
  assumes "authorized J (conservative b) input'"
    and "e_subject input' = e_subject input" "e_action input' = e_action input"
      "r_kind (e_resource input') = r_kind (e_resource input)"
      "r_tenant (e_resource input') = r_tenant (e_resource input)"
  shows "authorized J b input"
  using assms conservative_permits[of J b input' _ input] by (auto simp: authorized_def)

section \<open>The initial policy is valid\<close>

lemma member_actions_named: "for_each check_identifier MEMBER_ACTIONS = Inr ()"
  by (simp add: MEMBER_ACTIONS_def action_defs check_identifier_def text_eval)

lemma member_actions_reserved:
  "set MEMBER_ACTIONS \<inter> set (ACTIONS @ ADMINISTRATION_ACTIONS @ EXPLICIT_ACTIONS) = {}"
  "''*'' \<notin> set MEMBER_ACTIONS" "ADMINISTRATORS \<noteq> MEMBERS"
  "''capability.approve'' \<notin> set (ACTIONS @ ADMINISTRATION_ACTIONS @ EXPLICIT_ACTIONS)"
  by (simp_all add: MEMBER_ACTIONS_def ACTIONS_def ADMINISTRATION_ACTIONS_def EXPLICIT_ACTIONS_def action_defs)

lemma member_actions_few: "length MEMBER_ACTIONS \<le> 512" "MEMBER_ACTIONS \<noteq> []"
  by (simp_all add: MEMBER_ACTIONS_def)

lemma length_set_insert_le: "length (set_insert x s) \<le> Suc (length s)"
  by (induction s) auto

lemma length_set_extend: "length (set_extend s xs) \<le> length s + length xs"
proof (induction xs arbitrary: s)
  case (Cons x xs)
  from Cons[of "set_insert x s"] length_set_insert_le[of x s] show ?case
    by (simp add: set_extend_def)
qed (simp add: set_extend_def)

lemma member_actions_selectable: "selector_names (set_extend [] MEMBER_ACTIONS) False = Inr ()"
proof -
  have "set_extend [] MEMBER_ACTIONS \<noteq> []"
    using member_actions_few(2) set_set_extend[of "[]" MEMBER_ACTIONS] by (metis Un_empty set_empty)
  moreover have "length (set_extend [] MEMBER_ACTIONS) \<le> 512"
    using length_set_extend[of "[]" MEMBER_ACTIONS] member_actions_few(1) by simp
  ultimately show ?thesis
    using member_actions_named by (simp add: selector_names_def MAX_ENTITIES_def for_each_Inr_iff)
qed

text \<open>The policies stay valid whichever subjects are added.\<close>

lemma initial_policies_valid:
  assumes "b_groups b = b_groups (initial_bundle J tenant creator)"
  shows "\<exists>ids. fold_each (validate_policy b) (b_policies (initial_bundle J tenant creator)) [] = Inr ids"
proof -
  have "validate_policy b (group_policy MEMBERS MEMBERS (set_extend [] MEMBER_ACTIONS)) [ADMINISTRATORS]
      = Inr [ADMINISTRATORS, MEMBERS]"
    by (simp add: validate_policy_def group_policy_def member_actions_selectable)
      (simp add: assms initial_bundle_def policy_eval action_defs)
  then show ?thesis
    by (simp add: initial_bundle_def)
      (simp add: assms initial_bundle_def group_policy_def policy_eval action_defs)
qed

lemma initial_bundle_valid:
  assumes "check_identifier tenant = Inr ()" "json_laws J"
  shows "bundle_validate J (initial_bundle J tenant creator) = Inr ()"
proof -
  from initial_policies_valid[OF refl] obtain ids where
    "fold_each (validate_policy (initial_bundle J tenant creator))
       (b_policies (initial_bundle J tenant creator)) [] = Inr ids" by blast
  then show ?thesis using assms
    by (simp add: bundle_validate_def) (simp add: initial_bundle_def json_laws_def policy_eval action_defs)
qed

lemma conservative_initial: "conservative (initial_bundle J tenant creator) = initial_bundle J tenant creator"
  by (simp add: conservative_def initial_bundle_def retained_def widened_def group_policy_def)

lemma initial_undelegated: "(i, j) \<in> (delegation (initial_bundle J tenant creator))\<^sup>* \<longleftrightarrow> i = j"
  by (auto simp: delegation_step[of i] delegator_def initial_bundle_def)

lemma owner_permitted:
  assumes "e_action input \<notin> set EXPLICIT_ACTIONS"
  shows "permits J (initial_bundle J tenant True) input OWNER"
  using assms
  by (simp add: permits_def initial_bundle_def applies_def group_policy_def matches_action_def
      matches_name_def)

lemma administration_actions_named:
  "action \<in> set ADMINISTRATION_ACTIONS \<Longrightarrow>
     check_identifier action = Inr () \<and> check_identifier (resource_kind action) = Inr ()
     \<and> action \<notin> set EXPLICIT_ACTIONS"
proof -
  have "list_all (\<lambda>action. check_identifier action = Inr ()
      \<and> check_identifier (resource_kind action) = Inr () \<and> action \<notin> set EXPLICIT_ACTIONS)
    ADMINISTRATION_ACTIONS"
    by (simp add: ADMINISTRATION_ACTIONS_def action_defs resource_kind_def check_identifier_def
        EXPLICIT_ACTIONS_def text_eval)
  then show "action \<in> set ADMINISTRATION_ACTIONS \<Longrightarrow> ?thesis" by (simp add: list_all_iff)
qed

lemma administration_request_valid:
  assumes "check_identifier subject = Inr ()" "check_identifier (b_tenant b) = Inr ()"
    "check_identifier i = Inr ()" "action \<in> set ADMINISTRATION_ACTIONS" "is_object J a" "is_object J e"
  shows "evaluation_validate J (administration_request b subject action i a e) = Inr ()"
  using assms administration_actions_named[OF assms(4)]
  by (simp add: evaluation_validate_def administration_request_def)

lemma owner_named: "check_identifier OWNER = Inr ()" "check_identifier COLLECTION = Inr ()"
  by (simp_all add: action_defs check_identifier_def text_eval)

lemma initial_owner_administers:
  assumes "check_identifier tenant = Inr ()" "json_laws J"
  shows "has_unconditional_administrator J (initial_bundle J tenant True) [OWNER]"
proof -
  let ?b = "initial_bundle J tenant True"
  have tenant: "check_identifier (b_tenant ?b) = Inr ()" using assms(1) by (simp add: initial_bundle_def)
  have object: "is_object J (empty_object J)" using assms(2) by (simp add: json_laws_def)
  have "allows J ?b (administration_request ?b OWNER action COLLECTION (empty_object J) (empty_object J))"
    if a: "action \<in> set ADMINISTRATION_ACTIONS" for action
    using administration_request_valid[OF owner_named(1) tenant owner_named(2) a object object]
      initial_bundle_valid[OF assms, of True] administration_actions_named[OF a] tenant
    by (simp add: allows_authorized authorized_def initial_undelegated owner_permitted
        administration_request_def)
  then show ?thesis
    by (fastforce simp: has_unconditional_administrator_def conservative_initial list_all_iff allows_def)
qed

section \<open>Properties\<close>

text \<open>
  Property C7. The last-administrator check is sound: when it accepts, one of the subjects is
  allowed every administration action by the full policy, on every resource of the action's kind
  and whatever the attributes and the environment of the request are.
\<close>

theorem last_administrator_sound:
  assumes "bundle_validate J b = Inr ()" "has_unconditional_administrator J b subjects"
  shows "\<exists>subject\<in>set subjects. \<forall>action\<in>set ADMINISTRATION_ACTIONS. \<forall>i attributes environment.
    check_identifier i = Inr () \<longrightarrow> is_object J attributes \<longrightarrow> is_object J environment \<longrightarrow>
    (\<exists>d. evaluate J b (administration_request b subject action i attributes environment) = Some d
         \<and> allowed d)"
proof -
  from assms(2) obtain subject where subject: "subject \<in> set subjects"
    and conservatively: "\<And>action. action \<in> set ADMINISTRATION_ACTIONS \<Longrightarrow> allows J (conservative b)
      (administration_request b subject action COLLECTION (empty_object J) (empty_object J))"
    by (fastforce simp: has_unconditional_administrator_def list_ex_iff list_all_iff allows_def
        split: option.splits)
  have "allows J b (administration_request b subject action i attributes environment)"
    if a: "action \<in> set ADMINISTRATION_ACTIONS" and i: "check_identifier i = Inr ()"
      "is_object J attributes" "is_object J environment" for action i attributes environment
  proof -
    let ?input = "administration_request b subject action COLLECTION (empty_object J) (empty_object J)"
    let ?goal = "administration_request b subject action i attributes environment"
    from conservatively[OF a] have c: "is_ok (evaluation_validate J ?input)"
        "authorized J (conservative b) ?input"
      by (simp_all add: allows_authorized)
    from c(1) have "check_identifier subject = Inr ()" "check_identifier (b_tenant b) = Inr ()"
      by (auto simp: is_ok_unit evaluation_validate_def administration_request_def and_then_Inr_iff)
    from administration_request_valid[OF this i(1) a i(2,3)] have "evaluation_validate J ?goal = Inr ()" .
    moreover have "authorized J b ?goal"
      by (rule conservative_authorized[OF c(2)]) (simp_all add: administration_request_def)
    ultimately show ?thesis using assms(1) by (simp add: allows_authorized)
  qed
  with subject show ?thesis unfolding allows_def by blast
qed

theorem last_administrator_sound_witness:
  "let b = initial_bundle sample_json ''acme'' True
   in has_unconditional_administrator sample_json b [''bob'', OWNER]
      \<and> (\<exists>subject\<in>{''bob'', OWNER}. \<exists>d. evaluate sample_json b
            (administration_request b subject POLICY_UPDATE ''p1'' (SObject []) (SObject [])) = Some d
            \<and> allowed d)"
proof -
  let ?b = "initial_bundle sample_json ''acme'' True"
  have named: "check_identifier ''acme'' = Inr ()" "check_identifier ''p1'' = Inr ()"
    by (simp_all add: check_identifier_def text_eval)
  have admin: "has_unconditional_administrator sample_json ?b [''bob'', OWNER]"
    using initial_owner_administers[OF named(1) sample_json_laws]
    by (simp add: has_unconditional_administrator_def)
  have "POLICY_UPDATE \<in> set ADMINISTRATION_ACTIONS" by (simp add: ADMINISTRATION_ACTIONS_def)
  with last_administrator_sound[OF initial_bundle_valid[OF named(1) sample_json_laws] admin]
    named(2) admin show ?thesis unfolding Let_def by fastforce
qed

text \<open>
  For every well-named Tenant the initial policy is built and valid, and a Tenant
  Creator is an unconditional administrator under it.
\<close>

theorem initial_policy_administered:
  assumes "check_identifier tenant = Inr ()" "json_laws J"
  shows "\<exists>b. initial_policy J tenant creator = Inr b \<and> bundle_validate J b = Inr ()
    \<and> b_tenant b = tenant \<and> (creator \<longrightarrow> has_unconditional_administrator J b [OWNER])"
  using initial_bundle_valid[OF assms] initial_owner_administers[OF assms] assms(1)
  by (simp add: initial_policy_def) (simp add: initial_bundle_def)

theorem initial_policy_administered_witness:
  "\<exists>b. initial_policy sample_json ''acme'' True = Inr b \<and> bundle_validate sample_json b = Inr ()
     \<and> has_unconditional_administrator sample_json b [OWNER]"
  using initial_policy_administered[of "''acme''" sample_json True]
  by (auto simp: check_identifier_def text_eval)

text \<open>
  Property C37. A person added as an ordinary member of a Tenant that still has its initial policy
  is denied every action that makes a Tenant Administrator and every action that has to be granted
  by name.
\<close>

theorem member_never_administers:
  assumes "initial_policy J tenant creator = Inr b"
    and "add_user_subject J b i groups = (Inr (), b')" "set groups \<subseteq> {MEMBERS}"
    and "e_subject input = i" "e_action input \<in> set (ACTIONS @ ADMINISTRATION_ACTIONS @ EXPLICIT_ACTIONS)"
  shows "\<exists>d. evaluate J b' input = Some d \<and> \<not> allowed d"
proof -
  from assms(1) have b: "b = initial_bundle J tenant creator"
    by (auto simp: initial_policy_def Let_def and_then_Inr_iff)
  from add_user_subject_Inr[OF assms(2)]
  have subject: "map_of (b_subjects b') i = Some (new_subject J User None groups)"
    and policies: "b_policies b' = b_policies b" and roles: "b_groups b' = b_groups b" by auto
  have no_roles: "role_closure b' (new_subject J User None groups) = {}"
    using assms(3) roles by (auto simp: role_closure_def new_subject_def b initial_bundle_def split: if_splits)
  have apart: "e_action input \<notin> set MEMBER_ACTIONS" "e_action input \<noteq> ''capability.approve''"
    using assms(5) member_actions_reserved(1,4) by (metis disjoint_iff, metis)
  have "\<not> permits J b' input i"
    using assms(3) apart member_actions_reserved(2,3)
    by (auto simp: permits_def subject policies b initial_bundle_def applies_def no_roles
        group_policy_def new_subject_def matches_action_def)
  then have "\<not> authorized J b' input" using assms(4) by (auto simp: authorized_def)
  with evaluate_authorized[of J b' input] show ?thesis by blast
qed

theorem member_never_administers_witness:
  "\<exists>b b'. initial_policy sample_json ''acme'' True = Inr b
     \<and> add_user_subject sample_json b ''bob'' [MEMBERS] = (Inr (), b')
     \<and> (\<exists>d. evaluate sample_json b' (demo_request ''bob'' ''policy.update'') = Some d \<and> \<not> allowed d)"
proof -
  let ?b = "initial_bundle sample_json ''acme'' True"
  have named: "check_identifier ''acme'' = Inr ()" "check_identifier ''bob'' = Inr ()"
    by (simp_all add: check_identifier_def text_eval)
  have b: "initial_policy sample_json ''acme'' True = Inr ?b"
    using initial_bundle_valid[OF named(1) sample_json_laws] named(1) by (simp add: initial_policy_def)
  define b' where "b' = ?b\<lparr>b_subjects := map_insert ''bob'' (new_subject sample_json User None [MEMBERS])
                            (b_subjects ?b)\<rparr>"
  have policies: "b_policies b' = b_policies ?b" and "b_groups b' = b_groups ?b"
    by (simp_all add: b'_def)
  from initial_policies_valid[OF this(2)] obtain ids where
    "fold_each (validate_policy b') (b_policies ?b) [] = Inr ids" by blast
  with policies named have "bundle_validate sample_json b' = Inr ()"
    by (simp add: bundle_validate_def) (simp add: b'_def initial_bundle_def new_subject_def policy_eval action_defs)
  then have run: "add_user_subject sample_json ?b ''bob'' [MEMBERS] = (Inr (), b')"
    using named(2)
    by (simp add: add_user_subject_def check_approval_target_def Let_def b'_def)
      (simp add: initial_bundle_def require_assignable_def action_defs)
  have "''policy.update'' \<in> set (ACTIONS @ ADMINISTRATION_ACTIONS @ EXPLICIT_ACTIONS)"
    by (simp add: ACTIONS_def POLICY_UPDATE_def)
  with member_never_administers[OF b run, of "demo_request ''bob'' ''policy.update''"] b run
  show ?thesis by (auto simp: demo_request_def)
qed

end
