(* ===== verification/Tool_Batch.thy ===== *)
theory Tool_Batch
  imports Run_State Failures "HOL-Library.Option_ord"
begin

text \<open>
  Tool Batches: the declarations that let calls run together (crates/aidash-domain/src/tool/
  concurrency.rs), the planner (crates/aidash-application/src/execution/batch.rs), the tools of a Run
  (crates/aidash-application/src/registry/bindings/execution.rs and server/src/apps/execution/
  repositories/bindings.rs) and the authority, outcome and adoption of a batch in the harness
  (\<open>execute_batch\<close> of crates/aidash-harness/src/agent.rs).

  The argument types' JSON readers, the events and their estimated growth in the request are parameters.
  A \<open>usize\<close> is a natural number; sums that the code saturates are cut at \<open>USIZE_MAX\<close>.
\<close>

section \<open>Concurrency and claims\<close>

datatype concurrency = Sequential | SharedRead

instantiation concurrency :: linorder
begin

definition less_eq_concurrency :: "concurrency \<Rightarrow> concurrency \<Rightarrow> bool" where
  "less_eq_concurrency a b \<longleftrightarrow> a = Sequential \<or> b = SharedRead"

definition less_concurrency :: "concurrency \<Rightarrow> concurrency \<Rightarrow> bool" where
  "less_concurrency a b \<longleftrightarrow> a = Sequential \<and> b = SharedRead"

instance
proof
  fix a b c :: concurrency
  show "(a < b) = (a \<le> b \<and> \<not> b \<le> a)" by (cases a; cases b) (simp_all add: less_eq_concurrency_def less_concurrency_def)
  show "a \<le> a" by (cases a) (simp_all add: less_eq_concurrency_def)
  show "a \<le> b \<Longrightarrow> b \<le> c \<Longrightarrow> a \<le> c" by (cases b) (auto simp: less_eq_concurrency_def)
  show "a \<le> b \<Longrightarrow> b \<le> a \<Longrightarrow> a = b" by (auto simp: less_eq_concurrency_def)
  show "a \<le> b \<or> b \<le> a" by (cases a; cases b) (simp_all add: less_eq_concurrency_def)
qed

end

definition narrowed :: "concurrency \<Rightarrow> concurrency option \<Rightarrow> concurrency" where
  "narrowed c restriction = (case restriction of None \<Rightarrow> c | Some r \<Rightarrow> min c r)"

datatype claim_resource = WorkingArea | PinnedSkills

datatype resource_access = Shared | Exclusive

record resource_claim =
  rc_resource :: claim_resource
  rc_access :: resource_access

definition shared :: "claim_resource \<Rightarrow> resource_claim" where
  "shared r = \<lparr> rc_resource = r, rc_access = Shared \<rparr>"

definition exclusive :: "claim_resource \<Rightarrow> resource_claim" where
  "exclusive r = \<lparr> rc_resource = r, rc_access = Exclusive \<rparr>"

definition claim_conflicts :: "resource_claim \<Rightarrow> resource_claim \<Rightarrow> bool" where
  "claim_conflicts a b \<longleftrightarrow> rc_resource a = rc_resource b \<and> (rc_access a = Exclusive \<or> rc_access b = Exclusive)"

record concurrent_call =
  cc_claims :: "resource_claim list"
  cc_output_bytes :: nat

definition call_conflicts :: "concurrent_call \<Rightarrow> concurrent_call \<Rightarrow> bool" where
  "call_conflicts a b = list_ex (\<lambda>c. list_ex (claim_conflicts c) (cc_claims b)) (cc_claims a)"

definition RESULT_ENVELOPE_BYTES :: nat where "RESULT_ENVELOPE_BYTES = 2048"
definition SKILL_METADATA_BYTES :: nat where "SKILL_METADATA_BYTES = 8704"
definition SKILL_INVENTORY_ENTRY_BYTES :: nat where "SKILL_INVENTORY_ENTRY_BYTES = 512"
definition SKILL_INSTRUCTION_BYTES :: nat where "SKILL_INSTRUCTION_BYTES = 65536"
definition SKILL_PACKAGE_FILES :: nat where "SKILL_PACKAGE_FILES = 64"
definition SKILL_PAGE_LIMIT :: nat where "SKILL_PAGE_LIMIT = 16"

record read_ceilings =
  read_bytes :: nat
  search_bytes :: nat

section \<open>Behaviour of tools\<close>

datatype tool_effect = ReadOnly | Idempotent | Unsafe

datatype continuation = OrdinaryCall | HumanCall | WaitCall

datatype result_fitting = WorkspaceRecord | SkillText | SkillAsset | CapabilityDescription | CapabilitySearch

datatype yield = YieldSearch | YieldFetch | YieldCitations

record tool_behavior =
  tb_connection_request :: bool
  tb_effect :: tool_effect
  tb_fitting :: "result_fitting option"
  tb_continuation :: continuation
  tb_catch_up :: bool
  tb_media_pending :: bool
  tb_yields_model_media :: bool
  tb_tool_call_approval :: bool
  tb_read_only_operation :: bool
  tb_concurrency :: concurrency
  tb_exposure_update :: bool
  tb_yields :: "yield list"
  tb_disclosure_approval :: bool

definition batchable :: "tool_behavior \<Rightarrow> bool" where
  "batchable b \<longleftrightarrow>
     tb_concurrency b = SharedRead \<and> tb_effect b = ReadOnly \<and> tb_fitting b = None
     \<and> tb_continuation b = OrdinaryCall \<and> \<not> tb_tool_call_approval b \<and> \<not> tb_disclosure_approval b"

datatype representation = TextForm | MetadataForm | ModelInputForm

record file_read =
  fr_workspace_id :: "uuid option"
  fr_area_id :: "uuid option"
  fr_representation :: representation
  fr_max_bytes :: "nat option"

text \<open>The readers of the arguments: of \<open>FileRead\<close> the fields that matter, of \<open>SkillList\<close> the limit.\<close>

record 'v call_readers =
  read_file_read :: "'v \<Rightarrow> file_read option"
  read_file_search :: "'v \<Rightarrow> bool"
  read_skill_list :: "'v \<Rightarrow> nat option option"
  read_skill_load :: "'v \<Rightarrow> bool"

definition file_read_call :: "read_ceilings \<Rightarrow> file_read \<Rightarrow> concurrent_call option" where
  "file_read_call l q =
     (if fr_workspace_id q \<noteq> None \<or> fr_area_id q \<noteq> None then None
      else case fr_representation q of
             TextForm \<Rightarrow> Some \<lparr> cc_claims = [shared WorkingArea],
               cc_output_bytes = min (case fr_max_bytes q of None \<Rightarrow> read_bytes l | Some n \<Rightarrow> n) (read_bytes l) \<rparr>
           | MetadataForm \<Rightarrow> Some \<lparr> cc_claims = [shared WorkingArea], cc_output_bytes = 0 \<rparr>
           | ModelInputForm \<Rightarrow> None)"

definition core_call :: "'v call_readers \<Rightarrow> string \<Rightarrow> 'v \<Rightarrow> read_ceilings \<Rightarrow> concurrent_call option" where
  "core_call C operation input l =
     (if operation = ''file_read'' then (case read_file_read C input of None \<Rightarrow> None | Some q \<Rightarrow> file_read_call l q)
      else if operation = ''file_search''
      then (if read_file_search C input then Some \<lparr> cc_claims = [shared WorkingArea], cc_output_bytes = search_bytes l \<rparr> else None)
      else if operation = ''skill_list''
      then (case read_skill_list C input of
              None \<Rightarrow> None
            | Some limit \<Rightarrow> Some \<lparr> cc_claims = [shared PinnedSkills],
                cc_output_bytes = min (case limit of None \<Rightarrow> SKILL_PAGE_LIMIT | Some n \<Rightarrow> n) SKILL_PAGE_LIMIT * SKILL_METADATA_BYTES \<rparr>)
      else if operation = ''skill_load''
      then (if read_skill_load C input
            then Some \<lparr> cc_claims = [exclusive WorkingArea, exclusive PinnedSkills],
                   cc_output_bytes = SKILL_INSTRUCTION_BYTES + SKILL_METADATA_BYTES + SKILL_PACKAGE_FILES * SKILL_INVENTORY_ENTRY_BYTES \<rparr>
            else None)
      else None)"

definition shares_every_resource :: "'v call_readers \<Rightarrow> string \<Rightarrow> 'v \<Rightarrow> bool" where
  "shares_every_resource C operation input =
     (case core_call C operation input \<lparr> read_bytes = 0, search_bytes = 0 \<rparr> of
        None \<Rightarrow> False
      | Some call \<Rightarrow> list_all (\<lambda>c. rc_access c = Shared) (cc_claims call))"

section \<open>The tools of a Run\<close>

record 'v exec_tool =
  et_behavior :: tool_behavior
  et_concurrent_call :: "'v \<Rightarrow> concurrent_call option"

text \<open>A core tool of the server, and a tool behind a Binding that narrows its arguments.\<close>

definition core_tool :: "'v call_readers \<Rightarrow> read_ceilings \<Rightarrow> string option \<Rightarrow> tool_behavior \<Rightarrow> 'v exec_tool" where
  "core_tool C l operation b =
     \<lparr> et_behavior = b,
       et_concurrent_call = (\<lambda>input.
         if \<not> batchable b then None
         else case operation of None \<Rightarrow> None | Some name \<Rightarrow> core_call C name input l) \<rparr>"

definition bound_tool :: "tool_behavior \<Rightarrow> ('v \<Rightarrow> 'v result) \<Rightarrow> 'v exec_tool \<Rightarrow> 'v exec_tool" where
  "bound_tool b narrow inner =
     \<lparr> et_behavior = b,
       et_concurrent_call = (\<lambda>input.
         if \<not> batchable b then None
         else case narrow input of Inl _ \<Rightarrow> None | Inr v \<Rightarrow> et_concurrent_call inner v) \<rparr>"

section \<open>The planner\<close>

definition USIZE_MAX :: nat where "USIZE_MAX = 2 ^ 64 - 1"

definition TOOL_EVENT_RESERVE :: nat where "TOOL_EVENT_RESERVE = 512"

definition sat_add :: "nat \<Rightarrow> nat \<Rightarrow> nat" where "sat_add a b = min (a + b) USIZE_MAX"

record batch_budget =
  bb_request_tokens :: nat
  bb_request_window :: nat

text \<open>
  The estimator: the event of a call whose result is so many control characters, the growth of the
  request when an event is added to a context, and the context after it.
\<close>

record ('x, 'v, 'e) estimator =
  worst_event :: "'v tool_call \<Rightarrow> nat \<Rightarrow> 'e"
  event_growth :: "'x \<Rightarrow> 'e \<Rightarrow> nat"
  push_probe :: "'x \<Rightarrow> 'e \<Rightarrow> 'x"

type_synonym 'v tools = "string \<Rightarrow> 'v exec_tool option"

definition derived_call :: "'v tools \<Rightarrow> string list option \<Rightarrow> 'v tool_call \<Rightarrow> concurrent_call option" where
  "derived_call tools exposed call =
     (if (case exposed of None \<Rightarrow> False | Some names \<Rightarrow> call_name call \<notin> set names) then None
      else case tools (call_name call) of
             None \<Rightarrow> None
           | Some tool \<Rightarrow>
               if \<not> batchable (et_behavior tool) then None else et_concurrent_call tool (call_arguments call))"

definition bound_event :: "('x, 'v, 'e) estimator \<Rightarrow> 'v tool_call \<Rightarrow> concurrent_call \<Rightarrow> 'e" where
  "bound_event M call k = worst_event M call (cc_output_bytes k + RESULT_ENVELOPE_BYTES)"

definition batch_maximum :: "nat \<Rightarrow> nat \<Rightarrow> nat" where
  "batch_maximum window remaining = window - min (remaining * TOOL_EVENT_RESERVE) USIZE_MAX"

fun plan_calls ::
  "('x, 'v, 'e) estimator \<Rightarrow> 'v tools \<Rightarrow> string list option \<Rightarrow> nat \<Rightarrow> nat \<Rightarrow> concurrent_call list \<Rightarrow> 'x \<Rightarrow> nat
     \<Rightarrow> 'v tool_call list \<Rightarrow> nat" where
  "plan_calls M tools exposed ceiling window admitted probe tokens [] = length admitted"
| "plan_calls M tools exposed ceiling window admitted probe tokens (call # calls) =
     (if ceiling \<le> length admitted then length admitted
      else case derived_call tools exposed call of
             None \<Rightarrow> length admitted
           | Some k \<Rightarrow>
               if list_ex (\<lambda>held. call_conflicts held k) admitted then length admitted
               else let event = bound_event M call k; growth = event_growth M probe event
                    in if batch_maximum window (length calls) < sat_add tokens growth then length admitted
                       else plan_calls M tools exposed ceiling window (admitted @ [k]) (push_probe M probe event)
                              (sat_add tokens growth) calls)"

definition plan_tool_batch ::
  "('x, 'v, 'e) estimator \<Rightarrow> 'x \<Rightarrow> 'v tool_call list \<Rightarrow> nat \<Rightarrow> 'v tools \<Rightarrow> string list option \<Rightarrow> nat \<Rightarrow> batch_budget \<Rightarrow> nat" where
  "plan_tool_batch M ctx calls pos tools exposed ceiling budget =
     (let n = plan_calls M tools exposed ceiling (bb_request_window budget) [] ctx (bb_request_tokens budget) (drop pos calls)
      in if n < 2 then pos else pos + n)"

section \<open>Executing a batch\<close>

text \<open>Of the errors of a call, the retry of a delivery (with the requested delay) and the external error are told apart.\<close>

datatype batch_error = BatchRetry string u32 "nat option" | BatchExternal string | BatchFailure failure

text \<open>
  The surroundings of a batch: the current authority, the journal (admission of all calls at once, with
  status and result of each; a completed result is read again when research terms may have ended), the
  checks before dispatch, the dispatch of one call up to its recorded result, the interruption by a
  cancellation, the check that a result is an ordinary one, and the context and report of a result.
\<close>

record ('v, 'x) batch_env =
  be_guard :: "('v tool_call \<Rightarrow> failure + unit) option"
  be_start :: "('v, 'x) run \<Rightarrow> (string \<times> 'v tool_call) list \<Rightarrow> failure + (string \<times> 'v option) list"
  be_reread :: "string \<Rightarrow> 'v \<Rightarrow> failure + 'v"
  be_admit :: "'v tool_call \<Rightarrow> failure + 'v"
  be_call :: "string \<Rightarrow> string + 'v \<Rightarrow> batch_error + 'v"
  be_interrupted :: bool
  be_ordinary :: "'v tool_call \<Rightarrow> 'v \<Rightarrow> failure + bool"
  be_growth :: "'x \<Rightarrow> 'v tool_call \<Rightarrow> 'v \<Rightarrow> nat"
  be_push :: "'x \<Rightarrow> 'v tool_call \<Rightarrow> 'v \<Rightarrow> string \<Rightarrow> 'x"
  be_cover :: "'x \<Rightarrow> 'x"
  be_report :: "string \<Rightarrow> 'v tool_call \<Rightarrow> failure + unit"
  be_key :: "uuid \<Rightarrow> int \<Rightarrow> nat \<Rightarrow> string"
  be_error :: "string \<Rightarrow> 'v"

definition batch_refusal :: "failure + 'a \<Rightarrow> string option" where
  "batch_refusal r = (case r of Inl (FInvalid m) \<Rightarrow> Some m | Inl (DomainFailure (Invalid m)) \<Rightarrow> Some m | _ \<Rightarrow> None)"

definition batched_tool :: "'v tools \<Rightarrow> 'v tool_call \<Rightarrow> failure + 'v exec_tool" where
  "batched_tool tools call =
     (case tools (call_name call) of
        None \<Rightarrow> Inl (FConflict (''batched tool '' @ call_name call @ '' is unavailable''))
      | Some tool \<Rightarrow> Inr tool)"

text \<open>The denials of the calls that stay in the batch; a fresh plan ends at the first refused call.\<close>

fun guard_calls :: "('v tool_call \<Rightarrow> failure + unit) \<Rightarrow> 'v tools \<Rightarrow> bool \<Rightarrow> 'v tool_call list \<Rightarrow> failure + string option list" where
  "guard_calls permit tools resumed [] = Inr []"
| "guard_calls permit tools resumed (call # calls) =
     and_then (batched_tool tools call) (\<lambda>_.
     case batch_refusal (permit call) of
       Some m \<Rightarrow>
         if \<not> resumed then Inr [] else and_then (guard_calls permit tools resumed calls) (\<lambda>ds. Inr (Some m # ds))
     | None \<Rightarrow> and_then (permit call) (\<lambda>_. and_then (guard_calls permit tools resumed calls) (\<lambda>ds. Inr (None # ds))))"

datatype 'v slot = SlotDone 'v | SlotCall "string + 'v"

definition admit_call ::
  "('v, 'x) batch_env \<Rightarrow> 'v tools \<Rightarrow> 'v tool_call \<Rightarrow> string \<Rightarrow> string option \<Rightarrow> string \<times> 'v option \<Rightarrow> failure + 'v slot" where
  "admit_call E tools call key denial journaled =
     (case journaled of (status, stored) \<Rightarrow>
        if status = ''COMPLETED''
        then (case stored of
                None \<Rightarrow> Inl (FConflict ''completed invocation has no result'')
              | Some v \<Rightarrow> and_then (be_reread E key v) (\<lambda>v'.
                  Inr (SlotDone (case denial of None \<Rightarrow> v' | Some m \<Rightarrow> be_error E m))))
        else if status = ''STARTED''
        then and_then (batched_tool tools call) (\<lambda>_.
             case denial of
               Some m \<Rightarrow> Inr (SlotCall (Inl m))
             | None \<Rightarrow>
                 (case batch_refusal (be_admit E call) of
                    Some m \<Rightarrow> Inr (SlotCall (Inl m))
                  | None \<Rightarrow> and_then (be_admit E call) (\<lambda>v. Inr (SlotCall (Inr v)))))
        else Inl (FConflict ''batched invocation is not replay-safe''))"

fun admit_calls ::
  "('v, 'x) batch_env \<Rightarrow> 'v tools \<Rightarrow> 'v tool_call list \<Rightarrow> string list \<Rightarrow> string option list \<Rightarrow> (string \<times> 'v option) list
     \<Rightarrow> failure + 'v slot list" where
  "admit_calls E tools (call # calls) (key # keys) (denial # denials) (j # js) =
     and_then (admit_call E tools call key denial j) (\<lambda>slot.
     and_then (admit_calls E tools calls keys denials js) (\<lambda>slots. Inr (slot # slots)))"
| "admit_calls E tools _ _ _ _ = Inr []"

text \<open>
  What the finished calls give together: a failure that is neither a retry nor external wins, then a
  retry with the greatest count and the longest delay, then an external error.
\<close>

record settling =
  st_retry :: "(string \<times> u32 \<times> nat option) option"
  st_failure :: "batch_error option"

fun permanent :: "batch_error \<Rightarrow> bool" where
  "permanent (BatchRetry _ _ _) \<longleftrightarrow> False"
| "permanent (BatchExternal _) \<longleftrightarrow> False"
| "permanent (BatchFailure _) \<longleftrightarrow> True"

fun settle_error :: "batch_error \<Rightarrow> settling \<Rightarrow> settling" where
  "settle_error (BatchRetry message count after) z =
     z\<lparr>st_retry := Some (case st_retry z of
                          Some (m, n, a) \<Rightarrow> (m, max n count, max a after)
                        | None \<Rightarrow> (message, count, after))\<rparr>"
| "settle_error e z = (if st_failure z = None \<or> permanent e then z\<lparr>st_failure := Some e\<rparr> else z)"

definition settled_error :: "settling \<Rightarrow> batch_error option" where
  "settled_error z =
     (case st_failure z of
        Some e \<Rightarrow> if permanent e then Some e
                   else (case st_retry z of Some (m, n, a) \<Rightarrow> Some (BatchRetry m n a) | None \<Rightarrow> Some e)
      | None \<Rightarrow> map_option (\<lambda>(m, n, a). BatchRetry m n a) (st_retry z))"

definition settle_batch :: "batch_error list \<Rightarrow> batch_error option" where
  "settle_batch es = settled_error (fold settle_error es \<lparr> st_retry = None, st_failure = None \<rparr>)"

definition finish_slot :: "('v, 'x) batch_env \<Rightarrow> string \<times> 'v slot \<Rightarrow> batch_error + 'v" where
  "finish_slot E ks = (case ks of (key, SlotDone v) \<Rightarrow> Inr v | (key, SlotCall input) \<Rightarrow> be_call E key input)"

text \<open>The results in call order: the context, the tokens of the request, and the report of each.\<close>

fun adopt_results ::
  "('v, 'x) batch_env \<Rightarrow> 'v tools \<Rightarrow> 'x \<Rightarrow> nat \<Rightarrow> ('v tool_call \<times> string \<times> 'v) list \<Rightarrow> failure + 'x \<times> nat" where
  "adopt_results E tools ctx tokens [] = Inr (ctx, tokens)"
| "adopt_results E tools ctx tokens ((call, key, v) # rest) =
     and_then (batched_tool tools call) (\<lambda>_.
     and_then (be_ordinary E call v) (\<lambda>ordinary.
     if \<not> ordinary then Inl (FConflict ''batched call produced a continuation or model media'')
     else and_then (be_report E (key @ '':tool'') call) (\<lambda>_.
       adopt_results E tools (be_push E ctx call v key) (sat_add tokens (be_growth E ctx call v)) rest)))"

definition finish_batch :: "nat \<Rightarrow> nat \<Rightarrow> 'v tool_call_state \<Rightarrow> 'v tool_call_state" where
  "finish_batch tokens stop t =
     (advance stop (t\<lparr>request_tokens := tokens, workspace_read_plan := None, skill_read_plan := None, workspace_observation_plan := None\<rparr>))
       \<lparr>batch_end := None\<rparr>"

definition batch_failed :: "failure + 'a \<Rightarrow> batch_error + 'a" where
  "batch_failed x = (case x of Inl f \<Rightarrow> Inl (BatchFailure f) | Inr y \<Rightarrow> Inr y)"

definition collect_results :: "(batch_error + 'v) list \<Rightarrow> batch_error + 'v list" where
  "collect_results finished =
     (case settle_batch (concat (map (\<lambda>x. case x of Inl e \<Rightarrow> [e] | Inr _ \<Rightarrow> []) finished)) of
        Some e \<Rightarrow> Inl e
      | None \<Rightarrow> Inr (concat (map (\<lambda>x. case x of Inl _ \<Rightarrow> [] | Inr v \<Rightarrow> [v]) finished)))"

definition run_slots :: "('v, 'x) batch_env \<Rightarrow> string list \<Rightarrow> 'v slot list \<Rightarrow> batch_error + 'v list" where
  "run_slots E keys slots =
     (if be_interrupted E then Inl (BatchFailure (FConflict ''run cancelled during tool batch''))
      else collect_results (map (finish_slot E) (zip keys slots)))"

text \<open>A batch whose calls stay in it, from its journal to the Run with its results.\<close>

definition execute_admitted ::
  "('v, 'x) batch_env \<Rightarrow> 'v tools \<Rightarrow> 'v tool_call list \<Rightarrow> nat \<Rightarrow> string option list \<Rightarrow> 'v tool_call_state \<Rightarrow> ('v, 'x) run
     \<Rightarrow> batch_error + ('v, 'x) run" where
  "execute_admitted E tools batch pos denials t r =
     (let n = length denials; keys = map (be_key E (run_id r) (response_epoch t)) [pos..<pos + n] in
      and_then (batch_failed (be_start E (r\<lparr>state := RunToolCall (t\<lparr>batch_end := Some (pos + n)\<rparr>)\<rparr>) (zip keys batch))) (\<lambda>journaled.
      if length journaled \<noteq> n then Inl (BatchFailure (FConflict ''Tool Batch admission lost a call''))
      else and_then (batch_failed (admit_calls E tools batch keys denials journaled)) (\<lambda>slots.
      and_then (run_slots E keys slots) (\<lambda>outputs.
      and_then (batch_failed (adopt_results E tools (be_cover E (context_rest (run_context r))) (request_tokens t) (zip batch (zip keys outputs)))) (\<lambda>(ctx, tokens).
      Inr (r\<lparr>run_context := (run_context r)\<lparr>context_rest := ctx\<rparr>, state := RunToolCall (finish_batch tokens (pos + n) t)\<rparr>))))))"

definition guard_batch :: "('v, 'x) batch_env \<Rightarrow> 'v tools \<Rightarrow> bool \<Rightarrow> 'v tool_call list \<Rightarrow> failure + string option list" where
  "guard_batch E tools resumed planned =
     (case be_guard E of
        None \<Rightarrow> Inr (replicate (length planned) None)
      | Some permit \<Rightarrow> guard_calls permit tools resumed planned)"

definition execute_batch ::
  "('v, 'x) batch_env \<Rightarrow> 'v tools \<Rightarrow> 'v tool_call list \<Rightarrow> nat \<Rightarrow> nat \<Rightarrow> ('v, 'x) run \<Rightarrow> batch_error + bool \<times> ('v, 'x) run" where
  "execute_batch E tools calls pos stop r =
     and_then (batch_failed (domain (state_tool (state r)))) (\<lambda>t.
     if stop \<le> pos \<or> length calls < stop then Inl (BatchFailure (FConflict ''Tool Batch exceeds its model response''))
     else let planned = take (stop - pos) (drop pos calls) in
       and_then (batch_failed (guard_batch E tools (batch_end t \<noteq> None) planned)) (\<lambda>denials.
       if length denials < 2 then Inr (False, r)
       else and_then (execute_admitted E tools (take (length denials) planned) pos denials t r) (\<lambda>r'. Inr (True, r'))))"

section \<open>Specification of a batch\<close>

text \<open>The growth of the request by the worst results of the first calls, and the batches that fit.\<close>

fun worst_growth :: "('x, 'v, 'e) estimator \<Rightarrow> 'x \<Rightarrow> ('v tool_call \<times> concurrent_call) list \<Rightarrow> nat" where
  "worst_growth M probe [] = 0"
| "worst_growth M probe ((call, k) # rest) =
     event_growth M probe (bound_event M call k) + worst_growth M (push_probe M probe (bound_event M call k)) rest"

definition fits ::
  "('x, 'v, 'e) estimator \<Rightarrow> 'v tools \<Rightarrow> string list option \<Rightarrow> nat \<Rightarrow> nat \<Rightarrow> concurrent_call list \<Rightarrow> 'x \<Rightarrow> nat
     \<Rightarrow> 'v tool_call list \<Rightarrow> concurrent_call list \<Rightarrow> bool" where
  "fits M tools exposed ceiling window admitted probe tokens calls ks \<longleftrightarrow>
     length ks \<le> length calls \<and> (ks \<noteq> [] \<longrightarrow> length admitted + length ks \<le> ceiling)
     \<and> (\<forall>i < length ks. derived_call tools exposed (calls ! i) = Some (ks ! i)
          \<and> (\<forall>held \<in> set (admitted @ take i ks). \<not> call_conflicts held (ks ! i))
          \<and> min (tokens + worst_growth M probe (take (Suc i) (zip calls ks))) USIZE_MAX
              \<le> batch_maximum window (length calls - Suc i))"

lemma sat_add_fold: "min (sat_add a b + c) USIZE_MAX = min (a + (b + c)) USIZE_MAX"
  by (simp add: sat_add_def)

lemma fits_Nil [simp]: "fits M tools exposed ceiling window admitted probe tokens calls []"
  by (simp add: fits_def)

lemma all_less_Suc: "(\<forall>i < Suc n. P i) \<longleftrightarrow> P 0 \<and> (\<forall>i < n. P (Suc i))"
  by (metis less_Suc_eq_0_disj)

lemma fits_Cons:
  "fits M tools exposed ceiling window admitted probe tokens (call # calls) (k # ks) \<longleftrightarrow>
     length admitted < ceiling \<and> derived_call tools exposed call = Some k
     \<and> \<not> list_ex (\<lambda>held. call_conflicts held k) admitted
     \<and> sat_add tokens (event_growth M probe (bound_event M call k)) \<le> batch_maximum window (length calls)
     \<and> fits M tools exposed ceiling window (admitted @ [k]) (push_probe M probe (bound_event M call k))
         (sat_add tokens (event_growth M probe (bound_event M call k))) calls ks"
  unfolding fits_def length_Cons all_less_Suc
  by (auto simp: sat_add_fold sat_add_def list_ex_iff)

lemma plan_calls_longest:
  "\<exists>ks. fits M tools exposed ceiling window admitted probe tokens calls ks
     \<and> plan_calls M tools exposed ceiling window admitted probe tokens calls = length admitted + length ks
     \<and> (\<forall>ks'. fits M tools exposed ceiling window admitted probe tokens calls ks' \<longrightarrow> length ks' \<le> length ks)"
proof (induction calls arbitrary: admitted probe tokens)
  case Nil
  show ?case by (rule exI[of _ "[]"]) (simp add: fits_def)
next
  case (Cons call calls)
  let ?fits = "fits M tools exposed ceiling window admitted probe tokens (call # calls)"
  show ?case
  proof (cases "\<exists>k. ?fits [k]")
    case True
    then obtain k where k: "?fits [k]" by blast
    let ?event = "bound_event M call k"
    let ?t = "sat_add tokens (event_growth M probe ?event)"
    obtain ks where ks: "fits M tools exposed ceiling window (admitted @ [k]) (push_probe M probe ?event) ?t calls ks"
      "plan_calls M tools exposed ceiling window (admitted @ [k]) (push_probe M probe ?event) ?t calls = length (admitted @ [k]) + length ks"
      "\<And>ks'. fits M tools exposed ceiling window (admitted @ [k]) (push_probe M probe ?event) ?t calls ks' \<Longrightarrow> length ks' \<le> length ks"
      using Cons.IH by blast
    have "?fits (k # ks)" using k ks(1) by (simp add: fits_Cons)
    moreover have "plan_calls M tools exposed ceiling window admitted probe tokens (call # calls) = length admitted + length (k # ks)"
      using k ks(2) by (simp add: fits_Cons Let_def)
    moreover have "length ks' \<le> length (k # ks)" if f: "?fits ks'" for ks'
    proof (cases ks')
      case (Cons k' ks'')
      then have "k' = k" using f k by (simp add: fits_Cons)
      then show ?thesis using ks(3)[of ks''] f Cons by (simp add: fits_Cons)
    qed simp
    ultimately show ?thesis by blast
  next
    case False
    have "ks' = []" if f: "?fits ks'" for ks'
    proof (cases ks')
      case (Cons k' ks'')
      then have "?fits [k']" using f by (simp add: fits_Cons)
      then show ?thesis using False by blast
    qed simp
    moreover have "plan_calls M tools exposed ceiling window admitted probe tokens (call # calls) = length admitted"
      using False by (auto simp: fits_Cons Let_def not_less split: option.split)
    ultimately show ?thesis by (intro exI[of _ "[]"]) auto
  qed
qed

section \<open>Lemmas on the execution\<close>

fun is_external :: "batch_error \<Rightarrow> bool" where
  "is_external (BatchRetry _ _ _) \<longleftrightarrow> False"
| "is_external (BatchExternal _) \<longleftrightarrow> True"
| "is_external (BatchFailure _) \<longleftrightarrow> False"

fun retry_of :: "batch_error \<Rightarrow> (string \<times> u32 \<times> nat option) list" where
  "retry_of (BatchRetry m n a) = [(m, n, a)]"
| "retry_of _ = []"

definition retries_of :: "batch_error list \<Rightarrow> (string \<times> u32 \<times> nat option) list" where
  "retries_of es = concat (map retry_of es)"

lemma retries_of_snoc [simp]: "retries_of (es @ [e]) = retries_of es @ retry_of e" "retries_of [] = []"
  by (simp_all add: retries_of_def)

lemma find_snoc: "List.find P (xs @ [x]) = (case List.find P xs of Some y \<Rightarrow> Some y | None \<Rightarrow> if P x then Some x else None)"
  by (induction xs) auto

lemma settle_failure:
  "st_failure (fold settle_error es \<lparr> st_retry = None, st_failure = None \<rparr>) =
     (if filter permanent es \<noteq> [] then Some (last (filter permanent es)) else List.find is_external es)"
proof (induction es rule: rev_induct)
  case (snoc e es)
  show ?case by (cases e) (auto simp: snoc.IH find_snoc split: option.splits)
qed simp

lemma Max_insert_swap: "finite A \<Longrightarrow> max (x :: 'a::linorder) (Max (insert y A)) = max y (Max (insert x A))"
  by (cases "A = {}") (simp_all add: max.left_commute max.commute)

lemma settle_retry:
  "st_retry (fold settle_error es \<lparr> st_retry = None, st_failure = None \<rparr>) =
     (case retries_of es of
        [] \<Rightarrow> None
      | (m, n, a) # rs \<Rightarrow> Some (m, Max (set (map (fst \<circ> snd) (retries_of es))), Max (set (map (snd \<circ> snd) (retries_of es)))))"
proof (induction es rule: rev_induct)
  case (snoc e es)
  show ?case
  proof (cases e)
    case (BatchRetry m n a)
    show ?thesis
    proof (cases "retries_of es")
      case Nil
      then show ?thesis using snoc.IH BatchRetry by simp
    next
      case (Cons x xs)
      then show ?thesis using snoc.IH BatchRetry by (cases x) (simp add: max.commute Max_insert_swap)
    qed
  qed (use snoc.IH in \<open>auto split: list.split\<close>)
qed simp

text \<open>
  A permanent failure wins over every retry, a retry over an external error; the retry asks for the
  greatest count and the longest delay that any of the calls asked for.
\<close>

lemma settle_closed:
  "settle_batch es =
     (if filter permanent es \<noteq> [] then Some (last (filter permanent es))
      else case retries_of es of
             [] \<Rightarrow> List.find is_external es
           | (m, n, a) # rs \<Rightarrow>
               Some (BatchRetry m (Max (set (map (fst \<circ> snd) (retries_of es)))) (Max (set (map (snd \<circ> snd) (retries_of es))))))"
proof -
  have "permanent (last (filter permanent es))" if "filter permanent es \<noteq> []"
    using last_in_set[OF that] by simp
  moreover have "\<not> permanent e" if "List.find is_external es = Some e" for e
  proof -
    have "is_external e" using that by (auto simp: find_Some_iff)
    then show ?thesis by (cases e) simp_all
  qed
  ultimately show ?thesis
    unfolding settle_batch_def settled_error_def settle_failure settle_retry
    by (cases "retries_of es") (auto split: option.splits)
qed

lemma settle_None: "settle_batch es = None \<longleftrightarrow> es = []"
proof (cases es)
  case (Cons e rest)
  have "filter permanent es \<noteq> [] \<or> List.find is_external es \<noteq> None \<or> retries_of es \<noteq> []"
    unfolding Cons by (cases e) (simp_all add: retries_of_def)
  then have "settle_batch es \<noteq> None" unfolding settle_closed by (cases "retries_of es") auto
  then show ?thesis using Cons by simp
qed (simp add: settle_closed)

lemma guard_calls_Inr:
  "guard_calls permit tools resumed calls = Inr ds \<Longrightarrow>
     length ds \<le> length calls \<and> (\<forall>i < length ds. ds ! i = None \<longrightarrow> permit (calls ! i) = Inr ())"
proof (induction calls arbitrary: ds)
  case (Cons call calls)
  then show ?case
    by (auto simp: and_then_Inr_iff less_Suc_eq_0_disj split: option.splits if_splits)
qed simp

lemma admit_calls_Inr:
  "admit_calls E tools calls keys ds js = Inr slots \<Longrightarrow> length keys = length calls \<Longrightarrow> length ds = length calls \<Longrightarrow> length js = length calls
     \<Longrightarrow> length slots = length calls \<and> (\<forall>i < length calls. admit_call E tools (calls ! i) (keys ! i) (ds ! i) (js ! i) = Inr (slots ! i))"
proof (induction E tools calls keys ds js arbitrary: slots rule: admit_calls.induct)
  case (1 E tools call calls key keys denial denials j js)
  then show ?case by (auto simp: and_then_Inr_iff less_Suc_eq_0_disj)
qed auto

lemma adopt_results_Inr:
  "adopt_results E tools ctx tokens results = Inr (ctx', tokens') \<Longrightarrow>
     ctx' = fold (\<lambda>(call, key, v) x. be_push E x call v key) results ctx \<and> (\<forall>(call, key, v) \<in> set results. be_ordinary E call v = Inr True)"
  by (induction E tools ctx tokens results rule: adopt_results.induct) (auto simp: and_then_Inr_iff split: if_splits)

lemma failed_simps [simp]: "batch_failed (Inr y) = Inr y" "batch_failed (Inl f) = Inl (BatchFailure f)"
  by (simp_all add: batch_failed_def)

lemma failed_Inr [simp]: "batch_failed x = Inr y \<longleftrightarrow> x = Inr y"
  by (simp add: batch_failed_def split: sum.split)

lemma all_finished:
  "concat (map (\<lambda>x. case x of Inl e \<Rightarrow> [e] | Inr _ \<Rightarrow> []) finished) = [] \<Longrightarrow> \<exists>vs. finished = map Inr vs"
proof (induction finished)
  case (Cons x xs)
  then obtain vs where vs: "xs = map Inr vs" by auto
  obtain v where "x = Inr v" using Cons.prems by (cases x) auto
  then have "x # xs = map Inr (v # vs)" by (simp add: vs)
  then show ?case by (rule exI)
qed simp

lemma outputs_of: "concat (map (\<lambda>x. case x of Inl _ \<Rightarrow> [] | Inr v \<Rightarrow> [v]) (map Inr vs)) = vs"
  by (induction vs) simp_all

section \<open>A batch of reads\<close>

definition sample_behavior :: tool_behavior where
  "sample_behavior =
     \<lparr> tb_connection_request = False, tb_effect = ReadOnly, tb_fitting = None, tb_continuation = OrdinaryCall, tb_catch_up = False,
       tb_media_pending = False, tb_yields_model_media = False, tb_tool_call_approval = False, tb_read_only_operation = False,
       tb_concurrency = SharedRead, tb_exposure_update = False, tb_yields = [], tb_disclosure_approval = False \<rparr>"

definition sample_tools :: "unit tools" where
  "sample_tools name =
     Some (bound_tool sample_behavior Inr
       (core_tool \<lparr> read_file_read = (\<lambda>_. None), read_file_search = (\<lambda>_. True), read_skill_list = (\<lambda>_. None), read_skill_load = (\<lambda>_. True) \<rparr>
         \<lparr> read_bytes = 100, search_bytes = 100 \<rparr> (Some name) sample_behavior))"

definition sample_estimator :: "(unit, unit, nat) estimator" where
  "sample_estimator = \<lparr> worst_event = (\<lambda>_ n. n), event_growth = (\<lambda>_ n. n), push_probe = (\<lambda>x _. x) \<rparr>"

definition sample_reads :: "unit tool_call list" where
  "sample_reads = map (\<lambda>name. \<lparr> call_id = [], call_name = name, call_arguments = () \<rparr>) [''file_search'', ''file_search'', ''skill_load'']"

lemma sample_plan:
  "plan_tool_batch sample_estimator () sample_reads 0 sample_tools None 4 \<lparr> bb_request_tokens = 0, bb_request_window = 10000 \<rparr> = 2"
proof -
  have "batchable sample_behavior" by (simp add: batchable_def sample_behavior_def)
  then show ?thesis
    by (simp add: plan_tool_batch_def derived_call_def sample_tools_def bound_tool_def core_tool_def core_call_def Let_def
        call_conflicts_def claim_conflicts_def shared_def exclusive_def bound_event_def sat_add_def batch_maximum_def USIZE_MAX_def
        TOOL_EVENT_RESERVE_def RESULT_ENVELOPE_BYTES_def sample_reads_def sample_estimator_def)
qed

section \<open>Properties\<close>

text \<open>
  Property C17. A Tool Batch is the longest run of calls pos the cursor on that may run together: the
  planner returns its end, or the cursor when it has fewer than two calls. In it every call is exposed,
  its tool batchable and its claims derived, no two calls conflict, the ceiling is kept, and the worst
  results fit the request window with the reserve of the calls after them.
\<close>

theorem tool_batch_longest:
  "\<exists>ks. fits M tools exposed ceiling (bb_request_window budget) [] ctx (bb_request_tokens budget) (drop pos calls) ks
     \<and> (\<forall>ks'. fits M tools exposed ceiling (bb_request_window budget) [] ctx (bb_request_tokens budget) (drop pos calls) ks'
          \<longrightarrow> length ks' \<le> length ks)
     \<and> plan_tool_batch M ctx calls pos tools exposed ceiling budget = (if length ks < 2 then pos else pos + length ks)"
  using plan_calls_longest[of M tools exposed ceiling "bb_request_window budget" "[]" ctx "bb_request_tokens budget" "drop pos calls"]
  by (auto simp: plan_tool_batch_def Let_def)

theorem tool_batch_longest_witness:
  "\<exists>ks. fits sample_estimator sample_tools None 4 10000 [] () 0 sample_reads ks \<and> length ks = 2"
proof -
  obtain ks where "fits sample_estimator sample_tools None 4 10000 [] () 0 sample_reads ks" "(if length ks < 2 then 0 else 0 + length ks) = 2"
    using tool_batch_longest[of sample_estimator sample_tools None 4 "\<lparr> bb_request_tokens = 0, bb_request_window = 10000 \<rparr>" "()" 0 sample_reads]
    by (auto simp: sample_plan)
  then show ?thesis by (auto split: if_splits)
qed

lemma core_call_claims:
  assumes "core_call C operation input l = Some k"
  shows "if operation = ''skill_load'' then cc_claims k = [exclusive WorkingArea, exclusive PinnedSkills]
    else \<exists>r. cc_claims k = [shared r]"
  using assms by (auto simp: core_call_def file_read_call_def split: if_splits option.splits representation.splits)

lemma skill_load_conflicts:
  assumes "core_call C a x l = Some k" "core_call C b y l = Some k'" "a = ''skill_load'' \<or> b = ''skill_load''"
  shows "call_conflicts k k'"
proof -
  have "r = WorkingArea \<or> r = PinnedSkills" for r by (cases r) simp_all
  then show ?thesis
    using assms(3) core_call_claims[OF assms(1)] core_call_claims[OF assms(2)]
    by (auto simp: call_conflicts_def claim_conflicts_def shared_def exclusive_def split: if_splits) metis+
qed

lemma bound_core_call:
  assumes "derived_call tools exposed call = Some k"
    and "\<And>name tool. tools name = Some tool \<Longrightarrow> \<exists>b narrow b'. tool = bound_tool b narrow (core_tool C l (operations name) b')"
  shows "\<exists>operation v. operations (call_name call) = Some operation \<and> core_call C operation v l = Some k"
proof -
  obtain tool where tool: "tools (call_name call) = Some tool" "et_concurrent_call tool (call_arguments call) = Some k"
    using assms(1) by (auto simp: derived_call_def split: if_splits option.splits)
  obtain b narrow b' where "tool = bound_tool b narrow (core_tool C l (operations (call_name call)) b')" using assms(2)[OF tool(1)] by blast
  then show ?thesis using tool(2) by (auto simp: bound_tool_def core_tool_def split: if_splits sum.splits option.splits)
qed

lemma fits_apart:
  assumes "fits M tools exposed ceiling window [] probe tokens calls ks" "i < length ks" "j < length ks" "i \<noteq> j"
  shows "\<not> call_conflicts (ks ! i) (ks ! j) \<or> \<not> call_conflicts (ks ! j) (ks ! i)"
proof -
  have "\<not> call_conflicts (ks ! i) (ks ! j)" if "i < j" "j < length ks" for i j
  proof -
    have "ks ! i \<in> set (take j ks)" using that by (auto simp: in_set_conv_nth intro!: exI[of _ i])
    then show ?thesis using assms(1) that by (simp add: fits_def)
  qed
  then show ?thesis using assms(2-4) by (metis nat_neq_iff)
qed

lemma no_errors: "concat (map (\<lambda>x. case x of Inl e \<Rightarrow> [e] | Inr _ \<Rightarrow> []) (map Inr vs)) = []"
  by (induction vs) simp_all

lemma collect_Inr: "collect_results finished = Inr vs \<longleftrightarrow> finished = map Inr vs"
proof
  assume c: "collect_results finished = Inr vs"
  then have "settle_batch (concat (map (\<lambda>x. case x of Inl e \<Rightarrow> [e] | Inr _ \<Rightarrow> []) finished)) = None"
    by (auto simp: collect_results_def split: option.splits)
  then obtain us where us: "finished = map Inr us" using all_finished unfolding settle_None by blast
  show "finished = map Inr vs" using c unfolding collect_results_def us outputs_of by (auto split: option.splits)
next
  assume "finished = map Inr vs"
  then show "collect_results finished = Inr vs"
    using settle_None[THEN iffD2, OF refl] by (simp only: collect_results_def outputs_of no_errors option.case)
qed

lemma guard_batch_Inr:
  "guard_batch E tools resumed planned = Inr denials \<Longrightarrow>
     length denials \<le> length planned
     \<and> (\<forall>permit i. be_guard E = Some permit \<longrightarrow> i < length denials \<longrightarrow> denials ! i = None \<longrightarrow> permit (planned ! i) = Inr ())"
  by (auto simp: guard_batch_def split: option.splits dest!: guard_calls_Inr)

lemma slot_origin:
  assumes "admit_call E tools call key denial j = Inr slot" "finish_slot E (key, slot) = Inr v"
  shows "(\<exists>m. v = be_error E m) \<or> (\<exists>key v0. be_reread E key v0 = Inr v) \<or> (\<exists>key m. be_call E key (Inl m) = Inr v)
    \<or> (\<exists>key v0. be_call E key (Inr v0) = Inr v \<and> be_admit E call = Inr v0 \<and> denial = None)"
  using assms by (auto simp: admit_call_def finish_slot_def and_then_Inr_iff split: prod.splits if_splits option.splits) blast+

lemma adopted_fold:
  "length batch = n \<Longrightarrow> length vs = n \<Longrightarrow>
     fold (\<lambda>(call, key, v) x. f x call v key) (zip batch (zip (map k [pos..<pos + n]) vs)) ctx =
       fold (\<lambda>i x. f x (batch ! i) (vs ! i) (k (pos + i))) [0..<n] ctx"
proof (induction n arbitrary: batch vs)
  case (Suc n)
  then obtain b bs v us where e: "batch = bs @ [b]" "vs = us @ [v]" "length bs = n" "length us = n"
    by (metis append_butlast_last_id length_0_conv length_butlast diff_Suc_1 nat.distinct(1))
  have "fold (\<lambda>i x. f x ((bs @ [b]) ! i) ((us @ [v]) ! i) (k (pos + i))) [0..<n] ctx =
      fold (\<lambda>i x. f x (bs ! i) (us ! i) (k (pos + i))) [0..<n] ctx"
    by (rule fold_cong) (use e in \<open>auto simp: nth_append\<close>)
  then show ?case using Suc.IH[of bs us] e by (simp add: nth_append)
qed simp

lemma execute_admitted_Inr:
  assumes "execute_admitted E tools batch pos denials t r = Inr r'" "length batch = length denials"
  obtains vs tokens where "length vs = length denials" "state r' = RunToolCall (finish_batch tokens (pos + length denials) t)"
    "context_rest (run_context r') = fold (\<lambda>i x. be_push E x (batch ! i) (vs ! i) (be_key E (run_id r) (response_epoch t) (pos + i)))
       [0..<length denials] (be_cover E (context_rest (run_context r)))"
    "\<And>i. i < length denials \<Longrightarrow> be_ordinary E (batch ! i) (vs ! i) = Inr True"
    "\<And>i. i < length denials \<Longrightarrow> (\<exists>m. vs ! i = be_error E m) \<or> (\<exists>key v. be_reread E key v = Inr (vs ! i)) \<or> (\<exists>key m. be_call E key (Inl m) = Inr (vs ! i))
       \<or> (\<exists>key v. be_call E key (Inr v) = Inr (vs ! i) \<and> be_admit E (batch ! i) = Inr v \<and> denials ! i = None)"
proof -
  let ?n = "length denials"
  let ?keys = "map (be_key E (run_id r) (response_epoch t)) [pos..<pos + ?n]"
  obtain journaled slots vs ctx tokens where j: "length journaled = ?n" "admit_calls E tools batch ?keys denials journaled = Inr slots"
    and vs: "run_slots E ?keys slots = Inr vs"
    and a: "adopt_results E tools (be_cover E (context_rest (run_context r))) (request_tokens t) (zip batch (zip ?keys vs)) = Inr (ctx, tokens)"
    and r': "r' = r\<lparr>run_context := (run_context r)\<lparr>context_rest := ctx\<rparr>, state := RunToolCall (finish_batch tokens (pos + ?n) t)\<rparr>"
    using assms(1) by (auto simp: execute_admitted_def and_then_Inr_iff Let_def split: if_splits)
  have slots: "length slots = ?n" "\<And>i. i < ?n \<Longrightarrow> admit_call E tools (batch ! i) (?keys ! i) (denials ! i) (journaled ! i) = Inr (slots ! i)"
  proof -
    have "length ?keys = length batch" "length denials = length batch" "length journaled = length batch" using j(1) assms(2) by simp_all
    note s = admit_calls_Inr[OF j(2) this]
    show "length slots = ?n" using conjunct1[OF s] assms(2) by (rule trans)
    show "admit_call E tools (batch ! i) (?keys ! i) (denials ! i) (journaled ! i) = Inr (slots ! i)" if "i < ?n" for i
      using conjunct2[OF s] that unfolding assms(2) by blast
  qed
  have fin: "map (finish_slot E) (zip ?keys slots) = map Inr vs" using vs by (simp add: run_slots_def collect_Inr split: if_splits)
  then have lvs: "length vs = ?n" using slots(1) by (metis length_map length_zip length_upt add_diff_cancel_left' min.idem)
  have out: "finish_slot E (?keys ! i, slots ! i) = Inr (vs ! i)" if "i < ?n" for i
    using arg_cong[OF fin, of "\<lambda>xs. xs ! i"] that slots(1) lvs by simp
  note ad = adopt_results_Inr[OF a]
  have "(batch ! i, ?keys ! i, vs ! i) \<in> set (zip batch (zip ?keys vs))" if "i < ?n" for i
    using that assms(2) lvs by (auto simp: in_set_zip intro!: exI[of _ i])
  then have "be_ordinary E (batch ! i) (vs ! i) = Inr True" if "i < ?n" for i using ad that by fastforce
  moreover have "ctx = fold (\<lambda>i x. be_push E x (batch ! i) (vs ! i) (be_key E (run_id r) (response_epoch t) (pos + i))) [0..<?n]
      (be_cover E (context_rest (run_context r)))"
    using ad adopted_fold[OF assms(2) lvs, of "be_push E"] by simp
  ultimately show thesis using slot_origin[OF slots(2) out] by (intro that[of vs tokens]) (simp_all add: lvs r')
qed

text \<open>
  Property C18. A batch is adopted in call order or not at all: when \<open>execute_batch\<close> reports a batch, it
  had at least two calls from the cursor on, within the plan; the context has grown by the results in
  the order of the calls under their keys, and the cursor is behind the batch. A tool is dispatched only
  when the current authority and the tool's own checks permitted the call and its journal entry was
  open; otherwise the result is the journaled one or the denial. When it reports no batch, nothing changed.
\<close>

theorem batch_adopted_in_order:
  assumes "execute_batch E tools calls pos stop r = Inr (taken, r')"
  shows "if \<not> taken then r' = r
    else \<exists>t t' n vs. state r = RunToolCall t \<and> 2 \<le> n \<and> pos + n \<le> stop \<and> stop \<le> length calls \<and> length vs = n
      \<and> context_rest (run_context r') =
          fold (\<lambda>i x. be_push E x (calls ! (pos + i)) (vs ! i) (be_key E (run_id r) (response_epoch t) (pos + i))) [0..<n]
            (be_cover E (context_rest (run_context r)))
      \<and> state r' = RunToolCall t' \<and> cursor t' = pos + n \<and> batch_end t' = None
      \<and> (\<forall>i < n. be_ordinary E (calls ! (pos + i)) (vs ! i) = Inr True
          \<and> ((\<exists>m. vs ! i = be_error E m) \<or> (\<exists>key v. be_reread E key v = Inr (vs ! i))
             \<or> (\<exists>key m. be_call E key (Inl m) = Inr (vs ! i))
             \<or> (\<exists>key v. be_call E key (Inr v) = Inr (vs ! i) \<and> be_admit E (calls ! (pos + i)) = Inr v
                  \<and> (\<forall>permit. be_guard E = Some permit \<longrightarrow> permit (calls ! (pos + i)) = Inr ()))))"
proof -
  obtain t where t: "state_tool (state r) = Inr t" using assms by (auto simp: execute_batch_def and_then_Inr_iff)
  then have rt: "state r = RunToolCall t" by (cases "state r") simp_all
  show ?thesis
  proof (cases "taken = True")
    case False
    then show ?thesis using assms rt by (auto simp: execute_batch_def and_then_Inr_iff Let_def split: if_splits)
  next
    case True
    let ?planned = "take (stop - pos) (drop pos calls)"
    have bounds: "pos < stop" "stop \<le> length calls" using assms rt by (auto simp: execute_batch_def and_then_Inr_iff split: if_splits)
    obtain denials where d: "guard_batch E tools (batch_end t \<noteq> None) ?planned = Inr denials" "2 \<le> length denials"
      and e: "execute_admitted E tools (take (length denials) ?planned) pos denials t r = Inr r'"
      using assms rt True by (auto simp: execute_batch_def and_then_Inr_iff Let_def not_less split: if_splits)
    let ?n = "length denials"
    let ?batch = "take ?n ?planned" and ?k = "be_key E (run_id r) (response_epoch t)"
    have n: "?n \<le> stop - pos" using guard_batch_Inr[OF d(1)] bounds by simp
    then have len: "length ?batch = ?n" using bounds by simp
    have at: "?batch ! i = calls ! (pos + i)" "?planned ! i = calls ! (pos + i)" if "i < ?n" for i using n bounds that by auto
    obtain vs tokens where vs: "length vs = ?n" "state r' = RunToolCall (finish_batch tokens (pos + ?n) t)"
        "context_rest (run_context r') = fold (\<lambda>i x. be_push E x (?batch ! i) (vs ! i) (?k (pos + i))) [0..<?n] (be_cover E (context_rest (run_context r)))"
        "\<And>i. i < ?n \<Longrightarrow> be_ordinary E (?batch ! i) (vs ! i) = Inr True"
        "\<And>i. i < ?n \<Longrightarrow> (\<exists>m. vs ! i = be_error E m) \<or> (\<exists>key v. be_reread E key v = Inr (vs ! i)) \<or> (\<exists>key m. be_call E key (Inl m) = Inr (vs ! i))
           \<or> (\<exists>key v. be_call E key (Inr v) = Inr (vs ! i) \<and> be_admit E (?batch ! i) = Inr v \<and> denials ! i = None)"
      by (rule execute_admitted_Inr[OF e len]) blast
    have "fold (\<lambda>i x. be_push E x (?batch ! i) (vs ! i) (?k (pos + i))) [0..<?n] (be_cover E (context_rest (run_context r))) =
        fold (\<lambda>i x. be_push E x (calls ! (pos + i)) (vs ! i) (?k (pos + i))) [0..<?n] (be_cover E (context_rest (run_context r)))"
      by (rule fold_cong) (use at in auto)
    moreover have "cursor (finish_batch tokens (pos + ?n) t) = pos + ?n \<and> batch_end (finish_batch tokens (pos + ?n) t) = None"
      by (simp add: finish_batch_def advance_def)
    moreover have "\<forall>i < ?n. (\<exists>m. vs ! i = be_error E m) \<or> (\<exists>key v. be_reread E key v = Inr (vs ! i)) \<or> (\<exists>key m. be_call E key (Inl m) = Inr (vs ! i))
        \<or> (\<exists>key v. be_call E key (Inr v) = Inr (vs ! i) \<and> be_admit E (calls ! (pos + i)) = Inr v
             \<and> (\<forall>permit. be_guard E = Some permit \<longrightarrow> permit (calls ! (pos + i)) = Inr ()))"
      using vs(5) guard_batch_Inr[OF d(1)] at by metis
    moreover have "\<forall>i < ?n. be_ordinary E (calls ! (pos + i)) (vs ! i) = Inr True" using vs(4) at(1) by simp
    moreover have "pos + ?n \<le> stop" using n bounds by simp
    ultimately show ?thesis unfolding True not_True_eq_False if_False
      by (intro exI[of _ t] exI[of _ "finish_batch tokens (pos + ?n) t"] exI[of _ ?n] exI[of _ vs])
        (use rt d(2) bounds(2) vs(1-3) in simp)
  qed
qed

definition sample_batch :: "(sample, unit) batch_env" where
  "sample_batch =
     \<lparr> be_guard = Some (\<lambda>_. Inr ()), be_start = (\<lambda>_ keys. Inr (map (\<lambda>_. (''STARTED'', None)) keys)), be_reread = (\<lambda>_ v. Inr v),
       be_admit = (\<lambda>call. Inr (call_arguments call)), be_call = (\<lambda>_ _. Inr SNull), be_interrupted = False,
       be_ordinary = (\<lambda>_ _. Inr True), be_growth = (\<lambda>_ _ _. 1), be_push = (\<lambda>x _ _ _. x), be_cover = id,
       be_report = (\<lambda>_ _. Inr ()), be_key = (\<lambda>_ _ _. ''k''), be_error = (\<lambda>_. SNull) \<rparr>"

definition sample_calls :: "sample tool_call list" where
  "sample_calls = replicate 2 \<lparr> call_id = ''c'', call_name = ''file_search'', call_arguments = SNull \<rparr>"

lemma sample_executes:
  "\<exists>r'. execute_batch sample_batch (\<lambda>_. Some \<lparr> et_behavior = sample_behavior, et_concurrent_call = (\<lambda>_. None) \<rparr>) sample_calls 0 2
     (sample_run (RunToolCall sample_call)) = Inr (True, r')"
proof -
  have calls: "sample_calls = [\<lparr> call_id = ''c'', call_name = ''file_search'', call_arguments = SNull \<rparr>,
      \<lparr> call_id = ''c'', call_name = ''file_search'', call_arguments = SNull \<rparr>]" by (simp add: sample_calls_def numeral_2_eq_2)
  have two: "[0..<2] = [0, Suc 0]" by (simp add: numeral_2_eq_2)
  have none: "settle_batch [] = None" by (simp add: settle_None)
  show ?thesis unfolding calls
    by (simp add: execute_batch_def guard_batch_def batched_tool_def batch_refusal_def execute_admitted_def admit_call_def domain_def
        run_slots_def collect_results_def finish_slot_def sample_batch_def Let_def none two)
qed

theorem batch_adopted_in_order_witness:
  "\<exists>r' t'. execute_batch sample_batch (\<lambda>_. Some \<lparr> et_behavior = sample_behavior, et_concurrent_call = (\<lambda>_. None) \<rparr>) sample_calls 0 2
     (sample_run (RunToolCall sample_call)) = Inr (True, r') \<and> state r' = RunToolCall t' \<and> cursor t' = 2 \<and> batch_end t' = None"
proof -
  obtain r' where r': "execute_batch sample_batch (\<lambda>_. Some \<lparr> et_behavior = sample_behavior, et_concurrent_call = (\<lambda>_. None) \<rparr>) sample_calls 0 2
     (sample_run (RunToolCall sample_call)) = Inr (True, r')" using sample_executes by blast
  from batch_adopted_in_order[OF r'] obtain t' n where "state r' = RunToolCall t'" "cursor t' = n" "batch_end t' = None" "2 \<le> n" "n \<le> 2"
    by auto
  then show ?thesis using r' by auto
qed

text \<open>
  Property C19. Among the core reads a Tool Batch only shares: when every tool is a core tool behind a
  Binding, no call of a batch loads a Skill, and every claim of its calls is a shared one.
\<close>

theorem batch_only_shares:
  assumes "plan_tool_batch M ctx calls pos tools exposed ceiling budget = stop" "pos < stop" "pos \<le> i" "i < stop"
    and "\<And>name tool. tools name = Some tool \<Longrightarrow> \<exists>b narrow b'. tool = bound_tool b narrow (core_tool C l (operations name) b')"
  shows "operations (call_name (calls ! i)) \<noteq> Some ''skill_load''
    \<and> (\<exists>k. derived_call tools exposed (calls ! i) = Some k \<and> list_all (\<lambda>c. rc_access c = Shared) (cc_claims k))"
proof -
  obtain ks where fit: "fits M tools exposed ceiling (bb_request_window budget) [] ctx (bb_request_tokens budget) (drop pos calls) ks"
    and e: "stop = (if length ks < 2 then pos else pos + length ks)"
    using plan_calls_longest[of M tools exposed ceiling "bb_request_window budget" "[]" ctx "bb_request_tokens budget" "drop pos calls"] assms(1)
    by (auto simp: plan_tool_batch_def Let_def)
  then have n: "2 \<le> length ks" "stop = pos + length ks" using assms(2) by (auto split: if_splits)
  have core: "\<exists>operation v. operations (call_name (calls ! (pos + j))) = Some operation \<and> core_call C operation v l = Some (ks ! j)
      \<and> derived_call tools exposed (calls ! (pos + j)) = Some (ks ! j)" if j: "j < length ks" for j
  proof -
    have d: "derived_call tools exposed (calls ! (pos + j)) = Some (ks ! j)" using fit j by (auto simp: fits_def)
    show ?thesis using bound_core_call[where operations = operations and C = C and l = l, OF d assms(5)] d by blast
  qed
  obtain m where m: "i = pos + m" "m < length ks" using assms(3,4) n(2) by (metis le_Suc_ex nat_add_left_cancel_less)
  obtain j where j: "j < length ks" "j \<noteq> m" using n(1) by (metis One_nat_def Suc_1 less_le_trans lessI zero_less_Suc zero_neq_one)
  obtain operation v where o: "operations (call_name (calls ! i)) = Some operation" "core_call C operation v l = Some (ks ! m)"
      "derived_call tools exposed (calls ! i) = Some (ks ! m)" using core[OF m(2)] m(1) by blast
  obtain operation' v' where o': "core_call C operation' v' l = Some (ks ! j)" using core[OF j(1)] by blast
  have "operation \<noteq> ''skill_load''"
    using fits_apart[OF fit j(1) m(2) j(2)] skill_load_conflicts[OF o(2) o'] skill_load_conflicts[OF o' o(2)] by blast
  then show ?thesis using core_call_claims[OF o(2)] o by (auto simp: shared_def)
qed

theorem batch_only_shares_witness:
  "plan_tool_batch sample_estimator () sample_reads 0 sample_tools None 4 \<lparr> bb_request_tokens = 0, bb_request_window = 10000 \<rparr> = 2
     \<and> list_all (\<lambda>c. call_name c \<noteq> ''skill_load'') (take 2 sample_reads)"
proof -
  have tools: "\<exists>b narrow b'. tool = bound_tool b narrow (core_tool
        \<lparr> read_file_read = (\<lambda>_. None), read_file_search = (\<lambda>_. True), read_skill_list = (\<lambda>_. None), read_skill_load = (\<lambda>_. True) \<rparr>
        \<lparr> read_bytes = 100, search_bytes = 100 \<rparr> (Some name) b')" if "sample_tools name = Some tool" for name tool
    using that by (auto simp: sample_tools_def)
  have "call_name (sample_reads ! i) \<noteq> ''skill_load''" if "i < 2" for i
    using batch_only_shares[OF sample_plan _ _ that tools] by fastforce
  from this[of 0] this[of 1] have "list_all (\<lambda>c. call_name c \<noteq> ''skill_load'') (take 2 sample_reads)" by (simp add: sample_reads_def)
  then show ?thesis using sample_plan by blast
qed

end
