(* ===== verification/Spec2Isabelle.thy ===== *)
theory Spec2Isabelle
  imports Approvals Completion_Props Graph_Props Journal_Props Lease_Props Protocol_Props Safety_Stop Scope_Egress Subnode_Props Tenancy Tool_Batch
begin

text \<open>
  A verification development of Aidash, a platform on which agents of several Tenants work in
  Deployments and on Nodes. The sources are Rust: the domain rules (crates/aidash-domain), the use
  cases over ports (crates/aidash-application), the agent harness (crates/aidash-harness) and the
  server that implements the ports on PostgreSQL (server/src/apps).

  \<^bold>\<open>The parts and how they interact.\<close> Every request is judged by the Tenant's policy (\<open>Policy\<close>). The
  policy itself is changed by Tenant administration and by the creation and deletion of Tenants. An
  agent works on a Task as a Run: a persistent state machine whose steps are executed by workers.
  A worker claims a Run with a lease, executes one step, journals its tool calls and saves the Run;
  a failed step goes through recovery. A Run may be paused, resumed and cancelled (Run control), an
  administrator may stop it (Safety Stop), and it may create Subnodes, whose authority is bounded by
  its own and whose work ends with it. Tool calls that need an approval are resolved by the rules of
  the people concerned (Approvals), and a final answer passes the Completion Gate; outbound traffic is bounded and metered (Egress). Changes that
  span Nodes of several Deployments are atomic transactions with a coordinator and participants.

  \<^bold>\<open>How it is modelled.\<close> Structs are records, enums are datatypes, \<open>Result\<close> is a sum with the error on
  the left, \<open>BTreeSet\<close> and \<open>BTreeMap\<close> are ascending lists, strings are lists of UTF-8 bytes, \<open>u32\<close>,
  \<open>u64\<close> and \<open>Uuid\<close> are words, and \<open>i32\<close> and \<open>i64\<close> columns are integers with the bounds written out
  where the code checks them. A clock reading is an argument. A database transaction is a function
  on the store that either fails, and then nothing is written, or returns the store it commits; SQL
  statements are modelled by what they select and write. Third-party code (JSON and its codecs, SHA-256,
  URL parsing, the text of UUIDs, entropy) and live answers of other systems are parameters, with the
  behaviour relied upon as named hypotheses; each property with such a hypothesis has a witness that
  instantiates the parameters.

  \<^bold>\<open>Shared theories.\<close>
  \<^item> \<open>Prelude\<close>: errors, results and loops, \<open>str\<close> operations, ordered collections, saturating and
    checked arithmetic, the interface \<open>textual\<close> of parse and print pairs, and \<open>invariant_system\<close>, which
    turns a preserved invariant into a property of every reachable state.
  \<^item> \<open>Json\<close>, \<open>Failures\<close>: the operations on JSON values, and the errors of the use cases.

  \<^bold>\<open>Components.\<close>
  \<^item> \<open>Policy\<close>, \<open>Policy_Spec\<close>, \<open>Policy_Props\<close>:
    crates/aidash-domain/src/policy.rs: bundles, validation, role expansion and evaluation along the
    delegation chain. \<open>Policy_Spec\<close> is the specification (reachable roles, applicable
    policies, permission of a subject), and evaluation refines it; \<open>Policy_Props\<close> states
    through the interface \<open>authorizer\<close> that delegation attenuates and that explicit
    actions must be named.
  \<^item> \<open>Tenancy_Base\<close>, \<open>Tenant_Administration\<close>, \<open>Tenancy\<close>:
    crates/aidash-domain/src/identity: names, creation limits and deletion of Tenants, the membership
    changes (interface \<open>membership_change\<close>, with four interpretations), the initial
    policy and the last-administrator check with its soundness.
  \<^item> \<open>Nodes\<close>: crates/aidash-domain/src/nodes.rs: Deployment ids, Node names and addresses
    with round trips, and Node deletion.
  \<^item> \<open>Transactions\<close>, \<open>Atomic_Store\<close>, \<open>Participation\<close>,
    \<open>Coordination\<close>, \<open>Protocol\<close>, \<open>Protocol_Props\<close>,
    \<open>Wire\<close>: crates/aidash-domain/src/transactions,
    crates/aidash-application/src/transactions and server/src/apps/federation/transactions: manifests
    and decisions, the durable records and the visibility gate, the handlers of a participant, the
    coordinator, and the whole system as a step relation over many Deployments with lost, delayed and
    repeated messages. Proved: atomic outcome, backed decisions, atomic visibility, one transaction at
    a time per Deployment, final decisions. \<open>Wire\<close> instantiates the parameters for
    witnesses.
  \<^item> \<open>Run_State\<close>: crates/aidash-domain/src/entities.rs and run\_state: statuses of Tasks,
    phases and states of Runs, suspension, and the capabilities a worker needs.
  \<^item> \<open>Run_Rows\<close>: crates/aidash-domain/src/run\_state.rs (\<open>encode\<close>,
    \<open>decode\<close>) and run\_state/row.rs: the JSON envelope of a Run and raw rows. Loading is
    inverse to saving, and only valid states that the stored requirement covers are loaded.
  \<^item> \<open>Worker_Leases\<close>, \<open>Activation\<close>, \<open>Obligations\<close>:
    server/src/apps/execution/models/run\_progress.rs, crates/aidash-application/src/activation.rs and
    server/src/apps/execution/activation: the worker fence and the writes under it, due times,
    recovery scans, claims and repairs, and the durable obligations with publication, reconciliation
    and failure deliveries.
  \<^item> \<open>Invocations\<close>: server/src/apps/execution/repositories/store.rs (tool invocations)
    with the dispatch of crates/aidash-harness/src/agent.rs: the journal that keeps an effect from
    being repeated; and the redaction of its research results (\<open>revoke_invocations\<close> and
    \<open>expire\<close> of server/src/apps/execution/models/research.rs).
  \<^item> \<open>Activation_Props\<close>, \<open>Execution\<close>, \<open>Journal_Props\<close>,
    \<open>Lease_Props\<close>: the execution of Runs as one step relation over claims, worker
    transactions, the journal, calls in flight, redactions and everybody else, with arbitrary
    transaction clocks. Proved for every interleaving: workers are fenced by their leases, an effect
    that is not safe to repeat happens at most once, a completed call is answered from its row, in
    which only research results are ever replaced, by tombstones. Of the scans: they claim only Runs
    that are due, pass over none, and give up a step that keeps stopping its worker.
  \<^item> \<open>Completion\<close>, \<open>Completion_Props\<close>:
    crates/aidash-domain/src/completion.rs, crates/aidash-harness/src/agent/completion.rs and
    crates/aidash-application/src/ports/execution/completion.rs: Completion Policies, Checks and their
    evidence, the deterministic decision and the gate that harvests, starts, repairs and reviews.
    Proved over every sequence of gate calls and answers: a Run passes only with its applicable Checks
    passed on exactly the mounted content, its progress is bounded, and passing Checks lead to a
    decision.
  \<^item> \<open>Tool_Batch\<close>: crates/aidash-domain/src/tool/concurrency.rs,
    crates/aidash-application/src/execution/batch.rs and \<open>execute_batch\<close> of
    crates/aidash-harness/src/agent.rs: which tool calls may run together, and how a batch is
    executed. Proved: the planned batch is the longest one whose calls do not conflict and fit the
    request, core reads in a batch only share, and results are adopted in call order or not at all.
  \<^item> \<open>Graph\<close>, \<open>Graph_Props\<close>: crates/aidash-domain/src/federation/graph.rs and
    crates/aidash-application/src/federation/graph.rs: the scoped graph a Node shows, one page at a
    time. Proved: a page passes the check of the peer that asked for it, and following the cursors
    shows every resource the viewer may see. What the server's scope promises of activities,
    generations and cursors is the contract of its port, a hypothesis.
  \<^item> \<open>Recovery\<close>: crates/aidash-harness/src/recovery.rs: what is written after a failed
    step: retries, waits, pauses and failures. Proved: retries between two saves are bounded, and a
    checkpoint inside the step starts their count again.
  \<^item> \<open>Run_Control\<close>, \<open>Safety_Stop\<close>:
    server/src/apps/execution/repositories/store.rs (\<open>control_in_as\<close>) with its cascade to
    Subnodes, and the Safety Stop with receipts and audit rows.
  \<^item> \<open>Subnode_Rules\<close>, \<open>Subnodes\<close>, \<open>Subnode_Props\<close>:
    crates/aidash-domain/src/subnodes.rs, crates/aidash-application/src/subnodes.rs and their tables:
    authority, membership and limits; reachable tables are well formed, authority narrows, and nothing
    is admitted after the end.
  \<^item> \<open>Approvals\<close>: crates/aidash-domain/src/approval\_rules.rs: rules, modes and ceilings,
    the resolution of an approval, and the counts that suspend the Auto mode.
  \<^item> \<open>Egress\<close>, \<open>Scope_Egress\<close>: crates/aidash-domain/src/egress.rs and
    server/src/apps/execution/repositories/scope\_egress.rs: hosts, budgets and debits, the durable
    counters, the connection rate, and the meter over two ledgers, which charges each exactly once
    (interface \<open>meter_side\<close>).

  \<^bold>\<open>Bounds and fuel.\<close> No definition takes fuel: loops are recursions on lists, or \<open>function\<close>s with a
  termination proof (role expansion by the roles not yet finished, the check of delegation chains, the rounds of the Completion Gate by the position of the Check to start,
  the projection of a page by the kinds and the scan limit left);
  the evaluation along a delegation chain is a partial function into \<open>option\<close> that is proved to return. Bounds of the code are constants
  under their own names (sixteen recent degraded steps, five retries, three lease recoveries, twenty
  members and ten Subnodes per Run, 128 rows per recovery batch, and so on).

  \<^bold>\<open>Not modelled.\<close> HTTP views, serializers, the ORM, migrations with their triggers, row-level
  security and the start-up code are I/O and glue. Of the agent's step (crates/aidash-harness/src/
  agent.rs) only the recovery of failures and the tool-call parts named above are modelled: prompts,
  model responses, context projection and media are not. The integrations (egress proxy, inference
  providers, OAuth, MCP), the knowledge and memory services, the registry and marketplace, research,
  previews, the desktop application and the enterprise extensions are left out; the manifest lists
  them with the reason.
\<close>

end
